(* ===== verification/Vg_Prelude.thy ===== *)
theory Vg_Prelude
  imports Main "HOL-Library.Word" "HOL-Library.Multiset"
begin

text \<open>
  Shared vocabulary of the development: the type synonyms that name Go's machine types, the
  collections of rewrite and introduction rules the component theories use, and generic lemmas on
  lists, options and finite maps.
\<close>

section \<open>Names for Go's types\<close>

type_synonym u8 = "8 word"
type_synonym u16 = "16 word"
type_synonym u32 = "32 word"
type_synonym u64 = "64 word"

text \<open>A view of the server and most configuration keys are Go strings.\<close>

type_synonym view = string

text \<open>A function that may panic returns \<open>None\<close> for the panic.\<close>

type_synonym 'a may_panic = "'a option"

section \<open>Collections\<close>

named_theorems go_list_simps \<open>rewrite rules of the container list model\<close>
named_theorems invar_intros \<open>preservation of component invariants\<close>
named_theorems cal_simps \<open>calendar arithmetic\<close>
named_theorems wire_defs \<open>definitions unfolded when a closed term is evaluated\<close>

section \<open>Error results\<close>

text \<open>
  A Go function that returns a value and an error is a function into \<open>'e + 'a\<close>; \<open>bindE\<close> is the early
  return \<^verbatim>\<open>if err != nil { return nil, err }\<close>.
\<close>

fun bindE :: "'e + 'a \<Rightarrow> ('a \<Rightarrow> 'e + 'b) \<Rightarrow> 'e + 'b" where
  "bindE (Inl e) f = Inl e"
| "bindE (Inr x) f = f x"

lemma bindE_Inr_iff: "bindE m f = Inr y \<longleftrightarrow> (\<exists>x. m = Inr x \<and> f x = Inr y)"
  by (cases m) auto

text \<open>A loop that converts every element and returns at the first error.\<close>

fun mapE :: "('a \<Rightarrow> 'e + 'b) \<Rightarrow> 'a list \<Rightarrow> 'e + 'b list" where
  "mapE f [] = Inr []"
| "mapE f (x # xs) = bindE (f x) (\<lambda>y. bindE (mapE f xs) (\<lambda>ys. Inr (y # ys)))"

lemma mapE_Inr_iff: "mapE f xs = Inr ys \<longleftrightarrow> list_all2 (\<lambda>x y. f x = Inr y) xs ys"
proof (induction xs arbitrary: ys)
  case Nil
  show ?case by (cases ys) auto
next
  case (Cons x xs)
  then show ?case by (cases ys) (auto simp: bindE_Inr_iff)
qed

section \<open>Options and maps\<close>

lemma option_bind_Some_iff: "Option.bind m f = Some y \<longleftrightarrow> (\<exists>x. m = Some x \<and> f x = Some y)"
  by (cases m) auto

text \<open>A loop over a list whose body may panic.\<close>

fun mapM :: "('a \<Rightarrow> 'b option) \<Rightarrow> 'a list \<Rightarrow> 'b list option" where
  "mapM f [] = Some []"
| "mapM f (x # xs) = Option.bind (f x) (\<lambda>y. map_option ((#) y) (mapM f xs))"

lemma mapM_Some: "mapM f xs = Some ys \<longleftrightarrow> list_all2 (\<lambda>x y. f x = Some y) xs ys"
proof (induction xs arbitrary: ys)
  case (Cons x xs)
  then show ?case by (cases ys) (auto simp: option_bind_Some_iff)
qed auto

lemma mapM_all: "(\<And>x. x \<in> set xs \<Longrightarrow> f x = Some (g x)) \<Longrightarrow> mapM f xs = Some (map g xs)"
  by (induction xs) auto

lemma ran_upd_subset: "ran (m(k \<mapsto> v)) \<subseteq> insert v (ran m)"
  by (auto simp: ran_def)

lemma ran_del_subset: "ran (m(k := None)) \<subseteq> ran m"
  by (auto simp: ran_def)

section \<open>Lists\<close>

text \<open>
  The loop \<^verbatim>\<open>for i, x := range xs { if P(x) { xs = append(xs[:i], xs[i+1:]...); break } }\<close>
  removes the first element that satisfies \<open>P\<close>.
\<close>

fun remove_first :: "('a \<Rightarrow> bool) \<Rightarrow> 'a list \<Rightarrow> 'a list" where
  "remove_first P [] = []"
| "remove_first P (x # xs) = (if P x then xs else x # remove_first P xs)"

lemma set_remove_first: "set (remove_first P xs) \<subseteq> set xs"
  by (induction xs) auto

lemma distinct_remove_first: "distinct xs \<Longrightarrow> distinct (remove_first P xs)"
  using set_remove_first by (induction xs) fastforce+

lemma remove_first_eq: "remove_first ((=) a) xs = remove1 a xs"
  by (induction xs) auto

lemma remove_first_id: "(\<And>x. x \<in> set xs \<Longrightarrow> \<not> P x) \<Longrightarrow> remove_first P xs = xs"
  by (induction xs) auto

lemma set_remove_first_unique:
  assumes "distinct xs" and "\<And>x. x \<in> set xs \<Longrightarrow> P x \<longleftrightarrow> x = a"
  shows "set (remove_first P xs) = set xs - {a}"
  using assms
proof (induction xs)
  case (Cons x xs)
  then show ?case
  proof (cases "x = a")
    case True
    with Cons show ?thesis by auto
  next
    case False
    with Cons show ?thesis by auto
  qed
qed simp

text \<open>
  The loop \<^verbatim>\<open>for _, x := range xs { if P(x) { return x } }\<close> is the library's \<open>find\<close>; the loop that
  returns a boolean is \<open>list_ex\<close>.
\<close>

lemma find_Some_iff_first:
  "find P xs = Some x \<longleftrightarrow> (\<exists>ys zs. xs = ys @ x # zs \<and> P x \<and> (\<forall>y \<in> set ys. \<not> P y))"
proof
  assume "find P xs = Some x"
  then show "\<exists>ys zs. xs = ys @ x # zs \<and> P x \<and> (\<forall>y \<in> set ys. \<not> P y)"
  proof (induction xs)
    case (Cons a xs)
    show ?case
    proof (cases "P a")
      case True
      with Cons.prems have "a # xs = [] @ x # xs \<and> P x" by simp
      then show ?thesis by fastforce
    next
      case False
      with Cons obtain ys zs where "xs = ys @ x # zs" "P x" "\<forall>y \<in> set ys. \<not> P y"
        by auto
      with False have "a # xs = (a # ys) @ x # zs \<and> P x \<and> (\<forall>y \<in> set (a # ys). \<not> P y)"
        by simp
      then show ?thesis by blast
    qed
  qed simp
next
  assume "\<exists>ys zs. xs = ys @ x # zs \<and> P x \<and> (\<forall>y \<in> set ys. \<not> P y)"
  then obtain ys zs where "xs = ys @ x # zs" "P x" "\<forall>y \<in> set ys. \<not> P y" by blast
  then show "find P xs = Some x"
    by (induction ys arbitrary: xs) auto
qed

end
