(* ===== verification/Go_Std.thy ===== *)
theory Go_Std
  imports Vg_Prelude
begin

text \<open>
  The parts of Go's standard library that the modelled code calls: \<open>strings.Split\<close>,
  \<open>strings.ToLower\<close>, \<open>strconv.Atoi\<close>, \<open>net.IP.To4\<close> and \<open>To16\<close>, \<open>sort.Sort\<close> (as a contract),
  and the 64-bit \<open>time.Duration\<close>. Go strings are byte strings, so \<open>string\<close> is their model.
\<close>

section \<open>Strings\<close>

text \<open>\<open>strings.Split(s, sep)\<close> for a separator of one byte: never empty, keeps empty fields.\<close>

fun split_char :: "char \<Rightarrow> string \<Rightarrow> string list" where
  "split_char c [] = [[]]"
| "split_char c (x # xs) =
     (if x = c then [] # split_char c xs
      else (case split_char c xs of
              [] \<Rightarrow> [[x]]
            | f # fs \<Rightarrow> (x # f) # fs))"

lemma split_char_nonempty [simp]: "split_char c s \<noteq> []"
  by (induction s) (auto split: list.splits)

lemma split_char_no_sep: "c \<notin> set s \<Longrightarrow> split_char c s = [s]"
  by (induction s) auto

lemma split_char_append: "c \<notin> set a \<Longrightarrow> split_char c (a @ c # b) = a # split_char c b"
  by (induction a) auto

lemma length_split_char: "length (split_char c s) = Suc (count_list s c)"
  by (induction s) (auto split: list.splits)

text \<open>\<open>strings.ToLower\<close> on ASCII: only \<open>A\<close> to \<open>Z\<close> change.\<close>

text \<open>\<open>strings.Join\<close>.\<close>

fun strings_Join :: "string list \<Rightarrow> string \<Rightarrow> string" where
  "strings_Join [] sep = []"
| "strings_Join [s] sep = s"
| "strings_Join (s # ss) sep = s @ sep @ strings_Join ss sep"

definition lower_char :: "char \<Rightarrow> char" where
  "lower_char c = (let n = of_char c :: nat in if 65 \<le> n \<and> n \<le> 90 then char_of (n + 32) else c)"

definition ToLower :: "string \<Rightarrow> string" where
  "ToLower s = map lower_char s"

lemma lower_char_idem [simp]: "lower_char (lower_char c) = lower_char c"
  by (auto simp: lower_char_def Let_def of_char_of take_bit_eq_mod split: if_splits)

lemma ToLower_idem [simp]: "ToLower (ToLower s) = ToLower s"
  by (simp add: ToLower_def comp_def)

section \<open>strconv.Atoi\<close>

definition is_digit :: "char \<Rightarrow> bool" where
  "is_digit c \<longleftrightarrow> 48 \<le> (of_char c :: nat) \<and> (of_char c :: nat) \<le> 57"

definition digit_val :: "char \<Rightarrow> int" where
  "digit_val c = of_char c - 48"

fun digits_val :: "int \<Rightarrow> string \<Rightarrow> int option" where
  "digits_val acc [] = Some acc"
| "digits_val acc (c # cs) = (if is_digit c then digits_val (acc * 10 + digit_val c) cs else None)"

text \<open>An \<open>int\<close> of the 64-bit platforms: a value out of range is a range error.\<close>

definition int_range :: "int \<Rightarrow> bool" where
  "int_range n \<longleftrightarrow> - (2 ^ 63) \<le> n \<and> n < 2 ^ 63"

definition in_range :: "int option \<Rightarrow> int option" where
  "in_range r = (case r of Some n \<Rightarrow> if int_range n then Some n else None | None \<Rightarrow> None)"

definition unsigned_val :: "string \<Rightarrow> int option" where
  "unsigned_val ds = (if ds = [] then None else digits_val 0 ds)"

fun Atoi :: "string \<Rightarrow> int option" where
  "Atoi [] = None"
| "Atoi (c # cs) =
     (if c = CHR ''-'' then in_range (map_option uminus (unsigned_val cs))
      else if c = CHR ''+'' then in_range (unsigned_val cs)
      else in_range (unsigned_val (c # cs)))"

lemma Atoi_range: "Atoi s = Some n \<Longrightarrow> int_range n"
  by (cases s) (auto simp: in_range_def split: if_splits option.splits)

section \<open>IP addresses\<close>

text \<open>\<open>net.IP\<close> is a byte slice; \<open>nil\<close> is the empty list, for both have length zero.\<close>

type_synonym ip = "u8 list"

definition v4InV6Prefix :: "u8 list" where
  "v4InV6Prefix = replicate 10 0 @ [255, 255]"

text \<open>\<open>To4\<close> returns \<open>nil\<close>, here \<open>None\<close>, for what is not an IPv4 address.\<close>

definition To4 :: "ip \<Rightarrow> ip option" where
  "To4 a = (if length a = 4 then Some a
            else if length a = 16 \<and> take 12 a = v4InV6Prefix then Some (drop 12 a)
            else None)"

definition To16 :: "ip \<Rightarrow> ip option" where
  "To16 a = (if length a = 4 then Some (v4InV6Prefix @ a)
             else if length a = 16 then Some a
             else None)"

lemma length_v4InV6Prefix [simp]: "length v4InV6Prefix = 12"
  by (simp add: v4InV6Prefix_def)

lemma To4_length: "To4 a = Some b \<Longrightarrow> length b = 4"
  by (auto simp: To4_def split: if_splits)

lemma To16_length: "To16 a = Some b \<Longrightarrow> length b = 16"
  by (auto simp: To16_def split: if_splits)

lemma To4_To16: "To4 a = Some b \<Longrightarrow> To16 a = Some (v4InV6Prefix @ b)"
  by (auto simp: To4_def To16_def split: if_splits)
     (metis append_take_drop_id)

lemma To16_None_iff: "To16 a = None \<longleftrightarrow> length a \<noteq> 4 \<and> length a \<noteq> 16"
  by (auto simp: To16_def)

section \<open>sort.Sort\<close>

text \<open>
  \<open>sort.Sort\<close> is not stable: its contract is only that the result is an ordered permutation. The
  components that sort take the sorting function as a parameter with this contract.
\<close>

definition sort_contract :: "(('a \<Rightarrow> int) \<Rightarrow> 'a list \<Rightarrow> 'a list) \<Rightarrow> bool" where
  "sort_contract srt \<longleftrightarrow>
     (\<forall>k xs. mset (srt k xs) = mset xs \<and> sorted (map k (srt k xs)))"

lemma sort_contract_insort: "sort_contract (\<lambda>k. sort_key k)"
  by (simp add: sort_contract_def)

lemma sort_contractD:
  assumes "sort_contract srt"
  shows "mset (srt k xs) = mset xs" and "sorted (map k (srt k xs))"
    and "set (srt k xs) = set xs" and "length (srt k xs) = length xs"
proof -
  from assms show m: "mset (srt k xs) = mset xs" by (simp add: sort_contract_def)
  from assms show "sorted (map k (srt k xs))" by (simp add: sort_contract_def)
  from m show "set (srt k xs) = set xs" by (rule mset_eq_setD)
  from m show "length (srt k xs) = length xs" by (rule mset_eq_length)
qed

text \<open>\<open>sort.Search\<close>: the binary search for the first index where a predicate holds.\<close>

function search_loop :: "(nat \<Rightarrow> bool) \<Rightarrow> nat \<Rightarrow> nat \<Rightarrow> nat" where
  "search_loop f i j =
     (if i < j then (let h = (i + j) div 2 in if \<not> f h then search_loop f (h + 1) j else search_loop f i h) else i)"
  by pat_completeness auto
termination by (relation "measure (\<lambda>(f, i, j). j - i)") auto

declare search_loop.simps [simp del]

definition sort_Search :: "nat \<Rightarrow> (nat \<Rightarrow> bool) \<Rightarrow> nat" where
  "sort_Search n f = search_loop f 0 n"

lemma search_loop_spec:
  assumes "\<And>a b. a \<le> b \<Longrightarrow> f a \<Longrightarrow> b < n \<Longrightarrow> f b"
    and "i \<le> j" "j \<le> n" "\<forall>k < i. \<not> f k" "j < n \<Longrightarrow> f j"
  shows "search_loop f i j \<le> n \<and> (\<forall>k < search_loop f i j. \<not> f k) \<and> (search_loop f i j < n \<longrightarrow> f (search_loop f i j))"
  using assms
proof (induction f i j rule: search_loop.induct)
  case (1 f i j)
  let ?h = "(i + j) div 2"
  show ?case
  proof (cases "i < j")
    case True
    then have h: "i \<le> ?h" "?h < j" by simp_all
    show ?thesis
    proof (cases "f ?h")
      case False
      have "\<forall>k < ?h + 1. \<not> f k"
      proof (intro allI impI)
        fix k assume "k < ?h + 1"
        then show "\<not> f k" using "1.prems"(1) [of k ?h] False h "1.prems"(3) by auto
      qed
      then show ?thesis
        using "1.IH"(1) [OF True refl False "1.prems"(1) _ "1.prems"(3) _ "1.prems"(5)] h True False
        by (simp add: search_loop.simps [of f i j] Let_def)
    next
      case T: True
      then show ?thesis
        using "1.IH"(2) [OF True refl _ "1.prems"(1) h(1) _ "1.prems"(4)] h True "1.prems"(3)
        by (simp add: search_loop.simps [of f i j] Let_def)
    qed
  next
    case False
    then have "search_loop f i j = i" by (simp add: search_loop.simps)
    then show ?thesis using "1.prems" False by simp
  qed
qed

lemma sort_Search_spec:
  assumes "\<And>a b. a \<le> b \<Longrightarrow> f a \<Longrightarrow> b < n \<Longrightarrow> f b"
  shows "sort_Search n f \<le> n" and "k < sort_Search n f \<Longrightarrow> \<not> f k" and "sort_Search n f < n \<Longrightarrow> f (sort_Search n f)"
  using search_loop_spec [of f n 0 n, OF assms] by (auto simp: sort_Search_def)

section \<open>Durations and instants\<close>

text \<open>
  An instant (\<open>time.Time\<close>) is the number of nanoseconds since January 1 of year 1, UTC, which makes
  Go's zero time the number 0. \<open>Sub\<close> saturates at the bounds of the 64-bit \<open>time.Duration\<close>.
\<close>

type_synonym instant = int
type_synonym duration = int

definition Second :: duration where "Second = 1000000000"

definition maxDuration :: duration where "maxDuration = 2 ^ 63 - 1"
definition minDuration :: duration where "minDuration = - (2 ^ 63)"

definition time_Sub :: "instant \<Rightarrow> instant \<Rightarrow> duration" where
  "time_Sub t u = max minDuration (min maxDuration (t - u))"

definition time_IsZero :: "instant \<Rightarrow> bool" where
  "time_IsZero t \<longleftrightarrow> t = 0"

lemma time_Sub_gt_Second: "time_Sub t u > Second \<longleftrightarrow> t - u > Second"
  by (auto simp: time_Sub_def Second_def maxDuration_def minDuration_def)

end
