(* ===== verification/Cement.thy ===== *)
theory Cement
  imports Go_Std
begin

text \<open>
  The interfaces of the \<open>cement\<close> packages the program calls: the radix tree of networks
  (\<open>netradix\<close>), the tree of domain names (\<open>domaintree\<close>) and the slice search (\<open>slice\<close>). Their code
  is not part of the repository, so each package is a record of operations that the definitions take
  as an argument. What the program relies on is stated as predicates on such a record
  (\<open>netradix_laws\<close> and \<open>slice_laws\<close> here, \<open>domaintree_laws\<close> where names are compared); the reference records of the
  theory, built on association lists, satisfy them.
\<close>

section \<open>Radix tree of networks\<close>

record ('t, 'v) netradix =
  NewNetRadixTree :: 't
  nr_Add :: "'t \<Rightarrow> string \<Rightarrow> 'v \<Rightarrow> string + 't"
  nr_Delete :: "'t \<Rightarrow> string \<Rightarrow> string + 't"
  nr_SearchBest :: "'t \<Rightarrow> ip \<Rightarrow> 'v option"

text \<open>
  \<open>covers net a\<close> says that the network written \<open>net\<close> contains the address \<open>a\<close>. A search in a tree
  finds a value exactly when some added network contains the address.
\<close>

definition netradix_laws :: "(string \<Rightarrow> ip \<Rightarrow> bool) \<Rightarrow> ('t, 'v) netradix \<Rightarrow> bool" where
  "netradix_laws covers N \<longleftrightarrow>
     (\<forall>a. nr_SearchBest N (NewNetRadixTree N) a = None) \<and>
     (\<forall>t net v t' a. nr_Add N t net v = Inr t' \<longrightarrow>
        (nr_SearchBest N t' a = None \<longleftrightarrow> nr_SearchBest N t a = None \<and> \<not> covers net a))"

lemma netradix_New: "netradix_laws covers N \<Longrightarrow> nr_SearchBest N (NewNetRadixTree N) a = None"
  by (simp add: netradix_laws_def)

lemma netradix_Add:
  "netradix_laws covers N \<Longrightarrow> nr_Add N t net v = Inr t' \<Longrightarrow>
   nr_SearchBest N t' a = None \<longleftrightarrow> nr_SearchBest N t a = None \<and> \<not> covers net a"
  unfolding netradix_laws_def by blast

text \<open>
  A reference instance: a network is written as the leading bytes of its addresses, a tree is the
  list of its networks with the latest first, and the text \<open>''x''\<close> is not a network.
\<close>

definition byte_covers :: "string \<Rightarrow> ip \<Rightarrow> bool" where
  "byte_covers net a \<longleftrightarrow> take (length net) a = map (\<lambda>c. of_nat (of_char c)) net"

definition list_netradix :: "((string \<times> 'v) list, 'v) netradix" where
  "list_netradix = \<lparr>
     NewNetRadixTree = [],
     nr_Add = (\<lambda>t net v. if net = ''x'' then Inl ''bad network'' else Inr ((net, v) # t)),
     nr_Delete = (\<lambda>t net. if net \<in> set (map fst t) then Inr (filter (\<lambda>p. fst p \<noteq> net) t) else Inl ''not found''),
     nr_SearchBest = (\<lambda>t a. map_option snd (find (\<lambda>p. byte_covers (fst p) a) t))\<rparr>"

lemma list_netradix_laws: "netradix_laws byte_covers list_netradix"
  by (auto simp: netradix_laws_def list_netradix_def find_None_iff)

section \<open>Tree of domain names\<close>

datatype SearchResult = ExactMatch | ClosestEncloser | NotFound

text \<open>
  \<open>dt_SearchParents\<close> returns the data of the nodes on the path to the name searched, the closest
  first, which is the order the program pops them from the returned stack; a node between two names
  has no data.
\<close>

record ('t, 'n, 'v) domaintree =
  NewDomainTree :: 't
  dt_Insert :: "'t \<Rightarrow> 'n \<Rightarrow> 'v \<Rightarrow> string + 't"
  dt_Delete :: "'t \<Rightarrow> 'n \<Rightarrow> 't"
  dt_Search :: "'t \<Rightarrow> 'n \<Rightarrow> 'v option \<times> SearchResult"
  dt_SearchParents :: "'t \<Rightarrow> 'n \<Rightarrow> 'v option list \<times> SearchResult"

section \<open>Slices\<close>

definition slice_laws :: "(string list \<Rightarrow> string \<Rightarrow> int) \<Rightarrow> bool" where
  "slice_laws SliceIndex \<longleftrightarrow> (\<forall>xs x. SliceIndex xs x = -1 \<longleftrightarrow> x \<notin> set xs)"

fun list_SliceIndex :: "string list \<Rightarrow> string \<Rightarrow> int" where
  "list_SliceIndex [] x = -1"
| "list_SliceIndex (y # ys) x =
     (if x = y then 0 else let i = list_SliceIndex ys x in if i = -1 then -1 else i + 1)"

lemma list_SliceIndex_bound: "list_SliceIndex xs x \<ge> -1"
  by (induction xs) (auto simp: Let_def)

lemma list_SliceIndex_laws: "slice_laws list_SliceIndex"
proof -
  have "list_SliceIndex xs x = -1 \<longleftrightarrow> x \<notin> set xs" for xs x
  proof (induction xs)
    case (Cons y ys)
    then show ?case using list_SliceIndex_bound [of ys x] by (auto simp: Let_def)
  qed simp
  then show ?thesis by (simp add: slice_laws_def)
qed

end
