(* ===== verification/Dns.thy ===== *)
theory Dns
  imports Go_Std Cement
begin

text \<open>
  The DNS data the program handles and the interface of the \<open>g53\<close> library. The record and datatype
  fields are the ones of \<open>g53\<close> the program reads or writes. The functions of the library are not part
  of the repository: they are the fields of the records grouped in \<open>g53\<close>, over an abstract type of domain names,
  and the definitions that use them take such a value as an argument. What the program relies on is
  stated by \<open>name_laws\<close>, \<open>flag_laws\<close> and \<open>message_laws\<close>; the reference library \<open>ref_g53\<close>, whose
  names are the lists of their labels, satisfies them.
\<close>

section \<open>Codes\<close>

definition RR_A :: u16 where "RR_A = 1"
definition RR_NS :: u16 where "RR_NS = 2"
definition RR_CNAME :: u16 where "RR_CNAME = 5"
definition RR_SOA :: u16 where "RR_SOA = 6"
definition RR_PTR :: u16 where "RR_PTR = 12"
definition RR_MX :: u16 where "RR_MX = 15"
definition RR_TXT :: u16 where "RR_TXT = 16"
definition RR_AAAA :: u16 where "RR_AAAA = 28"
definition RR_SRV :: u16 where "RR_SRV = 33"
definition RR_NAPTR :: u16 where "RR_NAPTR = 35"
definition RR_DNAME :: u16 where "RR_DNAME = 39"
definition RR_OPT :: u16 where "RR_OPT = 41"
definition RR_SPF :: u16 where "RR_SPF = 99"
definition RR_IXFR :: u16 where "RR_IXFR = 251"
definition RR_AXFR :: u16 where "RR_AXFR = 252"
definition RR_ANY :: u16 where "RR_ANY = 255"

lemmas rr_types = RR_A_def RR_NS_def RR_CNAME_def RR_SOA_def RR_PTR_def RR_MX_def RR_TXT_def
  RR_AAAA_def RR_SRV_def RR_NAPTR_def RR_DNAME_def RR_OPT_def RR_SPF_def RR_IXFR_def RR_AXFR_def RR_ANY_def

text \<open>The types the program serves, \<open>resolver/auth/zone/zone.go\<close>.\<close>

definition SupportRRTypes :: "u16 list" where
  "SupportRRTypes = [RR_SOA, RR_NS, RR_A, RR_AAAA, RR_MX, RR_SRV, RR_SPF, RR_PTR, RR_TXT, RR_CNAME,
     RR_NAPTR, RR_OPT, RR_DNAME]"

definition IsRRsetTypeSupport :: "u16 \<Rightarrow> bool" where
  "IsRRsetTypeSupport typ \<longleftrightarrow> (\<exists>t\<in>set SupportRRTypes. typ = t)"

definition CLASS_IN :: u16 where "CLASS_IN = 1"
definition CLASS_NONE :: u16 where "CLASS_NONE = 254"
definition CLASS_ANY :: u16 where "CLASS_ANY = 255"

lemmas rr_classes = CLASS_IN_def CLASS_NONE_def CLASS_ANY_def

datatype Rcode =
  R_NOERROR | R_FORMERR | R_SERVFAIL | R_NXDOMAIN | R_NOTIMP | R_REFUSED | R_NOTAUTH | R_BADSIG | R_BADKEY

datatype Opcode = OP_QUERY | OP_NOTIFY | OP_UPDATE | OP_OTHER u8

datatype FlagField = FLAG_QR | FLAG_AA | FLAG_TC | FLAG_RD | FLAG_RA | FLAG_CD

datatype SectionType = AnswerSection | AuthSection | AdditionalSection

section \<open>Resource records and messages\<close>

datatype 'n Rdata =
    RdA ip
  | RdAAAA ip
  | RdNS 'n
  | RdCName 'n
  | RdPTR 'n
  | RdMX u16 'n
  | RdSRV u16 u16 u16 'n
  | RdSOA 'n u32 u32
  | RdOther string

text \<open>The two numbers of an SOA record are its serial number and its minimum TTL.\<close>

record 'n RRset =
  rr_Name :: 'n
  rr_Type :: u16
  rr_Class :: u16
  rr_Ttl :: u32
  rr_Rdatas :: "'n Rdata list"

record 'n Question =
  q_Name :: 'n
  q_Type :: u16
  q_Class :: u16

record Header =
  h_Id :: u16
  h_Opcode :: Opcode
  h_Rcode :: Rcode
  h_Flags :: u16
  h_ANCount :: u16
  h_NSCount :: u16
  h_ARCount :: u16

text \<open>The signature of a message: the name of the key, the algorithm, the code and the error.\<close>

record 'n TSIG =
  ts_Name :: 'n
  ts_Algorithm :: string
  ts_MAC :: "u8 list"
  ts_Error :: u16

record 'n Message =
  m_Header :: Header
  m_Question :: "'n Question option"
  m_Answer :: "'n RRset list"
  m_Auth :: "'n RRset list"
  m_Additional :: "'n RRset list"
  m_Tsig :: "'n TSIG option"

fun msg_section :: "SectionType \<Rightarrow> 'n Message \<Rightarrow> 'n RRset list" where
  "msg_section AnswerSection m = m_Answer m"
| "msg_section AuthSection m = m_Auth m"
| "msg_section AdditionalSection m = m_Additional m"

fun msg_set_section :: "SectionType \<Rightarrow> 'n RRset list \<Rightarrow> 'n Message \<Rightarrow> 'n Message" where
  "msg_set_section AnswerSection rs m = m\<lparr>m_Answer := rs\<rparr>"
| "msg_set_section AuthSection rs m = m\<lparr>m_Auth := rs\<rparr>"
| "msg_set_section AdditionalSection rs m = m\<lparr>m_Additional := rs\<rparr>"

section \<open>The library\<close>

record 'n name_lib =
  f_NameFromString :: "string \<Rightarrow> string + 'n"
  f_Name_String :: "'n \<Rightarrow> string"
  f_Name_Hash :: "'n \<Rightarrow> u32"
  f_Name_Equals :: "'n \<Rightarrow> 'n \<Rightarrow> bool"
  f_Name_IsSubDomain :: "'n \<Rightarrow> 'n \<Rightarrow> bool"
  f_Name_IsWildCard :: "'n \<Rightarrow> bool"
  f_Name_Parent :: "'n \<Rightarrow> 'n"
  f_Name_Root :: "'n"

record 'n text_lib =
  f_TypeFromString :: "string \<Rightarrow> string + u16"
  f_Type_String :: "u16 \<Rightarrow> string"
  f_Class_String :: "u16 \<Rightarrow> string"
  f_Rdata_String :: "'n Rdata \<Rightarrow> string"
  f_Rdata_Compare :: "'n Rdata \<Rightarrow> 'n Rdata \<Rightarrow> int"

record 'n message_lib =
  f_Header_SetFlag :: "FlagField \<Rightarrow> bool \<Rightarrow> Header \<Rightarrow> Header"
  f_Header_GetFlag :: "Header \<Rightarrow> FlagField \<Rightarrow> bool"
  f_Message_MakeResponse :: "'n Message \<Rightarrow> 'n Message"
  f_Message_ClearSection :: "SectionType \<Rightarrow> 'n Message \<Rightarrow> 'n Message"
  f_Message_AddRRset :: "SectionType \<Rightarrow> 'n RRset \<Rightarrow> 'n Message \<Rightarrow> 'n Message"
  f_Message_RecalculateSectionRRCount :: "'n Message \<Rightarrow> 'n Message"
  f_RRset_RotateRdata :: "'n RRset \<Rightarrow> 'n RRset"
  f_MakeQuery :: "'n \<Rightarrow> u16 \<Rightarrow> 'n Message"

record 'n g53 =
  g_names :: "'n name_lib"
  g_texts :: "'n text_lib"
  g_messages :: "'n message_lib"

abbreviation "NameFromString G \<equiv> f_NameFromString (g_names G)"
abbreviation "Name_String G \<equiv> f_Name_String (g_names G)"
abbreviation "Name_Hash G \<equiv> f_Name_Hash (g_names G)"
abbreviation "Name_Equals G \<equiv> f_Name_Equals (g_names G)"
abbreviation "Name_IsSubDomain G \<equiv> f_Name_IsSubDomain (g_names G)"
abbreviation "Name_IsWildCard G \<equiv> f_Name_IsWildCard (g_names G)"
abbreviation "Name_Parent G \<equiv> f_Name_Parent (g_names G)"
abbreviation "Name_Root G \<equiv> f_Name_Root (g_names G)"
abbreviation "TypeFromString G \<equiv> f_TypeFromString (g_texts G)"
abbreviation "Type_String G \<equiv> f_Type_String (g_texts G)"
abbreviation "Class_String G \<equiv> f_Class_String (g_texts G)"
abbreviation "Rdata_String G \<equiv> f_Rdata_String (g_texts G)"
abbreviation "Rdata_Compare G \<equiv> f_Rdata_Compare (g_texts G)"
abbreviation "Header_SetFlag G \<equiv> f_Header_SetFlag (g_messages G)"
abbreviation "Header_GetFlag G \<equiv> f_Header_GetFlag (g_messages G)"
abbreviation "Message_MakeResponse G \<equiv> f_Message_MakeResponse (g_messages G)"
abbreviation "Message_ClearSection G \<equiv> f_Message_ClearSection (g_messages G)"
abbreviation "Message_AddRRset G \<equiv> f_Message_AddRRset (g_messages G)"
abbreviation "Message_RecalculateSectionRRCount G \<equiv> f_Message_RecalculateSectionRRCount (g_messages G)"
abbreviation "RRset_RotateRdata G \<equiv> f_RRset_RotateRdata (g_messages G)"
abbreviation "MakeQuery G \<equiv> f_MakeQuery (g_messages G)"

text \<open>Names: \<open>Equals\<close> is an equivalence that the hash respects.\<close>

definition name_laws :: "'n g53 \<Rightarrow> bool" where
  "name_laws G \<longleftrightarrow>
     (\<forall>a. Name_Equals G a a) \<and>
     (\<forall>a b. Name_Equals G a b \<longrightarrow> Name_Equals G b a) \<and>
     (\<forall>a b c. Name_Equals G a b \<longrightarrow> Name_Equals G b c \<longrightarrow> Name_Equals G a c) \<and>
     (\<forall>a b. Name_Equals G a b \<longrightarrow> Name_Hash G a = Name_Hash G b)"

lemma Name_Equals_refl: "name_laws G \<Longrightarrow> Name_Equals G a a"
  by (simp add: name_laws_def)

lemma Name_Equals_sym: "name_laws G \<Longrightarrow> Name_Equals G a b \<Longrightarrow> Name_Equals G b a"
  unfolding name_laws_def by blast

lemma Name_Equals_trans: "name_laws G \<Longrightarrow> Name_Equals G a b \<Longrightarrow> Name_Equals G b c \<Longrightarrow> Name_Equals G a c"
  unfolding name_laws_def by blast

lemma Name_Hash_Equals: "name_laws G \<Longrightarrow> Name_Equals G a b \<Longrightarrow> Name_Hash G a = Name_Hash G b"
  unfolding name_laws_def by blast

text \<open>Header flags are independent bits next to the other fields.\<close>

definition flag_laws :: "'n g53 \<Rightarrow> bool" where
  "flag_laws G \<longleftrightarrow>
     (\<forall>h f b g. Header_GetFlag G (Header_SetFlag G f b h) g = (if g = f then b else Header_GetFlag G h g)) \<and>
     (\<forall>h f b. \<exists>fl. Header_SetFlag G f b h = h\<lparr>h_Flags := fl\<rparr>)"

lemma Header_GetFlag_SetFlag:
  "flag_laws G \<Longrightarrow> Header_GetFlag G (Header_SetFlag G f b h) g = (if g = f then b else Header_GetFlag G h g)"
  by (simp add: flag_laws_def)

lemma Header_SetFlag_fields:
  assumes "flag_laws G"
  shows "h_Id (Header_SetFlag G f b h) = h_Id h" "h_Rcode (Header_SetFlag G f b h) = h_Rcode h"
    "h_Opcode (Header_SetFlag G f b h) = h_Opcode h"
proof -
  obtain fl where "Header_SetFlag G f b h = h\<lparr>h_Flags := fl\<rparr>"
    using assms unfolding flag_laws_def by blast
  then show "h_Id (Header_SetFlag G f b h) = h_Id h" "h_Rcode (Header_SetFlag G f b h) = h_Rcode h"
    "h_Opcode (Header_SetFlag G f b h) = h_Opcode h" by simp_all
qed

text \<open>
  Messages: clearing empties one section, adding appends to one section, both adjust only the section
  counts of the header; recounting changes nothing but those counts; rotating an RRset permutes its
  data; a response keeps the query's identifier, opcode and question and has empty sections.
\<close>

definition same_ids :: "'n Message \<Rightarrow> 'n Message \<Rightarrow> bool" where
  "same_ids m m' \<longleftrightarrow> h_Id (m_Header m) = h_Id (m_Header m') \<and> h_Rcode (m_Header m) = h_Rcode (m_Header m') \<and>
     h_Flags (m_Header m) = h_Flags (m_Header m') \<and> h_Opcode (m_Header m) = h_Opcode (m_Header m') \<and>
     m_Question m = m_Question m'"

definition message_laws :: "'n g53 \<Rightarrow> bool" where
  "message_laws G \<longleftrightarrow>
     (\<forall>s m. same_ids (Message_ClearSection G s m) m \<and>
        (\<forall>s'. msg_section s' (Message_ClearSection G s m) = (if s' = s then [] else msg_section s' m))) \<and>
     (\<forall>s r m. same_ids (Message_AddRRset G s r m) m \<and>
        (\<forall>s'. msg_section s' (Message_AddRRset G s r m) =
           (if s' = s then msg_section s m @ [r] else msg_section s' m))) \<and>
     (\<forall>m. same_ids (Message_RecalculateSectionRRCount G m) m \<and>
        (\<forall>s. msg_section s (Message_RecalculateSectionRRCount G m) = msg_section s m)) \<and>
     (\<forall>r. \<exists>ds. RRset_RotateRdata G r = r\<lparr>rr_Rdatas := ds\<rparr> \<and> mset ds = mset (rr_Rdatas r)) \<and>
     (\<forall>m. h_Id (m_Header (Message_MakeResponse G m)) = h_Id (m_Header m) \<and>
        h_Opcode (m_Header (Message_MakeResponse G m)) = h_Opcode (m_Header m) \<and>
        h_Rcode (m_Header (Message_MakeResponse G m)) = R_NOERROR \<and>
        m_Question (Message_MakeResponse G m) = m_Question m \<and>
        (\<forall>s. msg_section s (Message_MakeResponse G m) = []))"

lemma message_lawsD:
  assumes "message_laws G"
  shows "same_ids (Message_ClearSection G s m) m"
    and "msg_section s' (Message_ClearSection G s m) = (if s' = s then [] else msg_section s' m)"
    and "same_ids (Message_AddRRset G s r m) m"
    and "msg_section s' (Message_AddRRset G s r m) =
           (if s' = s then msg_section s m @ [r] else msg_section s' m)"
    and "same_ids (Message_RecalculateSectionRRCount G m) m"
    and "msg_section s (Message_RecalculateSectionRRCount G m) = msg_section s m"
    and "h_Id (m_Header (Message_MakeResponse G m)) = h_Id (m_Header m)"
    and "h_Rcode (m_Header (Message_MakeResponse G m)) = R_NOERROR"
    and "m_Question (Message_MakeResponse G m) = m_Question m"
    and "msg_section s (Message_MakeResponse G m) = []"
  using assms unfolding message_laws_def by (blast | presburger)+

lemma RotateRdata_fields:
  assumes "message_laws G"
  shows "rr_Name (RRset_RotateRdata G r) = rr_Name r" "rr_Type (RRset_RotateRdata G r) = rr_Type r"
    "rr_Class (RRset_RotateRdata G r) = rr_Class r" "rr_Ttl (RRset_RotateRdata G r) = rr_Ttl r"
    "mset (rr_Rdatas (RRset_RotateRdata G r)) = mset (rr_Rdatas r)"
proof -
  obtain ds where "RRset_RotateRdata G r = r\<lparr>rr_Rdatas := ds\<rparr>" "mset ds = mset (rr_Rdatas r)"
    using assms unfolding message_laws_def by blast
  then show "rr_Name (RRset_RotateRdata G r) = rr_Name r" "rr_Type (RRset_RotateRdata G r) = rr_Type r"
    "rr_Class (RRset_RotateRdata G r) = rr_Class r" "rr_Ttl (RRset_RotateRdata G r) = rr_Ttl r"
    "mset (rr_Rdatas (RRset_RotateRdata G r)) = mset (rr_Rdatas r)" by simp_all
qed

section \<open>A reference library\<close>

text \<open>Names are label lists, the leftmost label first; the empty text is not a name.\<close>

fun flag_bit :: "FlagField \<Rightarrow> nat" where
  "flag_bit FLAG_QR = 15" | "flag_bit FLAG_AA = 10" | "flag_bit FLAG_TC = 9"
| "flag_bit FLAG_RD = 8" | "flag_bit FLAG_RA = 7" | "flag_bit FLAG_CD = 4"

definition ref_count :: "'n Message \<Rightarrow> 'n Message" where
  "ref_count m = m\<lparr>m_Header := (m_Header m)
     \<lparr>h_ANCount := of_nat (sum_list (map (length \<circ> rr_Rdatas) (m_Answer m))),
      h_NSCount := of_nat (sum_list (map (length \<circ> rr_Rdatas) (m_Auth m))),
      h_ARCount := of_nat (sum_list (map (length \<circ> rr_Rdatas) (m_Additional m)))\<rparr>\<rparr>"

definition empty_header :: Header where
  "empty_header = \<lparr>h_Id = 0, h_Opcode = OP_QUERY, h_Rcode = R_NOERROR, h_Flags = 0,
     h_ANCount = 0, h_NSCount = 0, h_ARCount = 0\<rparr>"

definition ref_types :: "(string \<times> u16) list" where
  "ref_types = [(''A'', RR_A), (''NS'', RR_NS), (''CNAME'', RR_CNAME), (''SOA'', RR_SOA), (''MX'', RR_MX),
     (''AAAA'', RR_AAAA), (''ANY'', RR_ANY)]"

definition rotate_rdata :: "'n RRset \<Rightarrow> 'n RRset" where
  "rotate_rdata r = r\<lparr>rr_Rdatas := rotate1 (rr_Rdatas r)\<rparr>"

definition ref_names :: "string list name_lib" where
  "ref_names = \<lparr>
     f_NameFromString = (\<lambda>s. if s = [] then Inl ''empty name'' else Inr (split_char CHR ''.'' s)),
     f_Name_String = (\<lambda>n. concat (map (\<lambda>l. l @ ''.'') n)),
     f_Name_Hash = (\<lambda>n. of_nat (sum_list (map (\<lambda>c. of_char c) (concat (map ToLower n))))),
     f_Name_Equals = (\<lambda>a b. map ToLower a = map ToLower b),
     f_Name_IsSubDomain = (\<lambda>a b. \<exists>k \<in> set [0..<Suc (length a)]. map ToLower (drop k a) = map ToLower b),
     f_Name_IsWildCard = (\<lambda>n. case n of [] \<Rightarrow> False | l # _ \<Rightarrow> l = ''*''),
     f_Name_Parent = tl,
     f_Name_Root = []\<rparr>"

definition ref_texts :: "string list text_lib" where
  "ref_texts = \<lparr>
     f_TypeFromString = (\<lambda>s. case map_of ref_types s of None \<Rightarrow> Inl ''unknown type'' | Some t \<Rightarrow> Inr t),
     f_Type_String = (\<lambda>t. case find (\<lambda>p. snd p = t) ref_types of None \<Rightarrow> ''?'' | Some p \<Rightarrow> fst p),
     f_Class_String = (\<lambda>c. if c = CLASS_IN then ''IN'' else ''?''),
     f_Rdata_String = (\<lambda>d. case d of RdOther s \<Rightarrow> s | _ \<Rightarrow> []),
     f_Rdata_Compare = (\<lambda>a b. if a = b then 0 else 1)\<rparr>"

definition ref_messages :: "string list message_lib" where
  "ref_messages = \<lparr>
     f_Header_SetFlag = (\<lambda>f b h. h\<lparr>h_Flags := (if b then set_bit (flag_bit f) (h_Flags h) else unset_bit (flag_bit f) (h_Flags h))\<rparr>),
     f_Header_GetFlag = (\<lambda>h f. bit (h_Flags h) (flag_bit f)),
     f_Message_MakeResponse = (\<lambda>m. \<lparr>m_Header = empty_header\<lparr>h_Id := h_Id (m_Header m), h_Opcode := h_Opcode (m_Header m)\<rparr>,
        m_Question = m_Question m, m_Answer = [], m_Auth = [], m_Additional = [], m_Tsig = None\<rparr>),
     f_Message_ClearSection = (\<lambda>s m. ref_count (msg_set_section s [] m)),
     f_Message_AddRRset = (\<lambda>s r m. ref_count (msg_set_section s (msg_section s m @ [r]) m)),
     f_Message_RecalculateSectionRRCount = ref_count,
     f_RRset_RotateRdata = rotate_rdata,
     f_MakeQuery = (\<lambda>n t. \<lparr>m_Header = empty_header, m_Question = Some \<lparr>q_Name = n, q_Type = t, q_Class = CLASS_IN\<rparr>,
        m_Answer = [], m_Auth = [], m_Additional = [], m_Tsig = None\<rparr>)\<rparr>"

definition ref_g53 :: "string list g53" where
  "ref_g53 = \<lparr>g_names = ref_names, g_texts = ref_texts, g_messages = ref_messages\<rparr>"

lemmas ref_g53_simps = ref_g53_def ref_names_def ref_texts_def ref_messages_def

lemma ref_name_laws: "name_laws ref_g53"
proof -
  have h: "Name_Hash ref_g53 a = Name_Hash ref_g53 b" if "map ToLower a = map ToLower b" for a b
    unfolding ref_g53_simps name_lib.simps g53.simps that ..
  have e: "Name_Equals ref_g53 a b \<longleftrightarrow> map ToLower a = map ToLower b" for a b
    by (simp add: ref_g53_simps)
  show ?thesis unfolding name_laws_def e by (metis h)
qed

lemma flag_bit_inj: "flag_bit f = flag_bit g \<longleftrightarrow> f = g"
  by (cases f; cases g) simp_all

lemma flag_bit_less: "flag_bit f < 16"
  by (cases f) simp_all

lemma ref_flag_laws: "flag_laws ref_g53"
proof -
  have "Header_GetFlag ref_g53 (Header_SetFlag ref_g53 f b h) g = (if g = f then b else Header_GetFlag ref_g53 h g)"
    for f b h g
    using flag_bit_less [of g] flag_bit_inj [of f g]
    by (auto simp: ref_g53_simps bit_set_bit_iff bit_unset_bit_iff)
  moreover have "\<exists>fl. Header_SetFlag ref_g53 f b h = h\<lparr>h_Flags := fl\<rparr>" for f b h
    by (auto simp: ref_g53_simps)
  ultimately show ?thesis unfolding flag_laws_def by blast
qed

lemma ref_count_simps [simp]:
  "same_ids (ref_count m) m" "msg_section s (ref_count m) = msg_section s m"
  by (simp_all add: ref_count_def same_ids_def) (cases s; simp)

lemma set_section_simps [simp]:
  "msg_section s' (msg_set_section s rs m) = (if s' = s then rs else msg_section s' m)"
  "m_Header (msg_set_section s rs m) = m_Header m" "m_Question (msg_set_section s rs m) = m_Question m"
  by (cases s; cases s'; simp)+

lemma ref_message_laws: "message_laws ref_g53"
proof -
  have 1: "same_ids (ref_count (msg_set_section s rs m)) m" for s rs and m :: "string list Message"
    by (simp add: ref_count_def same_ids_def)
  have 2: "\<exists>ds. rotate_rdata r = r\<lparr>rr_Rdatas := ds\<rparr> \<and> mset ds = mset (rr_Rdatas r)" for r :: "string list RRset"
    by (rule exI [of _ "rotate1 (rr_Rdatas r)"]) (cases "rr_Rdatas r"; simp add: rotate_rdata_def)
  have 3: "msg_section s (Message_MakeResponse ref_g53 m) = []" for s m
    by (cases s) (simp_all add: ref_g53_simps)
  show ?thesis unfolding message_laws_def
    using 1 2 3 by (simp add: ref_g53_simps) (simp add: empty_header_def)
qed

end
