(* ===== verification/Go_List.thy ===== *)
theory Go_List
  imports Vg_Prelude
begin

text \<open>
  Go's \<open>container/list\<close>: a doubly linked list whose elements have an identity (their address) and a
  mutable value. The caches keep a map from keys to such elements next to the list, so the model
  keeps the identity: a list of (address, value) pairs and the next free address. The second half
  states once what the caches need: the index map and the list describe each other
  (\<open>index_ok\<close>), and each list operation, with the matching map update, preserves that.
\<close>

section \<open>The list and its operations\<close>

record 'v golist =
  elems :: "(nat \<times> 'v) list"
  fresh :: nat

definition list_New :: "'v golist" where
  "list_New = \<lparr>elems = [], fresh = 0\<rparr>"

definition list_Len :: "'v golist \<Rightarrow> nat" where
  "list_Len l = length (elems l)"

text \<open>\<open>PushFront\<close> returns the new element, here its address.\<close>

definition list_PushFront :: "'v \<Rightarrow> 'v golist \<Rightarrow> nat \<times> 'v golist" where
  "list_PushFront v l = (fresh l, l\<lparr>elems := (fresh l, v) # elems l, fresh := Suc (fresh l)\<rparr>)"

text \<open>\<open>elem.Value\<close>; an element that was removed is not in the list any more.\<close>

definition elem_value :: "nat \<Rightarrow> 'v golist \<Rightarrow> 'v option" where
  "elem_value e l = map_of (elems l) e"

definition elem_set_value :: "nat \<Rightarrow> 'v \<Rightarrow> 'v golist \<Rightarrow> 'v golist" where
  "elem_set_value e v l = l\<lparr>elems := map (\<lambda>(a, x). if a = e then (a, v) else (a, x)) (elems l)\<rparr>"

text \<open>\<open>MoveToFront\<close> and \<open>Remove\<close> do nothing for an element that is not in the list.\<close>

definition list_MoveToFront :: "nat \<Rightarrow> 'v golist \<Rightarrow> 'v golist" where
  "list_MoveToFront e l =
     (case map_of (elems l) e of
        None \<Rightarrow> l
      | Some v \<Rightarrow> l\<lparr>elems := (e, v) # filter (\<lambda>p. fst p \<noteq> e) (elems l)\<rparr>)"

definition list_Remove :: "nat \<Rightarrow> 'v golist \<Rightarrow> 'v golist" where
  "list_Remove e l = l\<lparr>elems := filter (\<lambda>p. fst p \<noteq> e) (elems l)\<rparr>"

definition list_Back :: "'v golist \<Rightarrow> nat option" where
  "list_Back l = (if elems l = [] then None else Some (fst (last (elems l))))"

text \<open>\<open>elem.Prev()\<close>: the element before \<open>e\<close>, \<open>None\<close> at the front.\<close>

fun prev_addr :: "nat \<Rightarrow> (nat \<times> 'v) list \<Rightarrow> nat option" where
  "prev_addr e (p # q # ps) = (if fst q = e then Some (fst p) else prev_addr e (q # ps))"
| "prev_addr e _ = None"

definition elem_Prev :: "nat \<Rightarrow> 'v golist \<Rightarrow> nat option" where
  "elem_Prev e l = prev_addr e (elems l)"

lemmas list_defs =
  list_New_def list_Len_def list_PushFront_def elem_value_def elem_set_value_def
  list_MoveToFront_def list_Remove_def list_Back_def elem_Prev_def

section \<open>Addresses are unique\<close>

definition list_wf :: "'v golist \<Rightarrow> bool" where
  "list_wf l \<longleftrightarrow> distinct (map fst (elems l)) \<and> (\<forall>a \<in> set (map fst (elems l)). a < fresh l)"

lemma list_wf_New [go_list_simps]: "list_wf list_New"
  by (simp add: list_wf_def list_New_def)

lemma list_wf_PushFront [go_list_simps]: "list_wf l \<Longrightarrow> list_wf (snd (list_PushFront v l))"
  by (auto simp: list_wf_def list_PushFront_def)

lemma map_fst_set_value:
  "map fst (map (\<lambda>(a, x). if a = e then (a, v) else (a, x)) ps) = map fst ps"
  by (induction ps) auto

lemma list_wf_set_value [go_list_simps]: "list_wf l \<Longrightarrow> list_wf (elem_set_value e v l)"
  by (simp add: list_wf_def elem_set_value_def map_fst_set_value del: map_map set_map)

lemma list_wf_Remove [go_list_simps]: "list_wf l \<Longrightarrow> list_wf (list_Remove e l)"
  by (auto simp: list_wf_def list_Remove_def intro: distinct_map_filter)

lemma list_wf_MoveToFront [go_list_simps]: "list_wf l \<Longrightarrow> list_wf (list_MoveToFront e l)"
proof (cases "map_of (elems l) e")
  case (Some v)
  assume wf: "list_wf l"
  from Some have "(e, v) \<in> set (elems l)" by (rule map_of_SomeD)
  with wf Some show ?thesis
    by (auto simp: list_wf_def list_MoveToFront_def intro: distinct_map_filter)
qed (simp add: list_MoveToFront_def)

lemma fresh_simps [simp]:
  "fresh (elem_set_value e v l) = fresh l"
  "fresh (list_Remove e l) = fresh l"
  "fresh (list_MoveToFront e l) = fresh l"
  "fresh (snd (list_PushFront v l)) = Suc (fresh l)"
  by (auto simp: list_defs split: option.splits)

section \<open>Values and lengths after each operation\<close>

lemma elem_value_iff:
  "list_wf l \<Longrightarrow> elem_value e l = Some v \<longleftrightarrow> (e, v) \<in> set (elems l)"
  by (simp add: list_wf_def elem_value_def)

lemma elem_value_New [simp]: "elem_value e list_New = None"
  by (simp add: list_defs)

lemma elem_value_fresh: "list_wf l \<Longrightarrow> elem_value (fresh l) l = None"
  by (force simp: list_wf_def elem_value_def map_of_eq_None_iff)

lemma elem_value_PushFront [simp]:
  "elem_value e (snd (list_PushFront v l)) = (if e = fresh l then Some v else elem_value e l)"
  by (simp add: list_defs)

lemma map_of_set_value:
  "map_of (map (\<lambda>(a, x). if a = e then (a, v) else (a, x)) ps) e' =
     (if e' = e then map_option (\<lambda>_. v) (map_of ps e) else map_of ps e')"
  by (induction ps) auto

lemma elem_value_set_value [simp]:
  "elem_value e' (elem_set_value e v l) =
     (if e' = e then map_option (\<lambda>_. v) (elem_value e l) else elem_value e' l)"
  by (simp add: elem_value_def elem_set_value_def map_of_set_value)

lemma map_of_filter_neq:
  "map_of (filter (\<lambda>p. fst p \<noteq> e) ps) e' = (if e' = e then None else map_of ps e')"
  by (induction ps) auto

lemma elem_value_Remove [simp]:
  "elem_value e' (list_Remove e l) = (if e' = e then None else elem_value e' l)"
  by (simp add: list_defs map_of_filter_neq)

lemma elem_value_MoveToFront [simp]: "elem_value e' (list_MoveToFront e l) = elem_value e' l"
  by (auto simp: list_defs map_of_filter_neq split: option.splits)

lemma list_Len_PushFront [simp]: "list_Len (snd (list_PushFront v l)) = Suc (list_Len l)"
  by (simp add: list_defs)

lemma list_Len_set_value [simp]: "list_Len (elem_set_value e v l) = list_Len l"
  by (simp add: list_defs)

lemma length_filter_distinct_fst:
  "distinct (map fst ps) \<Longrightarrow> map_of ps e = Some v \<Longrightarrow>
     Suc (length (filter (\<lambda>p. fst p \<noteq> e) ps)) = length ps"
proof (induction ps)
  case (Cons p ps)
  show ?case
  proof (cases "fst p = e")
    case True
    with Cons.prems have "e \<notin> fst ` set ps" by simp
    then have "filter (\<lambda>p. fst p \<noteq> e) ps = ps"
      by (intro filter_True) auto
    with True show ?thesis by simp
  next
    case False
    with Cons show ?thesis by (cases p) auto
  qed
qed simp

lemma list_Len_Remove:
  "list_wf l \<Longrightarrow> elem_value e l = Some v \<Longrightarrow> Suc (list_Len (list_Remove e l)) = list_Len l"
  by (simp add: list_wf_def list_Len_def list_Remove_def elem_value_def length_filter_distinct_fst)

lemma list_Len_MoveToFront [simp]:
  "list_wf l \<Longrightarrow> list_Len (list_MoveToFront e l) = list_Len l"
  by (auto simp: list_wf_def list_Len_def list_MoveToFront_def length_filter_distinct_fst
      split: option.splits)

lemma list_Back_Some:
  assumes "list_wf l" and "list_Back l = Some e"
  shows "\<exists>v. elem_value e l = Some v"
proof -
  from assms(2) have "elems l \<noteq> []" and e: "e = fst (last (elems l))"
    by (auto simp: list_Back_def split: if_splits)
  then have "(e, snd (last (elems l))) \<in> set (elems l)" by simp
  with assms(1) show ?thesis by (auto simp: elem_value_iff)
qed

lemma list_Back_None: "list_Back l = None \<longleftrightarrow> list_Len l = 0"
  by (simp add: list_defs)

section \<open>A list with an index\<close>

text \<open>
  \<open>index_ok key idx l\<close>: the map \<open>idx\<close> has, for every element of the list, an entry at the key of
  the element's value that points to it, and no other entry.
\<close>

definition index_ok :: "('v \<Rightarrow> 'k) \<Rightarrow> ('k \<rightharpoonup> nat) \<Rightarrow> 'v golist \<Rightarrow> bool" where
  "index_ok key idx l \<longleftrightarrow> list_wf l \<and>
     (\<forall>k e. idx k = Some e \<longleftrightarrow> (\<exists>v. elem_value e l = Some v \<and> key v = k))"

lemma index_ok_wf: "index_ok key idx l \<Longrightarrow> list_wf l"
  by (simp add: index_ok_def)

lemma index_ok_lookup:
  "index_ok key idx l \<Longrightarrow> idx k = Some e \<Longrightarrow> \<exists>v. elem_value e l = Some v \<and> key v = k"
  by (simp add: index_ok_def)

lemma index_ok_value:
  "index_ok key idx l \<Longrightarrow> elem_value e l = Some v \<Longrightarrow> idx (key v) = Some e"
  by (auto simp: index_ok_def)

lemma index_ok_New [invar_intros]: "index_ok key Map.empty list_New"
  by (simp add: index_ok_def list_wf_New)

lemma index_ok_PushFront [invar_intros]:
  assumes ok: "index_ok key idx l" and new: "idx (key v) = None"
  shows "index_ok key (idx(key v \<mapsto> fst (list_PushFront v l))) (snd (list_PushFront v l))"
proof -
  have wf: "list_wf l" using ok by (rule index_ok_wf)
  have no_fresh: "idx k \<noteq> Some (fresh l)" for k
    using ok elem_value_fresh [OF wf] by (auto simp: index_ok_def)
  have other: "key w \<noteq> key v" if "elem_value e l = Some w" for e w
    using index_ok_value [OF ok that] new by auto
  have "(idx(key v \<mapsto> fresh l)) k = Some e \<longleftrightarrow>
          (\<exists>u. elem_value e (snd (list_PushFront v l)) = Some u \<and> key u = k)" for k e
  proof (cases "e = fresh l")
    case True
    with no_fresh show ?thesis by auto
  next
    case False
    have "(idx(key v \<mapsto> fresh l)) k = Some e \<longleftrightarrow> idx k = Some e"
      using False new by auto
    with False ok show ?thesis by (simp add: index_ok_def)
  qed
  with list_wf_PushFront [OF wf, of v] show ?thesis
    by (simp add: index_ok_def list_PushFront_def [of v l])
qed

lemma index_ok_MoveToFront [invar_intros]:
  "index_ok key idx l \<Longrightarrow> index_ok key idx (list_MoveToFront e l)"
  by (simp add: index_ok_def list_wf_MoveToFront)

lemma index_ok_set_value [invar_intros]:
  assumes ok: "index_ok key idx l" and at: "idx (key v) = Some e"
  shows "index_ok key idx (elem_set_value e v l)"
proof -
  have wf: "list_wf (elem_set_value e v l)" using ok by (auto simp: index_ok_def list_wf_set_value)
  obtain w where w: "elem_value e l = Some w" "key w = key v"
    using index_ok_lookup [OF ok at] by blast
  have "idx k = Some e' \<longleftrightarrow> (\<exists>u. elem_value e' (elem_set_value e v l) = Some u \<and> key u = k)" for k e'
    using ok w by (auto simp: index_ok_def)
  with wf show ?thesis by (simp add: index_ok_def)
qed

lemma index_ok_Remove [invar_intros]:
  assumes ok: "index_ok key idx l" and v: "elem_value e l = Some v"
  shows "index_ok key (idx(key v := None)) (list_Remove e l)"
proof -
  have wf: "list_wf (list_Remove e l)" using ok by (auto simp: index_ok_def list_wf_Remove)
  have at: "idx (key v) = Some e" using index_ok_value [OF ok v] .
  have "(idx(key v := None)) k = Some e' \<longleftrightarrow>
          (\<exists>u. elem_value e' (list_Remove e l) = Some u \<and> key u = k)" for k e'
  proof (cases "e' = e")
    case True
    have "(idx(key v := None)) k \<noteq> Some e" using index_ok_lookup [OF ok, of k e] v by auto
    with True show ?thesis by simp
  next
    case False
    with at have "(idx(key v := None)) k = Some e' \<longleftrightarrow> idx k = Some e'" by auto
    with False ok show ?thesis by (simp add: index_ok_def)
  qed
  with wf show ?thesis by (simp add: index_ok_def)
qed

text \<open>The index has as many entries as the list has elements.\<close>

lemma index_ok_card:
  assumes ok: "index_ok key idx l"
  shows "card (dom idx) = list_Len l"
proof -
  have d: "distinct (map fst (elems l))" using ok by (simp add: index_ok_def list_wf_def)
  have dom: "dom idx = (\<lambda>p. key (snd p)) ` set (elems l)"
  proof (rule set_eqI)
    fix k
    have "k \<in> dom idx \<longleftrightarrow> (\<exists>e v. elem_value e l = Some v \<and> key v = k)"
      using ok by (auto simp: index_ok_def)
    also have "\<dots> \<longleftrightarrow> k \<in> (\<lambda>p. key (snd p)) ` set (elems l)"
      using elem_value_iff [OF index_ok_wf [OF ok]] by force
    finally show "k \<in> dom idx \<longleftrightarrow> k \<in> (\<lambda>p. key (snd p)) ` set (elems l)" .
  qed
  have "inj_on (\<lambda>p. key (snd p)) (set (elems l))"
  proof (rule inj_onI)
    fix p q assume "p \<in> set (elems l)" "q \<in> set (elems l)" and k: "key (snd p) = key (snd q)"
    then have "elem_value (fst p) l = Some (snd p)" "elem_value (fst q) l = Some (snd q)"
      using ok by (auto simp: index_ok_def elem_value_iff)
    then have "idx (key (snd p)) = Some (fst p)" "idx (key (snd q)) = Some (fst q)"
      using index_ok_value [OF ok] by blast+
    with k have "fst p = fst q" by simp
    with d \<open>p \<in> set (elems l)\<close> \<open>q \<in> set (elems l)\<close> show "p = q"
      by (meson distinct_map inj_onD)
  qed
  then have "card (dom idx) = card (set (elems l))" using dom card_image by metis
  also have "\<dots> = length (elems l)" using d by (simp add: distinct_map distinct_card)
  finally show ?thesis by (simp add: list_Len_def)
qed

end
