(* ===== verification/Lru.thy ===== *)
theory Lru
  imports Go_List
begin

text \<open>
  The contract of a bounded store with least-recently-used eviction. The specification is an
  association list with the most recently used entry first; the locale \<open>lru_store\<close> says that the
  operations of a store implement it, and its lemmas (an entry just written is found, the size
  stays bounded, an entry survives as many operations as the store has room for) hold for every such
  store. The last section relates a list with an index map, the representation both caches of the
  program use, to the specification.
\<close>

section \<open>Specification\<close>

type_synonym ('k, 'v) lru = "('k \<times> 'v) list"

definition lru_del :: "'k \<Rightarrow> ('k, 'v) lru \<Rightarrow> ('k, 'v) lru" where
  "lru_del k l = filter (\<lambda>p. fst p \<noteq> k) l"

text \<open>Evict the oldest entry when there is one too many; capacity 0 means no limit.\<close>

definition lru_trim :: "nat \<Rightarrow> ('k, 'v) lru \<Rightarrow> ('k, 'v) lru" where
  "lru_trim cap l = (if cap \<noteq> 0 \<and> length l > cap then butlast l else l)"

definition lru_put :: "nat \<Rightarrow> 'k \<Rightarrow> 'v \<Rightarrow> ('k, 'v) lru \<Rightarrow> ('k, 'v) lru" where
  "lru_put cap k v l = lru_trim cap ((k, v) # lru_del k l)"

text \<open>A hit moves the entry to the front and may change its value.\<close>

definition lru_use :: "'k \<Rightarrow> ('v \<Rightarrow> 'v) \<Rightarrow> ('k, 'v) lru \<Rightarrow> ('k, 'v) lru" where
  "lru_use k f l = (case map_of l k of None \<Rightarrow> l | Some v \<Rightarrow> (k, f v) # lru_del k l)"

section \<open>Facts about the specification\<close>

lemma lru_del_notin [simp]: "k \<notin> fst ` set (lru_del k l)"
  by (auto simp: lru_del_def)

lemma map_of_lru_del [simp]: "map_of (lru_del k l) k' = (if k' = k then None else map_of l k')"
  by (induction l) (auto simp: lru_del_def)

lemma distinct_lru_del: "distinct (map fst l) \<Longrightarrow> distinct (map fst (lru_del k l))"
  by (simp add: lru_del_def distinct_map_filter)

lemma distinct_lru_trim: "distinct (map fst l) \<Longrightarrow> distinct (map fst (lru_trim cap l))"
  by (simp add: lru_trim_def map_butlast distinct_butlast)

lemma distinct_lru_put: "distinct (map fst l) \<Longrightarrow> distinct (map fst (lru_put cap k v l))"
  unfolding lru_put_def using distinct_lru_del [of l k] lru_del_notin [of k l]
  by (intro distinct_lru_trim) simp

lemma distinct_lru_use: "distinct (map fst l) \<Longrightarrow> distinct (map fst (lru_use k f l))"
  using distinct_lru_del [of l k] lru_del_notin [of k l] by (auto simp: lru_use_def split: option.splits)

lemma length_lru_del: "length (lru_del k l) \<le> length l"
  by (simp add: lru_del_def)

lemma length_lru_trim: "length (lru_trim cap l) \<le> max cap (length l - 1) \<or> cap = 0"
  by (auto simp: lru_trim_def)

lemma length_lru_put: "cap \<noteq> 0 \<Longrightarrow> length (lru_put cap k v l) \<le> max cap (length l)"
  using length_lru_del [of k l] by (auto simp: lru_put_def lru_trim_def)

lemma length_lru_use: "length (lru_use k f l) \<le> length l"
proof (cases "map_of l k")
  case (Some v)
  then have "(k, v) \<in> set l" by (rule map_of_SomeD)
  then have "length (lru_del k l) < length l" unfolding lru_del_def by (rule length_filter_less) simp
  with Some show ?thesis by (simp add: lru_use_def)
qed (simp add: lru_use_def)

lemma map_of_lru_put_same: "map_of (lru_put cap k v l) k = Some v"
  by (cases "lru_del k l") (auto simp: lru_put_def lru_trim_def)

lemma map_of_lru_use: "map_of (lru_use k f l) k' = (if k' = k then map_option f (map_of l k) else map_of l k')"
  by (auto simp: lru_use_def split: option.splits)

text \<open>
  \<open>lru_rank k l\<close> is the number of entries in front of the one at \<open>k\<close>. An operation on another key
  raises it by at most one, so an entry leaves only after \<open>cap\<close> other operations.
\<close>

definition lru_rank :: "'k \<Rightarrow> ('k, 'v) lru \<Rightarrow> nat" where
  "lru_rank k l = length (takeWhile (\<lambda>p. fst p \<noteq> k) l)"

lemma lru_rank_del: "k \<noteq> k' \<Longrightarrow> lru_rank k (lru_del k' l) \<le> lru_rank k l"
  by (induction l) (auto simp: lru_rank_def lru_del_def)

lemma map_of_take_rank:
  assumes "map_of l k = Some v" "lru_rank k l < n"
  shows "map_of (take n l) k = Some v" "lru_rank k (take n l) = lru_rank k l"
  using assms
proof (induction l arbitrary: n)
  case (Cons p l)
  {
    case 1
    with Cons.IH(1) [of "n - 1"] show ?case by (cases n; cases p) (auto simp: lru_rank_def split: if_splits)
  next
    case 2
    with Cons.IH(2) [of "n - 1"] show ?case by (cases n; cases p) (auto simp: lru_rank_def split: if_splits)
  }
qed auto

lemma lru_trim_keeps:
  assumes "map_of l k = Some v" "lru_rank k l < cap \<or> cap = 0"
  shows "map_of (lru_trim cap l) k = Some v" "lru_rank k (lru_trim cap l) = lru_rank k l"
proof -
  have "butlast l = take (length l - 1) l" by (simp add: butlast_conv_take)
  moreover have "lru_rank k l < length l - 1" if "cap \<noteq> 0" "length l > cap" using assms(2) that by auto
  ultimately show "map_of (lru_trim cap l) k = Some v" "lru_rank k (lru_trim cap l) = lru_rank k l"
    using map_of_take_rank [OF assms(1), of "length l - 1"] assms(1) by (auto simp: lru_trim_def)
qed

lemma lru_put_keeps:
  assumes "map_of l k = Some v" "Suc (lru_rank k l) < cap \<or> cap = 0" "k' \<noteq> k"
  shows "map_of (lru_put cap k' w l) k = Some v" "lru_rank k (lru_put cap k' w l) \<le> Suc (lru_rank k l)"
proof -
  let ?l = "(k', w) # lru_del k' l"
  have m: "map_of ?l k = Some v" using assms(1,3) by simp
  have r: "lru_rank k ?l \<le> Suc (lru_rank k l)"
    using lru_rank_del [of k k' l] assms(3) by (simp add: lru_rank_def)
  then have c: "lru_rank k ?l < cap \<or> cap = 0" using assms(2) by auto
  show "map_of (lru_put cap k' w l) k = Some v" "lru_rank k (lru_put cap k' w l) \<le> Suc (lru_rank k l)"
    using lru_trim_keeps [OF m c] r by (simp_all add: lru_put_def)
qed

lemma lru_rank_use: "k' \<noteq> k \<Longrightarrow> lru_rank k (lru_use k' f l) \<le> Suc (lru_rank k l)"
  using lru_rank_del [of k k' l] by (auto simp: lru_use_def lru_rank_def split: option.splits)

section \<open>Contract of a store\<close>

datatype ('k, 'v) lru_op = Put 'k 'v | Use 'k "'v \<Rightarrow> 'v"

fun op_key :: "('k, 'v) lru_op \<Rightarrow> 'k" where
  "op_key (Put k v) = k"
| "op_key (Use k f) = k"

locale lru_store =
  fixes ok :: "'s \<Rightarrow> bool"
    and content :: "'s \<Rightarrow> ('k, 'v) lru"
    and cap :: "'s \<Rightarrow> nat"
    and put :: "'k \<Rightarrow> 'v \<Rightarrow> 's \<Rightarrow> 's"
    and touch :: "'k \<Rightarrow> ('v \<Rightarrow> 'v) \<Rightarrow> 's \<Rightarrow> 's"
    and valid :: "'k \<Rightarrow> 'v \<Rightarrow> bool"
    and same :: "'k \<Rightarrow> ('v \<Rightarrow> 'v) \<Rightarrow> bool"
  assumes content_distinct: "ok s \<Longrightarrow> distinct (map fst (content s))"
    and put_ok: "ok s \<Longrightarrow> valid k v \<Longrightarrow> ok (put k v s)"
    and put_content: "ok s \<Longrightarrow> valid k v \<Longrightarrow> content (put k v s) = lru_put (cap s) k v (content s)"
    and put_cap: "ok s \<Longrightarrow> valid k v \<Longrightarrow> cap (put k v s) = cap s"
    and touch_ok: "ok s \<Longrightarrow> same k f \<Longrightarrow> ok (touch k f s)"
    and touch_content: "ok s \<Longrightarrow> same k f \<Longrightarrow> content (touch k f s) = lru_use k f (content s)"
    and touch_cap: "ok s \<Longrightarrow> same k f \<Longrightarrow> cap (touch k f s) = cap s"
begin

definition run_op :: "('k, 'v) lru_op \<Rightarrow> 's \<Rightarrow> 's" where
  "run_op oper s = (case oper of Put k v \<Rightarrow> put k v s | Use k f \<Rightarrow> touch k f s)"

definition op_ok :: "('k, 'v) lru_op \<Rightarrow> bool" where
  "op_ok oper = (case oper of Put k v \<Rightarrow> valid k v | Use k f \<Rightarrow> same k f)"

lemma put_found: "ok s \<Longrightarrow> valid k v \<Longrightarrow> map_of (content (put k v s)) k = Some v"
  by (simp add: put_content map_of_lru_put_same)

lemma put_bounded:
  "ok s \<Longrightarrow> valid k v \<Longrightarrow> cap s \<noteq> 0 \<Longrightarrow> length (content (put k v s)) \<le> max (cap s) (length (content s))"
  by (simp add: put_content length_lru_put)

lemma run_op_ok: "ok s \<Longrightarrow> op_ok oper \<Longrightarrow> ok (run_op oper s) \<and> cap (run_op oper s) = cap s"
  by (cases oper) (simp_all add: run_op_def op_ok_def put_ok put_cap touch_ok touch_cap)

lemma run_op_bounded:
  "ok s \<Longrightarrow> op_ok oper \<Longrightarrow> cap s \<noteq> 0 \<Longrightarrow> length (content s) \<le> cap s \<Longrightarrow> length (content (run_op oper s)) \<le> cap s"
proof (cases oper)
  case (Put k v)
  assume "ok s" "op_ok oper" "cap s \<noteq> 0" "length (content s) \<le> cap s"
  then show ?thesis using put_bounded [of s k v] by (simp add: Put run_op_def op_ok_def)
next
  case (Use k f)
  assume "ok s" "op_ok oper" "cap s \<noteq> 0" "length (content s) \<le> cap s"
  then show ?thesis using length_lru_use [of k f "content s"] by (simp add: Use run_op_def op_ok_def touch_content)
qed

lemma run_op_keeps:
  assumes "ok s" "op_ok oper" "op_key oper \<noteq> k" "map_of (content s) k = Some v"
    "Suc (lru_rank k (content s)) < cap s \<or> cap s = 0"
  shows "map_of (content (run_op oper s)) k = Some v \<and>
         lru_rank k (content (run_op oper s)) \<le> Suc (lru_rank k (content s))"
proof (cases oper)
  case (Put k' w)
  with assms show ?thesis using lru_put_keeps [OF assms(4,5), of k' w]
    by (simp add: run_op_def op_ok_def put_content)
next
  case (Use k' f)
  with assms show ?thesis using lru_rank_use [of k' k f "content s"]
    by (simp add: run_op_def op_ok_def touch_content map_of_lru_use)
qed

lemma run_ops_keep:
  assumes "ok s" "list_all op_ok ops" "k \<notin> op_key ` set ops" "map_of (content s) k = Some v"
    "lru_rank k (content s) + length ops < cap s \<or> cap s = 0"
  shows "map_of (content (fold run_op ops s)) k = Some v"
  using assms
proof (induction ops arbitrary: s)
  case (Cons oper ops)
  have *: "map_of (content (run_op oper s)) k = Some v \<and>
      lru_rank k (content (run_op oper s)) \<le> Suc (lru_rank k (content s))"
    using Cons.prems by (intro run_op_keeps) auto
  moreover have "ok (run_op oper s)" "cap (run_op oper s) = cap s"
    using Cons.prems run_op_ok [of s oper] by simp_all
  ultimately show ?case using Cons.prems Cons.IH [of "run_op oper s"] by auto
qed simp

lemma put_retained:
  assumes "ok s" "valid k v" "list_all op_ok ops" "k \<notin> op_key ` set ops" "length ops < cap s \<or> cap s = 0"
  shows "map_of (content (fold run_op ops (put k v s))) k = Some v"
proof (rule run_ops_keep)
  have "lru_rank k (content (put k v s)) = 0"
    using assms(1,2) by (cases "lru_del k (content s)") (auto simp: put_content lru_put_def lru_trim_def lru_rank_def)
  then show "lru_rank k (content (put k v s)) + length ops < cap (put k v s) \<or> cap (put k v s) = 0"
    using assms by (simp add: put_cap)
qed (use assms in \<open>simp_all add: put_ok put_found\<close>)

end

section \<open>A list with an index implements the specification\<close>

definition lru_content :: "('v \<Rightarrow> 'k) \<Rightarrow> 'v golist \<Rightarrow> ('k, 'v) lru" where
  "lru_content key l = map (\<lambda>p. (key (snd p), snd p)) (elems l)"

lemma length_lru_content [simp]: "length (lru_content key l) = list_Len l"
  by (simp add: lru_content_def list_Len_def)

lemma index_ok_elem:
  assumes "index_ok key idx l" "(e, v) \<in> set (elems l)"
  shows "idx (key v) = Some e"
  using assms index_ok_value elem_value_iff index_ok_wf by metis

lemma lru_content_distinct:
  assumes ok: "index_ok key idx l"
  shows "distinct (map fst (lru_content key l))"
proof -
  have d: "distinct (map fst (elems l))" using index_ok_wf [OF ok] by (simp add: list_wf_def)
  have "inj_on (\<lambda>p. key (snd p)) (set (elems l))"
  proof (rule inj_onI)
    fix p q
    assume pq: "p \<in> set (elems l)" "q \<in> set (elems l)" "key (snd p) = key (snd q)"
    then have "idx (key (snd p)) = Some (fst p)" "idx (key (snd q)) = Some (fst q)"
      using index_ok_elem [OF ok] by (metis prod.collapse)+
    then have "fst p = fst q" using pq by simp
    then show "p = q" using d pq by (meson distinct_map inj_onD)
  qed
  then show ?thesis using d by (simp add: lru_content_def distinct_map o_def)
qed

lemma lru_content_lookup:
  assumes ok: "index_ok key idx l"
  shows "map_of (lru_content key l) k = (case idx k of None \<Rightarrow> None | Some e \<Rightarrow> elem_value e l)"
proof (cases "idx k")
  case None
  then have "k \<notin> fst ` set (lru_content key l)"
    using index_ok_elem [OF ok] by (fastforce simp: lru_content_def)
  then show ?thesis using None by (simp add: map_of_eq_None_iff)
next
  case (Some e)
  then obtain v where v: "elem_value e l = Some v" "key v = k" using index_ok_lookup [OF ok] by blast
  then have "(e, v) \<in> set (elems l)" using elem_value_iff [OF index_ok_wf [OF ok]] by simp
  then have "(k, v) \<in> set (lru_content key l)" using v by (force simp: lru_content_def)
  then show ?thesis using lru_content_distinct [OF ok] Some v by simp
qed

text \<open>Deleting by key in the specification is deleting the element the index points to.\<close>

lemma lru_del_content:
  assumes ok: "index_ok key idx l" and e: "idx k = Some e"
  shows "lru_del k (lru_content key l) = map (\<lambda>p. (key (snd p), snd p)) (filter (\<lambda>p. fst p \<noteq> e) (elems l))"
proof -
  have "key (snd p) \<noteq> k \<longleftrightarrow> fst p \<noteq> e" if "p \<in> set (elems l)" for p
    using index_ok_elem [OF ok, of "fst p" "snd p"] that e index_ok_lookup [OF ok e]
      elem_value_iff [OF index_ok_wf [OF ok], of "fst p" "snd p"] by auto
  then have "filter (\<lambda>p. key (snd p) \<noteq> k) (elems l) = filter (\<lambda>p. fst p \<noteq> e) (elems l)"
    by (intro filter_cong) auto
  then show ?thesis by (simp add: lru_del_def lru_content_def filter_map o_def)
qed

lemma lru_del_content_None:
  assumes ok: "index_ok key idx l" and e: "idx k = None"
  shows "lru_del k (lru_content key l) = lru_content key l"
  unfolding lru_del_def using index_ok_elem [OF ok] e
  by (intro filter_True) (fastforce simp: lru_content_def)

lemma lru_content_PushFront:
  "lru_content key (snd (list_PushFront v l)) = (key v, v) # lru_content key l"
  by (simp add: lru_content_def list_PushFront_def)

lemma lru_content_Remove:
  "index_ok key idx l \<Longrightarrow> idx k = Some e \<Longrightarrow> lru_content key (list_Remove e l) = lru_del k (lru_content key l)"
  by (simp add: lru_del_content list_Remove_def) (simp add: lru_content_def)

lemma lru_content_Remove_Back:
  assumes ok: "index_ok key idx l" and b: "list_Back l = Some e"
  shows "lru_content key (list_Remove e l) = butlast (lru_content key l)"
proof -
  from b obtain ps v where l: "elems l = ps @ [(e, v)]"
    by (cases "elems l" rule: rev_cases) (auto simp: list_Back_def split: if_splits)
  have "distinct (map fst (elems l))" using index_ok_wf [OF ok] by (simp add: list_wf_def)
  then have "filter (\<lambda>p. fst p \<noteq> e) ps = ps" using l by (intro filter_True) force
  then show ?thesis by (simp add: lru_content_def list_Remove_def l map_butlast butlast_append)
qed

text \<open>Moving an element to the front and storing a new value in it.\<close>

lemma elems_update_front:
  assumes ok: "index_ok key idx l" and e: "idx k = Some e"
  shows "elems (elem_set_value e w (list_MoveToFront e l)) = (e, w) # filter (\<lambda>p. fst p \<noteq> e) (elems l)"
proof -
  obtain v where "map_of (elems l) e = Some v"
    using index_ok_lookup [OF ok e] by (auto simp: elem_value_def)
  moreover have "map (\<lambda>(a, x). if a = e then (a, w) else (a, x)) (filter (\<lambda>p. fst p \<noteq> e) ps)
      = filter (\<lambda>p. fst p \<noteq> e) ps" for ps
    by (induction ps) auto
  ultimately show ?thesis by (simp add: list_MoveToFront_def elem_set_value_def)
qed

lemma lru_content_update:
  "index_ok key idx l \<Longrightarrow> idx k = Some e \<Longrightarrow> key w = k \<Longrightarrow>
   lru_content key (elem_set_value e w (list_MoveToFront e l)) = (k, w) # lru_del k (lru_content key l)"
  by (simp add: lru_del_content) (simp add: lru_content_def elems_update_front)

end
