(* ===== verification/Go_Net.thy ===== *)
theory Go_Net
  imports Go_Std
begin

text \<open>
  Addresses and networks as text, from Go's package \<open>net\<close> (the release the module file names): the
  parsers of IPv4 and IPv6 addresses and of networks in CIDR notation, masks, and the printers. The
  lemmas give the lengths of parsed addresses and that a printed IPv4 address parses to itself.
\<close>

unbundle bit_operations_syntax

section \<open>Numbers\<close>

definition big :: nat where "big = 0xFFFFFF"

definition digit_nat :: "char \<Rightarrow> nat" where
  "digit_nat c = of_char c - 48"

text \<open>\<open>dtoi\<close> and \<open>xtoi\<close> return the number and the rest of the text; \<open>None\<close> is failure.\<close>

fun dtoi_loop :: "nat \<Rightarrow> bool \<Rightarrow> string \<Rightarrow> (nat \<times> string) option" where
  "dtoi_loop n some [] = (if some then Some (n, []) else None)"
| "dtoi_loop n some (c # cs) =
     (if is_digit c then (let n' = n * 10 + digit_nat c in if n' \<ge> big then None else dtoi_loop n' True cs)
      else if some then Some (n, c # cs) else None)"

definition dtoi :: "string \<Rightarrow> (nat \<times> string) option" where
  "dtoi s = dtoi_loop 0 False s"

definition hex_val :: "char \<Rightarrow> nat option" where
  "hex_val c =
     (let x = of_char c :: nat in
      if 48 \<le> x \<and> x \<le> 57 then Some (x - 48)
      else if 97 \<le> x \<and> x \<le> 102 then Some (x - 97 + 10)
      else if 65 \<le> x \<and> x \<le> 70 then Some (x - 65 + 10)
      else None)"

fun xtoi_loop :: "nat \<Rightarrow> bool \<Rightarrow> string \<Rightarrow> (nat \<times> string) option" where
  "xtoi_loop n some [] = (if some then Some (n, []) else None)"
| "xtoi_loop n some (c # cs) =
     (case hex_val c of
        Some d \<Rightarrow> (let n' = n * 16 + d in if n' \<ge> big then None else xtoi_loop n' True cs)
      | None \<Rightarrow> if some then Some (n, c # cs) else None)"

definition xtoi :: "string \<Rightarrow> (nat \<times> string) option" where
  "xtoi s = xtoi_loop 0 False s"

section \<open>Parsing\<close>

fun parse4_loop :: "nat \<Rightarrow> bool \<Rightarrow> string \<Rightarrow> u8 list option" where
  "parse4_loop 0 fst_field s = (if s = [] then Some [] else None)"
| "parse4_loop (Suc k) fst_field s =
     (let s' = (if fst_field then Some s
                else case s of CHR ''.'' # cs \<Rightarrow> Some cs | _ \<Rightarrow> None)
      in case s' of
           None \<Rightarrow> None
         | Some t \<Rightarrow>
             (case dtoi t of
                None \<Rightarrow> None
              | Some (n, rest) \<Rightarrow>
                  if n > 255 then None
                  else map_option (\<lambda>bs. of_nat n # bs) (parse4_loop k False rest)))"

text \<open>The four bytes of an IPv4 address; Go's \<open>parseIPv4\<close> returns them in the 16-byte form.\<close>

definition parseIPv4 :: "string \<Rightarrow> ip option" where
  "parseIPv4 s = map_option (\<lambda>b. v4InV6Prefix @ b) (parse4_loop 4 True s)"

text \<open>
  The loop of \<open>parseIPv6\<close>: \<open>k\<close> 16-bit groups are left, \<open>acc\<close> holds the bytes read and \<open>ell\<close> the
  position of \<^verbatim>\<open>::\<close>. It returns the bytes, the position and the unread text.
\<close>

fun parse6_loop :: "nat \<Rightarrow> u8 list \<Rightarrow> nat option \<Rightarrow> string \<Rightarrow> (u8 list \<times> nat option \<times> string) option" where
  "parse6_loop 0 acc ell s = Some (acc, ell, s)"
| "parse6_loop (Suc k) acc ell s =
     (case xtoi s of
        None \<Rightarrow> None
      | Some (n, rest) \<Rightarrow>
          if n > 0xFFFF then None
          else if rest \<noteq> [] \<and> hd rest = CHR ''.'' then
            (if ell = None \<and> length acc \<noteq> 12 then None
             else if length acc + 4 > 16 then None
             else case parse4_loop 4 True s of
                    None \<Rightarrow> None
                  | Some b \<Rightarrow> Some (acc @ b, ell, []))
          else
            (let acc' = acc @ [of_nat (n div 256), of_nat n] in
             case rest of
               [] \<Rightarrow> Some (acc', ell, [])
             | [_] \<Rightarrow> None
             | c # d # t \<Rightarrow>
                 if c \<noteq> CHR '':'' then None
                 else if d = CHR '':'' then
                   (if ell \<noteq> None then None
                    else if t = [] then Some (acc', Some (length acc'), [])
                    else parse6_loop k acc' (Some (length acc')) t)
                 else parse6_loop k acc' ell (d # t)))"

definition parse6_finish :: "u8 list \<times> nat option \<times> string \<Rightarrow> ip option" where
  "parse6_finish r =
     (case r of (acc, ell, s) \<Rightarrow>
        if s \<noteq> [] then None
        else if length acc < 16 then
          (case ell of
             None \<Rightarrow> None
           | Some e \<Rightarrow> Some (take e acc @ replicate (16 - length acc) 0 @ drop e acc))
        else if ell \<noteq> None then None
        else Some acc)"

definition parseIPv6 :: "string \<Rightarrow> ip option" where
  "parseIPv6 s =
     (case s of
        CHR '':'' # CHR '':'' # t \<Rightarrow>
          if t = [] then Some (replicate 16 0)
          else Option.bind (parse6_loop 8 [] (Some 0) t) parse6_finish
      | _ \<Rightarrow> Option.bind (parse6_loop 8 [] None s) parse6_finish)"

definition ParseIP :: "string \<Rightarrow> ip option" where
  "ParseIP s =
     (case find (\<lambda>c. c = CHR ''.'' \<or> c = CHR '':'') s of
        None \<Rightarrow> None
      | Some c \<Rightarrow> if c = CHR ''.'' then parseIPv4 s else parseIPv6 s)"

section \<open>Networks\<close>

text \<open>Byte \<open>i\<close> of \<open>CIDRMask(ones, bits)\<close>.\<close>

definition mask_byte :: "nat \<Rightarrow> nat \<Rightarrow> u8" where
  "mask_byte ones i = (if 8 * (i + 1) \<le> ones then 255
     else if ones \<le> 8 * i then 0
     else of_nat (256 - 2 ^ (8 - (ones - 8 * i))))"

definition CIDRMask :: "nat \<Rightarrow> nat \<Rightarrow> u8 list" where
  "CIDRMask ones bits = map (mask_byte ones) [0..<bits div 8]"

definition mask_ip :: "ip \<Rightarrow> u8 list \<Rightarrow> ip" where
  "mask_ip a m = map (\<lambda>(x, y). x AND y) (zip a m)"

record IPNet =
  net_IP :: ip
  net_ones :: nat

text \<open>
  \<open>ParseCIDR\<close>: \<open>ip.Mask(m)\<close> of an IPv4 address with a 4-byte mask is the 4-byte form. The mask is
  kept as its prefix length.
\<close>

definition ParseCIDR :: "string \<Rightarrow> IPNet option" where
  "ParseCIDR s =
     (case dropWhile (\<lambda>c. c \<noteq> CHR ''/'') s of
        [] \<Rightarrow> None
      | _ # maskText \<Rightarrow>
          (let addr = takeWhile (\<lambda>c. c \<noteq> CHR ''/'') s in
           case dtoi maskText of
             Some (n, []) \<Rightarrow>
               (case parse4_loop 4 True addr of
                  Some b \<Rightarrow> if n > 32 then None
                            else Some \<lparr>net_IP = mask_ip b (CIDRMask n 32), net_ones = n\<rparr>
                | None \<Rightarrow>
                    (case parseIPv6 addr of
                       Some b \<Rightarrow> if n > 128 then None
                                 else Some \<lparr>net_IP = mask_ip b (CIDRMask n 128), net_ones = n\<rparr>
                     | None \<Rightarrow> None))
           | _ \<Rightarrow> None))"

section \<open>Printing\<close>

function Itoa_nat :: "nat \<Rightarrow> string" where
  "Itoa_nat n = (if n < 10 then [char_of (48 + n)] else Itoa_nat (n div 10) @ [char_of (48 + n mod 10)])"
  by pat_completeness auto
termination by (relation "measure id") auto

declare Itoa_nat.simps [simp del]

definition ip4_String :: "u8 list \<Rightarrow> string" where
  "ip4_String b =
     Itoa_nat (unat (b ! 0)) @ ''.'' @ Itoa_nat (unat (b ! 1)) @ ''.'' @
     Itoa_nat (unat (b ! 2)) @ ''.'' @ Itoa_nat (unat (b ! 3))"

definition hex_digit :: "nat \<Rightarrow> char" where
  "hex_digit d = (if d < 10 then char_of (48 + d) else char_of (87 + d))"

text \<open>A 16-bit group without leading zeros, and the groups of an address.\<close>

definition hex_group :: "nat \<Rightarrow> string" where
  "hex_group g =
     (let ds = [g div 4096, g div 256 mod 16, g div 16 mod 16, g mod 16];
          ds' = dropWhile (\<lambda>d. d = 0) ds
      in map hex_digit (if ds' = [] then [0] else ds'))"

definition ip_groups :: "ip \<Rightarrow> nat list" where
  "ip_groups a = map (\<lambda>i. unat (a ! (2 * i)) * 256 + unat (a ! (2 * i + 1))) [0..<8]"

definition zero_run :: "nat list \<Rightarrow> nat \<Rightarrow> nat" where
  "zero_run gs i = length (takeWhile (\<lambda>g. g = 0) (drop i gs))"

text \<open>The first longest run of zero groups, if it has at least two groups.\<close>

definition longest_run :: "nat list \<Rightarrow> (nat \<times> nat) option" where
  "longest_run gs =
     (let best = Max (set (0 # map (zero_run gs) [0..<length gs])) in
      if best < 2 then None
      else map_option (\<lambda>i. (i, best)) (find (\<lambda>i. zero_run gs i = best) [0..<length gs]))"

fun join_groups :: "string list \<Rightarrow> string" where
  "join_groups [] = []"
| "join_groups [g] = g"
| "join_groups (g # gs) = g @ '':'' @ join_groups gs"

definition ip6_String :: "ip \<Rightarrow> string" where
  "ip6_String a =
     (let gs = ip_groups a in
      case longest_run gs of
        None \<Rightarrow> join_groups (map hex_group gs)
      | Some (i, n) \<Rightarrow>
          join_groups (map hex_group (take i gs)) @ ''::'' @ join_groups (map hex_group (drop (i + n) gs)))"

definition ip_String :: "ip \<Rightarrow> string" where
  "ip_String a = (case To4 a of Some b \<Rightarrow> ip4_String b | None \<Rightarrow> ip6_String a)"

definition IPNet_String :: "IPNet \<Rightarrow> string" where
  "IPNet_String n = ip_String (net_IP n) @ ''/'' @ Itoa_nat (net_ones n)"

section \<open>Lengths and the round trip of IPv4 addresses\<close>

lemma parse4_loop_length: "parse4_loop k b s = Some bs \<Longrightarrow> length bs = k"
  by (induction k b s arbitrary: bs rule: parse4_loop.induct)
     (auto simp: Let_def split: if_splits option.splits list.splits)

lemma parseIPv4_length: "parseIPv4 s = Some a \<Longrightarrow> length a = 16"
  by (auto simp: parseIPv4_def dest: parse4_loop_length)

lemma parse6_loop_length:
  "parse6_loop k acc ell s = Some (acc', r) \<Longrightarrow> length acc + 2 * k \<le> 16 \<Longrightarrow> length acc' \<le> 16"
proof (induction k arbitrary: acc ell s acc' r)
  case (Suc k)
  obtain n rest where x: "xtoi s = Some (n, rest)" and n: "\<not> n > 0xFFFF"
    using Suc.prems(1) by (auto split: option.splits if_splits)
  show ?case
  proof (cases "rest \<noteq> [] \<and> hd rest = CHR ''.''")
    case True
    then show ?thesis using Suc.prems x n
      by (auto split: if_splits option.splits dest: parse4_loop_length)
  next
    case False
    then show ?thesis using Suc.prems x n Suc.IH [of "acc @ [of_nat (n div 256), of_nat n]"]
      by (auto simp: Let_def simp del: parse4_loop.simps split: if_splits list.splits)
  qed
qed simp

lemma parse6_finish_length:
  "parse6_finish (acc, ell, s) = Some a \<Longrightarrow> length acc \<le> 16 \<Longrightarrow> length a = 16"
  by (auto simp: parse6_finish_def split: if_splits option.splits)

lemma parseIPv6_length: "parseIPv6 s = Some a \<Longrightarrow> length a = 16"
proof -
  have step: "length a = 16" if "Option.bind (parse6_loop 8 [] ell t) parse6_finish = Some a" for ell t
  proof -
    from that obtain acc ell' s' where "parse6_loop 8 [] ell t = Some (acc, ell', s')" "parse6_finish (acc, ell', s') = Some a"
      by (auto simp: Option.bind_eq_Some_conv)
    then show ?thesis using parse6_loop_length [of 8 "[]" ell t acc "(ell', s')"] parse6_finish_length by auto
  qed
  assume "parseIPv6 s = Some a"
  then show ?thesis unfolding parseIPv6_def using step by (auto split: list.splits char.splits bool.splits if_splits)
qed

lemma ParseIP_length: "ParseIP s = Some a \<Longrightarrow> length a = 16"
  by (auto simp: ParseIP_def parseIPv4_length parseIPv6_length split: option.splits if_splits)

lemma digit_chars:
  assumes "d < 10"
  shows "is_digit (char_of (48 + d))" "digit_nat (char_of (48 + d)) = d"
  using assms by (simp_all add: is_digit_def digit_nat_def)

lemma dtoi_loop_digits:
  assumes "n < big" "rest = [] \<or> \<not> is_digit (hd rest)"
  shows "dtoi_loop 0 False (Itoa_nat n @ t) = dtoi_loop n True t"
proof -
  have gen: "n < big \<Longrightarrow> dtoi_loop 0 b (Itoa_nat n @ t) = dtoi_loop n True t" for n b t
  proof (induction n arbitrary: b t rule: Itoa_nat.induct)
    case (1 n)
    show ?case
    proof (cases "n < 10")
      case True
      then show ?thesis using 1 digit_chars [of n] by (subst Itoa_nat.simps) (simp add: Let_def big_def)
    next
      case False
      have "n div 10 < big" using 1 by linarith
      with False 1 have "dtoi_loop 0 b (Itoa_nat n @ t) = dtoi_loop (n div 10) True (char_of (48 + n mod 10) # t)"
        by (subst Itoa_nat.simps) simp
      also have "\<dots> = dtoi_loop n True t"
        using digit_chars [of "n mod 10"] 1 by (simp add: Let_def)
      finally show ?thesis .
    qed
  qed
  show ?thesis using gen [OF assms(1)] .
qed

lemma dtoi_Itoa:
  assumes "n < big" "t = [] \<or> \<not> is_digit (hd t)"
  shows "dtoi (Itoa_nat n @ t) = Some (n, t)"
  using dtoi_loop_digits [OF assms, of t] assms(2) by (cases t) (simp_all add: dtoi_def)

lemma dot_not_digit [simp]: "\<not> is_digit CHR ''.''"
  by (simp add: is_digit_def)

lemma parse4_ip4_String:
  assumes "length b = 4"
  shows "parse4_loop 4 True (ip4_String b) = Some b"
proof -
  from assms obtain b0 b1 b2 b3 where b: "b = [b0, b1, b2, b3]"
    by (auto simp: numeral_eq_Suc length_Suc_conv)
  have lt: "unat x < big" "\<not> unat x > 255" for x :: u8
    using unsigned_less [of x, where ?'a = nat] by (simp_all add: big_def)
  have e: "dtoi (Itoa_nat (unat x)) = Some (unat x, [])" for x :: u8
    using dtoi_Itoa [OF lt(1), of "[]" x] by simp
  have four: "(4 :: nat) = Suc (Suc (Suc (Suc 0)))" by simp
  show ?thesis unfolding four
    by (simp add: b ip4_String_def dtoi_Itoa lt e Let_def)
qed

end
