(* ===== verification/Httpcmd.thy ===== *)
theory Httpcmd
  imports Vg_Prelude
begin

text \<open>
  The command channel, \<open>httpcmd/\<close>: errors with their codes (\<open>errcode.go\<close>, \<open>generalerror.go\<close>,
  \<open>innererror.go\<close>), tasks and results (\<open>task.go\<close>), the dispatcher that finds the handler of a
  command (\<open>dispatcher.go\<close>) and the service that runs it and recovers from its panics
  (\<open>server.go\<close>). The locale \<open>command_handler\<close> is the contract of a handler: its invariant holds
  after every command, also after one that panics. The service then keeps the invariant over every
  sequence of tasks.
\<close>

section \<open>Errors\<close>

record cmd_error =
  Code :: int
  Info :: string

definition NewError :: "int \<Rightarrow> string \<Rightarrow> cmd_error" where
  "NewError c i = \<lparr>Code = c, Info = i\<rparr>"

definition AddDetail :: "cmd_error \<Rightarrow> string \<Rightarrow> cmd_error" where
  "AddDetail e i = NewError (Code e) (Info e @ '':'' @ i)"

definition InnerErrCodeStart :: int where "InnerErrCodeStart = 0"
definition GeneralErrCodeStart :: int where "GeneralErrCodeStart = 100"
definition ServerErrCodeStart :: int where "ServerErrCodeStart = 300"
definition AclErrCodeStart :: int where "AclErrCodeStart = 400"
definition ViewSelectorErrCodeStart :: int where "ViewSelectorErrCodeStart = 500"
definition AuthErrCodeStart :: int where "AuthErrCodeStart = 600"
definition CacheErrCodeStart :: int where "CacheErrCodeStart = 700"
definition ForwarderErrCodeStart :: int where "ForwarderErrCodeStart = 800"
definition RateLimitErrCodeStart :: int where "RateLimitErrCodeStart = 1000"
definition StubZoneErrCodeStart :: int where "StubZoneErrCodeStart = 1100"
definition DNS64ErrCodeStart :: int where "DNS64ErrCodeStart = 1200"
definition LocalDataErrCodeStart :: int where "LocalDataErrCodeStart = 1300"
definition SortListErrCodeStart :: int where "SortListErrCodeStart = 1400"
definition FailForwarderErrCodeStart :: int where "FailForwarderErrCodeStart = 1500"
definition QuerySourceErrCodeStart :: int where "QuerySourceErrCodeStart = 1600"

lemmas err_code_starts = InnerErrCodeStart_def GeneralErrCodeStart_def ServerErrCodeStart_def
  AclErrCodeStart_def ViewSelectorErrCodeStart_def AuthErrCodeStart_def CacheErrCodeStart_def
  ForwarderErrCodeStart_def RateLimitErrCodeStart_def StubZoneErrCodeStart_def DNS64ErrCodeStart_def
  LocalDataErrCodeStart_def SortListErrCodeStart_def FailForwarderErrCodeStart_def
  QuerySourceErrCodeStart_def

definition ErrUnknownView :: cmd_error where
  "ErrUnknownView = NewError GeneralErrCodeStart ''view doesn't exists''"
definition ErrInvalidName :: cmd_error where
  "ErrInvalidName = NewError (GeneralErrCodeStart + 1) ''domain name isn't valid''"
definition ErrUnknownRRType :: cmd_error where
  "ErrUnknownRRType = NewError (GeneralErrCodeStart + 2) ''unknown rr type''"
definition ErrInvalidRR :: cmd_error where
  "ErrInvalidRR = NewError (GeneralErrCodeStart + 3) ''rr isn't valid''"
definition ErrInvalidNetwork :: cmd_error where
  "ErrInvalidNetwork = NewError (GeneralErrCodeStart + 4) ''network isn't valid''"

definition ErrBatchCmdNotSupport :: cmd_error where
  "ErrBatchCmdNotSupport = NewError InnerErrCodeStart ''batch cmd isn't supported''"
definition ErrUnknownCmd :: cmd_error where
  "ErrUnknownCmd = NewError (InnerErrCodeStart + 1) ''cmd is unknown''"
definition ErrAssertFailed :: cmd_error where
  "ErrAssertFailed = NewError (InnerErrCodeStart + 4) ''assert failed, inner panic''"

section \<open>Tasks\<close>

definition Succeed :: int where "Succeed = 200"
definition InnerError :: int where "InnerError = 500"

text \<open>\<open>Result\<close> is an \<open>interface{}\<close>: nothing, the value of the handler, or the error.\<close>

datatype 'r result_value = RNil | RValue 'r | RError cmd_error

record 'r TaskResult =
  tr_Code :: int
  tr_Result :: "'r result_value"

definition task_FailedWithStatus :: "cmd_error \<Rightarrow> int \<Rightarrow> 'r TaskResult" where
  "task_FailedWithStatus e c = \<lparr>tr_Code = c, tr_Result = RError e\<rparr>"

definition task_Failed :: "cmd_error \<Rightarrow> 'r TaskResult" where
  "task_Failed e = task_FailedWithStatus e InnerError"

definition task_Succeed :: "'r TaskResult" where
  "task_Succeed = \<lparr>tr_Code = Succeed, tr_Result = RNil\<rparr>"

definition task_SucceedWithResult :: "'r \<Rightarrow> 'r TaskResult" where
  "task_SucceedWithResult r = \<lparr>tr_Code = Succeed, tr_Result = RValue r\<rparr>"

definition IsSucceed :: "'r TaskResult \<Rightarrow> bool" where
  "IsSucceed r \<longleftrightarrow> tr_Code r = Succeed"

section \<open>Dispatcher\<close>

text \<open>
  \<open>StructName\<close> is the type name of a command (package \<open>reflector\<close>), the key of the handler map.
\<close>

record ('c, 'h) CmdDispatcher =
  cmdHandlers :: "string \<rightharpoonup> 'h"
  supportedCmds :: "'c list"

definition newCmdDispatcher :: "('c, 'h) CmdDispatcher" where
  "newCmdDispatcher = \<lparr>cmdHandlers = Map.empty, supportedCmds = []\<rparr>"

definition getHandler :: "('c \<Rightarrow> string) \<Rightarrow> ('c, 'h) CmdDispatcher \<Rightarrow> 'c \<Rightarrow> 'h option" where
  "getHandler StructName d c = cmdHandlers d (StructName c)"

definition RegisterHandler ::
  "('c \<Rightarrow> string) \<Rightarrow> 'h \<Rightarrow> 'c list \<Rightarrow> ('c, 'h) CmdDispatcher \<Rightarrow> ('c, 'h) CmdDispatcher" where
  "RegisterHandler StructName handler cmds d =
     d\<lparr>supportedCmds := supportedCmds d @ cmds,
       cmdHandlers := fold (\<lambda>n m. m(n \<mapsto> handler)) (map StructName cmds) (cmdHandlers d)\<rparr>"

definition ClearHandler :: "('c, 'h) CmdDispatcher \<Rightarrow> ('c, 'h) CmdDispatcher" where
  "ClearHandler d = d\<lparr>cmdHandlers := Map.empty\<rparr>"

lemma fold_upd_const: "fold (\<lambda>n m. m(n \<mapsto> h)) ns m k = (if k \<in> set ns then Some h else m k)"
  by (induction ns arbitrary: m) auto

lemma getHandler_RegisterHandler [simp]:
  "getHandler sn (RegisterHandler sn h cmds d) c =
     (if sn c \<in> sn ` set cmds then Some h else getHandler sn d c)"
  by (simp add: getHandler_def RegisterHandler_def fold_upd_const)

section \<open>Command service\<close>

text \<open>
  A run of \<open>HandleCmd\<close> on a state ends with the state it leaves and either the two return values or
  a panic with its message.
\<close>

datatype 'r cmd_outcome = Returns "'r option" "cmd_error option" | Panics string

type_synonym ('s, 'c, 'r) handler_fun = "'s \<Rightarrow> 'c \<Rightarrow> 's \<times> 'r cmd_outcome"

definition safeRunCommand ::
  "('s, 'c, 'r) handler_fun \<Rightarrow> 's \<Rightarrow> 'c \<Rightarrow> 's \<times> 'r option \<times> cmd_error option" where
  "safeRunCommand handler s c =
     (case handler s c of
        (s', Panics p) \<Rightarrow> (s', None, Some (AddDetail ErrAssertFailed p))
      | (s', Returns result err) \<Rightarrow> (s', result, err))"

definition HandleTask ::
  "('c \<Rightarrow> string) \<Rightarrow> ('c, ('s, 'c, 'r) handler_fun) CmdDispatcher \<Rightarrow> 's \<Rightarrow> 'c list \<Rightarrow> 's \<times> 'r TaskResult"
where
  "HandleTask StructName d s cmds =
     (case cmds of
        [c] \<Rightarrow>
          (case getHandler StructName d c of
             None \<Rightarrow> (s, task_Failed ErrUnknownCmd)
           | Some handler \<Rightarrow>
               (case safeRunCommand handler s c of
                  (s', result, Some err) \<Rightarrow> (s', task_Failed err)
                | (s', Some r, None) \<Rightarrow> (s', task_SucceedWithResult r)
                | (s', None, None) \<Rightarrow> (s', task_Succeed)))
      | _ \<Rightarrow> (s, task_Failed ErrBatchCmdNotSupport))"

lemmas task_defs = task_Failed_def task_FailedWithStatus_def task_Succeed_def
  task_SucceedWithResult_def IsSucceed_def Succeed_def InnerError_def

section \<open>The contract of a handler\<close>

locale command_handler =
  fixes handle :: "'s \<Rightarrow> 'c \<Rightarrow> 's \<times> 'r cmd_outcome"
    and inv :: "'s \<Rightarrow> bool"
  assumes handle_inv: "inv s \<Longrightarrow> handle s c = (s', out) \<Longrightarrow> inv s'"
begin

lemma safeRun_inv: "inv s \<Longrightarrow> inv (fst (safeRunCommand handle s c))"
  by (cases "handle s c") (auto simp: safeRunCommand_def intro: handle_inv split: cmd_outcome.splits)

lemma HandleTask_inv:
  assumes "inv s" "\<And>c h. getHandler sn d c = Some h \<Longrightarrow> h = handle"
  shows "inv (fst (HandleTask sn d s cmds))"
proof (cases cmds)
  case Nil
  with assms(1) show ?thesis by (simp add: HandleTask_def)
next
  case (Cons c cs)
  show ?thesis
  proof (cases "cs = [] \<and> getHandler sn d c \<noteq> None")
    case True
    then have "getHandler sn d c = Some handle" using assms(2) by auto
    then show ?thesis using safeRun_inv [OF assms(1), of c] True Cons
      by (cases "safeRunCommand handle s c") (auto simp: HandleTask_def split: option.splits)
  next
    case False
    then show ?thesis using assms(1) Cons by (auto simp: HandleTask_def split: list.splits)
  qed
qed

lemma tasks_inv:
  assumes "inv s" "\<And>c h. getHandler sn d c = Some h \<Longrightarrow> h = handle"
  shows "inv (fold (\<lambda>t s. fst (HandleTask sn d s t)) ts s)"
  using assms(1) by (induction ts arbitrary: s) (simp_all add: HandleTask_inv assms(2))

end

section \<open>Properties\<close>

text \<open>
  C11. The command service answers every task and reports success (status 200) exactly when the task is
  a single command with a registered handler that returns without an error. A panic of the handler is
  recovered and reported as the assertion error, with the state the handler left.
\<close>

theorem HandleTask_outcome:
  "IsSucceed (snd (HandleTask sn d s cmds)) \<longleftrightarrow>
     (\<exists>c h s' r. cmds = [c] \<and> getHandler sn d c = Some h \<and> h s c = (s', Returns r None))"
proof (cases "\<exists>c h. cmds = [c] \<and> getHandler sn d c = Some h")
  case True
  then obtain c h where c: "cmds = [c]" "getHandler sn d c = Some h" by blast
  obtain s' out where h: "h s c = (s', out)" by fastforce
  show ?thesis using c h
    by (cases out) (auto simp: HandleTask_def safeRunCommand_def task_defs split: option.splits)
next
  case False
  then show ?thesis by (auto simp: HandleTask_def task_defs split: list.splits option.splits)
qed

end
