(* ===== verification/Rate_Limit.thy ===== *)
theory Rate_Limit
  imports Lru Go_Net Dns Httpcmd
begin

text \<open>
  Rate limiting, \<open>filter/ratelimit/\<close>: the access record of an address and of a name
  (\<open>ip_access_record.go\<close>, \<open>name_access_record.go\<close>), the bounded store of address records, the two
  throttlers (\<open>ip_throtter.go\<close>, \<open>name_throtter.go\<close>) and their commands (\<open>cmdhandler.go\<close>). The
  locale \<open>access_record\<close> is the contract of a record; it bounds the number of accesses that are
  granted within a second. \<open>time.Now()\<close> is the argument \<open>now\<close>.
\<close>

section \<open>The record of an address\<close>

record IPAccessRecord =
  ipr_ip :: ip
  ipr_token :: u32
  ipr_start :: instant

definition ipr_Init :: "instant \<Rightarrow> IPAccessRecord \<Rightarrow> IPAccessRecord" where
  "ipr_Init now r = r\<lparr>ipr_token := 1, ipr_start := now\<rparr>"

definition newIPAccessRecord :: "instant \<Rightarrow> ip \<Rightarrow> IPAccessRecord" where
  "newIPAccessRecord now a = ipr_Init now \<lparr>ipr_ip = a, ipr_token = 0, ipr_start = 0\<rparr>"

definition ipr_Expired :: "instant \<Rightarrow> IPAccessRecord \<Rightarrow> bool" where
  "ipr_Expired now r \<longleftrightarrow> time_Sub now (ipr_start r) > Second"

definition ipr_IsAccessAllowed :: "u32 \<Rightarrow> instant \<Rightarrow> IPAccessRecord \<Rightarrow> bool \<times> IPAccessRecord" where
  "ipr_IsAccessAllowed limit now r =
     (if ipr_Expired now r then (True, ipr_Init now r)
      else if ipr_token r + 1 > limit then (False, r)
      else (True, r\<lparr>ipr_token := ipr_token r + 1\<rparr>))"

section \<open>The store of address records\<close>

text \<open>The two index maps of the store have keys of two types; \<open>ip_key\<close> is their sum.\<close>

datatype ip_key = K4 u32 | K6 "u8 list"

definition ipToV6Key :: "ip \<Rightarrow> u8 list" where
  "ipToV6Key a = (case To16 a of Some b \<Rightarrow> b | None \<Rightarrow> replicate 16 0)"

text \<open>Little endian; the four bytes of \<open>To4\<close> are the argument.\<close>

definition ipToUint32 :: "u8 list \<Rightarrow> u32" where
  "ipToUint32 b =
     of_nat (unat (b ! 0) + unat (b ! 1) * 2 ^ 8 + unat (b ! 2) * 2 ^ 16 + unat (b ! 3) * 2 ^ 24)"

definition ipKey :: "ip \<Rightarrow> ip_key" where
  "ipKey a = (case To4 a of Some b \<Rightarrow> K4 (ipToUint32 b) | None \<Rightarrow> K6 (ipToV6Key a))"

record IPAccessRecordStore =
  MaxCount :: nat
  st_ll :: "IPAccessRecord golist"
  v4Records :: "u32 \<rightharpoonup> nat"
  v6Records :: "u8 list \<rightharpoonup> nat"

definition newIPAccessRecordStore :: "nat \<Rightarrow> IPAccessRecordStore" where
  "newIPAccessRecordStore n =
     \<lparr>MaxCount = n, st_ll = list_New, v4Records = Map.empty, v6Records = Map.empty\<rparr>"

definition store_getElem :: "IPAccessRecordStore \<Rightarrow> ip \<Rightarrow> nat option" where
  "store_getElem c a =
     (case To4 a of Some b \<Rightarrow> v4Records c (ipToUint32 b) | None \<Rightarrow> v6Records c (ipToV6Key a))"

definition store_removeElement :: "nat \<Rightarrow> IPAccessRecordStore \<Rightarrow> IPAccessRecordStore" where
  "store_removeElement e c =
     (case elem_value e (st_ll c) of
        None \<Rightarrow> c
      | Some r \<Rightarrow>
          (let c' = c\<lparr>st_ll := list_Remove e (st_ll c)\<rparr> in
           case To4 (ipr_ip r) of
             Some b \<Rightarrow> c'\<lparr>v4Records := (v4Records c')(ipToUint32 b := None)\<rparr>
           | None \<Rightarrow> c'\<lparr>v6Records := (v6Records c')(ipToV6Key (ipr_ip r) := None)\<rparr>))"

definition store_removeOldest :: "IPAccessRecordStore \<Rightarrow> IPAccessRecordStore" where
  "store_removeOldest c =
     (case list_Back (st_ll c) of None \<Rightarrow> c | Some e \<Rightarrow> store_removeElement e c)"

definition store_Add :: "IPAccessRecord \<Rightarrow> IPAccessRecordStore \<Rightarrow> IPAccessRecordStore" where
  "store_Add r c =
     (case store_getElem c (ipr_ip r) of
        Some e \<Rightarrow> c\<lparr>st_ll := elem_set_value e r (list_MoveToFront e (st_ll c))\<rparr>
      | None \<Rightarrow>
          (let (e, l) = list_PushFront r (st_ll c);
               c1 = c\<lparr>st_ll := l\<rparr>;
               c2 = (case To4 (ipr_ip r) of
                       Some b \<Rightarrow> c1\<lparr>v4Records := (v4Records c1)(ipToUint32 b \<mapsto> e)\<rparr>
                     | None \<Rightarrow> c1\<lparr>v6Records := (v6Records c1)(ipToV6Key (ipr_ip r) \<mapsto> e)\<rparr>)
           in if MaxCount c2 \<noteq> 0 \<and> list_Len (st_ll c2) > MaxCount c2 then store_removeOldest c2 else c2))"

text \<open>\<open>Get\<close> returns the element, so that the caller can change the record through its pointer.\<close>

definition store_Get :: "ip \<Rightarrow> IPAccessRecordStore \<Rightarrow> (nat \<times> IPAccessRecord) option \<times> IPAccessRecordStore" where
  "store_Get a c =
     (case store_getElem c a of
        None \<Rightarrow> (None, c)
      | Some e \<Rightarrow>
          (let l = list_MoveToFront e (st_ll c)
           in (map_option (\<lambda>r. (e, r)) (elem_value e l), c\<lparr>st_ll := l\<rparr>)))"

definition store_Remove :: "ip \<Rightarrow> IPAccessRecordStore \<Rightarrow> IPAccessRecordStore" where
  "store_Remove a c = (case store_getElem c a of None \<Rightarrow> c | Some e \<Rightarrow> store_removeElement e c)"

definition store_Len :: "IPAccessRecordStore \<Rightarrow> nat" where
  "store_Len c = list_Len (st_ll c)"

section \<open>The throttler of addresses\<close>

definition maxIPAccessRecordCount :: nat where "maxIPAccessRecordCount = 5000"

record 't throttlerEntry =
  te_records :: IPAccessRecordStore
  te_networks :: 't

record NetworkLimitConf =
  nl_Network :: string
  nl_Limit :: u32

fun loadNetworks :: "('t, u32) netradix \<Rightarrow> NetworkLimitConf list \<Rightarrow> 't \<Rightarrow> 't may_panic" where
  "loadNetworks N [] t = Some t"
| "loadNetworks N (l # ls) t =
     (case nr_Add N t (nl_Network l) (nl_Limit l) of
        Inl err \<Rightarrow> None
      | Inr t' \<Rightarrow> loadNetworks N ls t')"

definition ip_ReloadConfig :: "('t, u32) netradix \<Rightarrow> NetworkLimitConf list \<Rightarrow> 't throttlerEntry may_panic" where
  "ip_ReloadConfig N conf =
     map_option (\<lambda>nets. \<lparr>te_records = newIPAccessRecordStore maxIPAccessRecordCount, te_networks = nets\<rparr>)
       (loadNetworks N conf (NewNetRadixTree N))"

definition isIpAllowed ::
  "('t, u32) netradix \<Rightarrow> instant \<Rightarrow> ip \<Rightarrow> 't throttlerEntry \<Rightarrow> bool \<times> 't throttlerEntry" where
  "isIpAllowed N now a t =
     (case nr_SearchBest N (te_networks t) a of
        None \<Rightarrow> (True, t)
      | Some limit \<Rightarrow>
          (case store_Get a (te_records t) of
             (None, c) \<Rightarrow> (True, t\<lparr>te_records := store_Add (newIPAccessRecord now a) c\<rparr>)
           | (Some (e, r), c) \<Rightarrow>
               (case ipr_IsAccessAllowed limit now r of
                  (allowed, r') \<Rightarrow>
                    (allowed, t\<lparr>te_records := c\<lparr>st_ll := elem_set_value e r' (st_ll c)\<rparr>\<rparr>))))"

datatype ip_limit_cmd =
    AddIpRateLimit string u32
  | DeleteIpRateLimit string
  | UpdateIpRateLimit string u32

definition ErrAddIPRateLimitFailed :: cmd_error where
  "ErrAddIPRateLimitFailed = NewError (RateLimitErrCodeStart + 3) ''add ip rate limit failed''"
definition ErrDeleteIPRateLimitFailed :: cmd_error where
  "ErrDeleteIPRateLimitFailed = NewError (RateLimitErrCodeStart + 4) ''delete ip rate limit failed''"
definition ErrUpdateIPRateLimitFailed :: cmd_error where
  "ErrUpdateIPRateLimitFailed = NewError (RateLimitErrCodeStart + 5) ''update ip rate limit failed''"
definition ErrAddNameRateLimitFailed :: cmd_error where
  "ErrAddNameRateLimitFailed = NewError (RateLimitErrCodeStart + 6) ''add name rate limit failed''"
definition ErrUpdateNameRateLimitFailed :: cmd_error where
  "ErrUpdateNameRateLimitFailed = NewError (RateLimitErrCodeStart + 7) ''update name rate limit failed''"

definition cidr_error :: "string \<Rightarrow> string" where
  "cidr_error s = ''invalid CIDR address: '' @ s"

definition addIpRateLimit ::
  "('t, u32) netradix \<Rightarrow> string \<Rightarrow> u32 \<Rightarrow> 't throttlerEntry \<Rightarrow> 't throttlerEntry \<times> cmd_error option" where
  "addIpRateLimit N network limit t =
     (case ParseCIDR network of
        None \<Rightarrow> (t, Some (AddDetail ErrInvalidNetwork (cidr_error network)))
      | Some ipnet \<Rightarrow>
          (case nr_Add N (te_networks t) (IPNet_String ipnet) limit of
             Inl err \<Rightarrow> (t, Some (AddDetail ErrAddIPRateLimitFailed err))
           | Inr nets \<Rightarrow> (t\<lparr>te_networks := nets\<rparr>, None)))"

definition deleteIpRateLimit ::
  "('t, u32) netradix \<Rightarrow> string \<Rightarrow> 't throttlerEntry \<Rightarrow> 't throttlerEntry \<times> cmd_error option" where
  "deleteIpRateLimit N network t =
     (case nr_Delete N (te_networks t) network of
        Inl err \<Rightarrow> (t, Some (AddDetail ErrDeleteIPRateLimitFailed err))
      | Inr nets \<Rightarrow> (t\<lparr>te_networks := nets\<rparr>, None))"

definition updateIpRateLimit ::
  "('t, u32) netradix \<Rightarrow> string \<Rightarrow> u32 \<Rightarrow> 't throttlerEntry \<Rightarrow> 't throttlerEntry \<times> cmd_error option" where
  "updateIpRateLimit N network limit t =
     (case ParseCIDR network of
        None \<Rightarrow> (t, Some (AddDetail ErrInvalidNetwork (cidr_error network)))
      | Some _ \<Rightarrow>
          (case nr_Delete N (te_networks t) network of
             Inl err \<Rightarrow> (t, Some (AddDetail ErrUpdateIPRateLimitFailed err))
           | Inr nets \<Rightarrow>
               (case nr_Add N nets network limit of
                  Inl err \<Rightarrow> (t\<lparr>te_networks := nets\<rparr>, Some (AddDetail ErrUpdateIPRateLimitFailed err))
                | Inr nets' \<Rightarrow> (t\<lparr>te_networks := nets'\<rparr>, None))))"

fun ip_HandleCmd ::
  "('t, u32) netradix \<Rightarrow> 't throttlerEntry \<Rightarrow> ip_limit_cmd \<Rightarrow> 't throttlerEntry \<times> unit cmd_outcome" where
  "ip_HandleCmd N t (AddIpRateLimit network limit) =
     (case addIpRateLimit N network limit t of (t', err) \<Rightarrow> (t', Returns None err))"
| "ip_HandleCmd N t (DeleteIpRateLimit network) =
     (case deleteIpRateLimit N network t of (t', err) \<Rightarrow> (t', Returns None err))"
| "ip_HandleCmd N t (UpdateIpRateLimit network limit) =
     (case updateIpRateLimit N network limit t of (t', err) \<Rightarrow> (t', Returns None err))"

section \<open>The record of a name\<close>

datatype NameMatchType = exactMatch | zoneMatch

record NameAccessRecord =
  nr_token :: u32
  nr_limit :: u32
  nr_start :: instant
  nr_match_type :: NameMatchType

definition newNameAccessRecord :: "NameMatchType \<Rightarrow> u32 \<Rightarrow> NameAccessRecord" where
  "newNameAccessRecord mt limit = \<lparr>nr_token = 0, nr_limit = limit, nr_start = 0, nr_match_type = mt\<rparr>"

definition nr_Init :: "instant \<Rightarrow> NameAccessRecord \<Rightarrow> NameAccessRecord" where
  "nr_Init now r = r\<lparr>nr_token := 1, nr_start := now\<rparr>"

definition nr_Expired :: "instant \<Rightarrow> NameAccessRecord \<Rightarrow> bool" where
  "nr_Expired now r \<longleftrightarrow> time_Sub now (nr_start r) > Second"

definition nr_IsAccessAllowed :: "instant \<Rightarrow> NameAccessRecord \<Rightarrow> bool \<times> NameAccessRecord" where
  "nr_IsAccessAllowed now r0 =
     (let r = (if time_IsZero (nr_start r0) then r0\<lparr>nr_start := now\<rparr> else r0) in
      if nr_Expired now r then (True, nr_Init now r)
      else if nr_token r + 1 > nr_limit r then (False, r)
      else (True, r\<lparr>nr_token := nr_token r + 1\<rparr>))"

section \<open>The throttler of names\<close>

text \<open>The trees hold pointers to the records: \<open>nt_heap\<close> is what they point to.\<close>

record 't NameThrottler =
  viewRecords :: "view \<rightharpoonup> 't"
  nt_heap :: "nat \<rightharpoonup> NameAccessRecord"
  nt_next :: nat

text \<open>The answer of the record at an address; a nil pointer is a panic.\<close>

definition accessAt :: "instant \<Rightarrow> nat \<Rightarrow> 't NameThrottler \<Rightarrow> (bool \<times> 't NameThrottler) may_panic" where
  "accessAt now p t =
     (case nt_heap t p of
        None \<Rightarrow> None
      | Some r \<Rightarrow> (case nr_IsAccessAllowed now r of
                    (allowed, r') \<Rightarrow> Some (allowed, t\<lparr>nt_heap := (nt_heap t)(p \<mapsto> r')\<rparr>)))"

fun closestZone :: "instant \<Rightarrow> nat option list \<Rightarrow> 't NameThrottler \<Rightarrow> (bool \<times> 't NameThrottler) may_panic" where
  "closestZone now [] t = Some (True, t)"
| "closestZone now (None # ps) t = closestZone now ps t"
| "closestZone now (Some p # ps) t =
     (case nt_heap t p of
        None \<Rightarrow> None
      | Some r \<Rightarrow> if nr_match_type r = zoneMatch then accessAt now p t else closestZone now ps t)"

definition IsNameAllowed ::
  "('t, 'n, nat) domaintree \<Rightarrow> instant \<Rightarrow> view \<Rightarrow> 'n \<Rightarrow> 't NameThrottler \<Rightarrow> (bool \<times> 't NameThrottler) may_panic"
where
  "IsNameAllowed D now v name t =
     (case viewRecords t v of
        None \<Rightarrow> Some (True, t)
      | Some records \<Rightarrow>
          (case dt_SearchParents D records name of
             (Some p # _, ExactMatch) \<Rightarrow> accessAt now p t
           | (_, ExactMatch) \<Rightarrow> None
           | (parents, ClosestEncloser) \<Rightarrow> closestZone now parents t
           | (_, NotFound) \<Rightarrow> Some (True, t)))"

text \<open>\<open>strings.HasPrefix(name, "*.")\<close> selects the limit of a zone.\<close>

definition rl_parseName :: "'n g53 \<Rightarrow> string \<Rightarrow> cmd_error + ('n \<times> NameMatchType)" where
  "rl_parseName G name =
     (let (text, mt) = (if take 2 name = ''*.'' then (drop 2 name, zoneMatch) else (name, exactMatch)) in
      case NameFromString G text of
        Inl err \<Rightarrow> Inl (AddDetail ErrInvalidName err)
      | Inr origin \<Rightarrow> Inr (origin, mt))"

text \<open>A new record in the tree of a view.\<close>

definition insertRecord ::
  "('t, 'n, nat) domaintree \<Rightarrow> view \<Rightarrow> 't \<Rightarrow> 'n \<Rightarrow> NameAccessRecord \<Rightarrow> 't NameThrottler \<Rightarrow> string + 't NameThrottler"
where
  "insertRecord D v tree origin r t =
     (case dt_Insert D tree origin (nt_next t) of
        Inl err \<Rightarrow> Inl err
      | Inr tree' \<Rightarrow> Inr (t\<lparr>viewRecords := (viewRecords t)(v \<mapsto> tree'),
                            nt_heap := (nt_heap t)(nt_next t \<mapsto> r), nt_next := Suc (nt_next t)\<rparr>))"

definition doAddNameRateLimit ::
  "'n g53 \<Rightarrow> ('t, 'n, nat) domaintree \<Rightarrow> view \<Rightarrow> 't \<Rightarrow> string \<Rightarrow> u32 \<Rightarrow> 't NameThrottler
   \<Rightarrow> 't NameThrottler \<times> cmd_error option" where
  "doAddNameRateLimit G D v tree name limit t =
     (case rl_parseName G name of
        Inl err \<Rightarrow> (t, Some err)
      | Inr (origin, mt) \<Rightarrow>
          (case insertRecord D v tree origin (newNameAccessRecord mt limit) t of
             Inl err \<Rightarrow> (t, Some (AddDetail ErrAddNameRateLimitFailed err))
           | Inr t' \<Rightarrow> (t', None)))"

record NameLimitConf =
  nlc_Name :: string
  nlc_Limit :: u32

fun loadNames ::
  "'n g53 \<Rightarrow> ('t, 'n, nat) domaintree \<Rightarrow> view \<Rightarrow> NameLimitConf list \<Rightarrow> 't NameThrottler \<Rightarrow> 't NameThrottler may_panic"
where
  "loadNames G D v [] t = Some t"
| "loadNames G D v (l # ls) t =
     (case doAddNameRateLimit G D v (the (viewRecords t v)) (nlc_Name l) (nlc_Limit l) t of
        (t', Some err) \<Rightarrow> None
      | (t', None) \<Rightarrow> loadNames G D v ls t')"

fun loadViewNames ::
  "'n g53 \<Rightarrow> ('t, 'n, nat) domaintree \<Rightarrow> (view \<times> NameLimitConf list) list \<Rightarrow> 't NameThrottler \<Rightarrow> 't NameThrottler may_panic"
where
  "loadViewNames G D [] t = Some t"
| "loadViewNames G D ((v, ls) # vs) t =
     Option.bind (loadNames G D v ls (t\<lparr>viewRecords := (viewRecords t)(v \<mapsto> NewDomainTree D)\<rparr>))
       (loadViewNames G D vs)"

definition name_ReloadConfig ::
  "'n g53 \<Rightarrow> ('t, 'n, nat) domaintree \<Rightarrow> (view \<times> NameLimitConf list) list \<Rightarrow> 't NameThrottler \<Rightarrow> 't NameThrottler may_panic"
where
  "name_ReloadConfig G D conf t = loadViewNames G D conf (t\<lparr>viewRecords := Map.empty\<rparr>)"

datatype name_limit_cmd =
    AddNameRateLimit view string u32
  | DeleteNameRateLimit view string
  | UpdateNameRateLimit view string u32

definition addNameRateLimit ::
  "'n g53 \<Rightarrow> ('t, 'n, nat) domaintree \<Rightarrow> view \<Rightarrow> string \<Rightarrow> u32 \<Rightarrow> 't NameThrottler \<Rightarrow> 't NameThrottler \<times> cmd_error option"
where
  "addNameRateLimit G D v name limit t =
     (case viewRecords t v of
        Some tree \<Rightarrow> doAddNameRateLimit G D v tree name limit t
      | None \<Rightarrow>
          doAddNameRateLimit G D v (NewDomainTree D) name limit
            (t\<lparr>viewRecords := (viewRecords t)(v \<mapsto> NewDomainTree D)\<rparr>))"

definition deleteNameRateLimit ::
  "'n g53 \<Rightarrow> ('t, 'n, nat) domaintree \<Rightarrow> view \<Rightarrow> string \<Rightarrow> 't NameThrottler \<Rightarrow> 't NameThrottler \<times> cmd_error option"
where
  "deleteNameRateLimit G D v name t =
     (case rl_parseName G name of
        Inl err \<Rightarrow> (t, Some (AddDetail ErrInvalidName (Info err)))
      | Inr (origin, _) \<Rightarrow>
          (case viewRecords t v of
             None \<Rightarrow> (t, Some (AddDetail ErrUnknownView v))
           | Some tree \<Rightarrow> (t\<lparr>viewRecords := (viewRecords t)(v \<mapsto> dt_Delete D tree origin)\<rparr>, None)))"

definition updateNameRateLimit ::
  "'n g53 \<Rightarrow> ('t, 'n, nat) domaintree \<Rightarrow> view \<Rightarrow> string \<Rightarrow> u32 \<Rightarrow> 't NameThrottler \<Rightarrow> 't NameThrottler \<times> cmd_error option"
where
  "updateNameRateLimit G D v name limit t =
     (case rl_parseName G name of
        Inl err \<Rightarrow> (t, Some (AddDetail ErrInvalidName (Info err)))
      | Inr (origin, mt) \<Rightarrow>
          (case viewRecords t v of
             None \<Rightarrow> (t, Some (AddDetail ErrUnknownView v))
           | Some tree \<Rightarrow>
               (let tree' = dt_Delete D tree origin;
                    t' = t\<lparr>viewRecords := (viewRecords t)(v \<mapsto> tree')\<rparr>
                in case insertRecord D v tree' origin (newNameAccessRecord mt limit) t' of
                     Inl err \<Rightarrow> (t', Some (AddDetail ErrUpdateNameRateLimitFailed err))
                   | Inr t'' \<Rightarrow> (t'', None))))"

fun name_HandleCmd ::
  "'n g53 \<Rightarrow> ('t, 'n, nat) domaintree \<Rightarrow> 't NameThrottler \<Rightarrow> name_limit_cmd \<Rightarrow> 't NameThrottler \<times> unit cmd_outcome"
where
  "name_HandleCmd G D t (AddNameRateLimit v n l) =
     (case addNameRateLimit G D v n l t of (t', err) \<Rightarrow> (t', Returns None err))"
| "name_HandleCmd G D t (DeleteNameRateLimit v n) =
     (case deleteNameRateLimit G D v n t of (t', err) \<Rightarrow> (t', Returns None err))"
| "name_HandleCmd G D t (UpdateNameRateLimit v n l) =
     (case updateNameRateLimit G D v n l t of (t', err) \<Rightarrow> (t', Returns None err))"

section \<open>The contract of an access record\<close>

text \<open>
  \<open>used\<close> counts the accesses of the current window, which began at \<open>since\<close> (\<open>None\<close> before the first
  access), and \<open>quota\<close> bounds it. An access after the end of the window opens a new one.
\<close>

locale access_record =
  fixes allow :: "instant \<Rightarrow> 'r \<Rightarrow> bool \<times> 'r"
    and used :: "'r \<Rightarrow> nat"
    and since :: "'r \<Rightarrow> instant option"
    and quota :: nat
    and ok :: "'r \<Rightarrow> bool"
  assumes used_le: "ok r \<Longrightarrow> used r \<le> quota"
    and allow_ok: "ok r \<Longrightarrow> now > 0 \<Longrightarrow> ok (snd (allow now r))"
    and allow_open: "ok r \<Longrightarrow> now > 0 \<Longrightarrow> since r = Some s \<Longrightarrow> now - s \<le> Second \<Longrightarrow>
      since (snd (allow now r)) = Some s \<and> used (snd (allow now r)) = used r + of_bool (fst (allow now r))"
    and allow_first: "ok r \<Longrightarrow> now > 0 \<Longrightarrow> since r = None \<Longrightarrow>
      since (snd (allow now r)) = Some now \<and> used (snd (allow now r)) = used r + of_bool (fst (allow now r))"
    and allow_expired: "ok r \<Longrightarrow> now > 0 \<Longrightarrow> since r = Some s \<Longrightarrow> now - s > Second \<Longrightarrow>
      since (snd (allow now r)) = Some now \<and> used (snd (allow now r)) = 1 \<and> fst (allow now r)"
begin

fun accesses :: "instant list \<Rightarrow> 'r \<Rightarrow> bool list" where
  "accesses [] r = []"
| "accesses (t # ts) r = fst (allow t r) # accesses ts (snd (allow t r))"

definition granted :: "instant list \<Rightarrow> 'r \<Rightarrow> nat" where
  "granted ts r = length (filter id (accesses ts r))"

lemma granted_simps [simp]:
  "granted [] r = 0"
  "granted (t # ts) r = of_bool (fst (allow t r)) + granted ts (snd (allow t r))"
  by (simp_all add: granted_def)

lemma granted_window:
  assumes "ok r" "since r = Some s" "\<forall>t\<in>set ts. t > 0 \<and> t - s \<le> Second"
  shows "used r + granted ts r \<le> quota"
  using assms
proof (induction ts arbitrary: r)
  case Nil
  then show ?case using used_le by simp
next
  case (Cons t ts)
  have t: "t > 0" "t - s \<le> Second" using Cons.prems by auto
  note a = allow_open [OF Cons.prems(1) t(1) Cons.prems(2) t(2)]
  have "used (snd (allow t r)) + granted ts (snd (allow t r)) \<le> quota"
    using Cons.prems a allow_ok [OF Cons.prems(1) t(1)] by (intro Cons.IH) auto
  then show ?case using a by simp
qed

lemma granted_first:
  assumes "ok r" "since r = None" "sorted ts" "\<forall>t\<in>set ts. t > 0 \<and> x \<le> t \<and> t \<le> x + Second"
  shows "used r + granted ts r \<le> quota"
proof (cases ts)
  case Nil
  then show ?thesis using used_le [OF assms(1)] by simp
next
  case (Cons t ts')
  have t: "t > 0" using assms Cons by simp
  note a = allow_first [OF assms(1) t assms(2)]
  have "used (snd (allow t r)) + granted ts' (snd (allow t r)) \<le> quota"
    using assms Cons a by (intro granted_window [OF allow_ok [OF assms(1) t], of t]) auto
  then show ?thesis using a by (simp add: Cons)
qed

lemma granted_second:
  assumes "ok r" "sorted ts" "\<forall>t\<in>set ts. t > 0 \<and> x \<le> t \<and> t \<le> x + Second"
  shows "used r + granted ts r \<le> 2 * quota"
  using assms
proof (induction ts arbitrary: r)
  case Nil
  then show ?case using used_le [OF Nil(1)] by simp
next
  case (Cons t ts)
  have t: "t > 0" "x \<le> t" "t \<le> x + Second" and later: "\<forall>u\<in>set ts. u > 0 \<and> t \<le> u \<and> u \<le> x + Second"
    using Cons.prems by auto
  have ok: "ok (snd (allow t r))" using allow_ok Cons.prems t by blast
  consider "since r = None" | s where "since r = Some s" "t - s \<le> Second"
    | s where "since r = Some s" "t - s > Second"
    by (cases "since r") force+
  then show ?case
  proof cases
    case 1
    then show ?thesis using granted_first [OF Cons.prems(1) 1 Cons.prems(2) Cons.prems(3)] by linarith
  next
    case 2
    have "used (snd (allow t r)) + granted ts (snd (allow t r)) \<le> 2 * quota"
      using ok Cons.prems by (intro Cons.IH) auto
    then show ?thesis using allow_open [OF Cons.prems(1) t(1) 2] by simp
  next
    case 3
    note a = allow_expired [OF Cons.prems(1) t(1) 3]
    have "used (snd (allow t r)) + granted ts (snd (allow t r)) \<le> quota"
      using ok a later t by (intro granted_window [of _ t]) auto
    then show ?thesis using a used_le [OF Cons.prems(1)] by simp
  qed
qed

lemma granted_bound:
  "ok r \<Longrightarrow> sorted ts \<Longrightarrow> \<forall>t\<in>set ts. t > 0 \<and> x \<le> t \<and> t \<le> x + Second \<Longrightarrow> granted ts r \<le> 2 * quota"
  using granted_second [of r ts x] by simp

end

text \<open>
  The two records fulfil it. The limit must not be the largest 32-bit number: there the comparison
  \<open>token+1 > limit\<close> wraps around and never refuses.
\<close>

definition quota_of :: "u32 \<Rightarrow> nat" where
  "quota_of limit = max 1 (unat limit)"

lemma token_step:
  fixes token limit :: u32
  assumes "unat token \<le> quota_of limit" "limit \<noteq> 4294967295" "\<not> token + 1 > limit"
  shows "unat (token + 1) = Suc (unat token)" "unat (token + 1) \<le> quota_of limit"
proof -
  have "unat limit < 2 ^ 32" using unsigned_less [of limit, where ?'a = nat] by simp
  moreover have "unat limit \<noteq> unat (4294967295 :: u32)" using assms(2) word_unat_eq_iff by blast
  ultimately have "unat limit < 2 ^ 32 - 1" by simp
  then have "Suc (unat token) < 2 ^ 32" using assms(1) by (simp add: quota_of_def)
  then show s: "unat (token + 1) = Suc (unat token)" by (simp add: unat_word_ariths)
  have "unat (token + 1) \<le> unat limit" using assms(3) by (simp add: word_le_nat_alt not_less)
  then show "unat (token + 1) \<le> quota_of limit" by (simp add: quota_of_def)
qed

definition ip_ok :: "u32 \<Rightarrow> IPAccessRecord \<Rightarrow> bool" where
  "ip_ok limit r \<longleftrightarrow> limit \<noteq> 4294967295 \<and> unat (ipr_token r) \<le> quota_of limit"

definition name_ok :: "u32 \<Rightarrow> NameAccessRecord \<Rightarrow> bool" where
  "name_ok limit r \<longleftrightarrow> nr_limit r = limit \<and> limit \<noteq> 4294967295 \<and> unat (nr_token r) \<le> quota_of limit"

definition name_since :: "NameAccessRecord \<Rightarrow> instant option" where
  "name_since r = (if time_IsZero (nr_start r) then None else Some (nr_start r))"

lemmas ipr_defs = ipr_IsAccessAllowed_def ipr_Expired_def ipr_Init_def
lemmas nr_defs = nr_IsAccessAllowed_def nr_Expired_def nr_Init_def name_since_def time_IsZero_def

lemma quota_ge1 [simp]: "1 \<le> quota_of limit" "Suc 0 \<le> quota_of limit"
  by (simp_all add: quota_of_def)

interpretation ip_record:
  access_record "ipr_IsAccessAllowed limit" "\<lambda>r. unat (ipr_token r)" "\<lambda>r. Some (ipr_start r)"
    "quota_of limit" "ip_ok limit" for limit
proof unfold_locales
  fix r and now s :: instant
  assume ok: "ip_ok limit r" and "now > 0"
  show "ip_ok limit (snd (ipr_IsAccessAllowed limit now r))"
    using ok token_step [of "ipr_token r" limit] by (auto simp: ipr_defs ip_ok_def)
  assume s: "Some (ipr_start r) = Some s"
  show "now - s \<le> Second \<Longrightarrow> Some (ipr_start (snd (ipr_IsAccessAllowed limit now r))) = Some s \<and>
      unat (ipr_token (snd (ipr_IsAccessAllowed limit now r))) =
      unat (ipr_token r) + of_bool (fst (ipr_IsAccessAllowed limit now r))"
    using ok s token_step [of "ipr_token r" limit] by (auto simp: ipr_defs ip_ok_def time_Sub_gt_Second)
  show "now - s > Second \<Longrightarrow> Some (ipr_start (snd (ipr_IsAccessAllowed limit now r))) = Some now \<and>
      unat (ipr_token (snd (ipr_IsAccessAllowed limit now r))) = 1 \<and> fst (ipr_IsAccessAllowed limit now r)"
    using s by (auto simp: ipr_defs time_Sub_gt_Second)
qed (auto simp: ip_ok_def)

lemma Second_pos [simp]: "0 < Second" "0 \<le> Second" "\<not> Second < 0"
  by (simp_all add: Second_def)

interpretation name_record:
  access_record nr_IsAccessAllowed "\<lambda>r. unat (nr_token r)" name_since "quota_of limit" "name_ok limit" for limit
proof unfold_locales
  fix r and now s :: instant
  assume ok: "name_ok limit r" and now: "now > 0"
  show "name_ok limit (snd (nr_IsAccessAllowed now r))"
    using ok token_step [of "nr_token r" limit] by (auto simp: nr_defs name_ok_def Let_def)
  show "name_since r = None \<Longrightarrow> name_since (snd (nr_IsAccessAllowed now r)) = Some now \<and>
      unat (nr_token (snd (nr_IsAccessAllowed now r))) = unat (nr_token r) + of_bool (fst (nr_IsAccessAllowed now r))"
    using ok now token_step [of "nr_token r" limit]
    by (auto simp: nr_defs name_ok_def Let_def time_Sub_gt_Second split: if_splits)
  assume s: "name_since r = Some s"
  show "now - s \<le> Second \<Longrightarrow> name_since (snd (nr_IsAccessAllowed now r)) = Some s \<and>
      unat (nr_token (snd (nr_IsAccessAllowed now r))) = unat (nr_token r) + of_bool (fst (nr_IsAccessAllowed now r))"
    using ok s token_step [of "nr_token r" limit]
    by (auto simp: nr_defs name_ok_def Let_def time_Sub_gt_Second split: if_splits)
  show "now - s > Second \<Longrightarrow> name_since (snd (nr_IsAccessAllowed now r)) = Some now \<and>
      unat (nr_token (snd (nr_IsAccessAllowed now r))) = 1 \<and> fst (nr_IsAccessAllowed now r)"
    using s now by (auto simp: nr_defs Let_def time_Sub_gt_Second split: if_splits)
qed (auto simp: name_ok_def)

section \<open>The store is a bounded map with the least recently used record evicted\<close>

definition rec_key :: "IPAccessRecord \<Rightarrow> ip_key" where
  "rec_key r = ipKey (ipr_ip r)"

definition store_index :: "IPAccessRecordStore \<Rightarrow> ip_key \<rightharpoonup> nat" where
  "store_index c k = (case k of K4 x \<Rightarrow> v4Records c x | K6 x \<Rightarrow> v6Records c x)"

definition store_ok :: "IPAccessRecordStore \<Rightarrow> bool" where
  "store_ok c \<longleftrightarrow> index_ok rec_key (store_index c) (st_ll c) \<and>
     (MaxCount c \<noteq> 0 \<longrightarrow> list_Len (st_ll c) \<le> MaxCount c)"

abbreviation store_content :: "IPAccessRecordStore \<Rightarrow> (ip_key, IPAccessRecord) lru" where
  "store_content c \<equiv> lru_content rec_key (st_ll c)"

lemma store_getElem_index: "store_getElem c a = store_index c (ipKey a)"
  by (simp add: store_getElem_def store_index_def ipKey_def split: option.splits)

lemma store_index_ll [simp]: "store_index (c\<lparr>st_ll := l\<rparr>) = store_index c"
  by (simp add: store_index_def fun_eq_iff split: ip_key.splits)

lemma removeElement_fields:
  assumes "elem_value e (st_ll c) = Some r"
  shows "st_ll (store_removeElement e c) = list_Remove e (st_ll c)"
    "MaxCount (store_removeElement e c) = MaxCount c"
    "store_index (store_removeElement e c) = (store_index c)(rec_key r := None)"
  using assms
  by (auto simp: store_removeElement_def Let_def store_index_def rec_key_def ipKey_def fun_eq_iff
      split: option.splits ip_key.splits)

lemma removeElement_ok:
  assumes "index_ok rec_key (store_index c) (st_ll c)" "elem_value e (st_ll c) = Some r"
  shows "index_ok rec_key (store_index (store_removeElement e c)) (st_ll (store_removeElement e c))"
  using index_ok_Remove [OF assms] by (simp add: removeElement_fields [OF assms(2)])

text \<open>The state of \<open>Add\<close> before the size is checked.\<close>

definition store_push :: "IPAccessRecord \<Rightarrow> IPAccessRecordStore \<Rightarrow> IPAccessRecordStore" where
  "store_push r c =
     (let (e, l) = list_PushFront r (st_ll c); c1 = c\<lparr>st_ll := l\<rparr> in
      case To4 (ipr_ip r) of
        Some b \<Rightarrow> c1\<lparr>v4Records := (v4Records c1)(ipToUint32 b \<mapsto> e)\<rparr>
      | None \<Rightarrow> c1\<lparr>v6Records := (v6Records c1)(ipToV6Key (ipr_ip r) \<mapsto> e)\<rparr>)"

lemma store_push_fields:
  "st_ll (store_push r c) = snd (list_PushFront r (st_ll c))"
  "MaxCount (store_push r c) = MaxCount c"
  "store_index (store_push r c) = (store_index c)(rec_key r \<mapsto> fst (list_PushFront r (st_ll c)))"
  by (auto simp: store_push_def Let_def store_index_def rec_key_def ipKey_def fun_eq_iff
      split: option.splits ip_key.splits prod.splits)

lemma store_Add_push:
  "store_Add r c =
     (case store_index c (rec_key r) of
        Some e \<Rightarrow> c\<lparr>st_ll := elem_set_value e r (list_MoveToFront e (st_ll c))\<rparr>
      | None \<Rightarrow>
          (if MaxCount c \<noteq> 0 \<and> list_Len (st_ll (store_push r c)) > MaxCount c
           then store_removeOldest (store_push r c) else store_push r c))"
  by (simp add: store_Add_def store_push_def store_getElem_index rec_key_def Let_def
      split: option.splits prod.splits)

lemma store_push_ok:
  assumes "index_ok rec_key (store_index c) (st_ll c)" "store_index c (rec_key r) = None"
  shows "index_ok rec_key (store_index (store_push r c)) (st_ll (store_push r c))"
  using index_ok_PushFront [OF assms] by (simp add: store_push_fields)

lemma store_Add_spec:
  assumes "store_ok c"
  shows "store_ok (store_Add r c) \<and> MaxCount (store_Add r c) = MaxCount c \<and>
    store_content (store_Add r c) = lru_put (MaxCount c) (rec_key r) r (store_content c)"
proof -
  have idx: "index_ok rec_key (store_index c) (st_ll c)"
    and len: "MaxCount c \<noteq> 0 \<Longrightarrow> list_Len (st_ll c) \<le> MaxCount c"
    using assms by (auto simp: store_ok_def)
  show ?thesis
  proof (cases "store_index c (rec_key r)")
    case (Some e)
    let ?l = "elem_set_value e r (list_MoveToFront e (st_ll c))"
    have "index_ok rec_key (store_index c) ?l"
      using idx Some by (intro index_ok_set_value index_ok_MoveToFront) auto
    moreover have "lru_content rec_key ?l = (rec_key r, r) # lru_del (rec_key r) (store_content c)"
      using lru_content_update [OF idx Some] by simp
    moreover have "list_Len ?l = list_Len (st_ll c)"
      using index_ok_wf [OF idx] by simp
    moreover have "length (lru_content rec_key ?l) = list_Len (st_ll c)"
      using index_ok_wf [OF idx] by simp
    ultimately show ?thesis using len Some
      by (auto simp: store_Add_push store_ok_def lru_put_def lru_trim_def simp del: length_lru_content)
  next
    case None
    let ?c = "store_push r c"
    have ok: "index_ok rec_key (store_index ?c) (st_ll ?c)" by (rule store_push_ok [OF idx None])
    have content: "store_content ?c = (rec_key r, r) # lru_del (rec_key r) (store_content c)"
      using lru_del_content_None [OF idx None] by (simp add: store_push_fields lru_content_PushFront)
    have n: "Suc (length (lru_del (rec_key r) (store_content c))) = list_Len (st_ll ?c)"
      using length_lru_content [of rec_key "st_ll ?c"] by (simp add: content del: length_lru_content)
    show ?thesis
    proof (cases "MaxCount c \<noteq> 0 \<and> list_Len (st_ll ?c) > MaxCount c")
      case False
      then show ?thesis using ok None content n
        by (auto simp: store_Add_push store_ok_def store_push_fields(2) lru_put_def lru_trim_def)
    next
      case True
      obtain e where e: "list_Back (st_ll ?c) = Some e"
        using list_Back_None [of "st_ll ?c"] by (cases "list_Back (st_ll ?c)") (auto simp: store_push_fields)
      then obtain v where v: "elem_value e (st_ll ?c) = Some v"
        using list_Back_Some index_ok_wf [OF ok] by blast
      have "Suc (list_Len (list_Remove e (st_ll ?c))) = list_Len (st_ll ?c)"
        by (rule list_Len_Remove [OF index_ok_wf [OF ok] v])
      moreover have "list_Len (st_ll ?c) = Suc (list_Len (st_ll c))" by (simp add: store_push_fields)
      ultimately show ?thesis using True None e len removeElement_ok [OF ok v] content n
          lru_content_Remove_Back [OF ok e]
        by (auto simp: store_Add_push store_removeOldest_def removeElement_fields [OF v] store_ok_def
            store_push_fields(2) lru_put_def lru_trim_def)
    qed
  qed
qed

text \<open>A hit of \<open>Get\<close> whose caller then changes the record through the pointer.\<close>

definition store_use :: "ip_key \<Rightarrow> (IPAccessRecord \<Rightarrow> IPAccessRecord) \<Rightarrow> IPAccessRecordStore \<Rightarrow> IPAccessRecordStore" where
  "store_use k f c =
     (case store_index c k of
        None \<Rightarrow> c
      | Some e \<Rightarrow>
          (case elem_value e (st_ll c) of
             None \<Rightarrow> c
           | Some r \<Rightarrow> c\<lparr>st_ll := elem_set_value e (f r) (list_MoveToFront e (st_ll c))\<rparr>))"

lemma store_use_spec:
  assumes ok: "store_ok c" and f: "\<forall>r. rec_key (f r) = rec_key r"
  shows "store_ok (store_use k f c) \<and> MaxCount (store_use k f c) = MaxCount c \<and>
    store_content (store_use k f c) = lru_use k f (store_content c)"
proof (cases "store_index c k")
  case None
  have "index_ok rec_key (store_index c) (st_ll c)" using ok by (simp add: store_ok_def)
  then have "map_of (store_content c) k = None" using None by (simp add: lru_content_lookup)
  then show ?thesis using ok None by (simp add: store_use_def lru_use_def)
next
  case (Some e)
  have idx: "index_ok rec_key (store_index c) (st_ll c)" using ok by (simp add: store_ok_def)
  obtain r where r: "elem_value e (st_ll c) = Some r" "rec_key r = k"
    using index_ok_lookup [OF idx Some] by blast
  have "map_of (store_content c) k = Some r" using Some r by (simp add: lru_content_lookup [OF idx])
  moreover have "index_ok rec_key (store_index c) (elem_set_value e (f r) (list_MoveToFront e (st_ll c)))"
    using idx Some r f by (intro index_ok_set_value index_ok_MoveToFront) auto
  ultimately show ?thesis
    using ok Some r f lru_content_update [OF idx Some, of "f r"] index_ok_wf [OF idx]
    by (simp add: store_use_def lru_use_def store_ok_def)
qed

interpretation ip_store: lru_store store_ok store_content MaxCount "\<lambda>k r c. store_Add r c" store_use
    "\<lambda>k r. rec_key r = k" "\<lambda>k f. \<forall>r. rec_key (f r) = rec_key r"
proof unfold_locales
  fix c
  assume "store_ok c"
  then show "distinct (map fst (store_content c))" by (auto simp: store_ok_def intro: lru_content_distinct)
qed (auto simp: store_Add_spec store_use_spec)

text \<open>The throttler in terms of the store's specification.\<close>

definition limit_step :: "u32 \<Rightarrow> instant \<Rightarrow> ip \<Rightarrow> IPAccessRecord option \<Rightarrow> bool \<times> IPAccessRecord" where
  "limit_step limit now a r =
     (case r of None \<Rightarrow> (True, newIPAccessRecord now a) | Some r \<Rightarrow> ipr_IsAccessAllowed limit now r)"

lemma access_key [simp]: "rec_key (snd (ipr_IsAccessAllowed limit now r)) = rec_key r"
  by (auto simp: rec_key_def ipr_defs)

lemma new_key [simp]: "rec_key (newIPAccessRecord now a) = ipKey a"
  by (simp add: rec_key_def newIPAccessRecord_def ipr_Init_def)

lemma isIpAllowed_spec:
  assumes ok: "store_ok (te_records t)" and lim: "nr_SearchBest N (te_networks t) a = Some limit"
  shows "fst (isIpAllowed N now a t) =
      fst (limit_step limit now a (map_of (store_content (te_records t)) (ipKey a)))"
    and "te_networks (snd (isIpAllowed N now a t)) = te_networks t"
    and "te_records (snd (isIpAllowed N now a t)) =
      (case map_of (store_content (te_records t)) (ipKey a) of
         None \<Rightarrow> store_Add (newIPAccessRecord now a) (te_records t)
       | Some _ \<Rightarrow> store_use (ipKey a) (\<lambda>r. snd (ipr_IsAccessAllowed limit now r)) (te_records t))"
proof -
  let ?c = "te_records t"
  have idx: "index_ok rec_key (store_index ?c) (st_ll ?c)" using ok by (simp add: store_ok_def)
  have look: "map_of (store_content ?c) (ipKey a) =
      (case store_index ?c (ipKey a) of None \<Rightarrow> None | Some e \<Rightarrow> elem_value e (st_ll ?c))"
    by (rule lru_content_lookup [OF idx])
  have none: "store_index ?c (ipKey a) = None \<or>
      (\<exists>e r. store_index ?c (ipKey a) = Some e \<and> elem_value e (st_ll ?c) = Some r)"
    using index_ok_lookup [OF idx] by (cases "store_index ?c (ipKey a)") auto
  show "fst (isIpAllowed N now a t) = fst (limit_step limit now a (map_of (store_content ?c) (ipKey a)))"
    using none look lim
    by (auto simp: isIpAllowed_def store_Get_def store_getElem_index limit_step_def Let_def split: prod.splits)
  show "te_networks (snd (isIpAllowed N now a t)) = te_networks t"
    using lim by (auto simp: isIpAllowed_def split: prod.splits option.splits)
  show "te_records (snd (isIpAllowed N now a t)) =
      (case map_of (store_content ?c) (ipKey a) of
         None \<Rightarrow> store_Add (newIPAccessRecord now a) ?c
       | Some _ \<Rightarrow> store_use (ipKey a) (\<lambda>r. snd (ipr_IsAccessAllowed limit now r)) ?c)"
    using none look lim
    by (auto simp: isIpAllowed_def store_Get_def store_getElem_index store_use_def Let_def
        split: prod.splits)
qed

section \<open>The throttler bounds the queries of an address\<close>

text \<open>A run of queries (instant and client address): the answers and the state left.\<close>

fun ip_run ::
  "('t, u32) netradix \<Rightarrow> (instant \<times> ip) list \<Rightarrow> 't throttlerEntry \<Rightarrow> bool list \<times> 't throttlerEntry" where
  "ip_run N [] t = ([], t)"
| "ip_run N ((now, a) # evs) t =
     (let (b, t') = isIpAllowed N now a t; (bs, t'') = ip_run N evs t' in (b # bs, t''))"

definition granted_to :: "ip_key \<Rightarrow> (instant \<times> ip) list \<Rightarrow> bool list \<Rightarrow> nat" where
  "granted_to k evs bs = length (filter (\<lambda>(e, b). ipKey (snd e) = k \<and> b) (zip evs bs))"

lemma put_no_evict:
  assumes "distinct (map fst l)" "insert k (fst ` set l) \<subseteq> K" "finite K" "card K \<le> cap"
  shows "lru_put cap k v l = (k, v) # lru_del k l"
proof -
  let ?l = "(k, v) # lru_del k l"
  have "distinct (map fst ?l)" using distinct_lru_del [OF assms(1), of k] by simp
  then have "length ?l = card (fst ` set ?l)" by (metis distinct_card length_map set_map)
  also have "\<dots> \<le> card K" using assms(2,3) by (intro card_mono) (auto simp: lru_del_def)
  finally show ?thesis using assms(4) by (auto simp: lru_put_def lru_trim_def)
qed

definition thr_inv :: "ip_key set \<Rightarrow> ip_key \<Rightarrow> u32 \<Rightarrow> 't throttlerEntry \<Rightarrow> bool" where
  "thr_inv K k limit t \<longleftrightarrow> store_ok (te_records t) \<and> finite K \<and> card K \<le> MaxCount (te_records t) \<and>
     fst ` set (store_content (te_records t)) \<subseteq> K \<and>
     (\<forall>r. map_of (store_content (te_records t)) k = Some r \<longrightarrow> ip_ok limit r)"

lemma step_content:
  assumes inv: "thr_inv K k limit t" and a: "ipKey a \<in> K"
    and lim: "nr_SearchBest N (te_networks t) a = Some l"
  shows "store_ok (te_records (snd (isIpAllowed N now a t)))"
    and "MaxCount (te_records (snd (isIpAllowed N now a t))) = MaxCount (te_records t)"
    and "store_content (te_records (snd (isIpAllowed N now a t))) =
      (ipKey a, snd (limit_step l now a (map_of (store_content (te_records t)) (ipKey a))))
      # lru_del (ipKey a) (store_content (te_records t))"
proof -
  let ?c = "te_records t" and ?u = "\<lambda>r. snd (ipr_IsAccessAllowed l now r)"
  have ok: "store_ok ?c" and K: "finite K" "card K \<le> MaxCount ?c" "fst ` set (store_content ?c) \<subseteq> K"
    using inv by (simp_all add: thr_inv_def)
  note use = store_use_spec [OF ok, of ?u "ipKey a"]
  note add = store_Add_spec [OF ok, of "newIPAccessRecord now a"]
  note spec = isIpAllowed_spec [OF ok lim, of now]
  show "store_ok (te_records (snd (isIpAllowed N now a t)))"
    "MaxCount (te_records (snd (isIpAllowed N now a t))) = MaxCount ?c"
    using spec(3) use add by (auto split: option.splits)
  have "lru_put (MaxCount ?c) (ipKey a) v (store_content ?c) = (ipKey a, v) # lru_del (ipKey a) (store_content ?c)" for v
    using ip_store.content_distinct [OF ok] K a by (intro put_no_evict) auto
  then show "store_content (te_records (snd (isIpAllowed N now a t))) =
      (ipKey a, snd (limit_step l now a (map_of (store_content ?c) (ipKey a)))) # lru_del (ipKey a) (store_content ?c)"
    using spec(3) use add by (auto simp: limit_step_def lru_use_def split: option.splits)
qed

lemma new_ok: "limit \<noteq> 4294967295 \<Longrightarrow> ip_ok limit (newIPAccessRecord now a)"
  by (simp add: ip_ok_def newIPAccessRecord_def ipr_Init_def)

lemma limit_step_ok:
  assumes "limit \<noteq> 4294967295" "now > 0" "\<And>r. ro = Some r \<Longrightarrow> ip_ok limit r"
  shows "ip_ok limit (snd (limit_step limit now a ro))"
  using assms ip_record.allow_ok new_ok by (cases ro) (auto simp: limit_step_def)

definition key_limit :: "('t, u32) netradix \<Rightarrow> 't \<Rightarrow> ip_key \<Rightarrow> u32 \<Rightarrow> bool" where
  "key_limit N nets k limit \<longleftrightarrow> limit \<noteq> 4294967295 \<and> (\<forall>a. ipKey a = k \<longrightarrow> nr_SearchBest N nets a = Some limit)"

text \<open>One query, seen from the record of one address.\<close>

lemma step_record:
  assumes inv: "thr_inv K k limit t" and lim: "key_limit N (te_networks t) k limit"
    and a: "ipKey a \<in> K" and now: "now > 0"
  defines "t' \<equiv> snd (isIpAllowed N now a t)"
    and "rec \<equiv> \<lambda>t. map_of (store_content (te_records t)) k"
  shows "thr_inv K k limit t'" and "te_networks t' = te_networks t"
    and "ipKey a = k \<Longrightarrow> fst (isIpAllowed N now a t) = fst (limit_step limit now a (rec t)) \<and>
           rec t' = Some (snd (limit_step limit now a (rec t)))"
    and "ipKey a \<noteq> k \<Longrightarrow> rec t' = rec t"
proof -
  have ok: "store_ok (te_records t)" using inv by (simp add: thr_inv_def)
  show nets: "te_networks t' = te_networks t"
    using isIpAllowed_spec(2) [OF ok] unfolding t'_def
    by (cases "nr_SearchBest N (te_networks t) a") (auto simp: isIpAllowed_def)
  show "ipKey a = k \<Longrightarrow> fst (isIpAllowed N now a t) = fst (limit_step limit now a (rec t)) \<and>
           rec t' = Some (snd (limit_step limit now a (rec t)))"
    using lim step_content [OF inv a] isIpAllowed_spec(1) [OF ok] unfolding t'_def rec_def key_limit_def by simp
  show other: "ipKey a \<noteq> k \<Longrightarrow> rec t' = rec t"
    using step_content(3) [OF inv a] unfolding t'_def rec_def
    by (cases "nr_SearchBest N (te_networks t) a") (auto simp: isIpAllowed_def)
  show "thr_inv K k limit t'"
  proof (cases "nr_SearchBest N (te_networks t) a")
    case None
    then show ?thesis using inv unfolding t'_def by (simp add: isIpAllowed_def)
  next
    case (Some l)
    have "ip_ok limit r" if "rec t' = Some r" for r
    proof (cases "ipKey a = k")
      case True
      then have "l = limit" using lim Some by (auto simp: key_limit_def)
      then show ?thesis using that True Some inv lim now step_content(3) [OF inv a Some, of now]
          limit_step_ok [of limit now "rec t" a]
        unfolding t'_def rec_def by (auto simp: thr_inv_def key_limit_def)
    next
      case False
      then show ?thesis using that other inv unfolding rec_def by (auto simp: thr_inv_def)
    qed
    then show ?thesis using step_content [OF inv a Some] inv a unfolding t'_def rec_def
      by (auto simp: thr_inv_def lru_del_def)
  qed
qed

fun opt_granted :: "u32 \<Rightarrow> (instant \<times> ip) list \<Rightarrow> IPAccessRecord option \<Rightarrow> nat" where
  "opt_granted limit [] r = 0"
| "opt_granted limit ((now, a) # evs) r =
     of_bool (fst (limit_step limit now a r)) + opt_granted limit evs (Some (snd (limit_step limit now a r)))"

lemma opt_granted_Some: "opt_granted limit evs (Some r) = ip_record.granted limit (map fst evs) r"
  by (induction evs arbitrary: r) (auto simp: limit_step_def)

lemma opt_granted_bound:
  assumes "limit \<noteq> 4294967295" "\<And>r. ro = Some r \<Longrightarrow> ip_ok limit r"
    "sorted (map fst evs)" "\<forall>e\<in>set evs. fst e > 0 \<and> x \<le> fst e \<and> fst e \<le> x + Second"
  shows "opt_granted limit evs ro \<le> 2 * quota_of limit"
proof (cases ro)
  case (Some r)
  then show ?thesis using ip_record.granted_bound [of limit r "map fst evs" x] assms
    by (auto simp: opt_granted_Some)
next
  case None
  show ?thesis
  proof (cases evs)
    case (Cons e evs')
    obtain t a where e: "e = (t, a)" by fastforce
    let ?r = "newIPAccessRecord t a"
    have "unat (ipr_token ?r) + ip_record.granted limit (map fst evs') ?r \<le> quota_of limit"
    proof (rule ip_record.granted_window [where s = t])
      show "\<forall>t'\<in>set (map fst evs'). 0 < t' \<and> t' - t \<le> Second" using assms(3,4) Cons e by fastforce
    qed (use new_ok [OF assms(1)] in \<open>simp_all add: newIPAccessRecord_def ipr_Init_def\<close>)
    then show ?thesis
      by (simp add: Cons e None limit_step_def opt_granted_Some newIPAccessRecord_def ipr_Init_def)
  qed simp
qed

lemma granted_to_Nil [simp]: "granted_to k [] bs = 0"
  by (simp add: granted_to_def)

lemma granted_to_Cons [simp]:
  "granted_to k ((now, a) # evs) (b # bs) = of_bool (ipKey a = k \<and> b) + granted_to k evs bs"
  by (simp add: granted_to_def)

lemma run_granted:
  assumes "thr_inv K k limit t" "key_limit N (te_networks t) k limit"
    "\<forall>e\<in>set evs. fst e > 0 \<and> ipKey (snd e) \<in> K"
  shows "granted_to k evs (fst (ip_run N evs t)) =
      opt_granted limit (filter (\<lambda>e. ipKey (snd e) = k) evs) (map_of (store_content (te_records t)) k) \<and>
    thr_inv K k limit (snd (ip_run N evs t)) \<and> te_networks (snd (ip_run N evs t)) = te_networks t"
  using assms
proof (induction evs arbitrary: t)
  case (Cons ev evs)
  obtain now a where ev: "ev = (now, a)" by fastforce
  have a: "ipKey a \<in> K" "now > 0" using Cons.prems(3) ev by auto
  let ?t = "snd (isIpAllowed N now a t)"
  note step = step_record [OF Cons.prems(1,2) a]
  have "granted_to k evs (fst (ip_run N evs ?t)) =
      opt_granted limit (filter (\<lambda>e. ipKey (snd e) = k) evs) (map_of (store_content (te_records ?t)) k) \<and>
    thr_inv K k limit (snd (ip_run N evs ?t)) \<and> te_networks (snd (ip_run N evs ?t)) = te_networks ?t"
    using step Cons.prems(2,3) by (intro Cons.IH) auto
  then show ?case using step by (auto simp: ev Let_def split_beta)
qed simp

lemma run_bound:
  assumes "thr_inv K k limit t" "key_limit N (te_networks t) k limit"
    "\<forall>e\<in>set evs. fst e > 0 \<and> ipKey (snd e) \<in> K" "sorted (map fst evs)"
    "\<forall>e\<in>set evs. x \<le> fst e \<and> fst e \<le> x + Second"
  shows "granted_to k evs (fst (ip_run N evs t)) \<le> 2 * quota_of limit"
proof -
  have "opt_granted limit (filter (\<lambda>e. ipKey (snd e) = k) evs) (map_of (store_content (te_records t)) k)
      \<le> 2 * quota_of limit"
  proof (rule opt_granted_bound)
    show "sorted (map fst (filter (\<lambda>e. ipKey (snd e) = k) evs))"
      using assms(4) by (rule sorted_filter)
  qed (use assms in \<open>auto simp: thr_inv_def key_limit_def\<close>)
  then show ?thesis using run_granted [OF assms(1-3)] by simp
qed

lemma fresh_inv:
  assumes "ip_ReloadConfig N conf = Some t" "finite K" "card K \<le> maxIPAccessRecordCount"
  shows "thr_inv K k limit t"
proof -
  have "te_records t = newIPAccessRecordStore maxIPAccessRecordCount"
    using assms(1) by (auto simp: ip_ReloadConfig_def)
  moreover have "index_ok rec_key (store_index (newIPAccessRecordStore n)) list_New" for n
    using index_ok_New by (simp add: newIPAccessRecordStore_def store_index_def index_ok_def split: ip_key.splits)
  ultimately show ?thesis using assms(2,3)
    by (simp add: thr_inv_def store_ok_def newIPAccessRecordStore_def lru_content_def list_New_def list_Len_def)
qed

section \<open>Properties\<close>

text \<open>
  C6. After any history of queries from at most 5000 client addresses, of the queries that one address
  sends within a second (in the order of their instants) at most twice its limit pass the throttler,
  where a limit of 0 counts as 1. The limit must be below the largest 32-bit number.
\<close>

theorem ip_throttler_bound:
  assumes "ip_ReloadConfig N conf = Some t"
    and "key_limit N (te_networks t) (ipKey a) limit"
    and "\<forall>e\<in>set (history @ evs). fst e > 0"
    and "card ((\<lambda>e. ipKey (snd e)) ` set (history @ evs)) \<le> maxIPAccessRecordCount"
    and "sorted (map fst evs)" and "\<forall>e\<in>set evs. x \<le> fst e \<and> fst e \<le> x + Second"
  shows "granted_to (ipKey a) evs (fst (ip_run N evs (snd (ip_run N history t)))) \<le> 2 * max 1 (unat limit)"
proof -
  let ?K = "(\<lambda>e. ipKey (snd e)) ` set (history @ evs)"
  have inv: "thr_inv ?K (ipKey a) limit t" using assms(1,4) by (intro fresh_inv) auto
  have "\<forall>e\<in>set history. fst e > 0 \<and> ipKey (snd e) \<in> ?K" using assms(3) by force
  from run_granted [OF inv assms(2) this]
  have inv': "thr_inv ?K (ipKey a) limit (snd (ip_run N history t))"
    "key_limit N (te_networks (snd (ip_run N history t))) (ipKey a) limit"
    using assms(2) by simp_all
  have "\<forall>e\<in>set evs. fst e > 0 \<and> ipKey (snd e) \<in> ?K" using assms(3) by force
  from run_bound [OF inv' this assms(5,6)] show ?thesis by (simp add: quota_of_def)
qed

text \<open>With a limit of 2 for every address, at most four of five queries of one second pass.\<close>

theorem ip_throttler_bound_witness:
  "\<exists>t. ip_ReloadConfig list_netradix [\<lparr>nl_Network = [], nl_Limit = 2\<rparr>] = Some t \<and>
     granted_to (ipKey [1, 2, 3, 4]) (map (\<lambda>i. (Second + i, [1, 2, 3, 4])) [0, 1, 2, 3, 4])
       (fst (ip_run list_netradix (map (\<lambda>i. (Second + i, [1, 2, 3, 4])) [0, 1, 2, 3, 4])
          (snd (ip_run list_netradix [(1, [5, 6, 7, 8])] t)))) \<le> 4"
proof -
  let ?evs = "map (\<lambda>i. (Second + i, [1, 2, 3, 4 :: u8])) [0, 1, 2, 3, 4]"
  define t where "t = \<lparr>te_records = newIPAccessRecordStore maxIPAccessRecordCount, te_networks = [([] :: string, 2 :: u32)]\<rparr>"
  have t: "ip_ReloadConfig list_netradix [\<lparr>nl_Network = [], nl_Limit = 2\<rparr>] = Some t"
    by (simp add: ip_ReloadConfig_def list_netradix_def t_def)
  have lim: "key_limit list_netradix (te_networks t) (ipKey [1, 2, 3, 4]) 2"
    by (simp add: key_limit_def t_def list_netradix_def byte_covers_def)
  have "card ((\<lambda>e. ipKey (snd e)) ` set ([(1, [5, 6, 7, 8])] @ ?evs)) \<le> card {ipKey [1, 2, 3, 4], ipKey [5, 6, 7, 8]}"
    by (rule card_mono) auto
  also have "\<dots> \<le> maxIPAccessRecordCount"
    by (simp add: maxIPAccessRecordCount_def card_insert_if)
  finally have k: "card ((\<lambda>e. ipKey (snd e)) ` set ([(1, [5, 6, 7, 8])] @ ?evs)) \<le> maxIPAccessRecordCount" .
  have "granted_to (ipKey [1, 2, 3, 4]) ?evs
      (fst (ip_run list_netradix ?evs (snd (ip_run list_netradix [(1, [5, 6, 7, 8])] t)))) \<le> 2 * max 1 (unat (2 :: u32))"
    by (rule ip_throttler_bound [OF t lim _ k, where x = Second]) (auto simp: Second_def)
  then show ?thesis using t by auto
qed

text \<open>A sequence of queries that a record of a name decides.\<close>

fun name_run :: "instant list \<Rightarrow> NameAccessRecord \<Rightarrow> bool list" where
  "name_run [] r = []"
| "name_run (t # ts) r = fst (nr_IsAccessAllowed t r) # name_run ts (snd (nr_IsAccessAllowed t r))"

lemma name_run_accesses: "length (filter id (name_run ts r)) = name_record.granted ts r"
  by (induction ts arbitrary: r) simp_all

text \<open>
  A rate limit of a name counts every second from its first query: within the second after the
  first query at most the limit is granted, and within any second at most twice the limit (a limit of
  0 counts as 1).
\<close>

theorem name_limit_bound:
  assumes "limit \<noteq> 4294967295" "sorted (history @ ts)" "\<forall>t\<in>set (history @ ts). t > 0"
    and "\<forall>t\<in>set ts. x \<le> t \<and> t \<le> x + Second"
  shows "length (filter id (drop (length history) (name_run (history @ ts) (newNameAccessRecord mt limit))))
      \<le> (if history = [] then 1 else 2) * max 1 (unat limit)"
proof -
  let ?r = "newNameAccessRecord mt limit"
  define state where "state = fold (\<lambda>t r. snd (nr_IsAccessAllowed t r)) history ?r"
  have drop_run: "drop (length hs) (name_run (hs @ ts) r) = name_run ts (fold (\<lambda>t r. snd (nr_IsAccessAllowed t r)) hs r)"
    for hs r by (induction hs arbitrary: r) simp_all
  have ok0: "name_ok limit ?r" using assms(1) by (simp add: name_ok_def newNameAccessRecord_def)
  have keep: "name_ok limit r \<Longrightarrow> \<forall>t\<in>set hs. t > 0 \<Longrightarrow> name_ok limit (fold (\<lambda>t r. snd (nr_IsAccessAllowed t r)) hs r)"
    for hs r by (induction hs arbitrary: r) (simp_all add: name_record.allow_ok)
  have ok: "name_ok limit state" unfolding state_def using keep [OF ok0] assms(3) by simp
  have w: "\<forall>t\<in>set ts. t > 0 \<and> x \<le> t \<and> t \<le> x + Second" using assms(3,4) by auto
  have srt: "sorted ts" using assms(2) by (simp add: sorted_append)
  show ?thesis
  proof (cases "history = []")
    case True
    have "name_since ?r = None" by (simp add: name_since_def newNameAccessRecord_def time_IsZero_def)
    from name_record.granted_first [OF ok0 this srt w] True show ?thesis
      by (simp add: name_run_accesses quota_of_def)
  next
    case False
    from name_record.granted_bound [OF ok srt w] False show ?thesis
      using drop_run [of history ?r] by (simp add: name_run_accesses state_def quota_of_def)
  qed
qed

theorem name_limit_bound_witness:
  "length (filter id (drop 0 (name_run [Second, Second + 1, Second + 2] (newNameAccessRecord zoneMatch 2)))) \<le> 2"
  using name_limit_bound [of 2 "[]" "[Second, Second + 1, Second + 2]" Second zoneMatch]
  by (simp add: Second_def)

end
