(* ===== verification/Core.thy ===== *)
theory Core
  imports Dns Rate_Limit
begin

text \<open>
  The query context and the chain of handlers, \<open>core/\<close>, and the filter at the head of the chain,
  \<open>filter/filter.go\<close> with \<open>filter/srvfailedprotector/\<close>. A handler is a function from its successor
  to a transformer of the program's state (\<open>'w\<close>) and the context; a chain is the composition that
  \<open>BuildQueryChain\<close> links up.
\<close>

unbundle bit_operations_syntax

section \<open>Clients\<close>

datatype net_addr = TCPAddr ip int | UDPAddr ip int

record 'n Client =
  c_Addr :: net_addr
  c_DestAddr :: net_addr
  c_UsingTCP :: bool
  c_Request :: "'n Message"
  c_Response :: "'n Message option"
  c_View :: view
  c_ViewId :: u16
  c_CacheHit :: bool
  c_CacheAnswer :: bool
  c_CreateTime :: instant

definition pack_key :: "u32 \<Rightarrow> u16 \<Rightarrow> u16 \<Rightarrow> u64" where
  "pack_key h v t = (push_bit 32 (ucast h) OR push_bit 16 (ucast v)) OR ucast t"

text \<open>A request without a question is a nil pointer here.\<close>

definition QueryKey :: "'n g53 \<Rightarrow> 'n Client \<Rightarrow> u64 may_panic" where
  "QueryKey G c =
     (case m_Question (c_Request c) of
        None \<Rightarrow> None
      | Some q \<Rightarrow> Some (pack_key (Name_Hash G (q_Name q)) (c_ViewId c) (q_Type q)))"

text \<open>
  The address fields and the request are set by the server right after \<open>reset\<close>; the arguments stand
  for them.
\<close>

definition client_reset :: "instant \<Rightarrow> net_addr \<Rightarrow> net_addr \<Rightarrow> bool \<Rightarrow> 'n Message \<Rightarrow> 'n Client" where
  "client_reset now addr dest tcp req =
     \<lparr>c_Addr = addr, c_DestAddr = dest, c_UsingTCP = tcp, c_Request = req, c_Response = None,
      c_View = ''default'', c_ViewId = 0, c_CacheHit = False, c_CacheAnswer = True, c_CreateTime = now\<rparr>"

text \<open>\<open>clone\<close> copies every field but \<open>UsingTCP\<close>.\<close>

definition client_clone :: "'n Client \<Rightarrow> 'n Client \<Rightarrow> 'n Client" where
  "client_clone c other = other\<lparr>c_UsingTCP := c_UsingTCP c\<rparr>"

fun addr_IP :: "bool \<Rightarrow> net_addr \<Rightarrow> ip may_panic" where
  "addr_IP True (TCPAddr a p) = Some a"
| "addr_IP False (UDPAddr a p) = Some a"
| "addr_IP _ _ = None"

definition client_IP :: "'n Client \<Rightarrow> ip may_panic" where
  "client_IP c = addr_IP (c_UsingTCP c) (c_Addr c)"

definition client_DestIP :: "'n Client \<Rightarrow> ip may_panic" where
  "client_DestIP c = addr_IP (c_UsingTCP c) (c_DestAddr c)"

definition client_Port :: "'n Client \<Rightarrow> int may_panic" where
  "client_Port c =
     (case (c_UsingTCP c, c_Addr c) of
        (True, TCPAddr a p) \<Rightarrow> Some p
      | (False, UDPAddr a p) \<Rightarrow> Some p
      | _ \<Rightarrow> None)"

section \<open>Handlers\<close>

text \<open>
  A query handler run on a state and a client; \<open>None\<close> is a panic, which the server recovers by
  restarting the worker without an answer.
\<close>

type_synonym ('w, 'n) query_fun = "'w \<Rightarrow> 'n Client \<Rightarrow> ('w \<times> 'n Client) may_panic"
type_synonym ('w, 'n) handler = "('w, 'n) query_fun option \<Rightarrow> ('w, 'n) query_fun"

definition PassToNext :: "('w, 'n) query_fun option \<Rightarrow> ('w, 'n) query_fun" where
  "PassToNext nxt w c = (case nxt of None \<Rightarrow> Some (w, c) | Some h \<Rightarrow> h w c)"

text \<open>The first handler of a chain, with every handler linked to the next one.\<close>

fun BuildQueryChain :: "('w, 'n) handler list \<Rightarrow> ('w, 'n) query_fun option" where
  "BuildQueryChain [] = None"
| "BuildQueryChain (h # hs) = Some (h (BuildQueryChain hs))"

section \<open>The filter\<close>

record SFProtector =
  sf_drop :: bool

definition sf_ReloadConfig :: "bool \<Rightarrow> SFProtector" where
  "sf_ReloadConfig dropSrvFailed = \<lparr>sf_drop = dropSrvFailed\<rparr>"

definition sf_AllowResponse :: "SFProtector \<Rightarrow> 'n Client \<Rightarrow> bool" where
  "sf_AllowResponse p c =
     (if \<not> sf_drop p then True
      else case c_Response c of None \<Rightarrow> False | Some r \<Rightarrow> h_Rcode (m_Header r) \<noteq> R_SERVFAIL)"

datatype sf_cmd = SrvFailedProtect bool

fun sf_HandleCmd :: "SFProtector \<Rightarrow> sf_cmd \<Rightarrow> SFProtector \<times> unit cmd_outcome" where
  "sf_HandleCmd p (SrvFailedProtect enable) = (p\<lparr>sf_drop := enable\<rparr>, Returns None None)"

record ('t, 'd) RateLimit =
  ip_throtter :: "'t throttlerEntry"
  name_throtter :: "'d NameThrottler"

definition rl_AllowQuery ::
  "('t, u32) netradix \<Rightarrow> ('d, 'n, nat) domaintree \<Rightarrow> instant \<Rightarrow> 'n Client \<Rightarrow> ('t, 'd) RateLimit
   \<Rightarrow> (bool \<times> ('t, 'd) RateLimit) may_panic" where
  "rl_AllowQuery N D now c l =
     (case client_IP c of
        None \<Rightarrow> None
      | Some a \<Rightarrow>
          (case isIpAllowed N now a (ip_throtter l) of
             (False, t) \<Rightarrow> Some (False, l\<lparr>ip_throtter := t\<rparr>)
           | (True, t) \<Rightarrow>
               (case m_Question (c_Request c) of
                  None \<Rightarrow> Some (False, l\<lparr>ip_throtter := t\<rparr>)
                | Some q \<Rightarrow>
                    map_option (\<lambda>(b, nt). (b, l\<lparr>ip_throtter := t, name_throtter := nt\<rparr>))
                      (IsNameAllowed D now (c_View c) (q_Name q) (name_throtter l)))))"

record ('t, 'd) FilterChain =
  preFilter :: "('t, 'd) RateLimit"
  postFilter :: SFProtector

text \<open>
  The chain has one filter on each side (\<open>NewFilterChain\<close>). The filter's state is a component of the
  program's state, reached by \<open>get\<close> and \<open>put\<close>.
\<close>

definition filter_HandleQuery ::
  "('t, u32) netradix \<Rightarrow> ('d, 'n, nat) domaintree \<Rightarrow> instant \<Rightarrow> ('w \<Rightarrow> ('t, 'd) FilterChain)
   \<Rightarrow> (('t, 'd) FilterChain \<Rightarrow> 'w \<Rightarrow> 'w) \<Rightarrow> ('w, 'n) handler" where
  "filter_HandleQuery N D now get put nxt w c =
     (case rl_AllowQuery N D now c (preFilter (get w)) of
        None \<Rightarrow> None
      | Some (allowed, l) \<Rightarrow>
          (let w1 = put ((get w)\<lparr>preFilter := l\<rparr>) w in
           if \<not> allowed then Some (w1, c)
           else case PassToNext nxt w1 c of
                  None \<Rightarrow> None
                | Some (w2, c2) \<Rightarrow>
                    if sf_AllowResponse (postFilter (get w2)) c2 then Some (w2, c2)
                    else Some (w2, c2\<lparr>c_Response := None\<rparr>)))"

definition filter_ReloadConfig ::
  "'n g53 \<Rightarrow> ('t, u32) netradix \<Rightarrow> ('d, 'n, nat) domaintree \<Rightarrow> NetworkLimitConf list
   \<Rightarrow> (view \<times> NameLimitConf list) list \<Rightarrow> bool \<Rightarrow> ('t, 'd) FilterChain \<Rightarrow> ('t, 'd) FilterChain may_panic" where
  "filter_ReloadConfig G N D nets names dropSrvFailed f =
     Option.bind (ip_ReloadConfig N nets) (\<lambda>t.
     Option.bind (name_ReloadConfig G D names (name_throtter (preFilter f))) (\<lambda>nt.
       Some \<lparr>preFilter = \<lparr>ip_throtter = t, name_throtter = nt\<rparr>, postFilter = sf_ReloadConfig dropSrvFailed\<rparr>))"

section \<open>Keys of queries\<close>

lemma pack_key_parts:
  "ucast (pack_key h v t) = t" "ucast (drop_bit 16 (pack_key h v t)) = v" "ucast (drop_bit 32 (pack_key h v t)) = h"
  by (rule bit_word_eqI; auto simp: pack_key_def bit_simps dest: bit_imp_le_length)+

lemma pack_key_inject: "pack_key h v t = pack_key h' v' t' \<longleftrightarrow> h = h' \<and> v = v' \<and> t = t'"
  using pack_key_parts by metis

lemma filter_no_srvfail:
  assumes "filter_HandleQuery N D now get put nxt w c = Some (w', c')" "c_Response c = None"
    and "sf_drop (postFilter (get w'))" "c_Response c' = Some r"
  shows "h_Rcode (m_Header r) \<noteq> R_SERVFAIL"
  using assms
  by (auto simp: filter_HandleQuery_def Let_def sf_AllowResponse_def split: option.splits if_splits prod.splits)

end
