(* ===== verification/Go_Time.thy ===== *)
theory Go_Time
  imports Go_Std
begin

text \<open>
  The calendar part of Go's \<open>time\<close> package that \<open>acl/schedule.go\<close> uses: \<open>time.Date\<close>, \<open>Year\<close>,
  \<open>Month\<close>, \<open>Day\<close>, \<open>Weekday\<close>, \<open>After\<close>, \<open>Before\<close> and \<open>Add\<close>, in the proleptic Gregorian calendar and
  for a location with a fixed offset (in seconds) to UTC. Day 0 is January 1 of year 1, a Monday.
  The main facts: the year and the day of the year of a day determine it (\<open>civil_day\<close>), and
  \<open>time.Date\<close> applied to the year, month and day of an instant is the local midnight plus the given
  hours and minutes (\<open>Date_same_day\<close>).
\<close>

section \<open>Years\<close>

definition leap :: "int \<Rightarrow> bool" where
  "leap y \<longleftrightarrow> 4 dvd y \<and> (\<not> 100 dvd y \<or> 400 dvd y)"

text \<open>Days from day 0 to January 1 of year \<open>y\<close>.\<close>

definition days_before_year :: "int \<Rightarrow> int" where
  "days_before_year y = (let n = y - 1 in 365 * n + n div 4 - n div 100 + n div 400)"

text \<open>Year and day of the year (from 0), by cycles of 400, 100, 4 and 1 years.\<close>

definition civil :: "int \<Rightarrow> int \<times> int" where
  "civil d =
     (let n400 = d div 146097; r = d mod 146097;
          n100 = min 3 (r div 36524); r1 = r - 36524 * n100;
          n4 = r1 div 1461; r2 = r1 mod 1461;
          n1 = min 3 (r2 div 365)
      in (400 * n400 + 100 * n100 + 4 * n4 + n1 + 1, r2 - 365 * n1))"

lemma div_plus_small: "0 \<le> e \<Longrightarrow> e < k \<Longrightarrow> (k * x + e) div k = (x :: int)"
  by (simp add: div_pos_pos_trivial)

lemma days_before_year_cycles:
  assumes "0 \<le> b" "b \<le> 3" "0 \<le> c" "c \<le> 24" "0 \<le> e" "e \<le> 3"
  shows "days_before_year (400 * a + 100 * b + 4 * c + e + 1) =
           146097 * a + 36524 * b + 1461 * c + 365 * e"
proof -
  let ?n = "400 * a + 100 * b + 4 * c + e"
  have 4: "?n = 4 * (100 * a + 25 * b + c) + e" and 100: "?n = 100 * (4 * a + b) + (4 * c + e)"
    and 400: "?n = 400 * a + (100 * b + 4 * c + e)"
    by simp_all
  have "?n div 4 = 100 * a + 25 * b + c"
    unfolding 4 by (rule div_plus_small) (use assms in linarith)+
  moreover have "?n div 100 = 4 * a + b"
    unfolding 100 by (rule div_plus_small) (use assms in linarith)+
  moreover have "?n div 400 = a"
    unfolding 400 by (rule div_plus_small) (use assms in linarith)+
  ultimately show ?thesis by (simp add: days_before_year_def Let_def)
qed

lemma leap_cycles:
  assumes "0 \<le> b" "b \<le> 3" "0 \<le> c" "c \<le> 24" "0 \<le> e" "e \<le> 3"
  shows "leap (400 * a + 100 * b + 4 * c + e + 1) \<longleftrightarrow> e = 3 \<and> (c \<noteq> 24 \<or> b = 3)"
proof -
  let ?y = "400 * a + 100 * b + 4 * c + e + 1"
  have dvd_small: "k dvd k * x + j \<longleftrightarrow> j = 0 \<or> j = k" if "0 \<le> j" "j \<le> k" "0 < k" for k x j :: int
    using that zdvd_not_zless [of j k] by (auto simp: dvd_add_right_iff order.order_iff_strict)
  have 4: "4 dvd ?y \<longleftrightarrow> e = 3"
    using dvd_small [of "e + 1" 4 "100 * a + 25 * b + c"] assms by (simp add: algebra_simps)
  have 100: "100 dvd ?y \<longleftrightarrow> c = 24" if "e = 3"
    using dvd_small [of "4 * c + 4" 100 "4 * a + b"] assms that by (simp add: algebra_simps)
  have 400: "400 dvd ?y \<longleftrightarrow> b = 3" if "e = 3" "c = 24"
    using dvd_small [of "100 * b + 100" 400 a] assms that by (simp add: algebra_simps)
  show ?thesis unfolding leap_def using 4 100 400 by auto
qed

text \<open>The quotients of \<open>civil\<close>, their ranges and how they make up the day.\<close>

lemma civil_cases:
  obtains a b c e yd where
    "0 \<le> b" "b \<le> 3" "0 \<le> c" "c \<le> 24" "0 \<le> e" "e \<le> 3"
    "civil d = (400 * a + 100 * b + 4 * c + e + 1, yd)"
    "d = 146097 * a + 36524 * b + 1461 * c + 365 * e + yd"
    "0 \<le> yd" "yd \<le> (if e = 3 \<and> (c \<noteq> 24 \<or> b = 3) then 365 else 364)"
proof -
  define a where "a = d div 146097"
  define r where "r = d mod 146097"
  define b where "b = min 3 (r div 36524)"
  define r1 where "r1 = r - 36524 * b"
  define c where "c = r1 div 1461"
  define r2 where "r2 = r1 mod 1461"
  define e where "e = min 3 (r2 div 365)"
  define yd where "yd = r2 - 365 * e"
  have civ: "civil d = (400 * a + 100 * b + 4 * c + e + 1, yd)"
    unfolding civil_def Let_def yd_def e_def r2_def c_def r1_def b_def r_def a_def ..
  have d: "d = 146097 * a + r" by (simp add: a_def r_def)
  have r: "0 \<le> r" "r < 146097" by (simp_all add: r_def)
  have b: "0 \<le> b" "b \<le> 3" using r by (simp_all add: b_def pos_imp_zdiv_nonneg_iff)
  have r1: "0 \<le> r1 \<and> r1 \<le> (if b = 3 then 36524 else 36523)"
  proof (cases "r div 36524 \<le> 3")
    case True
    then have "b = r div 36524" by (simp add: b_def)
    then have "r1 = r mod 36524" by (simp add: r1_def minus_mult_div_eq_mod)
    then have "0 \<le> r1" "r1 \<le> 36523"
      using pos_mod_sign [of 36524 r] pos_mod_bound [of 36524 r] by linarith+
    then show ?thesis by simp
  next
    case False
    have "36524 * (r div 36524) + r mod 36524 = r" by simp
    with False pos_mod_sign [of 36524 r] have "146096 \<le> r" by linarith
    with r False show ?thesis by (simp add: b_def r1_def)
  qed
  then have r1': "0 \<le> r1" "r1 \<le> 36524" by (auto split: if_splits)
  have r2: "0 \<le> r2" "r2 \<le> 1460"
    using pos_mod_sign [of 1461 r1] pos_mod_bound [of 1461 r1] by (simp_all add: r2_def)
  have r12: "r1 = 1461 * c + r2" by (simp add: c_def r2_def)
  have c: "0 \<le> c" "c \<le> 24" using r1' r2 r12 by linarith+
  have e: "0 \<le> e" "e \<le> 3" using r2 by (simp_all add: e_def pos_imp_zdiv_nonneg_iff)
  have "365 * (r2 div 365) + r2 mod 365 = r2" by simp
  moreover have "e \<le> r2 div 365" by (simp add: e_def)
  ultimately have yd: "0 \<le> yd" using pos_mod_sign [of 365 r2] unfolding yd_def by linarith
  have "yd \<le> (if e = 3 \<and> (c \<noteq> 24 \<or> b = 3) then 365 else 364)"
  proof (cases "e = 3")
    case True
    then show ?thesis using r2 r1 r12 by (auto simp: yd_def split: if_splits)
  next
    case False
    then have "e = r2 div 365" by (auto simp: e_def min_def split: if_splits)
    then have "yd = r2 mod 365" by (simp add: yd_def minus_mult_div_eq_mod)
    then have "yd \<le> 364" using pos_mod_bound [of 365 r2] by linarith
    then show ?thesis using False by simp
  qed
  moreover have "d = 146097 * a + 36524 * b + 1461 * c + 365 * e + yd"
    using d r12 by (simp add: r1_def yd_def)
  ultimately show thesis by (rule that [OF b c e civ _ yd, rotated])
qed

text \<open>The year and the day of the year determine the day, and the day of the year is in range.\<close>

lemma civil_day:
  assumes "civil d = (y, yd)"
  shows "days_before_year y + yd = d" and "0 \<le> yd" and "yd \<le> (if leap y then 365 else 364)"
proof -
  obtain a b c e yd' where B: "0 \<le> b" "b \<le> 3" "0 \<le> c" "c \<le> 24" "0 \<le> e" "e \<le> 3"
    and civ: "civil d = (400 * a + 100 * b + 4 * c + e + 1, yd')"
    and d: "d = 146097 * a + 36524 * b + 1461 * c + 365 * e + yd'"
    and yd: "0 \<le> yd'" "yd' \<le> (if e = 3 \<and> (c \<noteq> 24 \<or> b = 3) then 365 else 364)"
    by (rule civil_cases)
  have y: "y = 400 * a + 100 * b + 4 * c + e + 1" "yd = yd'" using assms civ by simp_all
  show "days_before_year y + yd = d" unfolding y days_before_year_cycles [OF B] using d by simp
  show "0 \<le> yd" "yd \<le> (if leap y then 365 else 364)"
    unfolding y leap_cycles [OF B] using yd by simp_all
qed

section \<open>Months\<close>

text \<open>Days before each month in a common year (\<open>daysBefore\<close> of the \<open>time\<close> package).\<close>

definition days_before :: "int list" where
  "days_before = [0, 31, 59, 90, 120, 151, 181, 212, 243, 273, 304, 334, 365]"

definition month_start :: "bool \<Rightarrow> int \<Rightarrow> int" where
  "month_start lp m = days_before ! nat (m - 1) + (if lp \<and> 3 \<le> m then 1 else 0)"

text \<open>The month a day of the year falls in.\<close>

definition month_of :: "bool \<Rightarrow> int \<Rightarrow> int" where
  "month_of lp yd = (case find (\<lambda>m. month_start lp m \<le> yd) [12, 11, 10, 9, 8, 7, 6, 5, 4, 3, 2] of
     Some m \<Rightarrow> m | None \<Rightarrow> 1)"

lemma month_of_range: "1 \<le> month_of lp yd \<and> month_of lp yd \<le> 12"
proof (cases "find (\<lambda>m. month_start lp m \<le> yd) [12, 11, 10, 9, 8, 7, 6, 5, 4, 3, 2]")
  case None
  then show ?thesis by (simp only: month_of_def option.case) simp
next
  case (Some m)
  then have "m \<in> set [12, 11, 10, 9, 8, 7, 6, 5, 4, 3, 2]"
    unfolding find_Some_iff_first by (metis in_set_conv_decomp)
  then have "1 \<le> m \<and> m \<le> 12" by auto
  with Some show ?thesis by (simp only: month_of_def option.case)
qed

lemma month_start_le: "0 \<le> yd \<Longrightarrow> month_start lp (month_of lp yd) \<le> yd"
proof (cases "find (\<lambda>m. month_start lp m \<le> yd) [12, 11, 10, 9, 8, 7, 6, 5, 4, 3, 2]")
  case None
  assume "0 \<le> yd"
  moreover have "month_start lp 1 = 0" by (simp add: month_start_def days_before_def)
  ultimately show ?thesis using None by (simp only: month_of_def option.case)
next
  case (Some m)
  then have "month_start lp m \<le> yd" by (meson find_Some_iff_first)
  with Some show ?thesis by (simp only: month_of_def option.case)
qed

section \<open>Instants and dates\<close>

text \<open>\<open>off\<close> is the location's offset to UTC in seconds.\<close>

definition local_second :: "int \<Rightarrow> instant \<Rightarrow> int" where
  "local_second off t = t div Second + off"

definition local_day :: "int \<Rightarrow> instant \<Rightarrow> int" where
  "local_day off t = local_second off t div 86400"

definition Year :: "int \<Rightarrow> instant \<Rightarrow> int" where
  "Year off t = fst (civil (local_day off t))"

definition YearDay0 :: "int \<Rightarrow> instant \<Rightarrow> int" where
  "YearDay0 off t = snd (civil (local_day off t))"

definition Month :: "int \<Rightarrow> instant \<Rightarrow> int" where
  "Month off t = month_of (leap (Year off t)) (YearDay0 off t)"

definition Day :: "int \<Rightarrow> instant \<Rightarrow> int" where
  "Day off t = YearDay0 off t - month_start (leap (Year off t)) (Month off t) + 1"

text \<open>Sunday is 0, as in Go.\<close>

definition Weekday :: "int \<Rightarrow> instant \<Rightarrow> int" where
  "Weekday off t = (local_day off t + 1) mod 7"

text \<open>
  \<open>time.Date(y, m, d, h, mi, 0, 0, loc)\<close> for a month in 1 to 12; a day, hour or minute out of its
  range moves the result on, as Go documents.
\<close>

definition Date :: "int \<Rightarrow> int \<Rightarrow> int \<Rightarrow> int \<Rightarrow> int \<Rightarrow> int \<Rightarrow> instant" where
  "Date off y m d h mi =
     ((days_before_year y + month_start (leap y) m + (d - 1)) * 86400 + h * 3600 + mi * 60 - off) * Second"

definition After :: "instant \<Rightarrow> instant \<Rightarrow> bool" where "After t u \<longleftrightarrow> t > u"
definition Before :: "instant \<Rightarrow> instant \<Rightarrow> bool" where "Before t u \<longleftrightarrow> t < u"

definition secondsOneDay :: duration where "secondsOneDay = 24 * 3600 * Second"

text \<open>Nanoseconds since local midnight and since the start of the local week (Sunday).\<close>

definition clock :: "int \<Rightarrow> instant \<Rightarrow> int" where
  "clock off t = (local_second off t mod 86400) * Second + t mod Second"

definition week_clock :: "int \<Rightarrow> instant \<Rightarrow> int" where
  "week_clock off t = Weekday off t * secondsOneDay + clock off t"

lemma instant_split:
  "t = (local_day off t * 86400 - off) * Second + clock off t"
proof -
  have "local_day off t * 86400 + local_second off t mod 86400 = t div Second + off"
    by (simp add: local_day_def local_second_def)
  then have "(local_day off t * 86400 - off) + local_second off t mod 86400 = t div Second" by simp
  moreover have "t = t div Second * Second + t mod Second" by simp
  ultimately show ?thesis unfolding clock_def by (metis add.assoc distrib_right)
qed

lemma clock_range: "0 \<le> clock off t \<and> clock off t < secondsOneDay"
proof -
  have "0 \<le> t mod Second" "t mod Second < Second" by (simp_all add: Second_def)
  moreover have "0 \<le> local_second off t mod 86400" "local_second off t mod 86400 \<le> 86399" by simp_all
  ultimately show ?thesis by (auto simp: clock_def secondsOneDay_def Second_def)
qed

text \<open>\<open>Date\<close> on the year, month and day of \<open>t\<close> is the local midnight of \<open>t\<close> plus the clock time.\<close>

lemma Date_same_day [cal_simps]:
  "Date off (Year off t) (Month off t) (Day off t) h mi =
     (local_day off t * 86400 + h * 3600 + mi * 60 - off) * Second"
proof -
  obtain y yd where c: "civil (local_day off t) = (y, yd)" by fastforce
  have "days_before_year y + yd = local_day off t" by (rule civil_day(1) [OF c])
  with c show ?thesis by (simp add: Date_def Day_def YearDay0_def Year_def)
qed

lemma Date_year_day:
  "Date off (Year off t) m d h mi =
     (local_day off t - YearDay0 off t + month_start (leap (Year off t)) m + (d - 1)) * 86400 * Second
     + (h * 3600 + mi * 60 - off) * Second"
proof -
  obtain y yd where c: "civil (local_day off t) = (y, yd)" by fastforce
  have d: "days_before_year y = local_day off t - yd" using civil_day(1) [OF c] by simp
  show ?thesis unfolding Date_def YearDay0_def Year_def c fst_conv snd_conv d
    by (simp only: algebra_simps)
qed

end
