(* ===== verification/Message_Cache.thy ===== *)
theory Message_Cache
  imports Core Go_Time
begin

text \<open>
  The answer cache, \<open>cache/\<close>: the bounded message cache of a view (\<open>messagecache.go\<close>), the
  prefetcher (\<open>prefetch.go\<close>), the handler with one cache per view (\<open>cache.go\<close>) and its commands
  (\<open>cmdhandler.go\<close>). Messages are values here: an operation that changes a message in place returns
  the changed one, and the caller stores it where the pointer was. The cache shares the message it
  stores with the client that brought it; a later write of a handler to that message is an operation
  of its own, \<open>write_cached\<close>, and part of the histories the properties speak of. Channels are explicit,
  so that a send on a closed channel is a panic and a rendezvous with a loop that has ended blocks.
\<close>

unbundle bit_operations_syntax

section \<open>Entries\<close>

definition defaultNegativeCacheTtl :: u32 where "defaultNegativeCacheTtl = 60"
definition defaultPositiveCacheTtl :: u32 where "defaultPositiveCacheTtl = 3600"
definition defaultMaxCacheSize :: nat where "defaultMaxCacheSize = 0"
definition prefetchTime :: int where "prefetchTime = 10"

record 'n MessageCacheEntry =
  e_message :: "'n Message"
  e_expireTime :: instant

definition IsExpire :: "instant \<Rightarrow> 'n MessageCacheEntry \<Rightarrow> bool" where
  "IsExpire now e \<longleftrightarrow> Before (e_expireTime e) now"

definition NeedPrefetch :: "instant \<Rightarrow> 'n MessageCacheEntry \<Rightarrow> bool" where
  "NeedPrefetch now e \<longleftrightarrow> Before (e_expireTime e) (now + prefetchTime * Second)"

definition keyForMessage :: "'n g53 \<Rightarrow> 'n \<Rightarrow> u16 \<Rightarrow> u64" where
  "keyForMessage G name typ = push_bit 32 (ucast (Name_Hash G name)) OR ucast typ"

section \<open>Prefetcher\<close>

datatype 'a channel = NilChan | OpenChan "'a list" | ClosedChan

definition defaultTaskChanBuf :: nat where "defaultTaskChanBuf = 1024"

text \<open>\<open>pf_running\<close>: a goroutine is in the loop of \<open>run\<close>.\<close>

record 'n Prefetcher =
  pf_taskChan :: "'n Client channel"
  pf_taskKeys :: "u64 set"
  pf_running :: bool

definition newPrefetcher :: "'n Prefetcher" where
  "newPrefetcher = \<lparr>pf_taskChan = NilChan, pf_taskKeys = {}, pf_running = False\<rparr>"

definition pf_reloadConfig :: "'n Prefetcher \<Rightarrow> 'n Prefetcher" where
  "pf_reloadConfig p = p\<lparr>pf_taskChan := OpenChan [], pf_taskKeys := {}\<rparr>"

text \<open>
  \<open>stop\<close> sends on an unbuffered channel and waits for the answer: with no loop at the other end it
  never returns, which is \<open>None\<close>.
\<close>

definition pf_stop :: "'n Prefetcher \<Rightarrow> 'n Prefetcher option" where
  "pf_stop p = (if pf_running p then Some (p\<lparr>pf_running := False, pf_taskChan := ClosedChan\<rparr>) else None)"

text \<open>A send on a nil channel is not ready, so \<open>select\<close> takes its default branch.\<close>

definition addPrefetchTask :: "'n g53 \<Rightarrow> 'n Client \<Rightarrow> 'n Prefetcher \<Rightarrow> 'n Prefetcher may_panic" where
  "addPrefetchTask G client p =
     (case QueryKey G client of
        None \<Rightarrow> None
      | Some key \<Rightarrow>
          if key \<in> pf_taskKeys p then Some p
          else (case pf_taskChan p of
                  ClosedChan \<Rightarrow> None
                | NilChan \<Rightarrow> Some p
                | OpenChan ts \<Rightarrow>
                    if length ts < defaultTaskChanBuf
                    then Some (p\<lparr>pf_taskChan := OpenChan (ts @ [client\<lparr>c_UsingTCP := False\<rparr>]),
                                 pf_taskKeys := insert key (pf_taskKeys p)\<rparr>)
                    else Some p))"

definition deletePrefetchTask :: "u64 \<Rightarrow> 'n Prefetcher \<Rightarrow> 'n Prefetcher" where
  "deletePrefetchTask key p = p\<lparr>pf_taskKeys := pf_taskKeys p - {key}\<rparr>"

section \<open>The cache of a view\<close>

record 'n MessageCache =
  positiveTtl :: u32
  negativeTtl :: u32
  maxSize :: nat
  shortAnswer :: bool
  needPrefetch :: bool
  mc_ll :: "'n MessageCacheEntry golist"
  mc_cache :: "u64 \<rightharpoonup> nat"
  prefetcher :: "'n Prefetcher"

record CacheConf =
  cc_PositiveTtl :: u32
  cc_NegativeTtl :: u32
  cc_MaxCacheSize :: nat
  cc_ShortAnswer :: bool
  cc_Prefetch :: bool

text \<open>\<open>None\<close>: the call never returns, since it waits for a prefetcher that does not run.\<close>

definition mc_reloadConfig :: "CacheConf \<Rightarrow> 'n MessageCache \<Rightarrow> 'n MessageCache option" where
  "mc_reloadConfig conf c =
     (case (if needPrefetch c then pf_stop (prefetcher c) else Some (prefetcher c)) of
        None \<Rightarrow> None
      | Some p \<Rightarrow>
          (let c1 = c\<lparr>prefetcher := p,
                positiveTtl := (if cc_PositiveTtl conf = 0 then defaultPositiveCacheTtl else cc_PositiveTtl conf),
                negativeTtl := (if cc_NegativeTtl conf = 0 then defaultNegativeCacheTtl else cc_NegativeTtl conf),
                maxSize := cc_MaxCacheSize conf,
                shortAnswer := cc_ShortAnswer conf\<rparr>
           in Some (if cc_Prefetch conf
                    then c1\<lparr>needPrefetch := True, prefetcher := (pf_reloadConfig p)\<lparr>pf_running := True\<rparr>\<rparr>
                    else c1)))"

definition newMessageCache :: "CacheConf \<Rightarrow> 'n MessageCache option" where
  "newMessageCache conf =
     mc_reloadConfig conf
       \<lparr>positiveTtl = 0, negativeTtl = 0, maxSize = 0, shortAnswer = False, needPrefetch = False,
        mc_ll = list_New, mc_cache = Map.empty, prefetcher = newPrefetcher\<rparr>"

text \<open>The TTL loop of \<open>positiveMessageToCache\<close>: the minimum so far and the capped RRsets.\<close>

fun capTtls :: "u32 \<Rightarrow> u32 \<Rightarrow> 'n RRset list \<Rightarrow> u32 \<times> 'n RRset list" where
  "capTtls cap minTtl [] = (minTtl, [])"
| "capTtls cap minTtl (r # rs) =
     (if rr_Ttl r < minTtl then (case capTtls cap (rr_Ttl r) rs of (m, rs') \<Rightarrow> (m, r # rs'))
      else (case capTtls cap minTtl rs of
              (m, rs') \<Rightarrow> (m, (if rr_Ttl r > cap then r\<lparr>rr_Ttl := cap\<rparr> else r) # rs')))"

definition positiveMessageToCache ::
  "'n g53 \<Rightarrow> instant \<Rightarrow> 'n MessageCache \<Rightarrow> 'n Message \<Rightarrow> 'n MessageCacheEntry" where
  "positiveMessageToCache G now c m0 =
     (let m = (if shortAnswer c
               then Message_ClearSection G AdditionalSection (Message_ClearSection G AuthSection m0) else m0);
          (minTtl, answers) = capTtls (positiveTtl c) (positiveTtl c) (m_Answer m)
      in \<lparr>e_message = m\<lparr>m_Answer := answers\<rparr>, e_expireTime = now + Second * int (unat minTtl)\<rparr>)"

text \<open>The TTL of a negative answer and the authority section with the SOA record's TTL capped.\<close>

definition negativeTtlOf :: "u32 \<Rightarrow> 'n RRset list \<Rightarrow> u32 \<times> 'n RRset list" where
  "negativeTtlOf ttl auths =
     (case auths of
        [soa] \<Rightarrow>
          (case rr_Rdatas soa of
             [RdSOA _ _ minimum] \<Rightarrow>
               if rr_Type soa = RR_SOA then
                 (let minTtl = (if ttl > minimum then minimum else ttl) in
                  if rr_Ttl soa < minTtl then (rr_Ttl soa, auths)
                  else (minTtl, [soa\<lparr>rr_Ttl := minTtl\<rparr>]))
               else (ttl, auths)
           | _ \<Rightarrow> (ttl, auths))
      | _ \<Rightarrow> (ttl, auths))"

definition negativeMessageToCache ::
  "'n g53 \<Rightarrow> instant \<Rightarrow> 'n MessageCache \<Rightarrow> 'n Message \<Rightarrow> 'n MessageCacheEntry" where
  "negativeMessageToCache G now c m0 =
     (let (minTtl, auths) = negativeTtlOf (negativeTtl c) (m_Auth m0);
          m1 = m0\<lparr>m_Auth := auths\<rparr>;
          m = (if shortAnswer c then Message_ClearSection G AdditionalSection m1 else m1)
      in \<lparr>e_message = m, e_expireTime = now + int (unat minTtl) * Second\<rparr>)"

definition messageToCache ::
  "'n g53 \<Rightarrow> instant \<Rightarrow> 'n MessageCache \<Rightarrow> 'n Message \<Rightarrow> 'n MessageCacheEntry" where
  "messageToCache G now c m0 =
     (let m = m0\<lparr>m_Header := Header_SetFlag G FLAG_RA True (m_Header m0)\<rparr> in
      if m_Answer m \<noteq> [] then positiveMessageToCache G now c m else negativeMessageToCache G now c m)"

text \<open>Every cached message has a question; the key of an entry is the key of its question.\<close>

definition entryKey :: "'n g53 \<Rightarrow> 'n MessageCacheEntry \<Rightarrow> u64" where
  "entryKey G e =
     (case m_Question (e_message e) of None \<Rightarrow> 0 | Some q \<Rightarrow> keyForMessage G (q_Name q) (q_Type q))"

definition mc_removeElement :: "'n g53 \<Rightarrow> nat \<Rightarrow> 'n MessageCache \<Rightarrow> 'n MessageCache" where
  "mc_removeElement G e c =
     (case elem_value e (mc_ll c) of
        None \<Rightarrow> c
      | Some entry \<Rightarrow>
          c\<lparr>mc_ll := list_Remove e (mc_ll c), mc_cache := (mc_cache c)(entryKey G entry := None)\<rparr>)"

definition mc_removeOldest :: "'n g53 \<Rightarrow> 'n MessageCache \<Rightarrow> 'n MessageCache" where
  "mc_removeOldest G c = (case list_Back (mc_ll c) of None \<Rightarrow> c | Some e \<Rightarrow> mc_removeElement G e c)"

definition mc_add :: "'n g53 \<Rightarrow> u64 \<Rightarrow> 'n MessageCacheEntry \<Rightarrow> 'n MessageCache \<Rightarrow> 'n MessageCache" where
  "mc_add G key entry c =
     (let c1 = (case mc_cache c key of
                  Some e \<Rightarrow> c\<lparr>mc_ll := elem_set_value e entry (list_MoveToFront e (mc_ll c))\<rparr>
                | None \<Rightarrow>
                    (let (e, l) = list_PushFront entry (mc_ll c)
                     in c\<lparr>mc_ll := l, mc_cache := (mc_cache c)(key \<mapsto> e)\<rparr>))
      in if maxSize c1 \<noteq> defaultMaxCacheSize \<and> list_Len (mc_ll c1) > maxSize c1
         then mc_removeOldest G c1 else c1)"

text \<open>\<open>Add\<close> also changes the message it is given: the entry's message is what the caller keeps.\<close>

definition mc_Add ::
  "'n g53 \<Rightarrow> instant \<Rightarrow> 'n Message \<Rightarrow> 'n MessageCache \<Rightarrow> ('n Message \<times> 'n MessageCache) may_panic" where
  "mc_Add G now m c =
     (let entry = messageToCache G now c m in
      case m_Question m of
        None \<Rightarrow> None
      | Some q \<Rightarrow> Some (e_message entry, mc_add G (keyForMessage G (q_Name q) (q_Type q)) entry c))"

definition roundrobinAnswer :: "'n g53 \<Rightarrow> 'n Message \<Rightarrow> 'n Message" where
  "roundrobinAnswer G m =
     m\<lparr>m_Answer := map (\<lambda>r. if length (rr_Rdatas r) > 1 then RRset_RotateRdata G r else r) (m_Answer m)\<rparr>"

definition mc_get ::
  "'n g53 \<Rightarrow> instant \<Rightarrow> 'n \<Rightarrow> u16 \<Rightarrow> 'n MessageCache \<Rightarrow> 'n MessageCacheEntry option \<times> 'n MessageCache" where
  "mc_get G now name typ c =
     (case mc_cache c (keyForMessage G name typ) of
        None \<Rightarrow> (None, c)
      | Some e \<Rightarrow>
          (case elem_value e (mc_ll c) of
             None \<Rightarrow> (None, c)
           | Some entry \<Rightarrow>
               if \<not> IsExpire now entry \<and>
                  (case m_Question (e_message entry) of None \<Rightarrow> False | Some q \<Rightarrow> Name_Equals G (q_Name q) name)
               then (let entry' = entry\<lparr>e_message := roundrobinAnswer G (e_message entry)\<rparr>
                     in (Some entry', c\<lparr>mc_ll := elem_set_value e entry' (list_MoveToFront e (mc_ll c))\<rparr>))
               else (None, c)))"

definition mc_Get ::
  "'n g53 \<Rightarrow> instant \<Rightarrow> 'n Client \<Rightarrow> 'n MessageCache \<Rightarrow> ('n Message option \<times> 'n MessageCache) may_panic" where
  "mc_Get G now client c =
     (case m_Question (c_Request client) of
        None \<Rightarrow> None
      | Some q \<Rightarrow>
          (case mc_get G now (q_Name q) (q_Type q) c of
             (None, c') \<Rightarrow> Some (None, c')
           | (Some entry, c') \<Rightarrow>
               if needPrefetch c' \<and> NeedPrefetch now entry
               then map_option (\<lambda>p. (Some (e_message entry), c'\<lparr>prefetcher := p\<rparr>))
                      (addPrefetchTask G client (prefetcher c'))
               else Some (Some (e_message entry), c')))"

definition mc_Remove :: "'n g53 \<Rightarrow> 'n \<Rightarrow> u16 \<Rightarrow> 'n MessageCache \<Rightarrow> 'n MessageCache" where
  "mc_Remove G name typ c =
     (case mc_cache c (keyForMessage G name typ) of None \<Rightarrow> c | Some e \<Rightarrow> mc_removeElement G e c)"

definition mc_Len :: "'n MessageCache \<Rightarrow> nat" where
  "mc_Len c = list_Len (mc_ll c)"

definition mc_Clear :: "'n MessageCache \<Rightarrow> 'n MessageCache" where
  "mc_Clear c = c\<lparr>mc_ll := (mc_ll c)\<lparr>elems := []\<rparr>, mc_cache := Map.empty\<rparr>"

text \<open>One task of the prefetcher's loop, with the handlers behind the cache.\<close>

definition prefetch_step ::
  "'n g53 \<Rightarrow> instant \<Rightarrow> ('w, 'n) query_fun option \<Rightarrow> 'w \<Rightarrow> 'n MessageCache \<Rightarrow> ('w \<times> 'n MessageCache) may_panic" where
  "prefetch_step G now nxt w c =
     (case pf_taskChan (prefetcher c) of
        OpenChan (task # tasks) \<Rightarrow>
          (let c1 = c\<lparr>prefetcher := (prefetcher c)\<lparr>pf_taskChan := OpenChan tasks\<rparr>\<rparr> in
           case PassToNext nxt w task of
             None \<Rightarrow> None
           | Some (w', task') \<Rightarrow>
               (case c_Response task' of
                  None \<Rightarrow> Some (w', c1)
                | Some resp \<Rightarrow>
                    if c_CacheAnswer task' then
                      (case mc_Add G now resp c1 of
                         None \<Rightarrow> None
                       | Some (_, c2) \<Rightarrow>
                           map_option (\<lambda>key. (w', c2\<lparr>prefetcher := deletePrefetchTask key (prefetcher c2)\<rparr>))
                             (QueryKey G task'))
                    else Some (w', c1)))
      | _ \<Rightarrow> Some (w, c))"

section \<open>The handler\<close>

type_synonym 'n ViewCaches = "view \<rightharpoonup> 'n MessageCache"

definition DefaultView :: view where "DefaultView = ''default''"

definition reloadView :: "CacheConf \<Rightarrow> 'n ViewCaches \<Rightarrow> view \<Rightarrow> 'n ViewCaches \<Rightarrow> 'n ViewCaches option" where
  "reloadView conf old v new =
     (case old v of
        Some mc \<Rightarrow> map_option (\<lambda>mc'. new(v \<mapsto> mc')) (mc_reloadConfig conf mc)
      | None \<Rightarrow> map_option (\<lambda>mc'. new(v \<mapsto> mc')) (newMessageCache conf))"

fun reloadViews :: "CacheConf \<Rightarrow> 'n ViewCaches \<Rightarrow> view list \<Rightarrow> 'n ViewCaches \<Rightarrow> 'n ViewCaches option" where
  "reloadViews conf old [] new = Some new"
| "reloadViews conf old (v # vs) new = Option.bind (reloadView conf old v new) (reloadViews conf old vs)"

text \<open>\<open>views\<close> lists the views of the view selector (the keys of \<open>GetViewAndIds\<close>, in any order).\<close>

definition cache_ReloadConfig :: "CacheConf \<Rightarrow> view list \<Rightarrow> 'n ViewCaches \<Rightarrow> 'n ViewCaches option" where
  "cache_ReloadConfig conf views old =
     Option.bind (reloadViews conf old views Map.empty) (\<lambda>cache.
       case cache DefaultView of
         None \<Rightarrow> map_option (\<lambda>mc. cache(DefaultView \<mapsto> mc)) (newMessageCache conf)
       | Some mc \<Rightarrow> map_option (\<lambda>mc'. cache(DefaultView \<mapsto> mc')) (mc_reloadConfig conf mc))"

definition cache_AddMessage ::
  "'n g53 \<Rightarrow> instant \<Rightarrow> view \<Rightarrow> 'n Message \<Rightarrow> 'n ViewCaches \<Rightarrow> ('n Message \<times> 'n ViewCaches) may_panic" where
  "cache_AddMessage G now v m cache =
     (case cache v of
        None \<Rightarrow> Some (m, cache)
      | Some mc \<Rightarrow> map_option (\<lambda>(m', mc'). (m', cache(v \<mapsto> mc'))) (mc_Add G now m mc))"

definition cache_get ::
  "'n g53 \<Rightarrow> instant \<Rightarrow> 'n Client \<Rightarrow> 'n ViewCaches \<Rightarrow> ('n Message option \<times> 'n ViewCaches) may_panic" where
  "cache_get G now client cache =
     (case cache (c_View client) of
        None \<Rightarrow> Some (None, cache)
      | Some mc \<Rightarrow> map_option (\<lambda>(r, mc'). (r, cache(c_View client \<mapsto> mc'))) (mc_Get G now client mc))"

definition cache_response :: "'n g53 \<Rightarrow> 'n Client \<Rightarrow> 'n Message \<Rightarrow> 'n Message" where
  "cache_response G client m =
     m\<lparr>m_Header := Header_SetFlag G FLAG_AA False ((m_Header m)\<lparr>h_Id := h_Id (m_Header (c_Request client))\<rparr>),
       m_Question := m_Question (c_Request client)\<rparr>"

definition cache_HandleQuery ::
  "'n g53 \<Rightarrow> instant \<Rightarrow> ('w \<Rightarrow> 'n ViewCaches) \<Rightarrow> ('n ViewCaches \<Rightarrow> 'w \<Rightarrow> 'w) \<Rightarrow> ('w, 'n) handler" where
  "cache_HandleQuery G now get put nxt w client =
     (case cache_get G now client (get w) of
        None \<Rightarrow> None
      | Some (Some m, cache) \<Rightarrow>
          Some (put cache w, client\<lparr>c_CacheHit := True, c_Response := Some (cache_response G client m)\<rparr>)
      | Some (None, cache) \<Rightarrow>
          (case PassToNext nxt (put cache w) (client\<lparr>c_CacheHit := False\<rparr>) of
             None \<Rightarrow> None
           | Some (w1, c1) \<Rightarrow>
               (case c_Response c1 of
                  None \<Rightarrow> Some (w1, c1)
                | Some resp \<Rightarrow>
                    if c_CacheAnswer c1
                    then map_option (\<lambda>(m, cache'). (put cache' w1, c1\<lparr>c_Response := Some m\<rparr>))
                           (cache_AddMessage G now (c_View c1) resp (get w1))
                    else Some (w1, c1))))"

section \<open>Commands\<close>

datatype cache_cmd =
    CleanCache
  | CleanViewCache view
  | CleanRRsetsCache view string
  | CleanDomainCache string
  | GetDomainCache string string
  | GetMessageCache view string string

record RRInCache =
  ric_Name :: string
  ric_Type :: string
  ric_Class :: string
  ric_Ttl :: int
  ric_Rdata :: string

definition cleanAll :: "'n ViewCaches \<Rightarrow> 'n ViewCaches" where
  "cleanAll cache = (\<lambda>v. map_option mc_Clear (cache v))"

definition cleanInView :: "view \<Rightarrow> 'n ViewCaches \<Rightarrow> 'n ViewCaches \<times> cmd_error option" where
  "cleanInView v cache =
     (case cache v of
        Some mc \<Rightarrow> (cache(v \<mapsto> mc_Clear mc), None)
      | None \<Rightarrow> (cache, Some (AddDetail ErrUnknownView v)))"

definition cleanRRsetsCache ::
  "'n g53 \<Rightarrow> view \<Rightarrow> string \<Rightarrow> u16 list \<Rightarrow> 'n ViewCaches \<Rightarrow> 'n ViewCaches \<times> cmd_error option" where
  "cleanRRsetsCache G v name types cache =
     (case NameFromString G name of
        Inl err \<Rightarrow> (cache, Some (AddDetail ErrInvalidName err))
      | Inr rrsetName \<Rightarrow>
          (case cache v of
             None \<Rightarrow> (cache, Some (AddDetail ErrUnknownView v))
           | Some mc \<Rightarrow> (cache(v \<mapsto> fold (mc_Remove G rrsetName) types mc), None)))"

definition cleanDomainInView ::
  "'n g53 \<Rightarrow> view \<Rightarrow> string \<Rightarrow> 'n ViewCaches \<Rightarrow> 'n ViewCaches \<times> cmd_error option" where
  "cleanDomainInView G v name cache = cleanRRsetsCache G v name SupportRRTypes cache"

text \<open>The loops over the map of caches take its keys in some order, here the argument \<open>vs\<close>.\<close>

fun cleanDomain ::
  "'n g53 \<Rightarrow> string \<Rightarrow> view list \<Rightarrow> 'n ViewCaches \<Rightarrow> 'n ViewCaches \<times> cmd_error option" where
  "cleanDomain G name [] cache = (cache, None)"
| "cleanDomain G name (v # vs) cache =
     (case cleanRRsetsCache G v name SupportRRTypes cache of
        (cache', Some err) \<Rightarrow> (cache', Some err)
      | (cache', None) \<Rightarrow> cleanDomain G name vs cache')"

definition GetSingleMessageCache ::
  "'n g53 \<Rightarrow> instant \<Rightarrow> 'n \<Rightarrow> u16 \<Rightarrow> 'n MessageCache \<Rightarrow> 'n Message option \<times> 'n MessageCache" where
  "GetSingleMessageCache G now name typ c =
     (case mc_get G now name typ c of (r, c') \<Rightarrow> (map_option e_message r, c'))"

definition rrs_of_message :: "'n g53 \<Rightarrow> 'n \<Rightarrow> 'n Message \<Rightarrow> RRInCache list" where
  "rrs_of_message G qname m =
     concat (map (\<lambda>rrset. map (\<lambda>rdata.
       \<lparr>ric_Name = Name_String G qname, ric_Type = Type_String G (rr_Type rrset),
        ric_Class = Class_String G (rr_Class rrset), ric_Ttl = int (unat (rr_Ttl rrset)),
        ric_Rdata = Rdata_String G rdata\<rparr>) (rr_Rdatas rrset)) (m_Answer m))"

definition getSingleMessageCache ::
  "'n g53 \<Rightarrow> instant \<Rightarrow> view \<Rightarrow> 'n \<Rightarrow> u16 \<Rightarrow> 'n ViewCaches \<Rightarrow> RRInCache list \<times> 'n ViewCaches" where
  "getSingleMessageCache G now v qname qtype cache =
     (case cache v of
        None \<Rightarrow> ([], cache)
      | Some mc \<Rightarrow>
          (case GetSingleMessageCache G now qname qtype mc of
             (None, mc') \<Rightarrow> ([], cache(v \<mapsto> mc'))
           | (Some m, mc') \<Rightarrow> (rrs_of_message G qname m, cache(v \<mapsto> mc'))))"

fun getMessageTypes ::
  "'n g53 \<Rightarrow> instant \<Rightarrow> view \<Rightarrow> 'n \<Rightarrow> u16 list \<Rightarrow> 'n ViewCaches \<Rightarrow> RRInCache list \<times> 'n ViewCaches" where
  "getMessageTypes G now v qname [] cache = ([], cache)"
| "getMessageTypes G now v qname (t # ts) cache =
     (let (rrs, cache1) = getSingleMessageCache G now v qname t cache;
          (rest, cache2) = getMessageTypes G now v qname ts cache1
      in (rrs @ rest, cache2))"

definition getMessageCacheInView ::
  "'n g53 \<Rightarrow> instant \<Rightarrow> view \<Rightarrow> string \<Rightarrow> string \<Rightarrow> 'n ViewCaches \<Rightarrow> (cmd_error + RRInCache list) \<times> 'n ViewCaches" where
  "getMessageCacheInView G now v name typ cache =
     (case TypeFromString G typ of
        Inl err \<Rightarrow> (Inl (AddDetail ErrUnknownRRType typ), cache)
      | Inr qtype \<Rightarrow>
          (case NameFromString G name of
             Inl err \<Rightarrow> (Inl (AddDetail ErrInvalidName err), cache)
           | Inr qname \<Rightarrow>
               (case (if qtype = RR_ANY then getMessageTypes G now v qname SupportRRTypes cache
                      else getSingleMessageCache G now v qname qtype cache) of
                  (rrs, cache') \<Rightarrow> (Inr rrs, cache'))))"

fun getDomainViews ::
  "'n g53 \<Rightarrow> instant \<Rightarrow> string \<Rightarrow> (view \<times> u16) list \<Rightarrow> 'n ViewCaches \<Rightarrow> RRInCache list \<times> 'n ViewCaches" where
  "getDomainViews G now name [] cache = ([], cache)"
| "getDomainViews G now name ((v, t) # vts) cache =
     (let (r, cache1) = getMessageCacheInView G now v name (Type_String G t) cache;
          (rest, cache2) = getDomainViews G now name vts cache1
      in ((case r of Inl _ \<Rightarrow> [] | Inr rrs \<Rightarrow> rrs) @ rest, cache2))"

definition getDomainCache ::
  "'n g53 \<Rightarrow> instant \<Rightarrow> string \<Rightarrow> string \<Rightarrow> view list \<Rightarrow> 'n ViewCaches \<Rightarrow> (cmd_error + RRInCache list) \<times> 'n ViewCaches" where
  "getDomainCache G now name typ vs cache =
     (case TypeFromString G typ of
        Inl err \<Rightarrow> (Inl (AddDetail ErrUnknownRRType typ), cache)
      | Inr qtype \<Rightarrow>
          (case getDomainViews G now name
                  (List.product vs (if qtype = RR_ANY then SupportRRTypes else [qtype])) cache of
             (rrs, cache') \<Rightarrow> (Inr rrs, cache')))"

definition cmd_reply :: "(cmd_error + 'r) \<times> 's \<Rightarrow> 's \<times> 'r cmd_outcome" where
  "cmd_reply p = (snd p, case fst p of Inl err \<Rightarrow> Returns None (Some err) | Inr r \<Rightarrow> Returns (Some r) None)"

fun cache_HandleCmd ::
  "'n g53 \<Rightarrow> instant \<Rightarrow> view list \<Rightarrow> 'n ViewCaches \<Rightarrow> cache_cmd \<Rightarrow> 'n ViewCaches \<times> RRInCache list cmd_outcome" where
  "cache_HandleCmd G now vs cache CleanCache = (cleanAll cache, Returns None None)"
| "cache_HandleCmd G now vs cache (CleanViewCache v) =
     (case cleanInView v cache of (cache', err) \<Rightarrow> (cache', Returns None err))"
| "cache_HandleCmd G now vs cache (CleanRRsetsCache v name) =
     (case cleanDomainInView G v name cache of (cache', err) \<Rightarrow> (cache', Returns None err))"
| "cache_HandleCmd G now vs cache (CleanDomainCache name) =
     (case cleanDomain G name vs cache of (cache', err) \<Rightarrow> (cache', Returns None err))"
| "cache_HandleCmd G now vs cache (GetDomainCache name typ) = cmd_reply (getDomainCache G now name typ vs cache)"
| "cache_HandleCmd G now vs cache (GetMessageCache v name typ) = cmd_reply (getMessageCacheInView G now v name typ cache)"

section \<open>Keys\<close>

lemma key_parts:
  "ucast (keyForMessage G name typ) = typ"
  "ucast (drop_bit 32 (keyForMessage G name typ)) = Name_Hash G name"
  by (rule bit_word_eqI; auto simp: keyForMessage_def bit_simps dest: bit_imp_le_length)+

lemma key_inject:
  "keyForMessage G name typ = keyForMessage G name' typ' \<longleftrightarrow> Name_Hash G name = Name_Hash G name' \<and> typ = typ'"
proof
  assume k: "keyForMessage G name typ = keyForMessage G name' typ'"
  show "Name_Hash G name = Name_Hash G name' \<and> typ = typ'"
    using key_parts [of G name "typ"] key_parts [of G name' typ'] by (simp add: k)
qed (simp add: keyForMessage_def)

section \<open>The invariant\<close>

text \<open>The index describes the list, and every cached message has a question.\<close>

definition mc_ok :: "'n g53 \<Rightarrow> 'n MessageCache \<Rightarrow> bool" where
  "mc_ok G c \<longleftrightarrow> index_ok (entryKey G) (mc_cache c) (mc_ll c) \<and>
     (\<forall>(a, e)\<in>set (elems (mc_ll c)). m_Question (e_message e) \<noteq> None)"

abbreviation mc_content :: "'n g53 \<Rightarrow> 'n MessageCache \<Rightarrow> (u64, 'n MessageCacheEntry) lru" where
  "mc_content G c \<equiv> lru_content (entryKey G) (mc_ll c)"

text \<open>What \<open>Add\<close> and \<open>get\<close> do not change of a message.\<close>

definition same_question :: "'n Message \<Rightarrow> 'n Message \<Rightarrow> bool" where
  "same_question m m' \<longleftrightarrow> m_Question m = m_Question m'"

lemma messageToCache_question:
  assumes "message_laws G"
  shows "m_Question (e_message (messageToCache G now c m)) = m_Question m"
proof -
  have cl: "m_Question (Message_ClearSection G s m) = m_Question m" for s m
    using message_lawsD(1) [OF assms, of s m] by (simp add: same_ids_def)
  show ?thesis
    by (auto simp: messageToCache_def positiveMessageToCache_def negativeMessageToCache_def Let_def cl
        split: prod.splits)
qed

lemma entryKey_messageToCache:
  "message_laws G \<Longrightarrow> m_Question m = Some q \<Longrightarrow>
   entryKey G (messageToCache G now c m) = keyForMessage G (q_Name q) (q_Type q)"
  by (simp add: entryKey_def messageToCache_question)

lemma roundrobin_question [simp]: "m_Question (roundrobinAnswer G m) = m_Question m"
  by (simp add: roundrobinAnswer_def)

lemma removeElement_content:
  assumes ok: "mc_ok G c" and e: "mc_cache c k = Some e"
  shows "mc_ok G (mc_removeElement G e c) \<and> maxSize (mc_removeElement G e c) = maxSize c \<and>
    mc_content G (mc_removeElement G e c) = lru_del k (mc_content G c)"
proof -
  have idx: "index_ok (entryKey G) (mc_cache c) (mc_ll c)" using ok by (simp add: mc_ok_def)
  obtain v where v: "elem_value e (mc_ll c) = Some v" "entryKey G v = k"
    using index_ok_lookup [OF idx e] by blast
  show ?thesis
    using index_ok_Remove [OF idx v(1)] lru_content_Remove [OF idx e] ok v
    by (auto simp: mc_removeElement_def mc_ok_def list_Remove_def)
qed

lemma ok_index: "mc_ok G c \<Longrightarrow> index_ok (entryKey G) (mc_cache c) (mc_ll c)"
  by (simp add: mc_ok_def)

lemma removeOldest_content:
  assumes ok: "mc_ok G c" and ne: "list_Len (mc_ll c) \<noteq> 0"
  shows "mc_ok G (mc_removeOldest G c) \<and> maxSize (mc_removeOldest G c) = maxSize c \<and>
    mc_content G (mc_removeOldest G c) = butlast (mc_content G c)"
proof -
  obtain e where e: "list_Back (mc_ll c) = Some e" using ne list_Back_None [of "mc_ll c"] by (cases "list_Back (mc_ll c)") auto
  obtain v where v: "elem_value e (mc_ll c) = Some v"
    using list_Back_Some [OF index_ok_wf [OF ok_index [OF ok]] e] by blast
  have k: "mc_cache c (entryKey G v) = Some e" by (rule index_ok_value [OF ok_index [OF ok] v])
  show ?thesis
    using removeElement_content [OF ok k] lru_content_Remove_Back [OF ok_index [OF ok] e] v e
    by (simp add: mc_removeOldest_def mc_removeElement_def)
qed

text \<open>The state of \<open>add\<close> before the size is checked.\<close>

definition mc_put :: "u64 \<Rightarrow> 'n MessageCacheEntry \<Rightarrow> 'n MessageCache \<Rightarrow> 'n MessageCache" where
  "mc_put key entry c =
     (case mc_cache c key of
        Some e \<Rightarrow> c\<lparr>mc_ll := elem_set_value e entry (list_MoveToFront e (mc_ll c))\<rparr>
      | None \<Rightarrow> (let (e, l) = list_PushFront entry (mc_ll c)
                 in c\<lparr>mc_ll := l, mc_cache := (mc_cache c)(key \<mapsto> e)\<rparr>))"

lemma mc_add_put:
  "mc_add G key entry c =
     (if maxSize c \<noteq> 0 \<and> list_Len (mc_ll (mc_put key entry c)) > maxSize c
      then mc_removeOldest G (mc_put key entry c) else mc_put key entry c)"
proof -
  have "maxSize (mc_put key entry c) = maxSize c"
    by (simp add: mc_put_def list_PushFront_def split: option.splits)
  then show ?thesis unfolding mc_add_def mc_put_def [symmetric] by (simp add: Let_def defaultMaxCacheSize_def)
qed

lemma set_elems_update:
  assumes "index_ok key idx l" "idx k = Some e" "p \<in> set (elems (elem_set_value e w (list_MoveToFront e l)))"
  shows "p = (e, w) \<or> p \<in> set (elems l)"
  using assms(3) elems_update_front [OF assms(1,2), of w] by auto

lemma mc_put_content:
  assumes ok: "mc_ok G c" and k: "entryKey G entry = key" "m_Question (e_message entry) \<noteq> None"
  shows "mc_ok G (mc_put key entry c) \<and> maxSize (mc_put key entry c) = maxSize c \<and>
    mc_content G (mc_put key entry c) = (key, entry) # lru_del key (mc_content G c)"
proof (cases "mc_cache c key")
  case (Some e)
  have "index_ok (entryKey G) (mc_cache c) (elem_set_value e entry (list_MoveToFront e (mc_ll c)))"
    using ok_index [OF ok] Some k by (intro index_ok_set_value index_ok_MoveToFront) auto
  then show ?thesis
    using Some k ok lru_content_update [OF ok_index [OF ok] Some k(1)] set_elems_update [OF ok_index [OF ok] Some]
    by (fastforce simp: mc_put_def mc_ok_def)
next
  case None
  have "index_ok (entryKey G) ((mc_cache c)(key \<mapsto> fst (list_PushFront entry (mc_ll c))))
      (snd (list_PushFront entry (mc_ll c)))"
    using index_ok_PushFront [OF ok_index [OF ok], of entry] None k by simp
  then show ?thesis
    using None k ok lru_del_content_None [OF ok_index [OF ok] None]
      lru_content_PushFront [of "entryKey G" entry "mc_ll c"]
    by (auto simp: mc_put_def mc_ok_def list_PushFront_def)
qed

lemma mc_add_spec:
  assumes ok: "mc_ok G c" and k: "entryKey G entry = key" "m_Question (e_message entry) \<noteq> None"
  shows "mc_ok G (mc_add G key entry c) \<and> maxSize (mc_add G key entry c) = maxSize c \<and>
    mc_content G (mc_add G key entry c) = lru_put (maxSize c) key entry (mc_content G c)"
proof -
  let ?c = "mc_put key entry c"
  note p = mc_put_content [OF ok k]
  have n: "list_Len (mc_ll ?c) = length ((key, entry) # lru_del key (mc_content G c))"
    using p by (metis length_lru_content)
  show ?thesis
  proof (cases "maxSize c \<noteq> 0 \<and> list_Len (mc_ll ?c) > maxSize c")
    case True
    then have "list_Len (mc_ll ?c) \<noteq> 0" by simp
    with p have "mc_ok G (mc_removeOldest G ?c) \<and> maxSize (mc_removeOldest G ?c) = maxSize ?c \<and>
      mc_content G (mc_removeOldest G ?c) = butlast (mc_content G ?c)"
      using removeOldest_content by blast
    with p True n show ?thesis by (simp add: mc_add_put lru_put_def lru_trim_def)
  next
    case False
    with p n show ?thesis by (auto simp: mc_add_put lru_put_def lru_trim_def)
  qed
qed

text \<open>A hit that changes the entry in place.\<close>

definition mc_use ::
  "u64 \<Rightarrow> ('n MessageCacheEntry \<Rightarrow> 'n MessageCacheEntry) \<Rightarrow> 'n MessageCache \<Rightarrow> 'n MessageCache" where
  "mc_use k f c =
     (case mc_cache c k of
        None \<Rightarrow> c
      | Some e \<Rightarrow>
          (case elem_value e (mc_ll c) of
             None \<Rightarrow> c
           | Some entry \<Rightarrow> c\<lparr>mc_ll := elem_set_value e (f entry) (list_MoveToFront e (mc_ll c))\<rparr>))"

definition keeps_question :: "('n MessageCacheEntry \<Rightarrow> 'n MessageCacheEntry) \<Rightarrow> bool" where
  "keeps_question f \<longleftrightarrow> (\<forall>e. m_Question (e_message (f e)) = m_Question (e_message e))"

lemma keeps_key: "keeps_question f \<Longrightarrow> entryKey G (f e) = entryKey G e"
  by (simp add: keeps_question_def entryKey_def)

lemma mc_use_spec:
  assumes ok: "mc_ok G c" and f: "keeps_question f"
  shows "mc_ok G (mc_use k f c) \<and> maxSize (mc_use k f c) = maxSize c \<and>
    mc_content G (mc_use k f c) = lru_use k f (mc_content G c)"
proof (cases "mc_cache c k")
  case None
  then show ?thesis using ok lru_content_lookup [OF ok_index [OF ok], of k] by (simp add: mc_use_def lru_use_def)
next
  case (Some e)
  obtain v where v: "elem_value e (mc_ll c) = Some v" "entryKey G v = k"
    using index_ok_lookup [OF ok_index [OF ok] Some] by blast
  have m: "map_of (mc_content G c) k = Some v"
    using lru_content_lookup [OF ok_index [OF ok], of k] Some v by simp
  have q: "m_Question (e_message v) \<noteq> None"
    using ok v elem_value_iff [OF index_ok_wf [OF ok_index [OF ok]], of e v] by (auto simp: mc_ok_def)
  have "index_ok (entryKey G) (mc_cache c) (elem_set_value e (f v) (list_MoveToFront e (mc_ll c)))"
    using ok_index [OF ok] Some v keeps_key [OF f, of G v] by (intro index_ok_set_value index_ok_MoveToFront) auto
  moreover have "m_Question (e_message (f v)) \<noteq> None" using f q by (simp add: keeps_question_def)
  ultimately show ?thesis
    using ok Some v m lru_content_update [OF ok_index [OF ok] Some, of "f v"] keeps_key [OF f, of G v]
      set_elems_update [OF ok_index [OF ok] Some, of _ "f v"]
    by (fastforce simp: mc_use_def lru_use_def mc_ok_def)
qed

definition entry_fits :: "'n g53 \<Rightarrow> u64 \<Rightarrow> 'n MessageCacheEntry \<Rightarrow> bool" where
  "entry_fits G k e \<longleftrightarrow> entryKey G e = k \<and> m_Question (e_message e) \<noteq> None"

interpretation mcache: lru_store "mc_ok G" "mc_content G" maxSize "mc_add G" mc_use "entry_fits G"
    "\<lambda>k f. keeps_question f" for G
proof unfold_locales
  fix c
  assume "mc_ok G c"
  then show "distinct (map fst (mc_content G c))" by (auto intro: lru_content_distinct ok_index)
qed (simp_all add: entry_fits_def mc_add_spec mc_use_spec)

definition rotate_entry :: "'n g53 \<Rightarrow> 'n MessageCacheEntry \<Rightarrow> 'n MessageCacheEntry" where
  "rotate_entry G e = e\<lparr>e_message := roundrobinAnswer G (e_message e)\<rparr>"

lemma rotate_keeps [simp]: "keeps_question (rotate_entry G)"
  by (simp add: keeps_question_def rotate_entry_def)

definition entry_valid :: "'n g53 \<Rightarrow> instant \<Rightarrow> 'n \<Rightarrow> 'n MessageCacheEntry \<Rightarrow> bool" where
  "entry_valid G now name e \<longleftrightarrow> \<not> IsExpire now e \<and>
     (case m_Question (e_message e) of None \<Rightarrow> False | Some q \<Rightarrow> Name_Equals G (q_Name q) name)"

text \<open>\<open>get\<close> in terms of the specification.\<close>

lemma mc_get_spec:
  assumes ok: "mc_ok G c"
  shows "mc_get G now name typ c =
    (case map_of (mc_content G c) (keyForMessage G name typ) of
       Some e \<Rightarrow>
         if entry_valid G now name e
         then (Some (rotate_entry G e), mc_use (keyForMessage G name typ) (rotate_entry G) c)
         else (None, c)
     | None \<Rightarrow> (None, c))"
proof -
  let ?k = "keyForMessage G name typ"
  have look: "map_of (mc_content G c) ?k =
      (case mc_cache c ?k of None \<Rightarrow> None | Some e \<Rightarrow> elem_value e (mc_ll c))"
    by (rule lru_content_lookup [OF ok_index [OF ok]])
  show ?thesis unfolding look
    by (auto simp: mc_get_def mc_use_def entry_valid_def rotate_entry_def Let_def split: option.splits)
qed

lemma mc_get_ok: "mc_ok G c \<Longrightarrow> mc_ok G (snd (mc_get G now name typ c)) \<and> maxSize (snd (mc_get G now name typ c)) = maxSize c"
  by (auto simp: mc_get_spec mc_use_spec split: option.splits)

section \<open>The aliased cache entry\<close>

text \<open>
  A cached message is the very message the client holds after a miss: \<open>AddMessage\<close> keeps the pointer.
  A handler in front of the cache that then writes to \<open>client.Response\<close> writes to the entry.
  \<open>write_cached\<close> is such a write, seen from the cache.
\<close>

definition write_cached :: "'n g53 \<Rightarrow> u64 \<Rightarrow> 'n Message \<Rightarrow> 'n MessageCache \<Rightarrow> 'n MessageCache" where
  "write_cached G key m c =
     (case mc_cache c key of
        None \<Rightarrow> c
      | Some e \<Rightarrow>
          (case elem_value e (mc_ll c) of
             None \<Rightarrow> c
           | Some entry \<Rightarrow> c\<lparr>mc_ll := elem_set_value e (entry\<lparr>e_message := m\<rparr>) (mc_ll c)\<rparr>))"

lemma entry_set_message: "e\<lparr>e_message := m\<rparr> = \<lparr>e_message = m, e_expireTime = e_expireTime e\<rparr>"
  by (cases e) simp

text \<open>A write that keeps the key changes one value of the content, in its place.\<close>

definition lru_write :: "'k \<Rightarrow> ('v \<Rightarrow> 'v) \<Rightarrow> ('k, 'v) lru \<Rightarrow> ('k, 'v) lru" where
  "lru_write k f l = map (\<lambda>p. (fst p, if fst p = k then f (snd p) else snd p)) l"

lemma lru_write_facts:
  "map_of (lru_write k f l) k' = (if k' = k then map_option f (map_of l k') else map_of l k')"
  "lru_rank k' (lru_write k f l) = lru_rank k' l" "length (lru_write k f l) = length l"
  "lru_write k id l = l"
  by (induction l) (auto simp: lru_write_def lru_rank_def)

lemma write_cached_spec:
  assumes ok: "mc_ok G c" and m: "m_Question m = Some q" "keyForMessage G (q_Name q) (q_Type q) = key"
  shows "mc_ok G (write_cached G key m c) \<and> maxSize (write_cached G key m c) = maxSize c \<and>
    mc_content G (write_cached G key m c) = lru_write key (\<lambda>e. e\<lparr>e_message := m\<rparr>) (mc_content G c)"
proof (cases "mc_cache c key")
  case None
  then have "fst p \<noteq> key" if "p \<in> set (mc_content G c)" for p
    using lru_content_lookup [OF ok_index [OF ok], of key] that by (auto simp: map_of_eq_None_iff)
  then have "lru_write key f (mc_content G c) = mc_content G c" for f by (simp add: lru_write_def map_idI)
  then show ?thesis using ok None by (simp add: write_cached_def)
next
  case (Some a)
  obtain v where v: "elem_value a (mc_ll c) = Some v" "entryKey G v = key" using index_ok_lookup [OF ok_index [OF ok] Some] by blast
  let ?v = "v\<lparr>e_message := m\<rparr>"
  have k: "entryKey G ?v = key" using m by (simp add: entryKey_def)
  have w: "write_cached G key m c = c\<lparr>mc_ll := elem_set_value a ?v (mc_ll c)\<rparr>" using Some v by (simp add: write_cached_def)
  have at: "entryKey G x = key \<longleftrightarrow> b = a" "b = a \<Longrightarrow> x = v" if e: "(b, x) \<in> set (elems (mc_ll c))" for b x
  proof -
    have "elem_value b (mc_ll c) = Some x" using e elem_value_iff [OF index_ok_wf [OF ok_index [OF ok]]] by simp
    then show "entryKey G x = key \<longleftrightarrow> b = a" "b = a \<Longrightarrow> x = v"
      using index_ok_elem [OF ok_index [OF ok] e] Some v by auto
  qed
  have "mc_content G (c\<lparr>mc_ll := elem_set_value a ?v (mc_ll c)\<rparr>) = lru_write key (\<lambda>e. e\<lparr>e_message := m\<rparr>) (mc_content G c)"
    using at k v(2) by (auto simp: lru_content_def lru_write_def elem_set_value_def split: if_splits)
  moreover have "mc_ok G (c\<lparr>mc_ll := elem_set_value a ?v (mc_ll c)\<rparr>)"
    using ok index_ok_set_value [OF ok_index [OF ok], of ?v a] k Some m(1)
    by (auto simp: mc_ok_def elem_set_value_def split: if_splits)
  ultimately show ?thesis by (simp add: w)
qed

section \<open>Where cached answers come from\<close>

lemma set_lru_del: "set (lru_del k l) \<subseteq> set l"
  by (auto simp: lru_del_def)

lemma set_lru_put: "set (lru_put cap k v l) \<subseteq> insert (k, v) (set l)"
  using set_lru_del [of k l] by (auto simp: lru_put_def lru_trim_def dest: in_set_butlastD split: if_splits)

lemma set_lru_use: "set (lru_use k f l) \<subseteq> set l \<union> (\<lambda>(k, v). (k, f v)) ` set l"
  using set_lru_del [of k l] by (force simp: lru_use_def dest: map_of_SomeD split: option.splits)

text \<open>An RRset in the cache and the one it was added as: same owner and data, no longer TTL.\<close>

definition rrset_from :: "'n RRset \<Rightarrow> 'n RRset \<Rightarrow> bool" where
  "rrset_from r r0 \<longleftrightarrow> rr_Name r = rr_Name r0 \<and> rr_Type r = rr_Type r0 \<and> rr_Class r = rr_Class r0 \<and>
     rr_Ttl r \<le> rr_Ttl r0 \<and> mset (rr_Rdatas r) = mset (rr_Rdatas r0)"

text \<open>
  What a handler in front of the cache may do to a stored message: the question stays, and each RRset
  of the answer is one that was there. Stripping RRsets and ordering their data are such changes; the
  change of DNS64, which also replaces the question, is not.
\<close>

definition narrows :: "'n Message \<Rightarrow> 'n Message \<Rightarrow> bool" where
  "narrows m m' \<longleftrightarrow> m_Question m' = m_Question m \<and> (\<forall>r'\<in>set (m_Answer m'). \<exists>r\<in>set (m_Answer m). rrset_from r' r)"

definition entry_within :: "'n MessageCacheEntry \<Rightarrow> instant \<Rightarrow> 'n Message \<Rightarrow> bool" where
  "entry_within e t0 m \<longleftrightarrow> narrows m (e_message e) \<and>
     (\<forall>r\<in>set (m_Answer m). e_expireTime e \<le> t0 + Second * int (unat (rr_Ttl r)))"

definition entry_from :: "'n MessageCacheEntry \<Rightarrow> instant \<Rightarrow> 'n Message \<Rightarrow> bool" where
  "entry_from e t0 m \<longleftrightarrow> m_Question (e_message e) = m_Question m \<and>
     list_all2 rrset_from (m_Answer (e_message e)) (m_Answer m) \<and>
     (\<forall>r\<in>set (m_Answer m). e_expireTime e \<le> t0 + Second * int (unat (rr_Ttl r)))"

lemma rrset_from_refl [simp]: "rrset_from r r"
  by (simp add: rrset_from_def)

lemma rrset_from_trans: "rrset_from r r1 \<Longrightarrow> rrset_from r1 r2 \<Longrightarrow> rrset_from r r2"
  by (auto simp: rrset_from_def)

lemma narrows_trans: "narrows m1 m2 \<Longrightarrow> narrows m2 m3 \<Longrightarrow> narrows m1 m3"
  unfolding narrows_def using rrset_from_trans by metis

lemma narrows_list_all2: "m_Question m' = m_Question m \<Longrightarrow> list_all2 rrset_from (m_Answer m') (m_Answer m) \<Longrightarrow> narrows m m'"
  unfolding narrows_def by (metis list_all2_conv_all_nth in_set_conv_nth)

lemma entry_from_within: "entry_from e t0 m \<Longrightarrow> entry_within e t0 m"
  by (simp add: entry_from_def entry_within_def narrows_list_all2)

lemma capTtls_spec:
  "capTtls cap minTtl rs = (m, rs') \<Longrightarrow>
   list_all2 rrset_from rs' rs \<and> m \<le> minTtl \<and> (\<forall>r\<in>set rs. m \<le> rr_Ttl r)"
proof (induction rs arbitrary: minTtl m rs')
  case (Cons r rs)
  let ?n = "if rr_Ttl r < minTtl then rr_Ttl r else minTtl"
  obtain m' rs1 where c: "capTtls cap ?n rs = (m', rs1)" by fastforce
  note IH = Cons.IH [OF c]
  have "rrset_from (if rr_Ttl r > cap then r\<lparr>rr_Ttl := cap\<rparr> else r) r" by (auto simp: rrset_from_def)
  then show ?case using Cons.prems c IH by (auto split: if_splits)
qed simp

lemma list_all2_rrset_refl [simp]: "list_all2 rrset_from rs rs"
  by (simp add: list_all2_same)

lemma Second_mono: "m \<le> n \<Longrightarrow> Second * int (unat m) \<le> Second * int (unat n)" for m n :: u32
proof -
  assume "m \<le> n"
  then have "int (unat m) \<le> int (unat n)" by (simp only: word_le_nat_alt of_nat_le_iff)
  then show ?thesis by (rule mult_left_mono) (simp add: Second_def)
qed

lemma clear_Answer:
  assumes "message_laws G" "s \<noteq> AnswerSection"
  shows "m_Answer (Message_ClearSection G s m) = m_Answer m"
  using message_lawsD(2) [OF assms(1), of AnswerSection s m] assms(2) by (cases s) simp_all

lemma messageToCache_from:
  assumes "message_laws G"
  shows "entry_from (messageToCache G now c m) now m"
proof -
  let ?m = "m\<lparr>m_Header := Header_SetFlag G FLAG_RA True (m_Header m)\<rparr>"
  note q = messageToCache_question [OF assms, of now c m]
  note cl = clear_Answer [OF assms]
  show ?thesis
  proof (cases "m_Answer m = []")
    case True
    then have "m_Answer (e_message (messageToCache G now c m)) = []"
      using cl by (auto simp: messageToCache_def negativeMessageToCache_def Let_def split: prod.splits)
    with True q show ?thesis by (simp add: entry_from_def)
  next
    case False
    obtain mt rs where ct: "capTtls (positiveTtl c) (positiveTtl c) (m_Answer m) = (mt, rs)" by fastforce
    have e: "m_Answer (e_message (messageToCache G now c m)) = rs"
      "e_expireTime (messageToCache G now c m) = now + Second * int (unat mt)"
      using False ct cl by (auto simp: messageToCache_def positiveMessageToCache_def Let_def split: prod.splits)
    show ?thesis using capTtls_spec [OF ct] q e Second_mono by (auto simp: entry_from_def)
  qed
qed

lemma rotate_from:
  assumes "message_laws G" "entry_from e t0 m"
  shows "entry_from (rotate_entry G e) t0 m"
proof -
  have "rrset_from (if length (rr_Rdatas r) > 1 then RRset_RotateRdata G r else r) r0" if "rrset_from r r0" for r r0
    using that RotateRdata_fields [OF assms(1), of r] by (auto simp: rrset_from_def)
  then show ?thesis using assms(2)
    by (auto simp: entry_from_def rotate_entry_def roundrobinAnswer_def list_all2_map1 elim!: list_all2_mono)
qed

lemma rotate_narrows:
  assumes "message_laws G"
  shows "narrows (e_message e) (e_message (rotate_entry G e))"
proof -
  have "rrset_from (if length (rr_Rdatas r) > 1 then RRset_RotateRdata G r else r) r" for r
    using RotateRdata_fields [OF assms, of r] by (auto simp: rrset_from_def)
  then show ?thesis
    by (intro narrows_list_all2) (simp_all add: rotate_entry_def roundrobinAnswer_def list_all2_map1 list_all2_same)
qed

lemma rotate_within: "message_laws G \<Longrightarrow> entry_within e t0 m \<Longrightarrow> entry_within (rotate_entry G e) t0 m"
  using narrows_trans [OF _ rotate_narrows, of m e G] by (auto simp: entry_within_def rotate_entry_def)

text \<open>
  A run of operations on the cache of a view. \<open>H\<close> collects the messages added and when; \<open>W\<close> the keys
  whose stored message a handler has written to since it was added.
\<close>

definition cached_message :: "u64 \<Rightarrow> 'n MessageCache \<Rightarrow> 'n Message option" where
  "cached_message key c = Option.bind (mc_cache c key) (\<lambda>a. map_option e_message (elem_value a (mc_ll c)))"

definition message_key :: "'n g53 \<Rightarrow> 'n Message \<Rightarrow> u64" where
  "message_key G m = (case m_Question m of None \<Rightarrow> 0 | Some q \<Rightarrow> keyForMessage G (q_Name q) (q_Type q))"

inductive mc_run :: "'n g53 \<Rightarrow> 'n MessageCache \<Rightarrow> (instant \<times> 'n Message) set \<Rightarrow> u64 set \<Rightarrow> bool" for G where
  run_new: "newMessageCache conf = Some c \<Longrightarrow> mc_run G c {} {}"
| run_add: "mc_run G c H W \<Longrightarrow> mc_Add G now m c = Some (m', c') \<Longrightarrow> mc_run G c' (insert (now, m) H) (W - {message_key G m})"
| run_write: "mc_run G c H W \<Longrightarrow> cached_message key c = Some m \<Longrightarrow> narrows m m' \<Longrightarrow> mc_run G (write_cached G key m' c) H (insert key W)"
| run_get: "mc_run G c H W \<Longrightarrow> mc_Get G now client c = Some (r, c') \<Longrightarrow> mc_run G c' H W"
| run_peek: "mc_run G c H W \<Longrightarrow> mc_run G (snd (GetSingleMessageCache G now name typ c)) H W"
| run_remove: "mc_run G c H W \<Longrightarrow> mc_run G (mc_Remove G name typ c) H W"
| run_clear: "mc_run G c H W \<Longrightarrow> mc_run G (mc_Clear c) H W"
| run_reload: "mc_run G c H W \<Longrightarrow> mc_reloadConfig conf c = Some c' \<Longrightarrow> mc_run G c' H W"

definition entry_known :: "(instant \<times> 'n Message) set \<Rightarrow> u64 set \<Rightarrow> u64 \<times> 'n MessageCacheEntry \<Rightarrow> bool" where
  "entry_known H W p \<longleftrightarrow> (\<exists>h\<in>H. entry_within (snd p) (fst h) (snd h) \<and> (fst p \<notin> W \<longrightarrow> entry_from (snd p) (fst h) (snd h)))"

definition content_from :: "'n g53 \<Rightarrow> 'n MessageCache \<Rightarrow> (instant \<times> 'n Message) set \<Rightarrow> u64 set \<Rightarrow> bool" where
  "content_from G c H W \<longleftrightarrow> mc_ok G c \<and> (\<forall>p\<in>set (mc_content G c). entry_known H W p)"

lemma mc_reload_fields:
  "mc_reloadConfig conf c = Some c' \<Longrightarrow> mc_ll c' = mc_ll c \<and> mc_cache c' = mc_cache c"
  by (auto simp: mc_reloadConfig_def Let_def split: option.splits if_splits)

lemma mc_Remove_spec:
  assumes "mc_ok G c"
  shows "mc_ok G (mc_Remove G name typ c) \<and> maxSize (mc_Remove G name typ c) = maxSize c \<and>
    mc_content G (mc_Remove G name typ c) = lru_del (keyForMessage G name typ) (mc_content G c)"
proof (cases "mc_cache c (keyForMessage G name typ)")
  case None
  then show ?thesis using assms lru_del_content_None [OF ok_index [OF assms] None] by (simp add: mc_Remove_def)
next
  case (Some e)
  then show ?thesis using removeElement_content [OF assms Some] by (simp add: mc_Remove_def)
qed

lemma mc_Add_spec:
  assumes "message_laws G" "mc_ok G c" "mc_Add G now m c = Some (m', c')"
  shows "\<exists>q. m_Question m = Some q \<and> m' = e_message (messageToCache G now c m) \<and>
    c' = mc_add G (keyForMessage G (q_Name q) (q_Type q)) (messageToCache G now c m) c \<and>
    mc_ok G c' \<and> maxSize c' = maxSize c \<and>
    mc_content G c' = lru_put (maxSize c) (keyForMessage G (q_Name q) (q_Type q)) (messageToCache G now c m) (mc_content G c)"
proof -
  obtain q where q: "m_Question m = Some q" using assms(3) by (auto simp: mc_Add_def Let_def split: option.splits)
  have e: "entryKey G (messageToCache G now c m) = keyForMessage G (q_Name q) (q_Type q)"
    "m_Question (e_message (messageToCache G now c m)) \<noteq> None"
    using q by (simp_all add: entryKey_messageToCache [OF assms(1)] messageToCache_question [OF assms(1)])
  show ?thesis using q assms(3) mc_add_spec [OF assms(2) e] by (auto simp: mc_Add_def Let_def)
qed

lemma mc_Get_cache:
  assumes "mc_Get G now client c = Some (r, c')"
  shows "\<exists>q. m_Question (c_Request client) = Some q \<and>
    r = map_option e_message (fst (mc_get G now (q_Name q) (q_Type q) c)) \<and>
    mc_ll c' = mc_ll (snd (mc_get G now (q_Name q) (q_Type q) c)) \<and>
    mc_cache c' = mc_cache (snd (mc_get G now (q_Name q) (q_Type q) c)) \<and>
    maxSize c' = maxSize (snd (mc_get G now (q_Name q) (q_Type q) c))"
  using assms by (auto simp: mc_Get_def split: option.splits prod.splits if_splits)

lemma rotate_known: "message_laws G \<Longrightarrow> entry_known H W (k, e) \<Longrightarrow> entry_known H W (k, rotate_entry G e)"
  using rotate_from rotate_within unfolding entry_known_def fst_conv snd_conv by metis

lemma set_lru_use_key: "p \<in> set (lru_use k f l) \<Longrightarrow> p \<in> set l \<or> (\<exists>v. p = (k, f v) \<and> (k, v) \<in> set l)"
  using set_lru_del [of k l] by (auto simp: lru_use_def dest: map_of_SomeD split: option.splits)

lemma get_from:
  assumes "message_laws G" "content_from G c H W"
  shows "content_from G (snd (mc_get G now name typ c)) H W"
proof -
  have ok: "mc_ok G c" and known: "\<forall>p\<in>set (mc_content G c). entry_known H W p"
    using assms(2) by (simp_all add: content_from_def)
  have "content_from G (mc_use k (rotate_entry G) c) H W" for k
  proof -
    have "entry_known H W p" if "p \<in> set (lru_use k (rotate_entry G) (mc_content G c))" for p
      using set_lru_use_key [OF that] known rotate_known [OF assms(1)] by blast
    then show ?thesis using mc_use_spec [OF ok rotate_keeps, of k] by (simp add: content_from_def)
  qed
  then show ?thesis using assms(2) by (auto simp: mc_get_spec [OF ok] split: option.splits)
qed

lemma content_from_cong:
  "content_from G c H W \<Longrightarrow> mc_ll c' = mc_ll c \<Longrightarrow> mc_cache c' = mc_cache c \<Longrightarrow> content_from G c' H W"
  by (simp add: content_from_def mc_ok_def)

lemma add_from:
  assumes laws: "message_laws G" and c: "content_from G c H W" and add: "mc_Add G now m c = Some (m', c')"
  shows "content_from G c' (insert (now, m) H) (W - {message_key G m})"
proof -
  have ok: "mc_ok G c" using c by (simp add: content_from_def)
  from mc_Add_spec [OF laws ok add] obtain q where q: "m_Question m = Some q" "mc_ok G c'"
    "mc_content G c' = lru_put (maxSize c) (keyForMessage G (q_Name q) (q_Type q)) (messageToCache G now c m) (mc_content G c)"
    by blast
  let ?k = "keyForMessage G (q_Name q) (q_Type q)"
  have key: "message_key G m = ?k" using q(1) by (simp add: message_key_def)
  have "p = (?k, messageToCache G now c m) \<or> (p \<in> set (mc_content G c) \<and> fst p \<noteq> ?k)" if "p \<in> set (mc_content G c')" for p
    using that q(3) by (auto simp: lru_put_def lru_trim_def lru_del_def dest: in_set_butlastD split: if_splits)
  moreover have "entry_known (insert (now, m) H) (W - {?k}) (?k, messageToCache G now c m)"
    using messageToCache_from [OF laws, of now c m] entry_from_within by (auto simp: entry_known_def)
  moreover have "entry_known (insert (now, m) H) (W - {?k}) p" if "entry_known H W p" "fst p \<noteq> ?k" for p
    using that by (auto simp: entry_known_def)
  ultimately show ?thesis using c q(2) key unfolding content_from_def by metis
qed

lemma write_from:
  assumes c: "content_from G c H W" and m: "cached_message key c = Some m" and narrow: "narrows m m'"
  shows "content_from G (write_cached G key m' c) H (insert key W)"
proof -
  have ok: "mc_ok G c" using c by (simp add: content_from_def)
  obtain a e where a: "mc_cache c key = Some a" "elem_value a (mc_ll c) = Some e" "e_message e = m"
    using m by (auto simp: cached_message_def option_bind_Some_iff)
  have e: "map_of (mc_content G c) key = Some e" using lru_content_lookup [OF ok_index [OF ok], of key] a by simp
  then have mem: "(key, e) \<in> set (mc_content G c)" by (rule map_of_SomeD)
  obtain q where q: "m_Question m = Some q" using ok mem a(3) by (fastforce simp: mc_ok_def lru_content_def)
  moreover have "entryKey G e = key" using mem by (auto simp: lru_content_def)
  ultimately have "m_Question m' = Some q" "keyForMessage G (q_Name q) (q_Type q) = key"
    using a(3) narrow by (simp_all add: entryKey_def narrows_def)
  note w = write_cached_spec [OF ok this]
  have "entry_known H (insert key W) (fst p, if fst p = key then (snd p)\<lparr>e_message := m'\<rparr> else snd p)" if p: "p \<in> set (mc_content G c)" for p
  proof (cases "fst p = key")
    case True
    then have "snd p = e" using p e lru_content_distinct [OF ok_index [OF ok]] by (metis eq_key_imp_eq_value mem prod.collapse)
    moreover obtain h where h: "h \<in> H" "entry_within (snd p) (fst h) (snd h)" using c p unfolding content_from_def entry_known_def by blast
    ultimately have "entry_within ((snd p)\<lparr>e_message := m'\<rparr>) (fst h) (snd h)"
      using narrows_trans [OF _ narrow, of "snd h"] a(3) by (simp add: entry_within_def)
    then show ?thesis using True h(1) by (auto simp: entry_known_def)
  next
    case False
    then show ?thesis using c p by (auto simp: content_from_def entry_known_def)
  qed
  then show ?thesis using w by (auto simp: content_from_def lru_write_def)
qed

lemma mc_run_from:
  assumes "message_laws G"
  shows "mc_run G c H W \<Longrightarrow> content_from G c H W"
proof (induction rule: mc_run.induct)
  case (run_new conf c)
  then have "mc_ll c = list_New" "mc_cache c = Map.empty"
    by (auto simp: newMessageCache_def dest: mc_reload_fields)
  then show ?case
    using index_ok_New [of "entryKey G"] by (simp add: content_from_def mc_ok_def lru_content_def list_New_def)
next
  case (run_add c H W now m m' c')
  then show ?case by (intro add_from [OF assms])
next
  case (run_write c H W key m m')
  then show ?case by (intro write_from)
next
  case (run_get c H W now client r c')
  then show ?case using mc_Get_cache get_from [OF assms run_get.IH] content_from_cong by metis
next
  case (run_peek c H W now name "typ")
  then show ?case using get_from [OF assms run_peek.IH] by (simp add: GetSingleMessageCache_def split_beta)
next
  case (run_remove c H W name "typ")
  then have ok: "mc_ok G c" by (simp add: content_from_def)
  show ?case using mc_Remove_spec [OF ok, of name "typ"] set_lru_del [of "keyForMessage G name typ" "mc_content G c"]
      run_remove.IH
    by (auto simp: content_from_def)
next
  case (run_clear c H W)
  then show ?case by (simp add: content_from_def mc_ok_def mc_Clear_def index_ok_def list_wf_def lru_content_def elem_value_def)
next
  case (run_reload c H W conf c')
  then show ?case using mc_reload_fields content_from_cong by metis
qed

lemma mc_get_found:
  assumes "mc_ok G c" "mc_get G now name typ c = (Some e, c')"
  obtains e0 q where "(keyForMessage G name typ, e0) \<in> set (mc_content G c)" "e = rotate_entry G e0"
    "m_Question (e_message e0) = Some q" "Name_Equals G (q_Name q) name" "q_Type q = typ" "now \<le> e_expireTime e0"
proof -
  let ?k = "keyForMessage G name typ"
  from assms obtain e0 where e0: "map_of (mc_content G c) ?k = Some e0" "entry_valid G now name e0" "e = rotate_entry G e0"
    by (auto simp: mc_get_spec split: option.splits if_splits)
  then obtain q where q: "m_Question (e_message e0) = Some q" "Name_Equals G (q_Name q) name" "now \<le> e_expireTime e0"
    by (auto simp: entry_valid_def IsExpire_def Before_def split: option.splits)
  have "entryKey G e0 = ?k" using map_of_SomeD [OF e0(1)] by (auto simp: lru_content_def)
  then have "q_Type q = typ" using q(1) by (simp add: entryKey_def key_inject)
  then show thesis using that [OF map_of_SomeD [OF e0(1)] e0(3) q(1,2) _ q(3)] by blast
qed

section \<open>Operations of clients in sequence\<close>

text \<open>\<open>OpWrite\<close> is a write of a handler to the message stored under a key.\<close>

datatype 'n mc_op =
    OpAdd instant "'n Message"
  | OpGet instant 'n u16
  | OpRemove 'n u16
  | OpWrite u64 "'n Message"
  | OpReload CacheConf
  | OpClear

fun mc_exec :: "'n g53 \<Rightarrow> 'n mc_op \<Rightarrow> 'n MessageCache \<Rightarrow> 'n MessageCache" where
  "mc_exec G (OpAdd now m) c = (case mc_Add G now m c of None \<Rightarrow> c | Some (m', c') \<Rightarrow> c')"
| "mc_exec G (OpGet now name typ) c = snd (mc_get G now name typ c)"
| "mc_exec G (OpRemove name typ) c = mc_Remove G name typ c"
| "mc_exec G (OpWrite key m) c = write_cached G key m c"
| "mc_exec G (OpReload conf) c = (case mc_reloadConfig conf c of None \<Rightarrow> c | Some c' \<Rightarrow> c')"
| "mc_exec G OpClear c = mc_Clear c"

text \<open>The entries an operation is about; and the writes that keep the question's key.\<close>

fun mc_op_keys :: "'n g53 \<Rightarrow> 'n mc_op \<Rightarrow> u64 set" where
  "mc_op_keys G (OpAdd now m) = {message_key G m}"
| "mc_op_keys G (OpGet now name typ) = {keyForMessage G name typ}"
| "mc_op_keys G (OpRemove name typ) = {keyForMessage G name typ}"
| "mc_op_keys G (OpWrite key m) = {key}"
| "mc_op_keys G (OpReload conf) = {}"
| "mc_op_keys G OpClear = UNIV"

fun mc_op_fits :: "'n g53 \<Rightarrow> 'n mc_op \<Rightarrow> bool" where
  "mc_op_fits G (OpWrite key m) \<longleftrightarrow> m_Question m \<noteq> None \<and> message_key G m = key"
| "mc_op_fits G oper \<longleftrightarrow> True"

text \<open>The size limits that hold in the course of operations.\<close>

fun mc_op_limits :: "'n mc_op \<Rightarrow> nat set" where
  "mc_op_limits (OpReload conf) = {cc_MaxCacheSize conf}"
| "mc_op_limits oper = {}"

definition room_for :: "nat \<Rightarrow> nat \<Rightarrow> bool" where
  "room_for n limit \<longleftrightarrow> limit = 0 \<or> n < limit"

text \<open>An addition or a lookup is at most one operation of the store.\<close>

lemma mc_exec_op:
  assumes "message_laws G" "mc_ok G c" "(\<exists>now m. oper = OpAdd now m) \<or> (\<exists>now name typ. oper = OpGet now name typ)"
  shows "mc_exec G oper c = c \<or>
    (\<exists>lop. mcache.op_ok G lop \<and> op_key lop \<in> mc_op_keys G oper \<and> mc_exec G oper c = mcache.run_op G lop c)"
  using assms(3)
proof (elim disjE exE)
  fix now m
  assume oper: "oper = OpAdd now m"
  show ?thesis
  proof (cases "mc_Add G now m c")
    case (Some p)
    obtain m' c' where p: "p = (m', c')" by fastforce
    obtain q where q: "m_Question m = Some q"
      "c' = mc_add G (keyForMessage G (q_Name q) (q_Type q)) (messageToCache G now c m) c"
      using mc_Add_spec [OF assms(1,2)] Some p by metis
    show ?thesis
      using oper Some p q entryKey_messageToCache [OF assms(1) q(1)] messageToCache_question [OF assms(1)]
      by (intro disjI2 exI [of _ "Put (keyForMessage G (q_Name q) (q_Type q)) (messageToCache G now c m)"])
         (simp add: mcache.op_ok_def mcache.run_op_def entry_fits_def message_key_def)
  qed (simp add: oper)
next
  fix now name ty
  assume oper: "oper = OpGet now name ty"
  have "mc_exec G oper c = c \<or> mc_exec G oper c = mc_use (keyForMessage G name ty) (rotate_entry G) c"
    using oper by (auto simp: mc_get_spec [OF assms(2)] split: option.splits)
  then show ?thesis
  proof
    assume "mc_exec G oper c = mc_use (keyForMessage G name ty) (rotate_entry G) c"
    then show ?thesis using oper
      by (intro disjI2 exI [of _ "Use (keyForMessage G name ty) (rotate_entry G)"]) (simp add: mcache.op_ok_def mcache.run_op_def)
  qed simp
qed

text \<open>An operation about other entries keeps an entry that is far enough from the end.\<close>

definition kept :: "'n g53 \<Rightarrow> u64 \<Rightarrow> 'n MessageCacheEntry \<Rightarrow> nat \<Rightarrow> 'n MessageCache \<Rightarrow> bool" where
  "kept G k e n c \<longleftrightarrow> mc_ok G c \<and> map_of (mc_content G c) k = Some e \<and> lru_rank k (mc_content G c) \<le> n"

lemma mc_exec_keeps:
  assumes laws: "message_laws G" and c: "kept G k e n c" and oper: "k \<notin> mc_op_keys G oper" "mc_op_fits G oper" and room: "room_for (Suc n) (maxSize c)"
  shows "kept G k e (Suc n) (mc_exec G oper c) \<and> maxSize (mc_exec G oper c) \<in> insert (maxSize c) (mc_op_limits oper)"
proof -
  have ok: "mc_ok G c" and found: "map_of (mc_content G c) k = Some e" and rank: "lru_rank k (mc_content G c) \<le> n"
    using c by (simp_all add: kept_def)
  have store: ?thesis if "(\<exists>now m. oper = OpAdd now m) \<or> (\<exists>now name typ. oper = OpGet now name typ)"
    using mc_exec_op [OF laws ok that]
  proof (elim disjE exE conjE)
    fix lop
    assume l: "mcache.op_ok G lop" "op_key lop \<in> mc_op_keys G oper" "mc_exec G oper c = mcache.run_op G lop c"
    have "op_key lop \<noteq> k" using l(2) oper(1) by blast
    moreover have "Suc (lru_rank k (mc_content G c)) < maxSize c \<or> maxSize c = 0" using room rank by (auto simp: room_for_def)
    ultimately show ?thesis
      using mcache.run_op_keeps [OF ok l(1) _ found] mcache.run_op_ok [OF ok l(1)] l(3) rank by (fastforce simp: kept_def)
  qed (use c in \<open>simp add: kept_def\<close>)
  show ?thesis
  proof (cases oper)
    case (OpRemove name ty)
    then show ?thesis using mc_Remove_spec [OF ok, of name ty] found rank oper(1) lru_rank_del [of k "keyForMessage G name ty" "mc_content G c"]
      by (simp add: kept_def)
  next
    case (OpWrite key m)
    then obtain q where q: "m_Question m = Some q" "keyForMessage G (q_Name q) (q_Type q) = key" using oper(2) by (auto simp: message_key_def)
    show ?thesis using write_cached_spec [OF ok q] found rank oper(1) OpWrite by (simp add: kept_def lru_write_facts)
  next
    case (OpReload conf)
    have "maxSize c' = cc_MaxCacheSize conf" if "mc_reloadConfig conf c = Some c'" for c'
      using that by (auto simp: mc_reloadConfig_def Let_def split: option.splits if_splits)
    then show ?thesis using OpReload mc_reload_fields [of conf c] c by (auto simp: kept_def mc_ok_def split: option.splits)
  qed (use oper(1) store in auto)
qed

lemma mc_execs_keep:
  assumes laws: "message_laws G"
  shows "kept G k e n c \<Longrightarrow> k \<notin> \<Union> (mc_op_keys G ` set l) \<Longrightarrow> list_all (mc_op_fits G) l \<Longrightarrow>
    Ball (insert (maxSize c) (\<Union> (mc_op_limits ` set l))) (room_for (n + length l)) \<Longrightarrow> kept G k e (n + length l) (fold (mc_exec G) l c)"
proof (induction l arbitrary: n c)
  case (Cons oper l)
  have "room_for (Suc n) (maxSize c)" using Cons.prems(4) by (auto simp: room_for_def)
  then have step: "kept G k e (Suc n) (mc_exec G oper c)" "maxSize (mc_exec G oper c) \<in> insert (maxSize c) (mc_op_limits oper)"
    using mc_exec_keeps [OF laws Cons.prems(1)] Cons.prems(2,3) by auto
  have "room_for (Suc n + length l) x" if "x \<in> insert (maxSize (mc_exec G oper c)) (\<Union> (mc_op_limits ` set l))" for x
    using that step(2) Cons.prems(4) by fastforce
  then show ?case using Cons.IH [OF step(1)] Cons.prems(2,3) by simp
qed simp

lemma put_kept:
  assumes "message_laws G" "mc_ok G c" "m_Question m = Some q" "mc_Add G t0 m c = Some (m', c')"
  shows "kept G (keyForMessage G (q_Name q) (q_Type q)) (messageToCache G t0 c m) 0 c'" "maxSize c' = maxSize c"
proof -
  let ?k = "keyForMessage G (q_Name q) (q_Type q)" and ?e = "messageToCache G t0 c m"
  have c': "mc_ok G c'" "maxSize c' = maxSize c" "mc_content G c' = lru_put (maxSize c) ?k ?e (mc_content G c)"
    using mc_Add_spec [OF assms(1,2,4)] assms(3) by auto
  have "lru_rank ?k (lru_put (maxSize c) ?k ?e (mc_content G c)) = 0"
    by (cases "lru_del ?k (mc_content G c)") (auto simp: lru_put_def lru_trim_def lru_rank_def)
  then show "kept G ?k ?e 0 c'" "maxSize c' = maxSize c" using c' by (simp_all add: kept_def map_of_lru_put_same)
qed

section \<open>A write that is found again\<close>

lemma write_cached_get:
  assumes laws: "message_laws G" "name_laws G" and ok: "mc_ok G c" and q: "m_Question m = Some q"
    and add: "mc_Add G t0 m c = Some (m', c')"
    and name: "m_Question m2 = Some q2" "Name_Equals G (q_Name q2) (q_Name q)"
    and now: "now \<le> e_expireTime (messageToCache G t0 c m)"
  shows "fst (mc_get G now (q_Name q) (q_Type q) (write_cached G (keyForMessage G (q_Name q) (q_Type q)) m2 c')) =
    Some \<lparr>e_message = roundrobinAnswer G m2, e_expireTime = e_expireTime (messageToCache G t0 c m)\<rparr>"
proof -
  let ?k = "keyForMessage G (q_Name q) (q_Type q)" and ?e = "messageToCache G t0 c m"
  have c': "c' = mc_add G ?k ?e c" "mc_ok G c'" using mc_Add_spec [OF laws(1) ok add] q by auto
  have "entry_fits G ?k ?e"
    by (simp add: entry_fits_def entryKey_messageToCache [OF laws(1) q] messageToCache_question [OF laws(1)] q)
  then have "map_of (mc_content G c') ?k = Some ?e"
    using mcache.put_found [OF ok] by (simp add: c'(1))
  then obtain a where a: "mc_cache c' ?k = Some a" "elem_value a (mc_ll c') = Some ?e"
    using lru_content_lookup [OF ok_index [OF c'(2)]] by (auto split: option.splits)
  let ?e2 = "\<lparr>e_message = m2, e_expireTime = e_expireTime ?e\<rparr>"
  have w: "write_cached G ?k m2 c' = c'\<lparr>mc_ll := elem_set_value a ?e2 (mc_ll c')\<rparr>"
    using a unfolding write_cached_def by (simp add: entry_set_message)
  show ?thesis
    unfolding w using a name now by (simp add: mc_get_def IsExpire_def Before_def Let_def)
qed

section \<open>Properties\<close>

text \<open>
  C3. An answer from the cache was given before for a question with an equal name and the same type, and
  none of the records of that answer had expired counting from the moment it was added. It consists of
  RRsets of that answer, with the same data and no longer TTL; unless a handler has written to the stored
  message since, it has all of them, in their order. The history may have additions, lookups, removals,
  cleanings, reloads, and writes of handlers to stored messages that keep the question and bring in no
  RRset, as those of the AAAA filter and the sort list. A write that changes the question is not in it.
\<close>

theorem cache_answer_sound:
  assumes "message_laws G" "mc_run G c H W" "mc_get G now name typ c = (Some e, c')"
  shows "\<exists>t0 m q. (t0, m) \<in> H \<and> m_Question m = Some q \<and> Name_Equals G (q_Name q) name \<and> q_Type q = typ \<and>
    (\<forall>r'\<in>set (m_Answer (e_message e)). \<exists>r\<in>set (m_Answer m). rrset_from r' r) \<and>
    (keyForMessage G name typ \<notin> W \<longrightarrow> list_all2 rrset_from (m_Answer (e_message e)) (m_Answer m)) \<and>
    (\<forall>r\<in>set (m_Answer m). now \<le> t0 + Second * int (unat (rr_Ttl r)))"
proof -
  let ?k = "keyForMessage G name typ"
  have from_H: "content_from G c H W" by (rule mc_run_from [OF assms(1,2)])
  then have ok: "mc_ok G c" by (simp add: content_from_def)
  obtain e0 q where e0: "(?k, e0) \<in> set (mc_content G c)" "e = rotate_entry G e0"
    "m_Question (e_message e0) = Some q" "Name_Equals G (q_Name q) name" "q_Type q = typ" "now \<le> e_expireTime e0"
    by (rule mc_get_found [OF ok assms(3)])
  have "entry_known H W (?k, e)"
    using from_H e0(1) rotate_known [OF assms(1)] unfolding e0(2) content_from_def by blast
  then obtain t0 m where h: "(t0, m) \<in> H" "entry_within e t0 m" "?k \<notin> W \<longrightarrow> entry_from e t0 m"
    by (fastforce simp: entry_known_def)
  have e: "e_expireTime e = e_expireTime e0" "m_Question (e_message e) = Some q"
    using e0(2,3) by (simp_all add: rotate_entry_def)
  then have "m_Question m = Some q" using h(2) by (simp add: entry_within_def narrows_def)
  then show ?thesis using h e0(4-6) e(1) unfolding entry_within_def entry_from_def narrows_def by fastforce
qed

definition demo_answer :: "string list Message" where
  "demo_answer = \<lparr>m_Header = empty_header, m_Question = Some \<lparr>q_Name = [''a'', ''b''], q_Type = RR_A, q_Class = CLASS_IN\<rparr>,
     m_Answer = [\<lparr>rr_Name = [''a'', ''b''], rr_Type = RR_A, rr_Class = CLASS_IN, rr_Ttl = 30, rr_Rdatas = [RdA [1, 2, 3, 4]]\<rparr>],
     m_Auth = [], m_Additional = [], m_Tsig = None\<rparr>"

definition demo_conf :: CacheConf where
  "demo_conf = \<lparr>cc_PositiveTtl = 0, cc_NegativeTtl = 0, cc_MaxCacheSize = 3, cc_ShortAnswer = False, cc_Prefetch = False\<rparr>"

definition demo_cache :: "string list MessageCache" where
  "demo_cache = the (newMessageCache demo_conf)"

lemma demo_run: "mc_run ref_g53 demo_cache {} {}"
  by (rule run_new [of demo_conf]) (simp add: demo_cache_def newMessageCache_def mc_reloadConfig_def Let_def)

lemma demo_ok: "mc_ok ref_g53 demo_cache"
  using mc_run_from [OF ref_message_laws demo_run] by (simp add: content_from_def)

text \<open>An address record with a TTL of 30 seconds is found 30 seconds later, under another spelling.\<close>

theorem cache_answer_sound_witness:
  "\<exists>c e c'. mc_Add ref_g53 0 demo_answer demo_cache = Some c \<and>
     mc_get ref_g53 (30 * Second) [''A'', ''b''] RR_A (snd c) = (Some e, c') \<and>
     list_all2 rrset_from (m_Answer (e_message e)) (m_Answer demo_answer)"
proof -
  obtain m' c where a: "mc_Add ref_g53 0 demo_answer demo_cache = Some (m', c)"
    by (auto simp: mc_Add_def demo_answer_def Let_def)
  have "fst (mc_get ref_g53 (30 * Second) [''A'', ''b''] RR_A
      (snd (the (mc_Add ref_g53 0 demo_answer demo_cache)))) \<noteq> None"
    by code_simp
  then obtain e c' where g: "mc_get ref_g53 (30 * Second) [''A'', ''b''] RR_A c = (Some e, c')"
    using a by (cases "mc_get ref_g53 (30 * Second) [''A'', ''b''] RR_A c") auto
  have "mc_run ref_g53 c {(0, demo_answer)} {}" using run_add [OF demo_run a] by simp
  from cache_answer_sound [OF ref_message_laws this g] a g show ?thesis by fastforce
qed

text \<open>
  C13. An answer that was added is found again until it expires, for every question with an equal name
  and the same type, after any number of additions, lookups, removals, reloads and handlers' writes that
  is below the size limits in force meanwhile (any number, while the size is not limited). The operations
  are about entries with another key, a hash of name and type, and the writes leave the key of the
  question they change; cleaning the whole cache is about all entries.
\<close>

theorem cache_retains:
  assumes "message_laws G" "name_laws G" "mc_ok G c" "m_Question m = Some q"
    and "mc_Add G t0 m c = Some (m', c')"
    and "keyForMessage G (q_Name q) (q_Type q) \<notin> \<Union> (mc_op_keys G ` set l)" "list_all (mc_op_fits G) l"
    and "Ball (insert (maxSize c) (\<Union> (mc_op_limits ` set l))) (room_for (length l))"
    and "Name_Equals G (q_Name q) name" "now \<le> e_expireTime (messageToCache G t0 c m)"
  shows "\<exists>c''. mc_get G now name (q_Type q) (fold (mc_exec G) l c') =
    (Some (rotate_entry G (messageToCache G t0 c m)), c'')"
proof -
  let ?k = "keyForMessage G (q_Name q) (q_Type q)" and ?e = "messageToCache G t0 c m"
  have k: "kept G ?k ?e (length l) (fold (mc_exec G) l c')"
    using mc_execs_keep [OF assms(1) put_kept(1) [OF assms(1,3-5)] assms(6,7)] put_kept(2) [OF assms(1,3-5)] assms(8) by simp
  have key: "keyForMessage G name (q_Type q) = ?k"
    using Name_Hash_Equals [OF assms(2,9)] by (simp add: key_inject)
  have "entry_valid G now name ?e"
    using assms(4,9,10) by (simp add: entry_valid_def IsExpire_def Before_def messageToCache_question [OF assms(1)])
  then show ?thesis using k mc_get_spec [of G "fold (mc_exec G) l c'" now name "q_Type q"] by (simp add: kept_def key)
qed

text \<open>The cache has room for three; a lookup and a removal come in between.\<close>

theorem cache_retains_witness:
  "\<exists>c c''. mc_Add ref_g53 0 demo_answer demo_cache = Some c \<and>
     mc_get ref_g53 (30 * Second) [''A'', ''B''] RR_A
       (fold (mc_exec ref_g53) [OpGet 5 [''x''] RR_A, OpRemove [''x''] RR_A] (snd c)) =
     (Some (rotate_entry ref_g53 (messageToCache ref_g53 0 demo_cache demo_answer)), c'')"
proof -
  let ?q = "\<lparr>q_Name = [''a'', ''b''], q_Type = RR_A, q_Class = CLASS_IN\<rparr>" and ?l = "[OpGet 5 [''x''] RR_A, OpRemove [''x''] RR_A]"
  obtain m' c where a: "mc_Add ref_g53 0 demo_answer demo_cache = Some (m', c)"
    by (auto simp: mc_Add_def demo_answer_def Let_def)
  have "\<exists>c''. mc_get ref_g53 (30 * Second) [''A'', ''B''] (q_Type ?q) (fold (mc_exec ref_g53) ?l c) =
     (Some (rotate_entry ref_g53 (messageToCache ref_g53 0 demo_cache demo_answer)), c'')"
  proof (rule cache_retains [OF ref_message_laws ref_name_laws demo_ok _ a])
    show "m_Question demo_answer = Some ?q" by (simp add: demo_answer_def)
    have "keyForMessage ref_g53 [''a'', ''b''] RR_A \<noteq> keyForMessage ref_g53 [''x''] RR_A" by code_simp
    then show "keyForMessage ref_g53 (q_Name ?q) (q_Type ?q) \<notin> \<Union> (mc_op_keys ref_g53 ` set ?l)" by simp
    have "maxSize demo_cache = 3" by code_simp
    then show "Ball (insert (maxSize demo_cache) (\<Union> (mc_op_limits ` set ?l))) (room_for (length ?l))" by (simp add: room_for_def)
    show "Name_Equals ref_g53 (q_Name ?q) [''A'', ''B'']" by code_simp
    show "30 * Second \<le> e_expireTime (messageToCache ref_g53 0 demo_cache demo_answer)" by code_simp
  qed simp
  with a show ?thesis by auto
qed

text \<open>
  Additions, lookups, removals and cleanings never let a cache with a size limit grow beyond it.
\<close>

theorem cache_bounded:
  assumes "message_laws G" "mc_ok G c" "maxSize c \<noteq> 0" "mc_Len c \<le> maxSize c" "\<And>conf key m. OpReload conf \<notin> set l \<and> OpWrite key m \<notin> set l"
  shows "mc_Len (fold (mc_exec G) l c) \<le> maxSize c"
proof -
  have step: "mc_ok G (mc_exec G oper c) \<and> maxSize (mc_exec G oper c) = maxSize c \<and> mc_Len (mc_exec G oper c) \<le> maxSize c"
    if c: "mc_ok G c" "maxSize c \<noteq> 0" "mc_Len c \<le> maxSize c" and o: "\<And>conf key m. oper \<noteq> OpReload conf \<and> oper \<noteq> OpWrite key m" for oper c
  proof -
    have n: "mc_Len c = length (mc_content G c)" for c :: "'a MessageCache" by (simp add: mc_Len_def)
    have store: ?thesis if "(\<exists>now m. oper = OpAdd now m) \<or> (\<exists>now name typ. oper = OpGet now name typ)"
      using mc_exec_op [OF assms(1) c(1) that] c mcache.run_op_ok [OF c(1)] mcache.run_op_bounded [OF c(1)] unfolding n by metis
    show ?thesis
    proof (cases oper)
      case (OpRemove name ty)
      then show ?thesis using mc_Remove_spec [OF c(1), of name ty] length_lru_del [of "keyForMessage G name ty" "mc_content G c"] c(3) unfolding n by simp
    next
      case OpClear
      then show ?thesis
        by (simp add: mc_Clear_def mc_Len_def mc_ok_def index_ok_def list_wf_def elem_value_def list_Len_def)
    qed (use store o in auto)
  qed
  have "mc_ok G c \<Longrightarrow> maxSize c = n \<Longrightarrow> n \<noteq> 0 \<Longrightarrow> mc_Len c \<le> n \<Longrightarrow> mc_Len (fold (mc_exec G) l c) \<le> n" for c n
    using assms(5)
  proof (induction l arbitrary: c)
    case (Cons oper l)
    then show ?case using step [of c oper] by fastforce
  qed simp
  from this [OF assms(2) refl assms(3,4)] show ?thesis .
qed

theorem cache_bounded_witness:
  "mc_Len (fold (mc_exec ref_g53) (replicate 5 (OpAdd 0 demo_answer)) demo_cache) \<le> 3"
proof -
  have "maxSize demo_cache = 3" "mc_Len demo_cache = 0" by code_simp+
  then show ?thesis using cache_bounded [OF ref_message_laws demo_ok, of "replicate 5 (OpAdd 0 demo_answer)"] by simp
qed

text \<open>
  After the command that cleans a domain of a view, no lookup in that view finds an answer for the
  name and any supported record type.
\<close>

theorem clean_removes:
  assumes "name_laws G" "cache v = Some mc" "mc_ok G mc" "NameFromString G text = Inr name"
    and "Name_Equals G name name'" "typ \<in> set SupportRRTypes"
  shows "\<exists>mc'. fst (cleanDomainInView G v text cache) v = Some mc' \<and> fst (mc_get G now name' typ mc') = None"
proof -
  let ?mc = "fold (mc_Remove G name) SupportRRTypes mc"
  have gone: "mc_ok G mc \<Longrightarrow> mc_ok G (fold (mc_Remove G name) ts mc) \<and>
      (map_of (mc_content G mc) k = None \<longrightarrow> map_of (mc_content G (fold (mc_Remove G name) ts mc)) k = None) \<and>
      (\<forall>t\<in>set ts. map_of (mc_content G (fold (mc_Remove G name) ts mc)) (keyForMessage G name t) = None)" for ts mc k
  proof (induction ts arbitrary: mc k)
    case (Cons t ts)
    have r: "mc_ok G (mc_Remove G name t mc)"
      "mc_content G (mc_Remove G name t mc) = lru_del (keyForMessage G name t) (mc_content G mc)"
      using mc_Remove_spec [OF Cons.prems, of name t] by simp_all
    show ?case using Cons.IH [OF r(1)] r(2) by fastforce
  qed simp
  have "keyForMessage G name' typ = keyForMessage G name typ"
    using Name_Hash_Equals [OF assms(1,5)] by (simp add: key_inject)
  then have "fst (mc_get G now name' typ ?mc) = None"
    using gone [OF assms(3), of SupportRRTypes] assms(6) by (simp add: mc_get_spec)
  then show ?thesis using assms(2,4) by (simp add: cleanDomainInView_def cleanRRsetsCache_def)
qed

theorem clean_removes_witness:
  "\<exists>mc'. fst (cleanDomainInView ref_g53 ''default'' ''a.b'' [''default'' \<mapsto> snd (the (mc_Add ref_g53 0 demo_answer demo_cache))])
       ''default'' = Some mc' \<and> fst (mc_get ref_g53 0 [''A'', ''b''] RR_A mc') = None"
proof -
  obtain m' c where a: "mc_Add ref_g53 0 demo_answer demo_cache = Some (m', c)"
    by (auto simp: mc_Add_def demo_answer_def Let_def)
  have ok: "mc_ok ref_g53 c"
    using mc_run_from [OF ref_message_laws run_add [OF demo_run a]] by (simp add: content_from_def)
  have "NameFromString ref_g53 ''a.b'' = Inr [''a'', ''b'']" "Name_Equals ref_g53 [''a'', ''b''] [''A'', ''b'']"
    by code_simp+
  moreover have "RR_A \<in> set SupportRRTypes" by (simp add: SupportRRTypes_def)
  ultimately show ?thesis
    using clean_removes [OF ref_name_laws, of "[''default'' \<mapsto> c]" "''default''" c "''a.b''" "[''a'', ''b'']" "[''A'', ''b'']" RR_A 0]
      ok a by simp
qed

text \<open>
  Switching prefetch off does not work: the second reload of a cache with prefetch disabled waits
  forever for a loop that has already ended, and a reload of the handler does reload the cache of the
  default view twice.
\<close>

theorem prefetch_off_hangs:
  assumes "cache DefaultView = Some mc" "needPrefetch mc" "DefaultView \<in> set views" "\<not> cc_Prefetch conf"
  shows "cache_ReloadConfig conf views cache = None"
proof -
  have once: "mc_reloadConfig conf mc = Some mc' \<Longrightarrow> mc_reloadConfig conf mc' = None" for mc'
    using assms(2,4) by (auto simp: mc_reloadConfig_def pf_stop_def Let_def split: if_splits)
  have def: "reloadViews conf cache vs new = Some new' \<Longrightarrow> DefaultView \<in> set vs \<or> mc_reloadConfig conf mc = new DefaultView \<and> new DefaultView \<noteq> None \<Longrightarrow>
      mc_reloadConfig conf mc = new' DefaultView \<and> new' DefaultView \<noteq> None" for vs new new'
  proof (induction vs arbitrary: new)
    case (Cons v vs)
    obtain new1 where n1: "reloadView conf cache v new = Some new1" "reloadViews conf cache vs new1 = Some new'"
      using Cons.prems(1) by (auto simp: Option.bind_eq_Some_conv)
    have "v = DefaultView \<Longrightarrow> mc_reloadConfig conf mc = new1 DefaultView \<and> new1 DefaultView \<noteq> None"
      using n1(1) assms(1) by (auto simp: reloadView_def)
    moreover have "v \<noteq> DefaultView \<Longrightarrow> new1 DefaultView = new DefaultView"
      using n1(1) by (auto simp: reloadView_def split: option.splits)
    ultimately show ?case using Cons.IH [OF n1(2)] Cons.prems(2) by (cases "v = DefaultView") force+
  qed simp
  show ?thesis
  proof (cases "reloadViews conf cache views Map.empty")
    case (Some new)
    from def [OF Some] assms(3) obtain mc' where "new DefaultView = Some mc'" "mc_reloadConfig conf mc = Some mc'"
      by auto
    with once Some show ?thesis by (simp add: cache_ReloadConfig_def)
  qed (simp add: cache_ReloadConfig_def)
qed

text \<open>A cache configured with prefetch, reloaded with a configuration without it.\<close>

theorem prefetch_off_hangs_witness:
  "\<exists>cache. cache_ReloadConfig (demo_conf\<lparr>cc_Prefetch := True\<rparr>) [DefaultView] Map.empty = Some cache \<and>
     cache_ReloadConfig demo_conf [DefaultView] (cache :: string list ViewCaches) = None"
proof -
  let ?on = "demo_conf\<lparr>cc_Prefetch := True\<rparr>"
  define mc0 :: "string list MessageCache" where "mc0 = the (newMessageCache ?on)"
  define mc1 where "mc1 = the (mc_reloadConfig ?on mc0)"
  have 1: "newMessageCache ?on = Some mc0"
    by (simp add: mc0_def newMessageCache_def mc_reloadConfig_def Let_def)
  have "needPrefetch mc0" "pf_running (prefetcher mc0)"
    by (simp_all add: mc0_def newMessageCache_def mc_reloadConfig_def Let_def)
  then have 2: "mc_reloadConfig ?on mc0 = Some mc1" "needPrefetch mc1"
    by (simp_all add: mc1_def mc_reloadConfig_def pf_stop_def Let_def)
  have c: "cache_ReloadConfig ?on [DefaultView] Map.empty = Some [DefaultView \<mapsto> mc1]"
    by (simp add: cache_ReloadConfig_def reloadView_def 1 2)
  have "\<not> cc_Prefetch demo_conf" by (simp add: demo_conf_def)
  then have "cache_ReloadConfig demo_conf [DefaultView] [DefaultView \<mapsto> mc1] = None"
    using prefetch_off_hangs [of "[DefaultView \<mapsto> mc1]" mc1 "[DefaultView]" demo_conf] 2 by simp
  with c show ?thesis by blast
qed

end
