(* ===== verification/Dns64.thy ===== *)
theory Dns64
  imports Message_Cache Go_Net Httpcmd
begin

text \<open>
  DNS64 synthesis, \<open>dns64/\<close>: the converters read from their text (\<open>protocol.go\<close>), the handler that
  turns an empty AAAA answer into addresses synthesised from the A answer (\<open>dns64.go\<close>), its errors
  (\<open>errcode.go\<close>) and its command (\<open>cmdhandler.go\<close>). The lemmas show that a synthesised address
  carries the prefix, the suffix and the IPv4 address, which can be read back, when a query gets a
  synthesised answer and when the handler panics, and what its command does.
\<close>

section \<open>Errors\<close>

definition ErrBadDns64Prefix :: cmd_error where
  "ErrBadDns64Prefix = NewError DNS64ErrCodeStart ''dns64 prefix should be a ipv6 addr''"
definition ErrInvalidDns64Prefix :: cmd_error where
  "ErrInvalidDns64Prefix = NewError (DNS64ErrCodeStart + 1) ''invalid dns64 prefix netmask''"
definition ErrBadDns64Suffix :: cmd_error where
  "ErrBadDns64Suffix = NewError (DNS64ErrCodeStart + 5) ''dns64 suffix should be a ipv6 addr''"
definition ErrInvalidDns64Suffix :: cmd_error where
  "ErrInvalidDns64Suffix = NewError (DNS64ErrCodeStart + 6) ''invalid dns64 suffix''"

section \<open>Converters\<close>

definition validPrefixes :: "int list" where "validPrefixes = [32, 40, 48, 56, 64, 96]"
definition maxPrefixLen :: int where "maxPrefixLen = 96"

text \<open>A nil suffix is the empty list.\<close>

record Dns64Converter =
  cv_prefix :: ip
  cv_suffix :: ip
  cv_prefixLen :: int

definition suffixFromParts :: "int \<Rightarrow> string list \<Rightarrow> cmd_error + ip" where
  "suffixFromParts prefixLen preAndSuffix =
     (if prefixLen \<noteq> maxPrefixLen then
        (if length preAndSuffix \<noteq> 2 then Inl ErrInvalidDns64Suffix
         else case ParseIP (preAndSuffix ! 1) of
                None \<Rightarrow> Inl ErrBadDns64Suffix
              | Some suffix \<Rightarrow> Inr suffix)
      else Inr [])"

definition converterFromString :: "string \<Rightarrow> cmd_error + Dns64Converter" where
  "converterFromString s =
     (let preAndSuffix = split_char CHR '' '' s;
          preAndLen = split_char CHR ''/'' (hd preAndSuffix)
      in if length preAndLen \<noteq> 2 then Inl ErrInvalidDns64Prefix
         else case ParseIP (preAndLen ! 0) of
                None \<Rightarrow> Inl ErrBadDns64Prefix
              | Some prefix \<Rightarrow>
                  (case Atoi (preAndLen ! 1) of
                     None \<Rightarrow> Inl ErrInvalidDns64Prefix
                   | Some prefixLen \<Rightarrow>
                       if prefixLen \<notin> set validPrefixes then Inl ErrInvalidDns64Prefix
                       else bindE (suffixFromParts prefixLen preAndSuffix) (\<lambda>suffix.
                         Inr \<lparr>cv_prefix = prefix, cv_suffix = suffix, cv_prefixLen = prefixLen\<rparr>)))"

text \<open>
  The loop of \<open>synthesisAddr\<close>: byte 8 is skipped. It returns the bytes and the position it stopped at.
\<close>

function synthesis_loop :: "ip \<Rightarrow> nat \<Rightarrow> nat \<Rightarrow> ip \<Rightarrow> ip \<times> nat" where
  "synthesis_loop v4 copyedByte v4Index v6 =
     (if copyedByte < 16 \<and> v4Index < 4 then
        (if copyedByte \<noteq> 8
         then synthesis_loop v4 (copyedByte + 1) (v4Index + 1) (v6[copyedByte := v4 ! v4Index])
         else synthesis_loop v4 (copyedByte + 1) v4Index v6)
      else (v6, copyedByte))"
  by pat_completeness auto
termination by (relation "measure (\<lambda>(v4, i, j, v6). 16 - i)") auto

declare synthesis_loop.simps [simp del]

text \<open>
  An address with fewer than four bytes is indexed out of range; so is a prefix or a suffix shorter
  than the slice taken of it.
\<close>

definition synthesisAddr :: "Dns64Converter \<Rightarrow> ip \<Rightarrow> ip may_panic" where
  "synthesisAddr c v4 =
     (let n = nat (cv_prefixLen c div 8) in
      if length (cv_prefix c) < n \<or> length v4 < 4 then None
      else (let (v6, i) = synthesis_loop v4 n 0 (take n (cv_prefix c) @ replicate (16 - n) 0) in
            if i < 16 then
              (if length (cv_suffix c) < i then None
               else Some (take i v6 @ take (16 - i) (drop i (cv_suffix c)) @ drop (length (cv_suffix c)) v6))
            else Some v6))"

section \<open>The handler\<close>

text \<open>\<open>None\<close> in a converter list is a nil pointer.\<close>

type_synonym DNS64 = "view \<rightharpoonup> Dns64Converter option list"

record DNS64Conf =
  d64_View :: view
  d64_PreAndPostfixes :: "string list"

definition converter_or_nil :: "string \<Rightarrow> Dns64Converter option" where
  "converter_or_nil s = (case converterFromString s of Inl err \<Rightarrow> None | Inr c \<Rightarrow> Some c)"

definition dns64_ReloadConfig :: "DNS64Conf list \<Rightarrow> DNS64" where
  "dns64_ReloadConfig confs =
     fold (\<lambda>conf converters.
             let viewConverters = map converter_or_nil (d64_PreAndPostfixes conf)
             in if viewConverters \<noteq> [] then converters(d64_View conf \<mapsto> viewConverters) else converters)
       confs Map.empty"

definition needDNS64Synthesis :: "DNS64 \<Rightarrow> 'n Client \<Rightarrow> bool may_panic" where
  "needDNS64Synthesis h client =
     (if h (c_View client) = None then Some False
      else case m_Question (c_Request client) of
             None \<Rightarrow> None
           | Some q \<Rightarrow>
               if q_Type q \<noteq> RR_AAAA then Some False
               else case c_Response client of
                      None \<Rightarrow> Some False
                    | Some r \<Rightarrow>
                        if h_Rcode (m_Header r) \<noteq> R_NOERROR then Some False
                        else Some (\<not> (\<exists>answer\<in>set (m_Answer r). rr_Type answer = RR_AAAA)))"

text \<open>The name of the A query: the target of the CNAME record that ends the answer, if one does.\<close>

definition nextNameOf :: "'n \<Rightarrow> 'n RRset list \<Rightarrow> 'n may_panic" where
  "nextNameOf qname answers =
     (if answers \<noteq> [] \<and> rr_Type (last answers) = RR_CNAME
      then (case rr_Rdatas (last answers) of RdCName n # _ \<Rightarrow> Some n | _ \<Rightarrow> None)
      else Some qname)"

definition queryARecord :: "('w, 'n) handler" where
  "queryARecord nxt w client =
     (case (c_Response client, m_Question (c_Request client)) of
        (Some r, Some q) \<Rightarrow>
          Option.bind (nextNameOf (q_Name q) (m_Answer r)) (\<lambda>nextName.
            PassToNext nxt w (client\<lparr>c_Response := None,
              c_Request := (c_Request client)\<lparr>m_Question :=
                Some \<lparr>q_Name = nextName, q_Type = RR_A, q_Class = q_Class q\<rparr>\<rparr>\<rparr>))
      | _ \<Rightarrow> None)"

fun synthesisRdata :: "Dns64Converter option \<Rightarrow> 'n Rdata \<Rightarrow> 'n Rdata may_panic" where
  "synthesisRdata (Some c) (RdA host) = map_option RdAAAA (synthesisAddr c host)"
| "synthesisRdata _ _ = None"

definition synthesisAAAAFromA :: "Dns64Converter option list \<Rightarrow> 'n RRset \<Rightarrow> 'n RRset may_panic" where
  "synthesisAAAAFromA converters a =
     map_option (\<lambda>rdatas. \<lparr>rr_Name = rr_Name a, rr_Type = RR_AAAA, rr_Class = rr_Class a, rr_Ttl = rr_Ttl a,
                           rr_Rdatas = concat rdatas\<rparr>)
       (mapM (\<lambda>convert. mapM (synthesisRdata convert) (rr_Rdatas a)) converters)"

text \<open>The answers appended for the answers of the A query: those before the first A RRset, and that RRset converted.\<close>

fun synthesisAnswers :: "Dns64Converter option list \<Rightarrow> 'n RRset list \<Rightarrow> 'n RRset list may_panic" where
  "synthesisAnswers converters [] = Some []"
| "synthesisAnswers converters (answer # answers) =
     (if rr_Type answer \<noteq> RR_A then map_option ((#) answer) (synthesisAnswers converters answers)
      else map_option (\<lambda>r. [r]) (synthesisAAAAFromA converters answer))"

definition synthesizeDNS64Response ::
  "DNS64 \<Rightarrow> 'n Question option \<Rightarrow> 'n Message \<Rightarrow> 'n Client \<Rightarrow> 'n Client may_panic" where
  "synthesizeDNS64Response h originalQuestion originalResponse client =
     (let client1 = client\<lparr>c_Request := (c_Request client)\<lparr>m_Question := originalQuestion\<rparr>\<rparr> in
      case c_Response client1 of
        None \<Rightarrow> Some (client1\<lparr>c_Response := Some originalResponse\<rparr>)
      | Some r \<Rightarrow>
          (let converters = (case h (c_View client1) of None \<Rightarrow> [] | Some cs \<Rightarrow> cs) in
           map_option (\<lambda>added.
               client1\<lparr>c_Response := Some (r\<lparr>m_Question := originalQuestion,
                                              m_Answer := m_Answer originalResponse @ added\<rparr>)\<rparr>)
             (synthesisAnswers converters (m_Answer r))))"

definition dns64_handleQuery :: "('w \<Rightarrow> DNS64) \<Rightarrow> ('w, 'n) handler" where
  "dns64_handleQuery get nxt w client =
     (case c_Response client of
        None \<Rightarrow> None
      | Some originalResponse \<Rightarrow>
          (case queryARecord nxt w client of
             None \<Rightarrow> None
           | Some (w', client') \<Rightarrow>
               map_option (\<lambda>c. (w', c))
                 (synthesizeDNS64Response (get w') (m_Question (c_Request client)) originalResponse client')))"

definition dns64_HandleQuery :: "('w \<Rightarrow> DNS64) \<Rightarrow> ('w, 'n) handler" where
  "dns64_HandleQuery get nxt w client =
     (case PassToNext nxt w client of
        None \<Rightarrow> None
      | Some (w1, client1) \<Rightarrow>
          (case needDNS64Synthesis (get w1) client1 of
             None \<Rightarrow> None
           | Some True \<Rightarrow> dns64_handleQuery get nxt w1 client1
           | Some False \<Rightarrow> Some (w1, client1)))"

section \<open>The command\<close>

datatype dns64_cmd = PutDns64 view "string list"

fun dns64_cmd_String :: "dns64_cmd \<Rightarrow> string" where
  "dns64_cmd_String (PutDns64 v ps) =
     ''name: update view dns64 and params: {view:'' @ v @ '', dns64s:['' @ strings_Join ps '','' @ '']}''"

definition updateDns64 :: "view \<Rightarrow> string list \<Rightarrow> DNS64 \<Rightarrow> DNS64 \<times> cmd_error option" where
  "updateDns64 v preAndPostfixes h =
     (case mapE converterFromString preAndPostfixes of
        Inl err \<Rightarrow> (h, Some err)
      | Inr converters \<Rightarrow>
          (if converters \<noteq> [] then h(v \<mapsto> map Some converters) else h(v := None), None))"

fun dns64_HandleCmd :: "DNS64 \<Rightarrow> dns64_cmd \<Rightarrow> DNS64 \<times> unit cmd_outcome" where
  "dns64_HandleCmd h (PutDns64 v ps) = (case updateDns64 v ps h of (h', e) \<Rightarrow> (h', Returns None e))"

section \<open>Lemmas on converters\<close>

definition converter_wf :: "Dns64Converter \<Rightarrow> bool" where
  "converter_wf c \<longleftrightarrow> length (cv_prefix c) = 16 \<and> cv_prefixLen c \<in> set validPrefixes \<and>
     (cv_prefixLen c \<noteq> maxPrefixLen \<longrightarrow> length (cv_suffix c) = 16)"

lemma converterFromString_wf: "converterFromString s = Inr c \<Longrightarrow> converter_wf c"
  by (auto simp: converterFromString_def suffixFromParts_def converter_wf_def Let_def bindE_Inr_iff
      dest!: ParseIP_length split: if_splits option.splits)

text \<open>The positions of the four bytes of the IPv4 address: the first four after the prefix but position 8.\<close>

definition v4_positions :: "Dns64Converter \<Rightarrow> nat list" where
  "v4_positions c = take 4 (filter (\<lambda>i. i \<noteq> 8) [nat (cv_prefixLen c div 8)..<16])"

definition extractAddr :: "Dns64Converter \<Rightarrow> ip \<Rightarrow> ip" where
  "extractAddr c v6 = map (\<lambda>i. v6 ! i) (v4_positions c)"

lemma four_bytes: "length xs = 4 \<Longrightarrow> [xs ! 0, xs ! 1, xs ! 2, xs ! 3] = xs"
  by (auto simp: eval_nat_numeral length_Suc_conv)

text \<open>The loop for each prefix length: the positions it writes and where it stops.\<close>

lemma synthesis_loop_cases:
  "synthesis_loop v4 4 0 v6 = (v6[4 := v4 ! 0, 5 := v4 ! 1, 6 := v4 ! 2, 7 := v4 ! 3], 8)"
  "synthesis_loop v4 5 0 v6 = (v6[5 := v4 ! 0, 6 := v4 ! 1, 7 := v4 ! 2, 9 := v4 ! 3], 10)"
  "synthesis_loop v4 6 0 v6 = (v6[6 := v4 ! 0, 7 := v4 ! 1, 9 := v4 ! 2, 10 := v4 ! 3], 11)"
  "synthesis_loop v4 7 0 v6 = (v6[7 := v4 ! 0, 9 := v4 ! 1, 10 := v4 ! 2, 11 := v4 ! 3], 12)"
  "synthesis_loop v4 8 0 v6 = (v6[9 := v4 ! 0, 10 := v4 ! 1, 11 := v4 ! 2, 12 := v4 ! 3], 13)"
  "synthesis_loop v4 12 0 v6 = (v6[12 := v4 ! 0, 13 := v4 ! 1, 14 := v4 ! 2, 15 := v4 ! 3], 16)"
  by (simp_all add: synthesis_loop.simps numeral_eq_Suc)

lemma v4_positions_cases:
  "cv_prefixLen c = 32 \<Longrightarrow> v4_positions c = [4, 5, 6, 7]"
  "cv_prefixLen c = 40 \<Longrightarrow> v4_positions c = [5, 6, 7, 9]"
  "cv_prefixLen c = 48 \<Longrightarrow> v4_positions c = [6, 7, 9, 10]"
  "cv_prefixLen c = 56 \<Longrightarrow> v4_positions c = [7, 9, 10, 11]"
  "cv_prefixLen c = 64 \<Longrightarrow> v4_positions c = [9, 10, 11, 12]"
  "cv_prefixLen c = 96 \<Longrightarrow> v4_positions c = [12, 13, 14, 15]"
  by (simp_all add: v4_positions_def upt_rec)

text \<open>Where the suffix starts.\<close>

definition suffix_start :: "Dns64Converter \<Rightarrow> nat" where
  "suffix_start c = Suc (last (v4_positions c))"

lemma synthesisAddr_nth:
  assumes "converter_wf c" "length v4 = 4"
  shows "\<exists>v6. synthesisAddr c v4 = Some v6 \<and> length v6 = 16 \<and>
    map (\<lambda>i. v6 ! i) (v4_positions c) = map (\<lambda>i. v4 ! i) [0, 1, 2, 3] \<and>
    (\<forall>i < nat (cv_prefixLen c div 8). v6 ! i = cv_prefix c ! i) \<and>
    (\<forall>i. suffix_start c \<le> i \<longrightarrow> i < 16 \<longrightarrow> v6 ! i = cv_suffix c ! i)"
proof -
  have p: "length (cv_prefix c) = 16" using assms by (simp add: converter_wf_def)
  have s: "length (cv_suffix c) = 16" if "cv_prefixLen c \<noteq> 96"
    using assms that by (simp add: converter_wf_def maxPrefixLen_def)
  consider "cv_prefixLen c = 32" | "cv_prefixLen c = 40" | "cv_prefixLen c = 48" | "cv_prefixLen c = 56"
    | "cv_prefixLen c = 64" | "cv_prefixLen c = 96"
    using assms(1) unfolding converter_wf_def validPrefixes_def by auto
  then show ?thesis
    using p s assms(2)
    by cases (simp_all add: synthesisAddr_def Let_def synthesis_loop_cases v4_positions_cases suffix_start_def
        nth_append nth_list_update)
qed

section \<open>Answers\<close>

text \<open>The synthesised RRset of an A RRset: every address with every converter, in that order.\<close>

definition usable :: "Dns64Converter option list \<Rightarrow> bool" where
  "usable converters \<longleftrightarrow> (\<forall>x\<in>set converters. \<exists>c. x = Some c \<and> converter_wf c)"

definition a_hosts :: "'n RRset \<Rightarrow> ip list option" where
  "a_hosts a = mapM (\<lambda>d. case d of RdA h \<Rightarrow> if length h = 4 then Some h else None | _ \<Rightarrow> None) (rr_Rdatas a)"

definition aaaa_rdatas :: "Dns64Converter list \<Rightarrow> ip list \<Rightarrow> 'n Rdata list" where
  "aaaa_rdatas cs hosts = concat (map (\<lambda>c. map (\<lambda>h. RdAAAA (the (synthesisAddr c h))) hosts) cs)"

lemma usable_wf: "usable (map Some cs) \<longleftrightarrow> (\<forall>c\<in>set cs. converter_wf c)"
  by (auto simp: usable_def)

lemma a_hosts_Some: "a_hosts a = Some hosts \<longleftrightarrow> rr_Rdatas a = map RdA hosts \<and> (\<forall>h\<in>set hosts. length h = 4)"
proof -
  have "list_all2 (\<lambda>x y. (case x of RdA h \<Rightarrow> if length h = 4 then Some h else None | _ \<Rightarrow> None) = Some y) ds hosts
    \<longleftrightarrow> ds = map RdA hosts \<and> (\<forall>h\<in>set hosts. length h = 4)" for ds :: "'a Rdata list"
  proof (induction ds arbitrary: hosts)
    case (Cons d ds)
    then show ?case by (cases hosts; cases d) auto
  qed auto
  then show ?thesis by (simp add: a_hosts_def mapM_Some)
qed

lemma synthesisAddr_Some: "converter_wf c \<Longrightarrow> length h = 4 \<Longrightarrow> \<exists>v6. synthesisAddr c h = Some v6"
  using synthesisAddr_nth by blast

lemma synthesisAAAAFromA_ok:
  assumes "\<forall>c\<in>set cs. converter_wf c" "a_hosts a = Some hosts"
  shows "synthesisAAAAFromA (map Some cs) a = Some \<lparr>rr_Name = rr_Name a, rr_Type = RR_AAAA,
    rr_Class = rr_Class a, rr_Ttl = rr_Ttl a, rr_Rdatas = aaaa_rdatas cs hosts\<rparr>"
proof -
  have 1: "mapM (synthesisRdata (Some c)) (rr_Rdatas a) = Some (map (\<lambda>h. RdAAAA (the (synthesisAddr c h))) hosts)"
    if "c \<in> set cs" for c
  proof -
    have "synthesisRdata (Some c) (RdA h) = Some (RdAAAA (the (synthesisAddr c h)))" if "h \<in> set hosts" for h
      using synthesisAddr_Some [of c h] assms \<open>c \<in> set cs\<close> that by (auto simp: a_hosts_Some)
    then have "mapM (synthesisRdata (Some c)) (map RdA hosts :: 'a Rdata list) =
        Some (map (\<lambda>d. case d of RdA h \<Rightarrow> RdAAAA (the (synthesisAddr c h)) | _ \<Rightarrow> d) (map RdA hosts))"
      by (intro mapM_all) auto
    then show ?thesis using assms(2) by (simp add: a_hosts_Some o_def)
  qed
  have "mapM (\<lambda>convert. mapM (synthesisRdata convert) (rr_Rdatas a)) (map Some cs) =
      Some (map (\<lambda>x. map (\<lambda>h. RdAAAA (the (synthesisAddr (the x) h))) hosts) (map Some cs))"
    by (rule mapM_all) (auto simp: 1)
  then show ?thesis by (simp add: synthesisAAAAFromA_def aaaa_rdatas_def o_def)
qed

lemma synthesisAnswers_ok:
  assumes "\<forall>c\<in>set cs. converter_wf c" "rr_Type a = RR_A" "a_hosts a = Some hosts" "\<forall>r\<in>set pre. rr_Type r \<noteq> RR_A"
  shows "synthesisAnswers (map Some cs) (pre @ a # post) = Some (pre @ [\<lparr>rr_Name = rr_Name a, rr_Type = RR_AAAA,
    rr_Class = rr_Class a, rr_Ttl = rr_Ttl a, rr_Rdatas = aaaa_rdatas cs hosts\<rparr>])"
  using assms(4) by (induction pre) (simp_all add: assms(2) synthesisAAAAFromA_ok [OF assms(1,3)])

text \<open>
  An IPv6 address embeds an IPv4 address: it has the converter's prefix and suffix, and the IPv4 address
  is what is read at the positions between them.
\<close>

definition embeds :: "Dns64Converter \<Rightarrow> ip \<Rightarrow> ip \<Rightarrow> bool" where
  "embeds c v4 v6 \<longleftrightarrow> length v6 = 16 \<and> extractAddr c v6 = v4 \<and>
     (\<forall>i < nat (cv_prefixLen c div 8). v6 ! i = cv_prefix c ! i) \<and>
     (\<forall>i. suffix_start c \<le> i \<longrightarrow> i < 16 \<longrightarrow> v6 ! i = cv_suffix c ! i)"

lemma synthesisAddr_embeds: "converter_wf c \<Longrightarrow> length v4 = 4 \<Longrightarrow> \<exists>v6. synthesisAddr c v4 = Some v6 \<and> embeds c v4 v6"
  using synthesisAddr_nth [of c v4] four_bytes [of v4] by (auto simp: embeds_def extractAddr_def)

lemma aaaa_rdatas_product:
  assumes "\<forall>c\<in>set cs. converter_wf c" "\<forall>h\<in>set hosts. length h = 4"
  shows "list_all2 (\<lambda>(c, h) d. \<exists>v6. d = RdAAAA v6 \<and> embeds c h v6) (List.product cs hosts) (aaaa_rdatas cs hosts :: 'n Rdata list)"
proof -
  have "(aaaa_rdatas cs hosts :: 'n Rdata list) = map (\<lambda>(c, h). RdAAAA (the (synthesisAddr c h))) (List.product cs hosts)"
    by (simp add: aaaa_rdatas_def product_concat_map map_concat o_def)
  moreover have "embeds c h (the (synthesisAddr c h))" if "(c, h) \<in> set (List.product cs hosts)" for c h
    using that synthesisAddr_embeds [of c h] assms by auto
  ultimately show ?thesis by (auto simp: list_all2_map2 intro!: list_all2_same [THEN iffD2])
qed

section \<open>The command keeps the converters usable\<close>

definition dns64_ok :: "DNS64 \<Rightarrow> bool" where
  "dns64_ok h \<longleftrightarrow> (\<forall>cs\<in>ran h. cs \<noteq> [] \<and> usable cs)"

lemma dns64_ok_upd: "dns64_ok h \<Longrightarrow> cs \<noteq> [] \<Longrightarrow> usable cs \<Longrightarrow> dns64_ok (h(v \<mapsto> cs))"
  using ran_upd_subset [of h v cs] by (auto simp: dns64_ok_def)

lemma dns64_ok_del: "dns64_ok h \<Longrightarrow> dns64_ok (h(v := None))"
  using ran_del_subset [of h v] by (auto simp: dns64_ok_def)

lemma converters_wf:
  assumes "mapE converterFromString ps = Inr cs"
  shows "\<forall>c\<in>set cs. converter_wf c"
  using assms unfolding mapE_Inr_iff
  by (induction ps cs rule: list_all2_induct) (auto dest: converterFromString_wf)

lemma updateDns64_ok: "dns64_ok h \<Longrightarrow> dns64_ok (fst (updateDns64 v ps h))"
  using converters_wf [of ps]
  by (auto simp: updateDns64_def usable_wf intro!: dns64_ok_upd dns64_ok_del split: sum.splits)

interpretation dns64_cmds: command_handler dns64_HandleCmd dns64_ok
proof
  fix s c s' and out :: "unit cmd_outcome"
  assume "dns64_ok s" "dns64_HandleCmd s c = (s', out)"
  then show "dns64_ok s'" using updateDns64_ok [of s]
    by (cases c) (metis (no_types, lifting) case_prod_beta dns64_HandleCmd.simps fst_conv)
qed

section \<open>Properties\<close>

text \<open>
  C14. An address synthesised from an IPv4 address by a converter read from its text has 16 bytes,
  begins with the converter's prefix, ends with its suffix, and the IPv4 address can be read back from
  the positions between them (byte 8 left out).
\<close>

theorem synthesis_roundtrip:
  assumes "converterFromString s = Inr c" "length v4 = 4"
  shows "\<exists>v6. synthesisAddr c v4 = Some v6 \<and> length v6 = 16 \<and> extractAddr c v6 = v4 \<and>
    (\<forall>i < nat (cv_prefixLen c div 8). v6 ! i = cv_prefix c ! i) \<and>
    (\<forall>i. suffix_start c \<le> i \<longrightarrow> i < 16 \<longrightarrow> v6 ! i = cv_suffix c ! i)"
  using synthesisAddr_nth [OF converterFromString_wf [OF assms(1)] assms(2)] four_bytes [OF assms(2)]
  by (simp add: extractAddr_def)

definition demo_converter :: Dns64Converter where
  "demo_converter = \<lparr>cv_prefix = [0, 0x64, 0, 0, 0, 0, 0, 0, 0, 0, 0, 0, 0, 0, 0, 0],
     cv_suffix = [0, 0, 0, 0, 0, 0, 0, 0, 0, 0, 0, 0, 0, 0, 0, 1], cv_prefixLen = 64\<rparr>"

lemma demo_converter: "converterFromString ''64::/64 ::1'' = Inr demo_converter"
proof -
  have x: "xtoi ''64::'' = Some (100, ''::'')" "xtoi ''1'' = Some (1, [])"
    by (simp_all add: xtoi_def hex_val_def big_def)
  have n: "replicate (numeral k) y = y # replicate (pred_numeral k) y" for k and y :: u8
    by (simp add: numeral_eq_Suc)
  have "Suc 7 = 8" by simp
  note loop = parse6_loop.simps(2) [of 7, unfolded this]
  have p: "parseIPv6 ''64::'' = Some (cv_prefix demo_converter)" "parseIPv6 ''::1'' = Some (cv_suffix demo_converter)"
    by (simp_all add: parseIPv6_def parse6_finish_def demo_converter_def x n loop)
  have s: "split_char CHR '' '' ''64::/64 ::1'' = [''64::/64'', ''::1'']" "split_char CHR ''/'' ''64::/64'' = [''64::'', ''64'']"
    by code_simp+
  have a: "Atoi ''64'' = Some 64" by code_simp
  have i: "ParseIP ''64::'' = parseIPv6 ''64::''" "ParseIP ''::1'' = parseIPv6 ''::1''"
    by (simp_all add: ParseIP_def)
  show ?thesis
    unfolding converterFromString_def s Let_def
    by (simp add: s a i p suffixFromParts_def validPrefixes_def maxPrefixLen_def demo_converter_def del: Atoi.simps)
qed

theorem synthesis_roundtrip_witness:
  "synthesisAddr demo_converter [192, 0, 2, 1] = Some [0, 0x64, 0, 0, 0, 0, 0, 0, 0, 192, 0, 2, 1, 0, 0, 1] \<and>
   extractAddr demo_converter [0, 0x64, 0, 0, 0, 0, 0, 0, 0, 192, 0, 2, 1, 0, 0, 1] = [192, 0, 2, 1]"
proof -
  have "synthesisAddr demo_converter [192, 0, 2, 1] = Some [0, 0x64, 0, 0, 0, 0, 0, 0, 0, 192, 0, 2, 1, 0, 0, 1]"
    by code_simp
  then show ?thesis using synthesis_roundtrip [OF demo_converter, of "[192, 0, 2, 1]"] by simp
qed

text \<open>
  C15. When the handlers behind DNS64 answer an AAAA query without an error and without an AAAA record,
  and answer the A query that follows (for the queried name, or the target of the CNAME that ends the
  first answer) with an A RRset, the client gets the first answer, then the records before the A RRset,
  then one AAAA RRset that has, for each converter and each A record in their order, one AAAA record in
  which that converter embeds the address of that A record, and nothing else. The response and the
  request have the original question again.
\<close>

theorem dns64_answer:
  assumes "nxt w client = Some (w1, c1)" "needDNS64Synthesis (get w1) c1 = Some True"
    and q: "m_Question (c_Request c1) = Some q" and r1: "c_Response c1 = Some r1"
    and n: "nextNameOf (q_Name q) (m_Answer r1) = Some n"
    and second: "nxt w1 (c1\<lparr>c_Response := None, c_Request := (c_Request c1)
        \<lparr>m_Question := Some \<lparr>q_Name = n, q_Type = RR_A, q_Class = q_Class q\<rparr>\<rparr>\<rparr>) = Some (w2, c2)"
    and cs: "get w2 (c_View c2) = Some (map Some cs)" "\<forall>c\<in>set cs. converter_wf c"
    and r2: "c_Response c2 = Some r2" "m_Answer r2 = pre @ a # post" "\<forall>r\<in>set pre. rr_Type r \<noteq> RR_A"
    and a: "rr_Type a = RR_A" "a_hosts a = Some hosts"
  shows "\<exists>r aaaa. dns64_HandleQuery get (Some nxt) w client =
      Some (w2, c2\<lparr>c_Request := (c_Request c2)\<lparr>m_Question := Some q\<rparr>, c_Response := Some r\<rparr>) \<and>
    m_Question r = Some q \<and> m_Answer r = m_Answer r1 @ pre @ [aaaa] \<and>
    rr_Name aaaa = rr_Name a \<and> rr_Type aaaa = RR_AAAA \<and> rr_Class aaaa = rr_Class a \<and> rr_Ttl aaaa = rr_Ttl a \<and>
    list_all2 (\<lambda>(c, h) d. \<exists>v6. d = RdAAAA v6 \<and> embeds c h v6) (List.product cs hosts) (rr_Rdatas aaaa)"
proof -
  let ?aaaa = "\<lparr>rr_Name = rr_Name a, rr_Type = RR_AAAA, rr_Class = rr_Class a, rr_Ttl = rr_Ttl a,
    rr_Rdatas = aaaa_rdatas cs hosts\<rparr>"
  let ?r = "r2\<lparr>m_Question := Some q, m_Answer := m_Answer r1 @ pre @ [?aaaa]\<rparr>"
  have "synthesizeDNS64Response (get w2) (Some q) r1 c2 =
      Some (c2\<lparr>c_Request := (c_Request c2)\<lparr>m_Question := Some q\<rparr>, c_Response := Some ?r\<rparr>)"
    using cs(1) r2 synthesisAnswers_ok [OF cs(2) a r2(3), of post]
    by (simp add: synthesizeDNS64Response_def)
  then have "dns64_HandleQuery get (Some nxt) w client =
      Some (w2, c2\<lparr>c_Request := (c_Request c2)\<lparr>m_Question := Some q\<rparr>, c_Response := Some ?r\<rparr>)"
    using assms(1,2) q r1 n second
    by (simp add: dns64_HandleQuery_def PassToNext_def dns64_handleQuery_def queryARecord_def)
  moreover have "list_all2 (\<lambda>(c, h) d. \<exists>v6. d = RdAAAA v6 \<and> embeds c h v6) (List.product cs hosts) (rr_Rdatas ?aaaa)"
    using aaaa_rdatas_product [OF cs(2), of hosts] a(2) by (simp add: a_hosts_Some)
  ultimately show ?thesis by (intro exI [of _ ?r] exI [of _ ?aaaa]) simp
qed

text \<open>A resolver with an A record and an empty answer for every other type.\<close>

definition demo_a :: "string list RRset" where
  "demo_a = \<lparr>rr_Name = [''v4''], rr_Type = RR_A, rr_Class = CLASS_IN, rr_Ttl = 60, rr_Rdatas = [RdA [192, 0, 2, 1]]\<rparr>"

definition demo_query :: "u16 \<Rightarrow> string list Message" where
  "demo_query typ = \<lparr>m_Header = empty_header, m_Question = Some \<lparr>q_Name = [''v4''], q_Type = typ, q_Class = CLASS_IN\<rparr>,
     m_Answer = [], m_Auth = [], m_Additional = [], m_Tsig = None\<rparr>"

definition demo_response :: "string list Message \<Rightarrow> string list Message" where
  "demo_response req = req\<lparr>m_Answer := (if map_option q_Type (m_Question req) = Some RR_A then [demo_a] else [])\<rparr>"

definition demo_resolver :: "(unit, string list) query_fun" where
  "demo_resolver w c = Some (w, c\<lparr>c_Response := Some (demo_response (c_Request c))\<rparr>)"

definition demo_client :: "string list Client" where
  "demo_client = client_reset 0 (UDPAddr [10, 0, 0, 1] 53) (UDPAddr [10, 0, 0, 2] 53) False (demo_query RR_AAAA)"

theorem dns64_answer_witness:
  "\<exists>c r. dns64_HandleQuery (\<lambda>w. [''default'' \<mapsto> [Some demo_converter]]) (Some demo_resolver) () demo_client = Some ((), c) \<and>
     c_Response c = Some r \<and> length (m_Answer r) = 1"
proof -
  have wf: "\<forall>c\<in>set [demo_converter]. converter_wf c" using converterFromString_wf [OF demo_converter] by simp
  let ?c1 = "demo_client\<lparr>c_Response := Some (demo_response (demo_query RR_AAAA))\<rparr>"
  let ?c2 = "demo_client\<lparr>c_Request := demo_query RR_A, c_Response := Some (demo_response (demo_query RR_A))\<rparr>"
  have "\<exists>r aaaa. dns64_HandleQuery (\<lambda>w. [''default'' \<mapsto> [Some demo_converter]]) (Some demo_resolver) () demo_client =
      Some ((), ?c2\<lparr>c_Request := (c_Request ?c2)\<lparr>m_Question := m_Question (demo_query RR_AAAA)\<rparr>, c_Response := Some r\<rparr>) \<and>
    m_Question r = m_Question (demo_query RR_AAAA) \<and> m_Answer r = [] @ [] @ [aaaa]"
    using dns64_answer [of demo_resolver "()" demo_client "()" ?c1 "\<lambda>w. [''default'' \<mapsto> [Some demo_converter]]"
        "\<lparr>q_Name = [''v4''], q_Type = RR_AAAA, q_Class = CLASS_IN\<rparr>" "demo_response (demo_query RR_AAAA)" "[''v4'']" "()" ?c2
        "[demo_converter]" "demo_response (demo_query RR_A)" "[]" demo_a "[]" "[[192, 0, 2, 1]]"] wf
    by (simp add: demo_resolver_def demo_client_def client_reset_def demo_query_def demo_response_def demo_a_def
        needDNS64Synthesis_def nextNameOf_def rr_types empty_header_def a_hosts_def) blast
  then show ?thesis by auto
qed

text \<open>
  The configuration is read without looking at the converters' errors. A view configured with a
  text that is not a converter has a nil converter, and the first A record to be converted for it is
  a nil dereference.
\<close>

theorem dns64_bad_config_panics:
  assumes "converterFromString s = Inl err" "rr_Type a = RR_A" "rr_Rdatas a \<noteq> []"
    and "c_View client = v" "c_Response client = Some r" "m_Answer r = a # post"
  shows "synthesizeDNS64Response (dns64_ReloadConfig [\<lparr>d64_View = v, d64_PreAndPostfixes = [s]\<rparr>]) q orig client = None"
proof -
  obtain d ds where d: "rr_Rdatas a = d # ds" using assms(3) by (cases "rr_Rdatas a") auto
  have "dns64_ReloadConfig [\<lparr>d64_View = v, d64_PreAndPostfixes = [s]\<rparr>] v = Some [None]"
    using assms(1) by (simp add: dns64_ReloadConfig_def converter_or_nil_def)
  then show ?thesis
    using assms d by (simp add: synthesizeDNS64Response_def synthesisAAAAFromA_def Let_def)
qed

theorem dns64_bad_config_panics_witness:
  "synthesizeDNS64Response (dns64_ReloadConfig [\<lparr>d64_View = ''default'', d64_PreAndPostfixes = [''64::'']\<rparr>])
     None (demo_query RR_AAAA) (demo_client\<lparr>c_Response := Some (demo_response (demo_query RR_A))\<rparr>) = None"
proof -
  have "converterFromString ''64::'' = Inl ErrInvalidDns64Prefix" by code_simp
  then show ?thesis
    using dns64_bad_config_panics [of "''64::''" ErrInvalidDns64Prefix demo_a
        "demo_client\<lparr>c_Response := Some (demo_response (demo_query RR_A))\<rparr>" "''default''" "demo_response (demo_query RR_A)" "[]"]
    by (simp add: demo_client_def client_reset_def demo_query_def demo_response_def demo_a_def)
qed

text \<open>
  A synthesised answer overwrites the cached answer of the A query. The cache sits behind DNS64 and
  keeps the pointer of the message it hands out after a miss, so the question and the answer section
  that DNS64 assigns are assigned to the entry: until it expires, a query for the A records of the
  name is answered from the cache with AAAA records and no A record.
\<close>

theorem dns64_overwrites_cached_answer:
  assumes laws: "message_laws G" "name_laws G" and ok: "mc_ok G c"
    and q: "m_Question m = Some q" "q_Type q = RR_A" and add: "mc_Add G t0 m c = Some (m', c')"
    and client: "c_Response client = Some m'" "h (c_View client) = Some (map Some cs)" "\<forall>c\<in>set cs. converter_wf c"
    and answers: "m_Answer m' = pre @ a # post" "\<forall>r\<in>set (m_Answer orig @ pre). rr_Type r \<noteq> RR_A"
      "rr_Type a = RR_A" "a_hosts a = Some hosts"
    and q0: "Name_Equals G (q_Name q0) (q_Name q)" and now: "now \<le> e_expireTime (messageToCache G t0 c m)"
  shows "\<exists>client' r e. synthesizeDNS64Response h (Some q0) orig client = Some client' \<and> c_Response client' = Some r \<and>
    fst (mc_get G now (q_Name q) RR_A (write_cached G (keyForMessage G (q_Name q) RR_A) r c')) = Some e \<and>
    (\<exists>x\<in>set (m_Answer (e_message e)). rr_Type x = RR_AAAA) \<and>
    (\<forall>x\<in>set (m_Answer (e_message e)). rr_Type x \<noteq> RR_A)"
proof -
  let ?aaaa = "\<lparr>rr_Name = rr_Name a, rr_Type = RR_AAAA, rr_Class = rr_Class a, rr_Ttl = rr_Ttl a,
    rr_Rdatas = aaaa_rdatas cs hosts\<rparr>"
  let ?r = "m'\<lparr>m_Question := Some q0, m_Answer := m_Answer orig @ pre @ [?aaaa]\<rparr>"
  have pre: "\<forall>r\<in>set pre. rr_Type r \<noteq> RR_A" using answers(2) by simp
  have "synthesizeDNS64Response h (Some q0) orig client =
      Some (client\<lparr>c_Request := (c_Request client)\<lparr>m_Question := Some q0\<rparr>, c_Response := Some ?r\<rparr>)"
    using client answers(1) synthesisAnswers_ok [OF client(3) answers(3,4) pre, of post]
    by (simp add: synthesizeDNS64Response_def)
  moreover have "fst (mc_get G now (q_Name q) RR_A (write_cached G (keyForMessage G (q_Name q) RR_A) ?r c')) =
      Some \<lparr>e_message = roundrobinAnswer G ?r, e_expireTime = e_expireTime (messageToCache G t0 c m)\<rparr>"
    using write_cached_get [OF laws ok q(1) add, of ?r q0 now] q0 now by (simp add: q(2))
  moreover have "\<exists>x\<in>set (m_Answer (roundrobinAnswer G ?r)). rr_Type x = RR_AAAA"
    by (simp add: roundrobinAnswer_def RotateRdata_fields [OF laws(1)])
  moreover have "\<forall>x\<in>set (m_Answer (roundrobinAnswer G ?r)). rr_Type x \<noteq> RR_A"
    using answers(2) by (auto simp: roundrobinAnswer_def RotateRdata_fields [OF laws(1)] rr_types)
  ultimately show ?thesis by auto
qed

theorem dns64_overwrites_cached_answer_witness:
  "\<exists>m' c' client' r e. mc_Add ref_g53 0 (demo_response (demo_query RR_A)) demo_cache = Some (m', c') \<and>
     synthesizeDNS64Response [''default'' \<mapsto> [Some demo_converter]] (m_Question (demo_query RR_AAAA)) (demo_query RR_AAAA)
       (demo_client\<lparr>c_Response := Some m'\<rparr>) = Some client' \<and> c_Response client' = Some r \<and>
     fst (mc_get ref_g53 Second [''v4''] RR_A (write_cached ref_g53 (keyForMessage ref_g53 [''v4''] RR_A) r c')) = Some e \<and>
     (\<forall>x\<in>set (m_Answer (e_message e)). rr_Type x \<noteq> RR_A)"
proof -
  let ?m = "demo_response (demo_query RR_A)" and ?q = "\<lambda>t. \<lparr>q_Name = [''v4''], q_Type = t, q_Class = CLASS_IN\<rparr>"
  obtain m' c' where a: "mc_Add ref_g53 0 ?m demo_cache = Some (m', c')"
    by (auto simp: mc_Add_def demo_response_def demo_query_def Let_def)
  have "m_Answer (fst (the (mc_Add ref_g53 0 ?m demo_cache))) = [demo_a]" by code_simp
  then have m': "m_Answer m' = [] @ demo_a # []" by (simp add: a)
  have wf: "\<forall>c\<in>set [demo_converter]. converter_wf c" using converterFromString_wf [OF demo_converter] by simp
  have t: "Second \<le> e_expireTime (messageToCache ref_g53 0 demo_cache ?m)" by code_simp
  have q: "m_Question ?m = Some (?q RR_A)" "m_Question (demo_query RR_AAAA) = Some (?q RR_AAAA)"
    by (simp_all add: demo_response_def demo_query_def)
  have n: "Name_Equals ref_g53 (q_Name (?q RR_AAAA)) (q_Name (?q RR_A))" by code_simp
  have h: "a_hosts demo_a = Some [[192, 0, 2, 1]]" by code_simp
  have "\<forall>r\<in>set (m_Answer (demo_query RR_AAAA) @ []). rr_Type r \<noteq> RR_A" by (simp add: demo_query_def)
  from dns64_overwrites_cached_answer [OF ref_message_laws ref_name_laws demo_ok q(1) _ a _ _ wf m' this _ h n t,
      of "demo_client\<lparr>c_Response := Some m'\<rparr>" "[''default'' \<mapsto> [Some demo_converter]]"]
  show ?thesis unfolding q(2) using a by (simp add: demo_client_def client_reset_def demo_a_def) blast
qed

text \<open>
  Whatever commands arrive, a view's converters are never nil and always complete: a conversion of
  an A RRset with 4-byte addresses then never panics.
\<close>

theorem dns64_commands_safe:
  assumes "dns64_ok h" "\<And>c hd. getHandler sn d c = Some hd \<Longrightarrow> hd = dns64_HandleCmd"
    and "fold (\<lambda>t s. fst (HandleTask sn d s t)) tasks h v = Some converters" "a_hosts a = Some hosts"
  shows "synthesisAAAAFromA converters a \<noteq> None"
proof -
  have "dns64_ok (fold (\<lambda>t s. fst (HandleTask sn d s t)) tasks h)"
    by (rule dns64_cmds.tasks_inv [OF assms(1,2)])
  then have u: "usable converters" using assms(3) by (auto simp: dns64_ok_def ran_def)
  then have "converters = map Some (map the converters)" "\<forall>c\<in>set (map the converters). converter_wf c"
    by (auto simp: usable_def o_def intro!: map_idI [symmetric])
  then show ?thesis using synthesisAAAAFromA_ok [OF _ assms(4)] by (metis option.distinct(1))
qed

theorem dns64_commands_safe_witness:
  "\<exists>cs. fold (\<lambda>t s. fst (HandleTask (\<lambda>_. ''dns64'') (RegisterHandler (\<lambda>_. ''dns64'') dns64_HandleCmd
       [PutDns64 [] []] newCmdDispatcher) s t)) [[PutDns64 ''default'' [''64::/64 ::1'']]] Map.empty ''default'' = Some cs \<and>
     synthesisAAAAFromA cs demo_a \<noteq> None"
proof -
  let ?d = "RegisterHandler (\<lambda>_. ''dns64'') dns64_HandleCmd [PutDns64 [] []] newCmdDispatcher"
  have f: "fold (\<lambda>t s. fst (HandleTask (\<lambda>_. ''dns64'') ?d s t)) [[PutDns64 ''default'' [''64::/64 ::1'']]] Map.empty ''default''
      = Some [Some demo_converter]"
    by (simp add: HandleTask_def getHandler_def RegisterHandler_def newCmdDispatcher_def safeRunCommand_def updateDns64_def demo_converter)
  have "synthesisAAAAFromA [Some demo_converter] demo_a \<noteq> None"
  proof (rule dns64_commands_safe [OF _ _ f])
    show "dns64_ok Map.empty" by (simp add: dns64_ok_def)
    show "a_hosts demo_a = Some [[192, 0, 2, 1]]" by code_simp
    show "hd = dns64_HandleCmd" if "getHandler (\<lambda>_. ''dns64'') ?d c = Some hd" for c hd
      using that by (simp add: getHandler_def RegisterHandler_def newCmdDispatcher_def)
  qed
  with f show ?thesis by blast
qed

end
