(* ===== verification/Acl_Schedule.thy ===== *)
theory Acl_Schedule
  imports Go_Time
begin

text \<open>
  The time ranges of access control lists, \<open>acl/schedule.go\<close>: parsing of the configured bounds,
  the three kinds of periodic ranges (daily, weekly, yearly) and the test whether an instant is
  inside. The lemmas show that an accepted range has its fields in range (\<open>range_wf\<close>), and that the
  three tests decide membership in the open interval between the two ends on the cycle of the day,
  the week or the year.
  The location of the server is the parameter \<open>off\<close>, the seconds east of UTC.
\<close>

section \<open>Data\<close>

datatype sched_error =
    ErrTimeRangeInvalid
  | ErrHourMinuteInvalid
  | ErrWeekDayInvalid
  | ErrDayInvalid
  | ErrMonthInvalid
  | ErrDateInvalid

record PeriodicInHour =
  ph_startHour :: int
  ph_endHour :: int
  ph_startMinute :: int
  ph_endMinute :: int
  ph_expandDay :: bool

record PeriodicInWeekDay =
  pw_startWeekDay :: int
  pw_endWeekDay :: int
  pw_startHour :: int
  pw_endHour :: int
  pw_startMinute :: int
  pw_endMinute :: int
  pw_expandWeek :: bool

record PeriodicInDate =
  pd_startMonth :: int
  pd_endMonth :: int
  pd_startDay :: int
  pd_endDay :: int
  pd_startHour :: int
  pd_endHour :: int
  pd_startMinute :: int
  pd_endMinute :: int
  pd_expandYear :: bool

text \<open>The interface \<open>TimeRange\<close> has these three implementations.\<close>

datatype TimeRange = InHour PeriodicInHour | InWeekDay PeriodicInWeekDay | InDate PeriodicInDate

section \<open>Parsing of the fields\<close>

definition hourMinFromString :: "string \<Rightarrow> sched_error + (int \<times> int)" where
  "hourMinFromString hm =
     (case split_char CHR '':'' hm of
        [hs, ms] \<Rightarrow>
          (case Atoi hs of
             None \<Rightarrow> Inl ErrHourMinuteInvalid
           | Some h \<Rightarrow>
               if h < 0 \<or> h > 23 then Inl ErrHourMinuteInvalid
               else (case Atoi ms of
                       None \<Rightarrow> Inl ErrHourMinuteInvalid
                     | Some m \<Rightarrow> if m < 0 \<or> m > 59 then Inl ErrHourMinuteInvalid else Inr (h, m)))
      | _ \<Rightarrow> Inl ErrHourMinuteInvalid)"

definition weekDayFromString :: "string \<Rightarrow> sched_error + int" where
  "weekDayFromString day =
     (case Atoi day of
        None \<Rightarrow> Inl ErrWeekDayInvalid
      | Some d \<Rightarrow> if d < 0 \<or> d > 6 then Inl ErrWeekDayInvalid else Inr d)"

definition dayFromString :: "string \<Rightarrow> sched_error + int" where
  "dayFromString day =
     (case Atoi day of
        None \<Rightarrow> Inl ErrDayInvalid
      | Some d \<Rightarrow> if d < 1 \<or> d > 31 then Inl ErrWeekDayInvalid else Inr d)"

definition monthFromString :: "string \<Rightarrow> sched_error + int" where
  "monthFromString ms =
     (case Atoi ms of
        None \<Rightarrow> Inl ErrWeekDayInvalid
      | Some m \<Rightarrow> if m < 1 \<or> m > 12 then Inl ErrMonthInvalid else Inr m)"

section \<open>Constructors\<close>

definition newPeriodicInHour :: "string \<Rightarrow> string \<Rightarrow> sched_error + TimeRange" where
  "newPeriodicInHour from to =
     bindE (hourMinFromString from) (\<lambda>(startHour, startMinute).
     bindE (hourMinFromString to) (\<lambda>(endHour, endMinute).
       if startHour = endHour \<and> startMinute > endMinute then Inl ErrHourMinuteInvalid
       else Inr (InHour \<lparr>ph_startHour = startHour, ph_endHour = endHour,
                         ph_startMinute = startMinute, ph_endMinute = endMinute,
                         ph_expandDay = (startHour > endHour)\<rparr>)))"

definition newPeriodicInWeekDay ::
  "string \<Rightarrow> string \<Rightarrow> string \<Rightarrow> string \<Rightarrow> sched_error + TimeRange" where
  "newPeriodicInWeekDay fromDay fromHourMinute toDay toHourMinute =
     bindE (hourMinFromString fromHourMinute) (\<lambda>(startHour, startMinute).
     bindE (hourMinFromString toHourMinute) (\<lambda>(endHour, endMinute).
     bindE (weekDayFromString fromDay) (\<lambda>startWeekDay.
     bindE (weekDayFromString toDay) (\<lambda>endWeekDay.
       if startWeekDay = endWeekDay \<and>
          (startHour > endHour \<or> (startHour = endHour \<and> startMinute > endMinute))
       then Inl ErrWeekDayInvalid
       else Inr (InWeekDay \<lparr>pw_startWeekDay = startWeekDay, pw_endWeekDay = endWeekDay,
                            pw_startHour = startHour, pw_endHour = endHour,
                            pw_startMinute = startMinute, pw_endMinute = endMinute,
                            pw_expandWeek = (startWeekDay > endWeekDay)\<rparr>)))))"

text \<open>\<open>now\<close> is \<open>time.Now()\<close>: the order of the two dates is checked in the current year.\<close>

definition newPeriodicInDate ::
  "int \<Rightarrow> instant \<Rightarrow> string \<Rightarrow> string \<Rightarrow> string \<Rightarrow> string \<Rightarrow> string \<Rightarrow> string \<Rightarrow> sched_error + TimeRange"
where
  "newPeriodicInDate off now fromMonth fromDay fromHourMinute toMonth toDay toHourMinute =
     bindE (monthFromString fromMonth) (\<lambda>startMonth.
     bindE (monthFromString toMonth) (\<lambda>endMonth.
     bindE (hourMinFromString fromHourMinute) (\<lambda>(startHour, startMinute).
     bindE (hourMinFromString toHourMinute) (\<lambda>(endHour, endMinute).
     bindE (dayFromString fromDay) (\<lambda>startDay.
     bindE (dayFromString toDay) (\<lambda>endDay.
       if startMonth \<le> endMonth \<and>
          Before (Date off (Year off now) endMonth endDay endHour endMinute)
                 (Date off (Year off now) startMonth startDay startHour startMinute)
       then Inl ErrDateInvalid
       else Inr (InDate \<lparr>pd_startMonth = startMonth, pd_endMonth = endMonth,
                         pd_startDay = startDay, pd_endDay = endDay,
                         pd_startHour = startHour, pd_endHour = endHour,
                         pd_startMinute = startMinute, pd_endMinute = endMinute,
                         pd_expandYear = (startMonth > endMonth)\<rparr>)))))))"

definition rangeBuilder :: "int \<Rightarrow> instant \<Rightarrow> string \<Rightarrow> string \<Rightarrow> sched_error + TimeRange" where
  "rangeBuilder off now from to =
     (let fromRange = split_char CHR '' '' from; toRange = split_char CHR '' '' to in
      if length fromRange \<noteq> length toRange then Inl ErrTimeRangeInvalid
      else (case (fromRange, toRange) of
              ([f0], [t0]) \<Rightarrow> newPeriodicInHour f0 t0
            | ([f0, f1], [t0, t1]) \<Rightarrow> newPeriodicInWeekDay f0 f1 t0 t1
            | ([f0, f1, f2], [t0, t1, t2]) \<Rightarrow> newPeriodicInDate off now f0 f1 f2 t0 t1 t2
            | _ \<Rightarrow> Inl ErrTimeRangeInvalid))"

section \<open>Membership\<close>

definition hour_IncludeTime :: "int \<Rightarrow> PeriodicInHour \<Rightarrow> instant \<Rightarrow> bool" where
  "hour_IncludeTime off p t =
     (let year = Year off t; month = Month off t; day = Day off t;
          start = Date off year month day (ph_startHour p) (ph_startMinute p);
          fin = Date off year month day (ph_endHour p) (ph_endMinute p)
      in if ph_expandDay p then After t start \<or> Before t fin
         else After t start \<and> Before t fin)"

definition week_IncludeTime :: "int \<Rightarrow> PeriodicInWeekDay \<Rightarrow> instant \<Rightarrow> bool" where
  "week_IncludeTime off p t =
     (let weekDay = Weekday off t;
          year = Year off t; month = Month off t; day = Day off t;
          startOfDay = Date off year month day (pw_startHour p) (pw_startMinute p);
          endOfDay = Date off year month day (pw_endHour p) (pw_endMinute p);
          start = startOfDay + (pw_startWeekDay p - weekDay) * secondsOneDay;
          fin = endOfDay + (pw_endWeekDay p - weekDay) * secondsOneDay
      in if pw_expandWeek p then After t start \<or> Before t fin
         else After t start \<and> Before t fin)"

definition date_IncludeTime :: "int \<Rightarrow> PeriodicInDate \<Rightarrow> instant \<Rightarrow> bool" where
  "date_IncludeTime off p t =
     (let year = Year off t;
          start = Date off year (pd_startMonth p) (pd_startDay p) (pd_startHour p) (pd_startMinute p);
          fin = Date off year (pd_endMonth p) (pd_endDay p) (pd_endHour p) (pd_endMinute p)
      in if pd_expandYear p then After t start \<or> Before t fin
         else After t start \<and> Before t fin)"

text \<open>Dynamic dispatch of \<open>TimeRange.IncludeTime\<close>.\<close>

fun range_IncludeTime :: "int \<Rightarrow> TimeRange \<Rightarrow> instant \<Rightarrow> bool" where
  "range_IncludeTime off (InHour p) t = hour_IncludeTime off p t"
| "range_IncludeTime off (InWeekDay p) t = week_IncludeTime off p t"
| "range_IncludeTime off (InDate p) t = date_IncludeTime off p t"

section \<open>Schedules\<close>

text \<open>\<open>config.TimeRange\<close> and \<open>Schedule\<close>.\<close>

record TimeRangeConf =
  Begin :: string
  End :: string

record Schedule =
  ranges :: "TimeRange list"

definition newSchedule :: "int \<Rightarrow> instant \<Rightarrow> TimeRangeConf list \<Rightarrow> sched_error + Schedule" where
  "newSchedule off now timeRanges =
     bindE (mapE (\<lambda>c. rangeBuilder off now (Begin c) (End c)) timeRanges)
           (\<lambda>rs. Inr \<lparr>ranges = rs\<rparr>)"

definition sched_IncludeTime :: "int \<Rightarrow> Schedule \<Rightarrow> instant \<Rightarrow> bool" where
  "sched_IncludeTime off s t = list_ex (\<lambda>r. range_IncludeTime off r t) (ranges s)"

lemmas schedule_defs [wire_defs] =
  hourMinFromString_def weekDayFromString_def dayFromString_def monthFromString_def
  newPeriodicInHour_def newPeriodicInWeekDay_def newPeriodicInDate_def rangeBuilder_def

section \<open>Accepted ranges are well formed\<close>

definition clock_wf :: "int \<Rightarrow> int \<Rightarrow> bool" where
  "clock_wf h m \<longleftrightarrow> 0 \<le> h \<and> h \<le> 23 \<and> 0 \<le> m \<and> m \<le> 59"

text \<open>Clock time of an hour and a minute in nanoseconds.\<close>

definition hm_ns :: "int \<Rightarrow> int \<Rightarrow> int" where
  "hm_ns h m = (h * 3600 + m * 60) * Second"

fun range_wf :: "TimeRange \<Rightarrow> bool" where
  "range_wf (InHour p) \<longleftrightarrow>
     clock_wf (ph_startHour p) (ph_startMinute p) \<and> clock_wf (ph_endHour p) (ph_endMinute p) \<and>
     (ph_expandDay p \<longleftrightarrow>
        hm_ns (ph_startHour p) (ph_startMinute p) > hm_ns (ph_endHour p) (ph_endMinute p))"
| "range_wf (InWeekDay p) \<longleftrightarrow>
     clock_wf (pw_startHour p) (pw_startMinute p) \<and> clock_wf (pw_endHour p) (pw_endMinute p) \<and>
     0 \<le> pw_startWeekDay p \<and> pw_startWeekDay p \<le> 6 \<and> 0 \<le> pw_endWeekDay p \<and> pw_endWeekDay p \<le> 6 \<and>
     (pw_expandWeek p \<longleftrightarrow>
        pw_startWeekDay p * secondsOneDay + hm_ns (pw_startHour p) (pw_startMinute p) >
        pw_endWeekDay p * secondsOneDay + hm_ns (pw_endHour p) (pw_endMinute p))"
| "range_wf (InDate p) \<longleftrightarrow>
     clock_wf (pd_startHour p) (pd_startMinute p) \<and> clock_wf (pd_endHour p) (pd_endMinute p) \<and>
     1 \<le> pd_startDay p \<and> pd_startDay p \<le> 31 \<and> 1 \<le> pd_endDay p \<and> pd_endDay p \<le> 31 \<and>
     1 \<le> pd_startMonth p \<and> pd_startMonth p \<le> 12 \<and> 1 \<le> pd_endMonth p \<and> pd_endMonth p \<le> 12 \<and>
     (pd_expandYear p \<longleftrightarrow> pd_startMonth p > pd_endMonth p)"

lemma hourMinFromString_wf: "hourMinFromString s = Inr (h, m) \<Longrightarrow> clock_wf h m"
  by (auto simp: hourMinFromString_def clock_wf_def split: list.splits option.splits if_splits)

lemma weekDayFromString_wf: "weekDayFromString s = Inr d \<Longrightarrow> 0 \<le> d \<and> d \<le> 6"
  by (auto simp: weekDayFromString_def split: option.splits if_splits)

lemma dayFromString_wf: "dayFromString s = Inr d \<Longrightarrow> 1 \<le> d \<and> d \<le> 31"
  by (auto simp: dayFromString_def split: option.splits if_splits)

lemma monthFromString_wf: "monthFromString s = Inr d \<Longrightarrow> 1 \<le> d \<and> d \<le> 12"
  by (auto simp: monthFromString_def split: option.splits if_splits)

lemma hm_ns_range: "clock_wf h m \<Longrightarrow> 0 \<le> hm_ns h m \<and> hm_ns h m < secondsOneDay"
  by (simp add: clock_wf_def hm_ns_def secondsOneDay_def Second_def)

lemma hm_ns_less:
  assumes "clock_wf h m" "clock_wf h' m'"
  shows "hm_ns h m > hm_ns h' m' \<longleftrightarrow> h > h' \<or> (h = h' \<and> m > m')"
  using assms by (auto simp: clock_wf_def hm_ns_def Second_def)

lemma newPeriodicInHour_wf:
  assumes "newPeriodicInHour from to = Inr r"
  shows "range_wf r"
proof -
  from assms obtain h m h' m' where p: "hourMinFromString from = Inr (h, m)" "hourMinFromString to = Inr (h', m')"
    and ok: "\<not> (h = h' \<and> m > m')"
    and r: "r = InHour \<lparr>ph_startHour = h, ph_endHour = h', ph_startMinute = m, ph_endMinute = m',
                        ph_expandDay = (h > h')\<rparr>"
    by (auto simp: newPeriodicInHour_def bindE_Inr_iff split: if_splits)
  note wf = p [THEN hourMinFromString_wf]
  from ok show ?thesis by (auto simp: r wf hm_ns_less [OF wf])
qed

lemma newPeriodicInWeekDay_wf:
  assumes "newPeriodicInWeekDay fd fhm td thm = Inr r"
  shows "range_wf r"
proof -
  from assms obtain h m h' m' d d' where
    p: "hourMinFromString fhm = Inr (h, m)" "hourMinFromString thm = Inr (h', m')"
    and q: "weekDayFromString fd = Inr d" "weekDayFromString td = Inr d'"
    and ok: "\<not> (d = d' \<and> (h > h' \<or> (h = h' \<and> m > m')))"
    and r: "r = InWeekDay \<lparr>pw_startWeekDay = d, pw_endWeekDay = d', pw_startHour = h, pw_endHour = h',
              pw_startMinute = m, pw_endMinute = m', pw_expandWeek = (d > d')\<rparr>"
    by (auto simp: newPeriodicInWeekDay_def bindE_Inr_iff split: if_splits)
  note wf = p [THEN hourMinFromString_wf]
  have "d * secondsOneDay + hm_ns h m > d' * secondsOneDay + hm_ns h' m' \<longleftrightarrow> d > d'"
  proof (cases "d = d'")
    case True
    with ok hm_ns_less [OF wf] show ?thesis by auto
  next
    case False
    then show ?thesis
      using hm_ns_range [OF wf(1)] hm_ns_range [OF wf(2)] by (auto simp: secondsOneDay_def Second_def)
  qed
  then show ?thesis using q [THEN weekDayFromString_wf] by (simp add: r wf)
qed

lemma newPeriodicInDate_wf:
  assumes "newPeriodicInDate off now fm fd fhm tm td thm = Inr r"
  shows "range_wf r"
proof -
  from assms obtain h m h' m' d d' mo mo' where
    p: "hourMinFromString fhm = Inr (h, m)" "hourMinFromString thm = Inr (h', m')"
    and q: "dayFromString fd = Inr d" "dayFromString td = Inr d'"
    and s: "monthFromString fm = Inr mo" "monthFromString tm = Inr mo'"
    and r: "r = InDate \<lparr>pd_startMonth = mo, pd_endMonth = mo', pd_startDay = d, pd_endDay = d',
              pd_startHour = h, pd_endHour = h', pd_startMinute = m, pd_endMinute = m',
              pd_expandYear = (mo > mo')\<rparr>"
    by (auto simp: newPeriodicInDate_def bindE_Inr_iff split: if_splits)
  show ?thesis
    using p [THEN hourMinFromString_wf] q [THEN dayFromString_wf] s [THEN monthFromString_wf]
    by (simp add: r)
qed

lemma rangeBuilder_wf: "rangeBuilder off now from to = Inr r \<Longrightarrow> range_wf r"
  by (auto simp: rangeBuilder_def Let_def newPeriodicInHour_wf newPeriodicInWeekDay_wf newPeriodicInDate_wf
      split: if_splits list.splits)

section \<open>Membership is an interval of a cycle\<close>

text \<open>
  The specification of a range: a position of the instant in its day, week or year, the positions of
  the two ends (in days and clock time, all in nanoseconds), and whether the range wraps around the
  end of the cycle. The year position of a configured date depends on the leap day.
\<close>

fun range_pos :: "int \<Rightarrow> instant \<Rightarrow> TimeRange \<Rightarrow> int" where
  "range_pos off t (InHour p) = clock off t"
| "range_pos off t (InWeekDay p) = week_clock off t"
| "range_pos off t (InDate p) = YearDay0 off t * secondsOneDay + clock off t"

fun range_from :: "bool \<Rightarrow> TimeRange \<Rightarrow> int" where
  "range_from lp (InHour p) = hm_ns (ph_startHour p) (ph_startMinute p)"
| "range_from lp (InWeekDay p) =
     pw_startWeekDay p * secondsOneDay + hm_ns (pw_startHour p) (pw_startMinute p)"
| "range_from lp (InDate p) =
     (month_start lp (pd_startMonth p) + (pd_startDay p - 1)) * secondsOneDay
     + hm_ns (pd_startHour p) (pd_startMinute p)"

fun range_to :: "bool \<Rightarrow> TimeRange \<Rightarrow> int" where
  "range_to lp (InHour p) = hm_ns (ph_endHour p) (ph_endMinute p)"
| "range_to lp (InWeekDay p) =
     pw_endWeekDay p * secondsOneDay + hm_ns (pw_endHour p) (pw_endMinute p)"
| "range_to lp (InDate p) =
     (month_start lp (pd_endMonth p) + (pd_endDay p - 1)) * secondsOneDay
     + hm_ns (pd_endHour p) (pd_endMinute p)"

fun range_wraps :: "TimeRange \<Rightarrow> bool" where
  "range_wraps (InHour p) \<longleftrightarrow> range_from False (InHour p) > range_to False (InHour p)"
| "range_wraps (InWeekDay p) \<longleftrightarrow> range_from False (InWeekDay p) > range_to False (InWeekDay p)"
| "range_wraps (InDate p) \<longleftrightarrow> pd_startMonth p > pd_endMonth p"

text \<open>An open interval of a cycle.\<close>

definition cyclic :: "bool \<Rightarrow> int \<Rightarrow> int \<Rightarrow> int \<Rightarrow> bool" where
  "cyclic wraps s e c \<longleftrightarrow> (if wraps then s < c \<or> c < e else s < c \<and> c < e)"

lemma minus_same_day:
  "t - Date off (Year off t) (Month off t) (Day off t) h m = clock off t - hm_ns h m"
  using instant_split [of t off] by (simp add: cal_simps hm_ns_def algebra_simps)

lemma minus_same_year:
  "t - Date off (Year off t) mo d h m =
     YearDay0 off t * secondsOneDay + clock off t
     - ((month_start (leap (Year off t)) mo + (d - 1)) * secondsOneDay + hm_ns h m)"
  using instant_split [of t off]
  by (simp add: Date_year_day hm_ns_def secondsOneDay_def algebra_simps)

lemma After_iff: "After t u \<longleftrightarrow> t - u > 0"
  by (auto simp: After_def)

lemma Before_iff: "Before t u \<longleftrightarrow> t - u < 0"
  by (auto simp: Before_def)

lemma minus_add_days: "t - (u + (w - wd) * secondsOneDay) = (t - u) + wd * secondsOneDay - w * secondsOneDay"
  by (simp add: algebra_simps)

lemmas include_simps = After_iff Before_iff minus_add_days minus_same_day

lemma hour_cyclic:
  assumes "range_wf (InHour p)"
  shows "hour_IncludeTime off p t \<longleftrightarrow>
    cyclic (range_wraps (InHour p)) (range_from lp (InHour p)) (range_to lp (InHour p)) (clock off t)"
  using assms by (simp add: hour_IncludeTime_def Let_def include_simps cyclic_def)

lemma week_cyclic:
  assumes "range_wf (InWeekDay p)"
  shows "week_IncludeTime off p t \<longleftrightarrow>
    cyclic (range_wraps (InWeekDay p)) (range_from lp (InWeekDay p)) (range_to lp (InWeekDay p))
      (week_clock off t)"
  using assms by (auto simp: week_IncludeTime_def Let_def include_simps cyclic_def week_clock_def)

lemma date_cyclic:
  assumes "range_wf (InDate p)"
  shows "date_IncludeTime off p t \<longleftrightarrow>
    cyclic (range_wraps (InDate p)) (range_from (leap (Year off t)) (InDate p))
      (range_to (leap (Year off t)) (InDate p)) (range_pos off t (InDate p))"
  using assms by (auto simp: date_IncludeTime_def Let_def After_iff Before_iff minus_same_year cyclic_def)

section \<open>Properties\<close>

text \<open>
  Every time range the builder accepts has its hours in 0 to 23, minutes in 0 to 59, weekdays in
  0 to 6, days in 1 to 31 and months in 1 to 12, and its wrap flag is set exactly when the second end
  comes before the first one in the cycle (for a date range: by month).
\<close>

theorem rangeBuilder_range_wf:
  assumes "rangeBuilder off now from to = Inr r"
  shows "range_wf r"
  using assms by (rule rangeBuilder_wf)

text \<open>The week range of the test suite, from Thursday 11:30 over the week end to Sunday 12:20.\<close>

theorem rangeBuilder_range_wf_witness:
  "range_wf (InWeekDay \<lparr>pw_startWeekDay = 4, pw_endWeekDay = 0, pw_startHour = 11, pw_endHour = 12,
     pw_startMinute = 30, pw_endMinute = 20, pw_expandWeek = True\<rparr>)"
proof -
  have "rangeBuilder 0 0 ''4 11:30'' ''0 12:20'' =
    Inr (InWeekDay \<lparr>pw_startWeekDay = 4, pw_endWeekDay = 0, pw_startHour = 11, pw_endHour = 12,
     pw_startMinute = 30, pw_endMinute = 20, pw_expandWeek = True\<rparr>)"
    by code_simp
  then show ?thesis by (rule rangeBuilder_range_wf)
qed

text \<open>
  C1. A range built from a configuration includes an instant exactly when the position of the instant
  in its local day, week or year lies strictly between the two configured ends, going around the end
  of the cycle when the second end comes first.
\<close>

theorem range_IncludeTime_cyclic:
  assumes "rangeBuilder off now from to = Inr r"
  shows "range_IncludeTime off r t \<longleftrightarrow>
    cyclic (range_wraps r) (range_from (leap (Year off t)) r) (range_to (leap (Year off t)) r) (range_pos off t r)"
proof -
  have "range_wf r" using assms by (rule rangeBuilder_wf)
  then show ?thesis
    by (cases r) (simp_all only: range_IncludeTime.simps hour_cyclic week_cyclic date_cyclic range_pos.simps)
qed

text \<open>02:19 is inside the nightly range from 15:30 to 02:20 of the test suite.\<close>

theorem range_IncludeTime_cyclic_witness:
  "\<exists>r. rangeBuilder 0 0 ''15:30'' ''02:20'' = Inr r \<and> range_wraps r \<and>
       range_IncludeTime 0 r ((2 * 3600 + 19 * 60) * Second)"
proof -
  let ?r = "InHour \<lparr>ph_startHour = 15, ph_endHour = 2, ph_startMinute = 30, ph_endMinute = 20, ph_expandDay = True\<rparr>"
  have b: "rangeBuilder 0 0 ''15:30'' ''02:20'' = Inr ?r" by code_simp
  have "clock 0 ((2 * 3600 + 19 * 60) * Second) = (2 * 3600 + 19 * 60) * Second" by code_simp
  then have "range_IncludeTime 0 ?r ((2 * 3600 + 19 * 60) * Second)"
    unfolding range_IncludeTime_cyclic [OF b] by (simp add: cyclic_def hm_ns_def Second_def)
  moreover have "range_wraps ?r" by (simp add: hm_ns_def Second_def)
  ultimately show ?thesis using b by blast
qed

end
