(* ===== verification/Acl.thy ===== *)
theory Acl
  imports Acl_Schedule Cement Httpcmd
begin

text \<open>
  Access control lists, \<open>acl/\<close>: one list with its networks and its schedules (\<open>acl.go\<close>), the
  scheduler that switches the lists on and off every minute (\<open>acl_scheduler.go\<close>), the manager that
  names them (\<open>aclmanager.go\<close>) and its commands (\<open>cmdhandler.go\<close>). The manager and the scheduler
  share the lists by pointer, so the lists live in a heap. The invariant \<open>mgr_wf\<close> says that every
  named list is scheduled; it is kept by every operation, and it makes the answer of \<open>Find\<close> after a
  check of the scheduler the one the configured networks and intervals demand.
\<close>

section \<open>One list\<close>

record 't Acl =
  tree :: 't
  take_effect :: u32
  valid_time :: "Schedule option"
  invalid_time :: "Schedule option"

fun sched_error_msg :: "sched_error \<Rightarrow> string" where
  "sched_error_msg ErrTimeRangeInvalid = ''time range isn't valid''"
| "sched_error_msg ErrHourMinuteInvalid = ''hour minute format invalid''"
| "sched_error_msg ErrWeekDayInvalid = ''weekday format invalid''"
| "sched_error_msg ErrDayInvalid = ''day format invalid''"
| "sched_error_msg ErrMonthInvalid = ''month format invalid''"
| "sched_error_msg ErrDateInvalid = ''date format invalid''"

definition SetValid :: "bool \<Rightarrow> 't Acl \<Rightarrow> 't Acl" where
  "SetValid valid a =
     (if valid then (if take_effect a = 0 then a\<lparr>take_effect := 1\<rparr> else a)
      else (if take_effect a = 1 then a\<lparr>take_effect := 0\<rparr> else a))"

definition CheckValid :: "int \<Rightarrow> instant \<Rightarrow> 't Acl \<Rightarrow> 't Acl" where
  "CheckValid off now a =
     (if invalid_time a = None \<and> valid_time a = None then a
      else if (case invalid_time a of None \<Rightarrow> False | Some s \<Rightarrow> sched_IncludeTime off s now) \<or>
              (case valid_time a of None \<Rightarrow> False | Some s \<Rightarrow> \<not> sched_IncludeTime off s now)
           then SetValid False a
           else SetValid True a)"

definition acl_Include :: "('t, unit) netradix \<Rightarrow> 't Acl \<Rightarrow> ip \<Rightarrow> bool" where
  "acl_Include N a addr =
     (if take_effect a = 0 then False else nr_SearchBest N (tree a) addr \<noteq> None)"

text \<open>The loop that adds the networks, and \<open>newSchedule\<close> of an interval list that may be empty.\<close>

fun addNetworks :: "('t, unit) netradix \<Rightarrow> string list \<Rightarrow> 't \<Rightarrow> string + 't" where
  "addNetworks N [] t = Inr t"
| "addNetworks N (addr # ips) t =
     (case nr_Add N t addr () of
        Inl err \<Rightarrow> Inl (''address '' @ addr @ '' isn't valid: '' @ err)
      | Inr t' \<Rightarrow> addNetworks N ips t')"

definition optSchedule :: "int \<Rightarrow> instant \<Rightarrow> TimeRangeConf list \<Rightarrow> string + Schedule option" where
  "optSchedule off now ivs =
     (if ivs = [] then Inr None
      else case newSchedule off now ivs of
             Inl e \<Rightarrow> Inl (sched_error_msg e)
           | Inr s \<Rightarrow> Inr (Some s))"

definition NewAcl ::
  "('t, unit) netradix \<Rightarrow> int \<Rightarrow> instant \<Rightarrow> string list \<Rightarrow> TimeRangeConf list \<Rightarrow> TimeRangeConf list
   \<Rightarrow> string + 't Acl" where
  "NewAcl N off now ips validInterval invalidInterval =
     bindE (addNetworks N ips (NewNetRadixTree N)) (\<lambda>t.
     bindE (optSchedule off now validInterval) (\<lambda>v.
     bindE (optSchedule off now invalidInterval) (\<lambda>i.
       Inr (CheckValid off now
         \<lparr>tree = t, take_effect = 1, valid_time = v, invalid_time = i\<rparr>))))"

section \<open>Scheduler and manager\<close>

text \<open>
  \<open>heap\<close> holds the lists by address and \<open>next_acl\<close> the next unused one; \<open>acls\<close> is the manager's
  map and \<open>sched_acls\<close> the local variable of the scheduler's loop. The channels are unbuffered: a send
  by the manager returns when the loop has taken the message, so it is one step of the state.
\<close>

record 't AclManager =
  acls :: "string \<rightharpoonup> nat"
  sched_acls :: "nat list"
  heap :: "nat \<rightharpoonup> 't Acl"
  next_acl :: nat

datatype sched_event = AddAclChan nat | DeleteAclChan nat | Timer instant

fun checkAll :: "int \<Rightarrow> instant \<Rightarrow> nat list \<Rightarrow> (nat \<rightharpoonup> 't Acl) \<Rightarrow> (nat \<rightharpoonup> 't Acl)" where
  "checkAll off now [] h = h"
| "checkAll off now (a # as) h =
     checkAll off now as (case h a of None \<Rightarrow> h | Some acl \<Rightarrow> h(a \<mapsto> CheckValid off now acl))"

text \<open>One turn of the \<open>select\<close> in \<open>AclScheduler.Run\<close>.\<close>

fun sched_step :: "int \<Rightarrow> sched_event \<Rightarrow> 't AclManager \<Rightarrow> 't AclManager" where
  "sched_step off (AddAclChan a) m = m\<lparr>sched_acls := sched_acls m @ [a]\<rparr>"
| "sched_step off (DeleteAclChan a) m = m\<lparr>sched_acls := remove1 a (sched_acls m)\<rparr>"
| "sched_step off (Timer now) m = m\<lparr>heap := checkAll off now (sched_acls m) (heap m)\<rparr>"

definition AnyAcl :: string where "AnyAcl = ''any''"
definition NoneAcl :: string where "NoneAcl = ''none''"
definition AllAcl :: string where "AllAcl = ''all''"
definition BadName :: string where "BadName = ''acl''"

definition allocAcl :: "'t Acl \<Rightarrow> 't AclManager \<Rightarrow> nat \<times> 't AclManager" where
  "allocAcl a m = (next_acl m, m\<lparr>heap := (heap m)(next_acl m \<mapsto> a), next_acl := Suc (next_acl m)\<rparr>)"

record AclConf =
  ac_Name :: string
  ac_IPs :: "string list"
  ac_ValidInterval :: "TimeRangeConf list"
  ac_InvalidInterval :: "TimeRangeConf list"

fun loadAcls ::
  "('t, unit) netradix \<Rightarrow> int \<Rightarrow> instant \<Rightarrow> AclConf list \<Rightarrow> 't AclManager \<Rightarrow> 't AclManager may_panic" where
  "loadAcls N off now [] m = Some m"
| "loadAcls N off now (a # as) m =
     (case NewAcl N off now (ac_IPs a) (ac_ValidInterval a) (ac_InvalidInterval a) of
        Inl err \<Rightarrow> None
      | Inr acl \<Rightarrow>
          (let (p, m') = allocAcl acl m
           in loadAcls N off now as
                (sched_step off (AddAclChan p) (m'\<lparr>acls := (acls m')(ac_Name a \<mapsto> p)\<rparr>))))"

text \<open>A configuration with a bad list stops the server (\<open>panic\<close>).\<close>

definition acl_ReloadConfig ::
  "('t, unit) netradix \<Rightarrow> int \<Rightarrow> instant \<Rightarrow> AclConf list \<Rightarrow> 't AclManager \<Rightarrow> 't AclManager may_panic" where
  "acl_ReloadConfig N off now confs m =
     loadAcls N off now confs (m\<lparr>acls := Map.empty, sched_acls := []\<rparr>)"

definition acl_Find :: "('t, unit) netradix \<Rightarrow> 't AclManager \<Rightarrow> string \<Rightarrow> ip \<Rightarrow> bool" where
  "acl_Find N m aclName addr =
     (let lowerAcl = ToLower aclName in
      if lowerAcl = AnyAcl then True
      else if lowerAcl = NoneAcl then False
      else case acls m aclName of
             None \<Rightarrow> False
           | Some p \<Rightarrow> (case heap m p of None \<Rightarrow> False | Some a \<Rightarrow> acl_Include N a addr))"

definition acl_add ::
  "('t, unit) netradix \<Rightarrow> int \<Rightarrow> instant \<Rightarrow> 't AclManager \<Rightarrow> string \<Rightarrow> string list
   \<Rightarrow> 't AclManager \<times> cmd_error option" where
  "acl_add N off now m aclName ips =
     (case NewAcl N off now ips [] [] of
        Inl err \<Rightarrow> (m, Some (AddDetail ErrInvalidNetwork err))
      | Inr acl \<Rightarrow>
          (let (p, m') = allocAcl acl m
           in (sched_step off (AddAclChan p) (m'\<lparr>acls := (acls m')(aclName \<mapsto> p)\<rparr>), None)))"

definition ErrAnyNonAcl :: cmd_error where
  "ErrAnyNonAcl = NewError AclErrCodeStart ''any or none or all acl is read only''"
definition ErrAclExists :: cmd_error where
  "ErrAclExists = NewError (AclErrCodeStart + 1) ''acl already exists''"
definition ErrNonExistAcl :: cmd_error where
  "ErrNonExistAcl = NewError (AclErrCodeStart + 2) ''operate non-exist acl''"
definition ErrBadAclName :: cmd_error where
  "ErrBadAclName = NewError (AclErrCodeStart + 7) ''acl can't named with acl''"

definition acl_remove :: "int \<Rightarrow> 't AclManager \<Rightarrow> string \<Rightarrow> 't AclManager \<times> cmd_error option" where
  "acl_remove off m aclName =
     (case acls m aclName of
        None \<Rightarrow> (m, Some ErrNonExistAcl)
      | Some p \<Rightarrow> (sched_step off (DeleteAclChan p) (m\<lparr>acls := (acls m)(aclName := None)\<rparr>), None))"

definition acl_update ::
  "('t, unit) netradix \<Rightarrow> int \<Rightarrow> instant \<Rightarrow> 't AclManager \<Rightarrow> string \<Rightarrow> string list
   \<Rightarrow> 't AclManager \<times> cmd_error option" where
  "acl_update N off now m aclName ips =
     (case acl_remove off m aclName of
        (m', Some err) \<Rightarrow> (m', Some err)
      | (m', None) \<Rightarrow> acl_add N off now m' aclName ips)"

definition hasAcl :: "'t AclManager \<Rightarrow> string \<Rightarrow> bool" where
  "hasAcl m aclName \<longleftrightarrow> acls m aclName \<noteq> None"

section \<open>Commands\<close>

datatype acl_cmd =
    AddAcl string "string list"
  | DeleteAcl string
  | UpdateAcl string "string list"
  | GetAcls
  | GetAcl string

definition isReadOnly :: "(string list \<Rightarrow> string \<Rightarrow> int) \<Rightarrow> string \<Rightarrow> bool" where
  "isReadOnly SliceIndex name \<longleftrightarrow> SliceIndex [AnyAcl, NoneAcl, AllAcl] (ToLower name) \<noteq> -1"

definition checkNameValid :: "(string list \<Rightarrow> string \<Rightarrow> int) \<Rightarrow> string \<Rightarrow> cmd_error option" where
  "checkNameValid SliceIndex name =
     (let n = ToLower name in
      if n = BadName then Some ErrBadAclName
      else if isReadOnly SliceIndex n then Some ErrAnyNonAcl
      else None)"

definition acl_addAcl ::
  "('t, unit) netradix \<Rightarrow> (string list \<Rightarrow> string \<Rightarrow> int) \<Rightarrow> int \<Rightarrow> instant \<Rightarrow> 't AclManager \<Rightarrow> string
   \<Rightarrow> string list \<Rightarrow> 't AclManager \<times> cmd_error option" where
  "acl_addAcl N SliceIndex off now m name networks =
     (case checkNameValid SliceIndex name of
        Some err \<Rightarrow> (m, Some err)
      | None \<Rightarrow> if hasAcl m name then (m, Some ErrAclExists) else acl_add N off now m name networks)"

definition acl_deleteAcl ::
  "(string list \<Rightarrow> string \<Rightarrow> int) \<Rightarrow> int \<Rightarrow> 't AclManager \<Rightarrow> string \<Rightarrow> 't AclManager \<times> cmd_error option" where
  "acl_deleteAcl SliceIndex off m name =
     (if isReadOnly SliceIndex name then (m, Some ErrAnyNonAcl) else acl_remove off m name)"

definition acl_updateAcl ::
  "('t, unit) netradix \<Rightarrow> (string list \<Rightarrow> string \<Rightarrow> int) \<Rightarrow> int \<Rightarrow> instant \<Rightarrow> 't AclManager \<Rightarrow> string
   \<Rightarrow> string list \<Rightarrow> 't AclManager \<times> cmd_error option" where
  "acl_updateAcl N SliceIndex off now m name networks =
     (if isReadOnly SliceIndex name then (m, Some ErrAnyNonAcl) else acl_update N off now m name networks)"

fun acl_HandleCmd ::
  "('t, unit) netradix \<Rightarrow> (string list \<Rightarrow> string \<Rightarrow> int) \<Rightarrow> int \<Rightarrow> instant \<Rightarrow> 't AclManager \<Rightarrow> acl_cmd
   \<Rightarrow> 't AclManager \<times> unit cmd_outcome" where
  "acl_HandleCmd N SI off now m (AddAcl n nets) =
     (case acl_addAcl N SI off now m n nets of (m', err) \<Rightarrow> (m', Returns None err))"
| "acl_HandleCmd N SI off now m (DeleteAcl n) =
     (case acl_deleteAcl SI off m n of (m', err) \<Rightarrow> (m', Returns None err))"
| "acl_HandleCmd N SI off now m (UpdateAcl n nets) =
     (case acl_updateAcl N SI off now m n nets of (m', err) \<Rightarrow> (m', Returns None err))"
| "acl_HandleCmd N SI off now m GetAcls = (m, Panics ''should not be here'')"
| "acl_HandleCmd N SI off now m (GetAcl n) = (m, Panics ''should not be here'')"

section \<open>One list follows its schedule\<close>

text \<open>
  \<open>acl_wf\<close>: the flag is a bit, and a list with no interval is always on. \<open>permits\<close> is what the
  configuration means: outside every invalid interval and, when valid intervals are given, inside one.
\<close>

definition acl_wf :: "'t Acl \<Rightarrow> bool" where
  "acl_wf a \<longleftrightarrow> take_effect a \<in> {0, 1} \<and>
     (invalid_time a = None \<and> valid_time a = None \<longrightarrow> take_effect a = 1)"

definition permits :: "int \<Rightarrow> instant \<Rightarrow> Schedule option \<Rightarrow> Schedule option \<Rightarrow> bool" where
  "permits off now valid invalid \<longleftrightarrow>
     (case invalid of None \<Rightarrow> True | Some s \<Rightarrow> \<not> sched_IncludeTime off s now) \<and>
     (case valid of None \<Rightarrow> True | Some s \<Rightarrow> sched_IncludeTime off s now)"

lemma CheckValid_fields [simp]:
  "tree (CheckValid off now a) = tree a"
  "valid_time (CheckValid off now a) = valid_time a"
  "invalid_time (CheckValid off now a) = invalid_time a"
  by (simp_all add: CheckValid_def SetValid_def)

lemma CheckValid_wf [invar_intros]: "acl_wf a \<Longrightarrow> acl_wf (CheckValid off now a)"
  by (auto simp: acl_wf_def CheckValid_def SetValid_def)

lemma CheckValid_effect:
  "acl_wf a \<Longrightarrow> take_effect (CheckValid off now a) \<noteq> 0 \<longleftrightarrow> permits off now (valid_time a) (invalid_time a)"
  by (auto simp: acl_wf_def CheckValid_def SetValid_def permits_def split: option.splits)

lemma CheckValid_idem [simp]: "CheckValid off now (CheckValid off now a) = CheckValid off now a"
  by (auto simp: CheckValid_def SetValid_def)

lemma checkAll_lookup:
  "checkAll off now ps h p = (if p \<in> set ps then map_option (CheckValid off now) (h p) else h p)"
proof (induction ps arbitrary: h)
  case (Cons q ps)
  show ?case by (cases "h q") (auto simp: Cons.IH option.map_comp o_def)
qed simp

lemma addNetworks_covers:
  assumes "netradix_laws covers N" "addNetworks N ips t = Inr t'"
  shows "nr_SearchBest N t' a = None \<longleftrightarrow> nr_SearchBest N t a = None \<and> (\<forall>net\<in>set ips. \<not> covers net a)"
  using assms(2)
proof (induction ips arbitrary: t)
  case (Cons net ips)
  then obtain t1 where "nr_Add N t net () = Inr t1" "addNetworks N ips t1 = Inr t'"
    by (auto split: sum.splits)
  with Cons.IH show ?case using netradix_Add [OF assms(1)] by simp
qed simp

section \<open>The manager refines a map of specifications\<close>

record acl_spec =
  sp_nets :: "string list"
  sp_valid :: "Schedule option"
  sp_invalid :: "Schedule option"

definition acl_rep ::
  "('t, unit) netradix \<Rightarrow> (string \<Rightarrow> ip \<Rightarrow> bool) \<Rightarrow> 't Acl \<Rightarrow> acl_spec \<Rightarrow> bool" where
  "acl_rep N covers a sp \<longleftrightarrow> acl_wf a \<and> valid_time a = sp_valid sp \<and> invalid_time a = sp_invalid sp \<and>
     (\<forall>addr. nr_SearchBest N (tree a) addr \<noteq> None \<longleftrightarrow> (\<exists>net\<in>set (sp_nets sp). covers net addr))"

definition conf_schedule :: "int \<Rightarrow> instant \<Rightarrow> TimeRangeConf list \<Rightarrow> Schedule option" where
  "conf_schedule off now ivs = (case optSchedule off now ivs of Inl e \<Rightarrow> None | Inr s \<Rightarrow> s)"

lemma NewAcl_rep:
  assumes "netradix_laws covers N" "NewAcl N off now ips vs is = Inr a"
  shows "acl_rep N covers a
    \<lparr>sp_nets = ips, sp_valid = conf_schedule off now vs, sp_invalid = conf_schedule off now is\<rparr>"
proof -
  from assms(2) obtain t v i where t: "addNetworks N ips (NewNetRadixTree N) = Inr t"
    and s: "optSchedule off now vs = Inr v" "optSchedule off now is = Inr i"
    and a: "a = CheckValid off now \<lparr>tree = t, take_effect = 1, valid_time = v, invalid_time = i\<rparr>"
    by (auto simp: NewAcl_def bindE_Inr_iff)
  have "acl_wf \<lparr>tree = t, take_effect = 1, valid_time = v, invalid_time = i\<rparr>" by (simp add: acl_wf_def)
  then show ?thesis
    using addNetworks_covers [OF assms(1) t] netradix_New [OF assms(1)] s
    by (simp add: acl_rep_def a CheckValid_wf conf_schedule_def)
qed

lemma acl_rep_CheckValid [invar_intros]:
  "acl_rep N covers a sp \<Longrightarrow> acl_rep N covers (CheckValid off now a) sp"
  by (auto simp: acl_rep_def CheckValid_wf)

lemma acl_rep_Include:
  assumes "acl_rep N covers a sp"
  shows "acl_Include N (CheckValid off now a) addr \<longleftrightarrow>
    (\<exists>net\<in>set (sp_nets sp). covers net addr) \<and> permits off now (sp_valid sp) (sp_invalid sp)"
proof -
  have "take_effect (CheckValid off now a) \<noteq> 0 \<longleftrightarrow> permits off now (sp_valid sp) (sp_invalid sp)"
    using assms CheckValid_effect [of a off now] by (simp add: acl_rep_def)
  then show ?thesis using assms by (auto simp: acl_Include_def acl_rep_def)
qed

text \<open>Every named list is scheduled and allocated, and no two names share a list.\<close>

definition mgr_wf :: "'t AclManager \<Rightarrow> bool" where
  "mgr_wf m \<longleftrightarrow> ran (acls m) \<subseteq> set (sched_acls m) \<and> set (sched_acls m) \<subseteq> dom (heap m) \<and>
     dom (heap m) \<subseteq> {..<next_acl m} \<and> inj_on (acls m) (dom (acls m))"

definition mgr_rep ::
  "('t, unit) netradix \<Rightarrow> (string \<Rightarrow> ip \<Rightarrow> bool) \<Rightarrow> 't AclManager \<Rightarrow> (string \<rightharpoonup> acl_spec) \<Rightarrow> bool" where
  "mgr_rep N covers m A \<longleftrightarrow> mgr_wf m \<and>
     (\<forall>n. rel_option (\<lambda>p sp. \<exists>a. heap m p = Some a \<and> acl_rep N covers a sp) (acls m n) (A n))"

text \<open>A new list under a name, the step that loading, adding and updating share.\<close>

definition install :: "int \<Rightarrow> string \<Rightarrow> 't Acl \<Rightarrow> 't AclManager \<Rightarrow> 't AclManager" where
  "install off n a m =
     (let (p, m') = allocAcl a m in sched_step off (AddAclChan p) (m'\<lparr>acls := (acls m')(n \<mapsto> p)\<rparr>))"

lemma install_fields [simp]:
  "acls (install off n a m) = (acls m)(n \<mapsto> next_acl m)"
  "sched_acls (install off n a m) = sched_acls m @ [next_acl m]"
  "heap (install off n a m) = (heap m)(next_acl m \<mapsto> a)"
  "next_acl (install off n a m) = Suc (next_acl m)"
  by (simp_all add: install_def allocAcl_def)

lemma install_wf [invar_intros]: "mgr_wf m \<Longrightarrow> mgr_wf (install off n a m)"
proof -
  assume wf: "mgr_wf m"
  then have fresh: "next_acl m \<notin> ran (acls m)" by (auto simp: mgr_wf_def)
  have "inj_on ((acls m)(n \<mapsto> next_acl m)) (dom ((acls m)(n \<mapsto> next_acl m)))"
  proof (rule inj_onI)
    fix x y
    assume *: "x \<in> dom ((acls m)(n \<mapsto> next_acl m))" "y \<in> dom ((acls m)(n \<mapsto> next_acl m))"
      "((acls m)(n \<mapsto> next_acl m)) x = ((acls m)(n \<mapsto> next_acl m)) y"
    then show "x = y" using wf fresh
      by (auto simp: mgr_wf_def ran_def inj_on_def split: if_splits)
  qed
  with wf show ?thesis by (auto simp: mgr_wf_def ran_def split: if_splits)
qed

lemma install_rep [invar_intros]:
  assumes rep: "mgr_rep N covers m A" and a: "acl_rep N covers a sp"
  shows "mgr_rep N covers (install off n a m) (A(n \<mapsto> sp))"
proof -
  have wf: "mgr_wf m" using rep by (simp add: mgr_rep_def)
  have fresh: "acls m k \<noteq> Some (next_acl m)" for k
    using wf by (auto simp: mgr_wf_def ran_def)
  have "rel_option (\<lambda>p sp. \<exists>a'. ((heap m)(next_acl m \<mapsto> a)) p = Some a' \<and> acl_rep N covers a' sp)
          (acls m k) (A k)" for k
    using rep fresh [of k]
    by (auto simp: mgr_rep_def option.rel_sel elim!: allE [of _ k])
  then show ?thesis using install_wf [OF wf] a by (simp add: mgr_rep_def)
qed

lemma acl_add_install:
  "acl_add N off now m n ips =
     (case NewAcl N off now ips [] [] of
        Inl err \<Rightarrow> (m, Some (AddDetail ErrInvalidNetwork err))
      | Inr a \<Rightarrow> (install off n a m, None))"
  by (simp add: acl_add_def install_def split: sum.splits prod.splits)

lemma loadAcls_Cons_install:
  "loadAcls N off now (c # cs) m =
     (case NewAcl N off now (ac_IPs c) (ac_ValidInterval c) (ac_InvalidInterval c) of
        Inl err \<Rightarrow> None
      | Inr a \<Rightarrow> loadAcls N off now cs (install off (ac_Name c) a m))"
  by (simp add: install_def split: sum.splits prod.splits)

lemma remove_wf [invar_intros]:
  assumes "mgr_wf m"
  shows "mgr_wf (fst (acl_remove off m n))"
proof (cases "acls m n")
  case (Some p)
  have other: "q \<noteq> p" if "((acls m)(n := None)) k = Some q" for k q
    using that assms Some by (auto simp: mgr_wf_def inj_on_def dom_def split: if_splits)
  have "ran ((acls m)(n := None)) \<subseteq> set (remove1 p (sched_acls m))"
  proof
    fix q
    assume "q \<in> ran ((acls m)(n := None))"
    then obtain k where k: "((acls m)(n := None)) k = Some q" by (auto simp: ran_def)
    then have "q \<in> set (sched_acls m)" using assms by (auto simp: mgr_wf_def ran_def split: if_splits)
    with other [OF k] show "q \<in> set (remove1 p (sched_acls m))" by simp
  qed
  moreover have "set (remove1 p (sched_acls m)) \<subseteq> set (sched_acls m)" by (rule set_remove1_subset)
  moreover have "inj_on ((acls m)(n := None)) (dom ((acls m)(n := None)))"
    using assms by (auto simp: mgr_wf_def inj_on_def dom_def split: if_splits)
  ultimately show ?thesis using assms Some by (auto simp: acl_remove_def mgr_wf_def)
qed (simp add: acl_remove_def assms)

lemma remove_rep [invar_intros]:
  assumes "mgr_rep N covers m A"
  shows "mgr_rep N covers (fst (acl_remove off m n)) (A(n := None))"
proof -
  have "mgr_wf (fst (acl_remove off m n))" using assms by (auto simp: mgr_rep_def intro: remove_wf)
  then show ?thesis using assms
    by (auto simp: mgr_rep_def acl_remove_def option.rel_sel split: option.splits)
qed

lemma remove_err: "snd (acl_remove off m n) = (if acls m n = None then Some ErrNonExistAcl else None)"
  by (simp add: acl_remove_def split: option.splits)

lemma timer_wf [invar_intros]: "mgr_wf m \<Longrightarrow> mgr_wf (sched_step off (Timer now) m)"
  by (auto simp: mgr_wf_def checkAll_lookup dom_def split: if_splits)

lemma timer_rep [invar_intros]:
  assumes "mgr_rep N covers m A"
  shows "mgr_rep N covers (sched_step off (Timer now) m) A"
proof -
  have "rel_option (\<lambda>p sp. \<exists>a. checkAll off now (sched_acls m) (heap m) p = Some a \<and> acl_rep N covers a sp)
          (acls m n) (A n)" for n
    using assms by (auto simp: mgr_rep_def option.rel_sel checkAll_lookup acl_rep_CheckValid
        elim!: allE [of _ n])
  then show ?thesis using assms by (simp add: mgr_rep_def timer_wf del: sched_step.simps) simp
qed

section \<open>Commands keep the invariant and follow their specification\<close>

definition cmd_spec :: "acl_cmd \<Rightarrow> cmd_error option \<Rightarrow> (string \<rightharpoonup> acl_spec) \<Rightarrow> (string \<rightharpoonup> acl_spec)" where
  "cmd_spec c err A =
     (case c of
        AddAcl n nets \<Rightarrow>
          if err = None then A(n \<mapsto> \<lparr>sp_nets = nets, sp_valid = None, sp_invalid = None\<rparr>) else A
      | DeleteAcl n \<Rightarrow> if err = None then A(n := None) else A
      | UpdateAcl n nets \<Rightarrow>
          if err = None then A(n \<mapsto> \<lparr>sp_nets = nets, sp_valid = None, sp_invalid = None\<rparr>)
          else if err \<in> {Some ErrAnyNonAcl, Some ErrNonExistAcl} then A
          else A(n := None)
      | _ \<Rightarrow> A)"

lemma acl_add_wf [invar_intros]: "mgr_wf m \<Longrightarrow> mgr_wf (fst (acl_add N off now m n ips))"
  by (simp add: acl_add_install install_wf split: sum.splits)

lemma conf_schedule_Nil [simp]: "conf_schedule off now [] = None"
  by (simp add: conf_schedule_def optSchedule_def)

lemma acl_add_rep:
  assumes "netradix_laws covers N" "mgr_rep N covers m A" "acl_add N off now m n ips = (m', err)"
  shows "mgr_rep N covers m' (if err = None then A(n \<mapsto> \<lparr>sp_nets = ips, sp_valid = None, sp_invalid = None\<rparr>) else A)"
  using assms(2,3) NewAcl_rep [OF assms(1), of off now ips "[]" "[]"]
  by (auto simp: acl_add_install install_rep split: sum.splits)

lemma acl_add_err: "acl_add N off now m n ips = (m', Some e) \<Longrightarrow> Code e = Code ErrInvalidNetwork"
  by (auto simp: acl_add_install AddDetail_def NewError_def split: sum.splits)

lemma acl_HandleCmd_wf: "mgr_wf m \<Longrightarrow> acl_HandleCmd N SI off now m c = (m', out) \<Longrightarrow> mgr_wf m'"
proof (cases c)
  case (AddAcl n nets)
  assume "mgr_wf m" "acl_HandleCmd N SI off now m c = (m', out)"
  then show ?thesis using acl_add_wf [of m N off now n nets]
    by (auto simp: AddAcl acl_addAcl_def split: option.splits if_splits prod.splits)
next
  case (DeleteAcl n)
  assume "mgr_wf m" "acl_HandleCmd N SI off now m c = (m', out)"
  then show ?thesis using remove_wf [of m off n]
    by (auto simp: DeleteAcl acl_deleteAcl_def split: if_splits prod.splits)
next
  case (UpdateAcl n nets)
  assume m: "mgr_wf m" "acl_HandleCmd N SI off now m c = (m', out)"
  obtain m1 e where r: "acl_remove off m n = (m1, e)" by fastforce
  then have "mgr_wf m1" using remove_wf [OF m(1), of off n] by simp
  then show ?thesis using m r acl_add_wf [of m1 N off now n nets]
    by (auto simp: UpdateAcl acl_updateAcl_def acl_update_def split: if_splits prod.splits option.splits)
qed auto

interpretation acl_cmds: command_handler "acl_HandleCmd N SI off now" mgr_wf for N SI off now
  by unfold_locales (rule acl_HandleCmd_wf)

lemma acl_update_rep:
  assumes "netradix_laws covers N" "mgr_rep N covers m A" "acl_update N off now m n nets = (m', err)"
  shows "mgr_rep N covers m'
    (if err = None then A(n \<mapsto> \<lparr>sp_nets = nets, sp_valid = None, sp_invalid = None\<rparr>)
     else if err = Some ErrNonExistAcl then A else A(n := None))"
proof -
  obtain m1 e where r: "acl_remove off m n = (m1, e)" by fastforce
  show ?thesis
  proof (cases e)
    case None
    have u: "acl_add N off now m1 n nets = (m', err)" using assms(3) r None by (simp add: acl_update_def)
    have m1: "mgr_rep N covers m1 (A(n := None))" using remove_rep [OF assms(2), of off n] r by simp
    have "err \<noteq> Some ErrNonExistAcl"
      using acl_add_err [of N off now m1 n nets m' ErrNonExistAcl] u
      by (auto simp: ErrNonExistAcl_def ErrInvalidNetwork_def NewError_def err_code_starts)
    then show ?thesis using acl_add_rep [OF assms(1) m1 u] by (auto split: if_splits)
  next
    case (Some x)
    then have "acls m n = None" "x = ErrNonExistAcl"
      using remove_err [of off m n] r by (auto split: if_splits)
    then show ?thesis using Some assms(2,3) r by (auto simp: acl_update_def acl_remove_def)
  qed
qed

lemma acl_HandleCmd_rep:
  assumes N: "netradix_laws covers N" and m: "mgr_rep N covers m A"
    and h: "acl_HandleCmd N SI off now m c = (m', Returns r err)"
  shows "mgr_rep N covers m' (cmd_spec c err A)"
proof (cases c)
  case (AddAcl n nets)
  then show ?thesis using m h acl_add_rep [OF N m, of off now n nets]
    by (auto simp: cmd_spec_def acl_addAcl_def split: option.splits if_splits prod.splits)
next
  case (DeleteAcl n)
  then show ?thesis using m h remove_rep [OF m, of off n] remove_err [of off m n]
    by (auto simp: cmd_spec_def acl_deleteAcl_def acl_remove_def split: option.splits if_splits prod.splits)
next
  case (UpdateAcl n nets)
  have "err \<noteq> Some ErrAnyNonAcl" if "acl_update N off now m n nets = (m', err)"
  proof -
    have ne: "ErrNonExistAcl \<noteq> ErrAnyNonAcl" "Code ErrAnyNonAcl \<noteq> Code ErrInvalidNetwork"
      by (simp_all add: ErrNonExistAcl_def ErrAnyNonAcl_def ErrInvalidNetwork_def NewError_def err_code_starts)
    show ?thesis using that ne
      by (auto simp: acl_update_def acl_remove_def dest!: acl_add_err split: option.splits prod.splits)
  qed
  then show ?thesis using UpdateAcl m h acl_update_rep [OF N m, of off now n nets]
    by (auto simp: cmd_spec_def acl_updateAcl_def split: if_splits prod.splits)
qed (use h in auto)

fun load_spec :: "int \<Rightarrow> instant \<Rightarrow> AclConf list \<Rightarrow> (string \<rightharpoonup> acl_spec) \<Rightarrow> (string \<rightharpoonup> acl_spec)" where
  "load_spec off now [] A = A"
| "load_spec off now (c # cs) A =
     load_spec off now cs (A(ac_Name c \<mapsto> \<lparr>sp_nets = ac_IPs c,
       sp_valid = conf_schedule off now (ac_ValidInterval c),
       sp_invalid = conf_schedule off now (ac_InvalidInterval c)\<rparr>))"

lemma loadAcls_rep:
  assumes "netradix_laws covers N"
  shows "mgr_rep N covers m A \<Longrightarrow> loadAcls N off now cs m = Some m' \<Longrightarrow> mgr_rep N covers m' (load_spec off now cs A)"
proof (induction cs arbitrary: m A)
  case (Cons c cs)
  then obtain a where a: "NewAcl N off now (ac_IPs c) (ac_ValidInterval c) (ac_InvalidInterval c) = Inr a"
    "loadAcls N off now cs (install off (ac_Name c) a m) = Some m'"
    by (auto simp: loadAcls_Cons_install simp del: loadAcls.simps split: sum.splits)
  show ?case
    using Cons.IH [OF install_rep [OF Cons.prems(1) NewAcl_rep [OF assms a(1)]] a(2)]
    by (simp only: load_spec.simps)
qed simp

section \<open>Runs of the manager\<close>

definition empty_manager :: "'t AclManager" where
  "empty_manager = \<lparr>acls = Map.empty, sched_acls = [], heap = Map.empty, next_acl = 0\<rparr>"

text \<open>
  A run loads a configuration and then executes commands, checks of the scheduler and reloads in any
  order; the second argument is the map of the lists that are configured.
\<close>

inductive acl_run ::
  "('t, unit) netradix \<Rightarrow> (string list \<Rightarrow> string \<Rightarrow> int) \<Rightarrow> int \<Rightarrow> 't AclManager \<Rightarrow> (string \<rightharpoonup> acl_spec) \<Rightarrow> bool"
  for N SI off where
  run_start: "acl_run N SI off empty_manager Map.empty"
| run_load: "acl_run N SI off m A \<Longrightarrow> acl_ReloadConfig N off now confs m = Some m' \<Longrightarrow>
    acl_run N SI off m' (load_spec off now confs Map.empty)"
| run_cmd: "acl_run N SI off m A \<Longrightarrow> acl_HandleCmd N SI off now m c = (m', Returns r err) \<Longrightarrow>
    acl_run N SI off m' (cmd_spec c err A)"
| run_timer: "acl_run N SI off m A \<Longrightarrow> acl_run N SI off (sched_step off (Timer now) m) A"

lemma empty_manager_rep: "mgr_rep N covers empty_manager Map.empty"
  by (simp add: mgr_rep_def mgr_wf_def empty_manager_def)

lemma acl_run_rep:
  assumes "netradix_laws covers N"
  shows "acl_run N SI off m A \<Longrightarrow> mgr_rep N covers m A"
proof (induction rule: acl_run.induct)
  case (run_load m A now confs m')
  have "mgr_rep N covers (m\<lparr>acls := Map.empty, sched_acls := []\<rparr>) Map.empty"
    using run_load.IH by (auto simp: mgr_rep_def mgr_wf_def)
  then show ?case using loadAcls_rep [OF assms] run_load.hyps by (auto simp: acl_ReloadConfig_def)
next
  case (run_cmd m A now c m' r err)
  then show ?case using acl_HandleCmd_rep [OF assms] by blast
qed (simp_all add: empty_manager_rep timer_rep del: sched_step.simps)

lemma Find_after_timer:
  assumes "mgr_rep N covers m A"
  shows "acl_Find N (sched_step off (Timer now) m) name addr \<longleftrightarrow>
    ToLower name = AnyAcl \<or> ToLower name \<noteq> NoneAcl \<and>
    (case A name of
       None \<Rightarrow> False
     | Some sp \<Rightarrow> (\<exists>net\<in>set (sp_nets sp). covers net addr) \<and> permits off now (sp_valid sp) (sp_invalid sp))"
proof -
  have rel: "rel_option (\<lambda>p sp. \<exists>a. heap m p = Some a \<and> acl_rep N covers a sp) (acls m name) (A name)"
    using assms by (simp add: mgr_rep_def)
  show ?thesis
  proof (cases "acls m name")
    case None
    with rel show ?thesis by (simp add: acl_Find_def Let_def AnyAcl_def NoneAcl_def)
  next
    case (Some p)
    with rel obtain sp a where sp: "A name = Some sp" "heap m p = Some a" "acl_rep N covers a sp"
      by (auto simp: option_rel_Some1)
    have "p \<in> set (sched_acls m)" using assms Some by (auto simp: mgr_rep_def mgr_wf_def ran_def)
    then show ?thesis using Some sp acl_rep_Include [OF sp(3)]
      by (simp add: acl_Find_def Let_def checkAll_lookup AnyAcl_def NoneAcl_def)
  qed
qed

section \<open>Properties\<close>

text \<open>
  C2. After any run of loads, commands and checks, once the scheduler has checked the lists at an
  instant, \<open>Find\<close> accepts an address under a name exactly when the name is ``any'', or it is not
  ``none'' and the list configured under it has a network that contains the address and its valid and
  invalid intervals permit that instant.
\<close>

theorem acl_Find_correct:
  assumes "netradix_laws covers N" "acl_run N SI off m A"
  shows "acl_Find N (sched_step off (Timer now) m) name addr \<longleftrightarrow>
    ToLower name = AnyAcl \<or> ToLower name \<noteq> NoneAcl \<and>
    (case A name of
       None \<Rightarrow> False
     | Some sp \<Rightarrow> (\<exists>net\<in>set (sp_nets sp). covers net addr) \<and> permits off now (sp_valid sp) (sp_invalid sp))"
  using Find_after_timer [OF acl_run_rep [OF assms]] .

text \<open>A list added by a command accepts an address of its network and no other.\<close>

theorem acl_Find_correct_witness:
  "\<exists>m. fst (acl_HandleCmd list_netradix list_SliceIndex 0 0 empty_manager (AddAcl ''office'' [''AB''])) = m \<and>
       acl_Find list_netradix (sched_step 0 (Timer 7) m) ''office'' [65, 66, 1, 1] \<and>
       \<not> acl_Find list_netradix (sched_step 0 (Timer 7) m) ''office'' [65, 67, 1, 1]"
proof -
  let ?c = "AddAcl ''office'' [''AB'']"
  obtain m out where h: "acl_HandleCmd list_netradix list_SliceIndex 0 0 empty_manager ?c = (m, out)"
    by fastforce
  have "snd (acl_HandleCmd list_netradix list_SliceIndex 0 0 (empty_manager :: (string \<times> unit) list AclManager) ?c)
    = Returns None None"
    by code_simp
  then have h': "acl_HandleCmd list_netradix list_SliceIndex 0 0 empty_manager ?c = (m, Returns None None)"
    using h by simp
  note run = run_cmd [OF run_start h']
  note Find = acl_Find_correct [OF list_netradix_laws run, of 7 "''office''"]
  have "byte_covers ''AB'' [65, 66, 1, 1]" "\<not> byte_covers ''AB'' [65, 67, 1, 1]"
    by code_simp+
  moreover have "ToLower ''office'' = ''office''" by code_simp
  ultimately show ?thesis using h'
    by (simp add: Find cmd_spec_def AnyAcl_def NoneAcl_def permits_def del: acl_HandleCmd.simps sched_step.simps)
qed

text \<open>
  C12. The commands that change access control lists keep every named list scheduled, allocated and
  unshared, over every sequence of tasks of the command service.
\<close>

theorem acl_tasks_keep_scheduled:
  assumes "mgr_wf m" "\<And>c h. getHandler sn d c = Some h \<Longrightarrow> h = acl_HandleCmd N SI off now"
  shows "mgr_wf (fold (\<lambda>t m. fst (HandleTask sn d m t)) ts m)"
  by (rule acl_cmds.tasks_inv [OF assms])

theorem acl_tasks_keep_scheduled_witness:
  "mgr_wf (fold (\<lambda>t m. fst (HandleTask (\<lambda>_. ''acl'')
       (RegisterHandler (\<lambda>_. ''acl'') (acl_HandleCmd list_netradix list_SliceIndex 0 0) [GetAcls] newCmdDispatcher) m t))
     [[AddAcl ''a'' [''AB'']], [UpdateAcl ''a'' [''AC'']], [DeleteAcl ''a'']]
     (empty_manager :: (string \<times> unit) list AclManager))"
  by (rule acl_tasks_keep_scheduled [of _ _ _ list_netradix list_SliceIndex 0 0])
     (simp_all add: mgr_wf_def empty_manager_def)

text \<open>
  An update whose networks are rejected is not atomic: the command reports the error of the bad
  network and the list it should have changed is gone.
\<close>

theorem acl_failed_update_deletes:
  assumes "acls m name \<noteq> None" "NewAcl N off now nets [] [] = Inl err"
  shows "acl_update N off now m name nets =
      (fst (acl_remove off m name), Some (AddDetail ErrInvalidNetwork err)) \<and>
    \<not> hasAcl (fst (acl_update N off now m name nets)) name"
  using assms by (auto simp: acl_update_def acl_remove_def acl_add_install hasAcl_def)

theorem acl_failed_update_deletes_witness:
  "\<not> hasAcl (fst (acl_update list_netradix 0 0
       (fst (acl_add list_netradix 0 0 empty_manager ''office'' [''AB''])) ''office'' [''x''])) ''office''"
proof -
  let ?m = "fst (acl_add list_netradix 0 0 (empty_manager :: (string \<times> unit) list AclManager) ''office'' [''AB''])"
  have m: "acls ?m ''office'' \<noteq> None" by code_simp
  have "NewAcl list_netradix 0 0 [''x''] [] [] = Inl ''address x isn't valid: bad network''" by code_simp
  from acl_failed_update_deletes [OF m this] show ?thesis by (rule conjunct2)
qed

end
