(* ===== verification/View_Selector.thy ===== *)
theory View_Selector
  imports Core Acl
begin

text \<open>
  The choice of a view for a query, \<open>viewselector/\<close>: by the client's address
  (\<open>addrbasedview.go\<close>), by the key that signed the query (\<open>tsigbasedview.go\<close>), by weights
  (\<open>prioritybaseview.go\<close>) and by the zone (\<open>zonebaseview.go\<close>), the manager that asks the selectors in
  turn and numbers the views (\<open>viewselector.go\<close>), and the commands (\<open>cmdhandler.go\<close>). The locale
  \<open>view_selector\<close> is the interface of a selector. The lemmas show that the view selected is numbered,
  that different views have different numbers, what an order of the views means for the choice, and
  that weights are shares.
\<close>

section \<open>Errors and configuration\<close>

definition ErrModifyInnerView :: cmd_error where
  "ErrModifyInnerView = NewError (ViewSelectorErrCodeStart + 2) ''update inner view''"

definition vs_DefaultView :: view where "vs_DefaultView = ''default''"
definition AnyView :: view where "AnyView = ''any''"

record ViewAclConf =
  vac_View :: view
  vac_Acls :: "string list"
  vac_KeyName :: string
  vac_KeySecret :: string
  vac_KeyAlgorithm :: string

section \<open>By address\<close>

record ViewAcls =
  va_name :: view
  va_acls :: "string list"
  va_priority :: int

type_synonym AddrBasedView = "ViewAcls list"

definition addr_ReloadConfig :: "ViewAclConf list \<Rightarrow> AddrBasedView" where
  "addr_ReloadConfig confs =
     map (\<lambda>p. \<lparr>va_name = vac_View (snd p), va_acls = vac_Acls (snd p), va_priority = int (fst p)\<rparr>) (enumerate 0 confs)"

text \<open>\<open>Find\<close> is the search of the access control manager, \<open>acl_Find\<close>.\<close>

fun addr_loop :: "(string \<Rightarrow> ip \<Rightarrow> bool) \<Rightarrow> ip \<Rightarrow> ViewAcls list \<Rightarrow> view \<times> bool" where
  "addr_loop Find clientIP [] = ([], False)"
| "addr_loop Find clientIP (viewAcl # rest) =
     (if \<exists>aclName\<in>set (va_acls viewAcl). Find aclName clientIP then (va_name viewAcl, True)
      else addr_loop Find clientIP rest)"

definition addr_ViewForQuery ::
  "(string \<Rightarrow> ip \<Rightarrow> bool) \<Rightarrow> AddrBasedView \<Rightarrow> 'n Client \<Rightarrow> ('n Client \<times> view \<times> bool) may_panic" where
  "addr_ViewForQuery Find v client =
     map_option (\<lambda>clientIP. (client, addr_loop Find clientIP v)) (client_IP client)"

definition addr_GetViews :: "AddrBasedView \<Rightarrow> view list" where
  "addr_GetViews v = map va_name v"

section \<open>By signature\<close>

text \<open>What the selector uses of the signatures of \<open>g53\<close>.\<close>

record 'n tsig_lib =
  f_Name_StringTrim :: "'n \<Rightarrow> string"
  f_VerifyTsig :: "'n TSIG \<Rightarrow> 'n Message \<Rightarrow> string \<Rightarrow> bool"
  f_NewTSIG :: "string \<Rightarrow> string \<Rightarrow> string \<Rightarrow> 'n TSIG option"
  f_SetTSIG :: "'n TSIG \<Rightarrow> 'n Message \<Rightarrow> 'n Message"

definition R_BADSIG_code :: u16 where "R_BADSIG_code = 16"
definition R_BADKEY_code :: u16 where "R_BADKEY_code = 17"

record TSIGKey =
  tk_View :: view
  tk_Name :: string
  tk_Secret :: string
  tk_Algorithm :: string

text \<open>The map of the keys as a list, in the order in which the runtime iterates over it.\<close>

type_synonym TSIGKeyBasedView = "TSIGKey list"

definition key_lookup :: "TSIGKeyBasedView \<Rightarrow> string \<Rightarrow> TSIGKey option" where
  "key_lookup keys name = find (\<lambda>k. tk_Name k = name) keys"

text \<open>\<open>None\<close>: two views have a key of the same name.\<close>

fun tsig_keys :: "ViewAclConf list \<Rightarrow> TSIGKey list \<Rightarrow> TSIGKey list may_panic" where
  "tsig_keys [] keys = Some keys"
| "tsig_keys (c # cs) keys =
     (if vac_KeyName c = [] then tsig_keys cs keys
      else if key_lookup keys (vac_KeyName c) \<noteq> None then None
      else tsig_keys cs (keys @ [\<lparr>tk_View = vac_View c, tk_Name = vac_KeyName c, tk_Secret = vac_KeySecret c,
                                  tk_Algorithm = vac_KeyAlgorithm c\<rparr>]))"

definition tsig_ReloadConfig ::
  "(TSIGKey list \<Rightarrow> TSIGKey list) \<Rightarrow> ViewAclConf list \<Rightarrow> TSIGKeyBasedView may_panic" where
  "tsig_ReloadConfig iter confs = map_option iter (tsig_keys confs [])"

definition tsig_error :: "u16 \<Rightarrow> 'n TSIG \<Rightarrow> 'n Message \<Rightarrow> 'n Message" where
  "tsig_error code tsigCopy r = r\<lparr>m_Tsig := Some (tsigCopy\<lparr>ts_Error := code\<rparr>)\<rparr>"

definition tsig_ViewForQuery ::
  "'n g53 \<Rightarrow> 'n tsig_lib \<Rightarrow> TSIGKeyBasedView \<Rightarrow> 'n Client \<Rightarrow> ('n Client \<times> view \<times> bool) may_panic" where
  "tsig_ViewForQuery G T keys client =
     (let req = c_Request client in
      case m_Tsig req of
        None \<Rightarrow> Some (client, [], False)
      | Some tsig \<Rightarrow>
          (let keyName = f_Name_StringTrim T (ts_Name tsig);
               tsigCopy = tsig\<lparr>ts_MAC := []\<rparr>;
               response = (case c_Response client of None \<Rightarrow> Message_MakeResponse G req | Some r \<Rightarrow> r);
               signed = response\<lparr>m_Tsig := Some tsigCopy\<rparr>;
               refuse = (\<lambda>code. Some (client\<lparr>c_Response := Some (tsig_error code tsigCopy response)\<rparr>, [], True))
           in case key_lookup keys keyName of
                None \<Rightarrow> refuse R_BADKEY_code
              | Some key \<Rightarrow>
                  if tk_Algorithm key \<noteq> ts_Algorithm tsig then refuse R_BADKEY_code
                  else if \<not> f_VerifyTsig T tsig req (tk_Secret key) then refuse R_BADSIG_code
                  else (case f_NewTSIG T (tk_Name key) (tk_Secret key) (tk_Algorithm key) of
                          None \<Rightarrow> None
                        | Some newTSIG \<Rightarrow>
                            Some (client\<lparr>c_Response := Some (f_SetTSIG T (newTSIG\<lparr>ts_MAC := ts_MAC tsig\<rparr>) signed)\<rparr>,
                                  tk_View key, True))))"

definition KeyForView :: "TSIGKeyBasedView \<Rightarrow> view \<Rightarrow> TSIGKey option" where
  "KeyForView keys v = find (\<lambda>k. tk_View k = v) keys"

definition tsig_GetViews :: "TSIGKeyBasedView \<Rightarrow> view list" where
  "tsig_GetViews keys = map tk_View keys"

section \<open>By weight\<close>

record PriorityBaseView =
  pv_priorityBaseViews :: "(view \<times> int) list"
  pv_views :: "view list"
  pv_viewMarks :: "int list"

text \<open>The list of the weights is in the order in which the runtime iterates over the map.\<close>

fun marks_loop :: "int \<Rightarrow> (view \<times> int) list \<Rightarrow> int list" where
  "marks_loop mark [] = []"
| "marks_loop mark (vp # rest) = (mark + snd vp) # marks_loop (mark + snd vp) rest"

definition calculateViewMarks :: "PriorityBaseView \<Rightarrow> PriorityBaseView" where
  "calculateViewMarks pbv =
     pbv\<lparr>pv_views := map fst (pv_priorityBaseViews pbv), pv_viewMarks := marks_loop 0 (pv_priorityBaseViews pbv)\<rparr>"

text \<open>\<open>Intn\<close> panics for a bound that is not positive; \<open>rnd\<close> is the number it returns otherwise.\<close>

definition priority_ViewForQuery :: "(int \<Rightarrow> int) \<Rightarrow> PriorityBaseView \<Rightarrow> (view \<times> bool) may_panic" where
  "priority_ViewForQuery rnd pbv =
     (let viewCount = length (pv_views pbv); marks = pv_viewMarks pbv in
      if viewCount > 0 then
        (if marks ! (viewCount - 1) \<le> 0 then None
         else let index = rnd (marks ! (viewCount - 1)) + 1;
                  viewPos = sort_Search viewCount (\<lambda>i. marks ! i \<ge> index)
              in if viewPos < viewCount then Some (pv_views pbv ! viewPos, True) else None)
      else Some ([], False))"

section \<open>By zone\<close>

record 't ZoneBaseView =
  zv_zoneBaseView :: 't
  zv_views :: "view list"

definition zone_reload :: "('t, 'n, view) domaintree \<Rightarrow> 't ZoneBaseView" where
  "zone_reload D = \<lparr>zv_zoneBaseView = NewDomainTree D, zv_views = []\<rparr>"

definition zone_ViewForQuery ::
  "('t, 'n, view) domaintree \<Rightarrow> 't ZoneBaseView \<Rightarrow> 'n Client \<Rightarrow> (view \<times> bool) may_panic" where
  "zone_ViewForQuery D zbv client =
     (case m_Question (c_Request client) of
        None \<Rightarrow> None
      | Some q \<Rightarrow>
          (case fst (dt_Search D (zv_zoneBaseView zbv) (q_Name q)) of
             Some v \<Rightarrow> Some (v, True)
           | None \<Rightarrow> Some ([], False)))"

section \<open>The manager\<close>

datatype selector = SelAddr AddrBasedView | SelTsig TSIGKeyBasedView

fun ViewForQuery ::
  "'n g53 \<Rightarrow> 'n tsig_lib \<Rightarrow> (string \<Rightarrow> ip \<Rightarrow> bool) \<Rightarrow> selector \<Rightarrow> 'n Client \<Rightarrow> ('n Client \<times> view \<times> bool) may_panic" where
  "ViewForQuery G T Find (SelAddr v) client = addr_ViewForQuery Find v client"
| "ViewForQuery G T Find (SelTsig v) client = tsig_ViewForQuery G T v client"

fun GetViews :: "selector \<Rightarrow> view list" where
  "GetViews (SelAddr v) = addr_GetViews v"
| "GetViews (SelTsig v) = tsig_GetViews v"

text \<open>\<open>viewAndIds\<close> is a variable of the package.\<close>

record SelectorMgr =
  selectors :: "selector list"
  viewAndIds :: "view \<rightharpoonup> u16"

definition allocateId :: "view \<Rightarrow> (view \<rightharpoonup> u16) \<times> u16 \<Rightarrow> (view \<rightharpoonup> u16) \<times> u16" where
  "allocateId v st = (if fst st v = None then ((fst st)(v \<mapsto> snd st), snd st + 1) else st)"

definition allocateIdForView :: "SelectorMgr \<Rightarrow> SelectorMgr" where
  "allocateIdForView mgr =
     mgr\<lparr>viewAndIds := fst (fold (\<lambda>s. fold allocateId (GetViews s)) (selectors mgr) ([vs_DefaultView \<mapsto> 0], 1))\<rparr>"

fun selector_ReloadConfig ::
  "(TSIGKey list \<Rightarrow> TSIGKey list) \<Rightarrow> ViewAclConf list \<Rightarrow> selector \<Rightarrow> selector may_panic" where
  "selector_ReloadConfig iter confs (SelAddr v) = Some (SelAddr (addr_ReloadConfig confs))"
| "selector_ReloadConfig iter confs (SelTsig v) = map_option SelTsig (tsig_ReloadConfig iter confs)"

definition mgr_ReloadConfig ::
  "(TSIGKey list \<Rightarrow> TSIGKey list) \<Rightarrow> ViewAclConf list \<Rightarrow> SelectorMgr \<Rightarrow> SelectorMgr may_panic" where
  "mgr_ReloadConfig iter confs mgr =
     map_option (\<lambda>ss. allocateIdForView (mgr\<lparr>selectors := ss\<rparr>)) (mapM (selector_ReloadConfig iter confs) (selectors mgr))"

definition NewSelectorMgr ::
  "(TSIGKey list \<Rightarrow> TSIGKey list) \<Rightarrow> ViewAclConf list \<Rightarrow> SelectorMgr may_panic" where
  "NewSelectorMgr iter confs =
     mgr_ReloadConfig iter confs \<lparr>selectors = [SelAddr [], SelTsig []], viewAndIds = Map.empty\<rparr>"

text \<open>The loop of \<open>SelectView\<close>, over any selectors.\<close>

fun select_loop ::
  "('s \<Rightarrow> 'n Client \<Rightarrow> ('n Client \<times> view \<times> bool) may_panic) \<Rightarrow> 's list \<Rightarrow> 'n Client \<Rightarrow> ('n Client \<times> view) may_panic" where
  "select_loop vfq [] client = Some (client, [])"
| "select_loop vfq (s # ss) client =
     (case vfq s client of
        None \<Rightarrow> None
      | Some (client', v, found) \<Rightarrow> if found then Some (client', v) else select_loop vfq ss client')"

definition SelectView ::
  "'n g53 \<Rightarrow> 'n tsig_lib \<Rightarrow> (string \<Rightarrow> ip \<Rightarrow> bool) \<Rightarrow> SelectorMgr \<Rightarrow> 'n Client \<Rightarrow> ('n Client \<times> bool) may_panic" where
  "SelectView G T Find mgr client =
     (case select_loop (ViewForQuery G T Find) (selectors mgr) client of
        None \<Rightarrow> None
      | Some (client', v) \<Rightarrow>
          if v \<noteq> [] then
            Some (client'\<lparr>c_View := v, c_ViewId := (case viewAndIds mgr v of None \<Rightarrow> 0 | Some i \<Rightarrow> i)\<rparr>, True)
          else Some (client', False))"

definition mgr_HandleQuery ::
  "'n g53 \<Rightarrow> 'n tsig_lib \<Rightarrow> ('w \<Rightarrow> string \<Rightarrow> ip \<Rightarrow> bool) \<Rightarrow> ('w \<Rightarrow> SelectorMgr) \<Rightarrow> ('w, 'n) handler" where
  "mgr_HandleQuery G T Find get nxt w client =
     (case SelectView G T (Find w) (get w) client of
        None \<Rightarrow> None
      | Some (client', _) \<Rightarrow> PassToNext nxt w client')"

section \<open>Commands\<close>

datatype view_cmd = UpdateView view "string list" | UpdateViewPriority "view list"

fun view_cmd_String :: "view_cmd \<Rightarrow> string" where
  "view_cmd_String (UpdateView n new_acls) =
     ''name: update view and params {name:'' @ n @ '', acls:['' @ strings_Join new_acls '','' @ '']}''"
| "view_cmd_String (UpdateViewPriority orders) =
     ''name: update view priority and params: {orders:['' @ strings_Join orders '','' @ '']}''"

text \<open>The loop of \<open>updateView\<close>: the first view of that name.\<close>

fun set_acls :: "view \<Rightarrow> string list \<Rightarrow> AddrBasedView \<Rightarrow> AddrBasedView" where
  "set_acls name new_acls [] = []"
| "set_acls name new_acls (va # vas) = (if va_name va = name then va\<lparr>va_acls := new_acls\<rparr> # vas else va # set_acls name new_acls vas)"

definition updateView :: "view \<Rightarrow> string list \<Rightarrow> AddrBasedView \<Rightarrow> AddrBasedView \<times> cmd_error option" where
  "updateView name new_acls v =
     (if ToLower name = AnyView then (v, Some ErrModifyInnerView) else (set_acls (ToLower name) new_acls v, None))"

text \<open>
  The slice \<open>newViews\<close> is the selector's own array, so the priorities are written to the selector
  also when the loop ends with an error.
\<close>

fun set_priorities :: "(view \<rightharpoonup> int) \<Rightarrow> AddrBasedView \<Rightarrow> AddrBasedView \<times> cmd_error option" where
  "set_priorities ps [] = ([], None)"
| "set_priorities ps (va # vas) =
     (case ps (va_name va) of
        None \<Rightarrow> (va\<lparr>va_priority := 0\<rparr> # vas, Some (AddDetail ErrUnknownView (va_name va)))
      | Some p \<Rightarrow> (case set_priorities ps vas of (vas', e) \<Rightarrow> (va\<lparr>va_priority := p\<rparr> # vas', e)))"

definition view_priorities :: "view list \<Rightarrow> view \<rightharpoonup> int" where
  "view_priorities orders = fold (\<lambda>p m. m(snd p \<mapsto> int (fst p))) (enumerate 0 orders) Map.empty"

definition updateViewPriority ::
  "((ViewAcls \<Rightarrow> int) \<Rightarrow> ViewAcls list \<Rightarrow> ViewAcls list) \<Rightarrow> view list \<Rightarrow> AddrBasedView \<Rightarrow> AddrBasedView \<times> cmd_error option" where
  "updateViewPriority srt orders v =
     (case set_priorities (view_priorities orders) v of
        (newViews, Some err) \<Rightarrow> (newViews, Some err)
      | (newViews, None) \<Rightarrow> (srt va_priority newViews, None))"

fun view_HandleCmd ::
  "((ViewAcls \<Rightarrow> int) \<Rightarrow> ViewAcls list \<Rightarrow> ViewAcls list) \<Rightarrow> AddrBasedView \<Rightarrow> view_cmd \<Rightarrow> AddrBasedView \<times> unit cmd_outcome" where
  "view_HandleCmd srt v (UpdateView name new_acls) = (case updateView name new_acls v of (v', e) \<Rightarrow> (v', Returns None e))"
| "view_HandleCmd srt v (UpdateViewPriority orders) =
     (case updateViewPriority srt orders v of (v', e) \<Rightarrow> (v', Returns None e))"

section \<open>The interface of a selector\<close>

locale view_selector =
  fixes vfq :: "'s \<Rightarrow> 'n Client \<Rightarrow> ('n Client \<times> view \<times> bool) may_panic"
    and views :: "'s \<Rightarrow> view list"
  assumes known: "vfq s c = Some (c', v, True) \<Longrightarrow> v \<noteq> [] \<Longrightarrow> v \<in> set (views s)"
    and keeps: "vfq s c = Some (c', v, found) \<Longrightarrow> \<exists>r. c' = c\<lparr>c_Response := r\<rparr>"
begin

lemma select_known: "select_loop vfq ss c = Some (c', v) \<Longrightarrow> v \<noteq> [] \<Longrightarrow> \<exists>s\<in>set ss. v \<in> set (views s)"
proof (induction ss arbitrary: c)
  case (Cons s ss)
  then obtain c1 v1 f where s: "vfq s c = Some (c1, v1, f)" by (auto split: option.splits)
  then show ?case using Cons known [of s c c1 v1] by (cases f) auto
qed simp

lemma select_keeps: "select_loop vfq ss c = Some (c', v) \<Longrightarrow> \<exists>r. c' = c\<lparr>c_Response := r\<rparr>"
proof (induction ss arbitrary: c)
  case Nil
  then show ?case by (auto intro!: exI [of _ "c_Response c"])
next
  case (Cons s ss)
  then obtain c1 v1 f where s: "vfq s c = Some (c1, v1, f)" by (auto split: option.splits)
  from keeps [OF s] obtain r where r: "c1 = c\<lparr>c_Response := r\<rparr>" by blast
  then show ?case
  proof (cases f)
    case True
    then show ?thesis using Cons.prems s r by auto
  next
    case False
    then obtain r' where "c' = c1\<lparr>c_Response := r'\<rparr>" using Cons.IH [of c1] Cons.prems s by auto
    then show ?thesis using r by auto
  qed
qed

end

lemma addr_loop_known: "addr_loop Find a v = (n, True) \<Longrightarrow> n \<in> set (addr_GetViews v)"
  by (induction v) (auto simp: addr_GetViews_def split: if_splits)

lemma client_same_response: "\<exists>r. c = c\<lparr>c_Response := r\<rparr>" for c :: "'n Client"
  by (rule exI [of _ "c_Response c"]) simp

interpretation addr_selector: view_selector "addr_ViewForQuery Find" addr_GetViews for Find
  by unfold_locales (auto simp: addr_ViewForQuery_def client_same_response dest: addr_loop_known)

lemma key_lookup_in: "key_lookup keys n = Some k \<Longrightarrow> k \<in> set keys \<and> tk_Name k = n"
  by (auto simp: key_lookup_def find_Some_iff)

interpretation tsig_selector: view_selector "tsig_ViewForQuery G T" tsig_GetViews for G T
proof
  fix s and c c' :: "'a Client" and v
  assume "tsig_ViewForQuery G T s c = Some (c', v, True)" "v \<noteq> []"
  then show "v \<in> set (tsig_GetViews s)"
    by (auto simp: tsig_ViewForQuery_def tsig_GetViews_def Let_def dest!: key_lookup_in split: option.splits if_splits)
next
  fix s and c c' :: "'a Client" and v f
  assume "tsig_ViewForQuery G T s c = Some (c', v, f)"
  then show "\<exists>r. c' = c\<lparr>c_Response := r\<rparr>"
    by (auto simp: tsig_ViewForQuery_def Let_def client_same_response split: option.splits if_splits)
qed

interpretation mgr_selector: view_selector "ViewForQuery G T Find" GetViews for G T Find
proof
  fix s and c c' :: "'a Client" and v
  assume "ViewForQuery G T Find s c = Some (c', v, True)" "v \<noteq> []"
  then show "v \<in> set (GetViews s)"
    by (cases s) (simp_all add: addr_selector.known tsig_selector.known)
next
  fix s and c c' :: "'a Client" and v f
  assume "ViewForQuery G T Find s c = Some (c', v, f)"
  then show "\<exists>r. c' = c\<lparr>c_Response := r\<rparr>"
    by (cases s) (simp_all add: addr_selector.keeps tsig_selector.keeps)
qed

section \<open>Numbers of views\<close>

text \<open>The numbers given so far: the views numbered and the next number.\<close>

definition ids_ok :: "(view \<rightharpoonup> u16) \<times> u16 \<Rightarrow> bool" where
  "ids_ok st \<longleftrightarrow> finite (dom (fst st)) \<and> inj_on (fst st) (dom (fst st)) \<and>
     unat (snd st) = card (dom (fst st)) \<and> (\<forall>v i. fst st v = Some i \<longrightarrow> i < snd st)"

lemma allocateId_dom: "dom (fst (allocateId v st)) = insert v (dom (fst st))"
  by (auto simp: allocateId_def)

lemma allocateId_ok:
  assumes "ids_ok st" "card (insert v (dom (fst st))) < 2 ^ 16"
  shows "ids_ok (allocateId v st)"
proof (cases "fst st v")
  case None
  obtain m i where st: "st = (m, i)" by (cases st)
  have fin: "finite (dom m)" and u: "unat i = card (dom m)" using assms(1) st by (simp_all add: ids_ok_def)
  have "v \<notin> dom m" using None st by auto
  then have c: "Suc (unat i) < 2 ^ 16" using assms(2) fin u st by simp
  then have u1: "unat (i + 1) = Suc (unat i)" by (simp add: unat_word_ariths)
  then have lt: "j < i + 1" if "j < i \<or> j = i" for j using that by (auto simp: word_less_nat_alt)
  have "inj_on (m(v \<mapsto> i)) (insert v (dom m))"
  proof (rule inj_onI)
    fix a b assume ab: "a \<in> insert v (dom m)" "b \<in> insert v (dom m)" "(m(v \<mapsto> i)) a = (m(v \<mapsto> i)) b"
    have i: "m x \<noteq> Some i" for x using assms(1) st by (auto simp: ids_ok_def)
    have "a = b" if "a \<noteq> v" "b \<noteq> v"
      using that ab assms(1) st by (auto simp: ids_ok_def dest: inj_onD)
    then show "a = b" using ab i by (metis fun_upd_apply)
  qed
  then show ?thesis using assms(1) None st fin u1 u \<open>v \<notin> dom m\<close> lt
    by (auto simp: ids_ok_def allocateId_def)
next
  case (Some i)
  then show ?thesis using assms(1) by (simp add: allocateId_def)
qed

lemma allocate_fold_dom: "dom (fst (fold allocateId vs st)) = set vs \<union> dom (fst st)"
  by (induction vs arbitrary: st) (auto simp: allocateId_dom)

lemma allocate_fold_ok:
  "ids_ok st \<Longrightarrow> card (set vs \<union> dom (fst st)) < 2 ^ 16 \<Longrightarrow> ids_ok (fold allocateId vs st)"
proof (induction vs arbitrary: st)
  case (Cons v vs)
  have fin: "finite (dom (fst st))" using Cons.prems(1) by (simp add: ids_ok_def)
  have "card (insert v (dom (fst st))) \<le> card (set (v # vs) \<union> dom (fst st))" by (rule card_mono) (auto simp: fin)
  then have "ids_ok (allocateId v st)" using allocateId_ok [OF Cons.prems(1)] Cons.prems(2) by simp
  then show ?case using Cons.IH [of "allocateId v st"] Cons.prems(2) by (simp add: allocateId_dom)
qed simp

lemma fold_fold_concat: "fold (\<lambda>s. fold f (g s)) ss x = fold f (concat (map g ss)) x"
  by (induction ss arbitrary: x) simp_all

lemma allocate_spec:
  fixes mgr :: SelectorMgr
  defines "vs \<equiv> concat (map GetViews (selectors mgr))"
  assumes "card (insert vs_DefaultView (set vs)) < 2 ^ 16"
  shows "ids_ok (viewAndIds (allocateIdForView mgr), of_nat (card (insert vs_DefaultView (set vs)))) \<and>
    dom (viewAndIds (allocateIdForView mgr)) = insert vs_DefaultView (set vs)"
proof -
  let ?st = "([vs_DefaultView \<mapsto> 0], 1) :: (view \<rightharpoonup> u16) \<times> u16"
  have "ids_ok ?st" by (auto simp: ids_ok_def)
  moreover have "card (set vs \<union> dom (fst ?st)) < 2 ^ 16" using assms(2) by (simp add: Un_commute)
  ultimately have ok: "ids_ok (fold allocateId vs ?st)" by (rule allocate_fold_ok)
  have d: "dom (fst (fold allocateId vs ?st)) = insert vs_DefaultView (set vs)" by (simp add: allocate_fold_dom)
  then have "snd (fold allocateId vs ?st) = of_nat (card (insert vs_DefaultView (set vs)))"
    using ok by (metis ids_ok_def of_nat_unat ucast_id)
  with ok d show ?thesis
    by (simp add: allocateIdForView_def fold_fold_concat vs_def [symmetric] ids_ok_def)
qed

lemma SelectView_id:
  assumes "card (insert vs_DefaultView (set (concat (map GetViews (selectors mgr))))) < 2 ^ 16"
    and "SelectView G T Find (allocateIdForView mgr) c = Some (c', found)" "c_View c = vs_DefaultView" "c_ViewId c = 0"
  shows "viewAndIds (allocateIdForView mgr) (c_View c') = Some (c_ViewId c')"
proof -
  let ?m = "allocateIdForView mgr"
  have sel: "selectors ?m = selectors mgr" by (simp add: allocateIdForView_def)
  obtain c1 v where l: "select_loop (ViewForQuery G T Find) (selectors mgr) c = Some (c1, v)"
    using assms(2) sel by (auto simp: SelectView_def split: option.splits)
  obtain r where c1: "c1 = c\<lparr>c_Response := r\<rparr>" using mgr_selector.select_keeps [OF l] by blast
  note ids = allocate_spec [OF assms(1)]
  have d: "viewAndIds ?m vs_DefaultView = Some 0"
  proof -
    have "fst (fold allocateId vs ([vs_DefaultView \<mapsto> 0], i)) vs_DefaultView = Some 0" for vs i
    proof -
      have "fst st vs_DefaultView = Some 0 \<Longrightarrow> fst (fold allocateId vs st) vs_DefaultView = Some 0" for st
        by (induction vs arbitrary: st) (auto simp: allocateId_def)
      then show ?thesis by simp
    qed
    then show ?thesis by (simp add: allocateIdForView_def fold_fold_concat)
  qed
  show ?thesis
  proof (cases "v = []")
    case True
    then show ?thesis using assms(2-4) l sel d c1 by (auto simp: SelectView_def)
  next
    case False
    then have "v \<in> dom (viewAndIds ?m)" using ids mgr_selector.select_known [OF l] by auto
    then show ?thesis using assms(2) l sel False by (auto simp: SelectView_def)
  qed
qed

lemma SelectView_request:
  "SelectView G T Find mgr c = Some (c', found) \<Longrightarrow> c_Request c' = c_Request c"
  by (auto simp: SelectView_def split: option.splits if_splits dest!: mgr_selector.select_keeps)

section \<open>Orders of views\<close>

definition view_matches :: "(string \<Rightarrow> ip \<Rightarrow> bool) \<Rightarrow> ip \<Rightarrow> ViewAcls \<Rightarrow> bool" where
  "view_matches Find a va \<longleftrightarrow> (\<exists>n\<in>set (va_acls va). Find n a)"

lemma addr_loop_find:
  "addr_loop Find a v = (case find (view_matches Find a) v of None \<Rightarrow> ([], False) | Some va \<Rightarrow> (va_name va, True))"
  by (induction v) (auto simp: view_matches_def)

lemma set_priorities_ok:
  "set_priorities ps v = (v', None) \<Longrightarrow> v' = map (\<lambda>va. va\<lparr>va_priority := the (ps (va_name va))\<rparr>) v \<and> va_name ` set v \<subseteq> dom ps"
  by (induction v arbitrary: v') (auto split: option.splits prod.splits)

lemma view_priorities_nth:
  assumes "distinct orders"
  shows "view_priorities orders v = Some p \<longleftrightarrow> (\<exists>i < length orders. orders ! i = v \<and> p = int i)"
proof -
  have "fold (\<lambda>q m. m(snd q \<mapsto> int (fst q))) (enumerate k orders) m v = Some p \<longleftrightarrow>
      (\<exists>i < length orders. orders ! i = v \<and> p = int (k + i)) \<or> v \<notin> set orders \<and> m v = Some p" for k m
    using assms
  proof (induction orders arbitrary: k m)
    case (Cons x xs)
    have "(\<exists>i < length (x # xs). (x # xs) ! i = v \<and> p = int (k + i)) \<longleftrightarrow>
        (x = v \<and> p = int k) \<or> (\<exists>i < length xs. xs ! i = v \<and> p = int (Suc k + i))"
      by (auto simp: less_Suc_eq_0_disj)
    then show ?case using Cons by (auto simp: in_set_conv_nth)
  qed simp
  from this [of 0 Map.empty] show ?thesis by (simp add: view_priorities_def)
qed

lemma find_sorted_least:
  fixes k :: "'a \<Rightarrow> int"
  assumes "find P xs = Some x" "sorted (map k xs)" "y \<in> set xs" "P y"
  shows "k x \<le> k y"
proof -
  obtain i where i: "i < length xs" "x = xs ! i" "\<forall>j<i. \<not> P (xs ! j)" using assms(1) by (auto simp: find_Some_iff)
  obtain j where j: "j < length xs" "y = xs ! j" using assms(3) by (auto simp: in_set_conv_nth)
  then have "i \<le> j" using i assms(4) by (meson not_le_imp_less)
  then show ?thesis using assms(2) i j by (auto simp: sorted_iff_nth_mono)
qed

section \<open>Weights\<close>

lemma marks_length [simp]: "length (marks_loop m ps) = length ps"
  by (induction ps arbitrary: m) simp_all

lemma marks_nth: "i < length ps \<Longrightarrow> marks_loop m ps ! i = m + sum_list (map snd (take (Suc i) ps))"
proof (induction ps arbitrary: m i)
  case (Cons p ps)
  then show ?case by (cases i) simp_all
qed simp

lemma marks_mono:
  assumes "\<forall>p\<in>set ps. snd p \<ge> 0" "i \<le> j" "j < length ps"
  shows "marks_loop m ps ! i \<le> marks_loop m ps ! j"
proof -
  have "take (Suc j) ps = take (Suc i) ps @ take (j - i) (drop (Suc i) ps)"
    using assms(2) by (metis Suc_le_mono add_diff_inverse_nat diff_Suc_Suc not_less take_add)
  moreover have "sum_list (map snd (take (j - i) (drop (Suc i) ps))) \<ge> 0"
    using assms(1) by (intro sum_list_nonneg) (auto dest!: in_set_takeD in_set_dropD)
  ultimately show ?thesis using assms by (simp add: marks_nth)
qed

text \<open>The position the search finds for the number \<open>n\<close>: its mark is the first one above \<open>n\<close>.\<close>

lemma priority_position:
  fixes p :: PriorityBaseView
  defines "ps \<equiv> pv_priorityBaseViews p"
  assumes w: "\<forall>q\<in>set ps. snd q \<ge> 0" and n: "0 \<le> n" "n < sum_list (map snd ps)"
  shows "\<exists>i < length ps. priority_ViewForQuery (\<lambda>_. n) (calculateViewMarks p) = Some (fst (ps ! i), True) \<and>
    sum_list (map snd (take i ps)) \<le> n \<and> n < sum_list (map snd (take (Suc i) ps))"
proof -
  let ?f = "\<lambda>i. n + 1 \<le> marks_loop 0 ps ! i" and ?l = "length ps"
  let ?i = "sort_Search ?l ?f"
  have ne: "ps \<noteq> []" using n by auto
  have total: "marks_loop 0 ps ! (?l - 1) = sum_list (map snd ps)" using ne by (simp add: marks_nth)
  have mono: "?f b" if "a \<le> b" "?f a" "b < ?l" for a b using marks_mono [OF w that(1,3), of 0] that(2) by linarith
  have spec: "?i \<le> ?l" "\<And>k. k < ?i \<Longrightarrow> \<not> ?f k" "?i < ?l \<Longrightarrow> ?f ?i"
    using mono sort_Search_spec [where f = ?f and n = ?l] by blast+
  have lt: "?i < ?l"
  proof (rule ccontr)
    assume "\<not> ?i < ?l"
    then have "\<not> ?f (?l - 1)" using spec(1) spec(2) [where k = "?l - 1"] ne by simp
    then show False using total n by simp
  qed
  have "sum_list (map snd (take ?i ps)) \<le> n"
  proof (cases "?i = 0")
    case False
    then have "\<not> ?f (?i - 1)" using spec(2) [where k = "?i - 1"] by simp
    then show ?thesis using lt False by (simp add: marks_nth)
  qed (simp add: n)
  moreover have "n < sum_list (map snd (take (Suc ?i) ps))" using spec(3) [OF lt] lt by (simp add: marks_nth)
  moreover have "priority_ViewForQuery (\<lambda>_. n) (calculateViewMarks p) = Some (fst (ps ! ?i), True)"
    using ne total n lt by (simp add: priority_ViewForQuery_def calculateViewMarks_def ps_def [symmetric] Let_def add.commute)
  ultimately show ?thesis using lt by blast
qed

lemma take_sum_mono:
  fixes ps :: "(view \<times> int) list"
  assumes "\<forall>q\<in>set ps. snd q \<ge> 0" "i \<le> j"
  shows "sum_list (map snd (take i ps)) \<le> sum_list (map snd (take j ps))"
proof -
  have "take j ps = take i ps @ take (j - i) (drop i ps)" using assms(2) by (metis le_add_diff_inverse take_add)
  moreover have "sum_list (map snd (take (j - i) (drop i ps))) \<ge> 0"
    using assms(1) by (intro sum_list_nonneg) (auto dest!: in_set_takeD in_set_dropD)
  ultimately show ?thesis by simp
qed

section \<open>Properties\<close>

text \<open>
  C8. Once the views are numbered, and there are fewer than 65536 of them, the selected view's number
  identifies it: two queries whose keys (name hash, view number and type) are equal were assigned to
  the same view, the default view included.
\<close>

theorem views_separated:
  assumes "card (insert vs_DefaultView (set (concat (map GetViews (selectors mgr))))) < 2 ^ 16"
    and "c_View c1 = vs_DefaultView" "c_ViewId c1 = 0" "c_View c2 = vs_DefaultView" "c_ViewId c2 = 0"
    and "SelectView G T Find (allocateIdForView mgr) c1 = Some (c1', found1)"
    and "SelectView G T Find (allocateIdForView mgr) c2 = Some (c2', found2)"
    and "QueryKey G c1' = Some k" "QueryKey G c2' = Some k"
  shows "c_View c1' = c_View c2'"
proof -
  have "c_ViewId c1' = c_ViewId c2'"
    using assms(8,9) by (auto simp: QueryKey_def pack_key_inject split: option.splits)
  moreover note SelectView_id [OF assms(1,6,2,3)] SelectView_id [OF assms(1,7,4,5)]
  moreover have "inj_on (viewAndIds (allocateIdForView mgr)) (dom (viewAndIds (allocateIdForView mgr)))"
    using allocate_spec [OF assms(1)] unfolding ids_ok_def fst_conv by blast
  ultimately show ?thesis by (metis domI inj_onD)
qed

text \<open>Signatures of a reference library: a code is valid when it is the text of the secret.\<close>

definition ref_tsig :: "string list tsig_lib" where
  "ref_tsig = \<lparr>f_Name_StringTrim = concat,
     f_VerifyTsig = (\<lambda>t m secret. ts_MAC t = map of_char secret),
     f_NewTSIG = (\<lambda>n s alg. Some \<lparr>ts_Name = [n], ts_Algorithm = alg, ts_MAC = [], ts_Error = 0\<rparr>),
     f_SetTSIG = (\<lambda>t m. m\<lparr>m_Tsig := Some t\<rparr>)\<rparr>"

definition demo_selectors :: SelectorMgr where
  "demo_selectors = \<lparr>selectors = [SelAddr [\<lparr>va_name = ''in'', va_acls = [''lan''], va_priority = 0\<rparr>,
      \<lparr>va_name = ''out'', va_acls = [''wan''], va_priority = 1\<rparr>], SelTsig []], viewAndIds = Map.empty\<rparr>"

definition demo_Find :: "string \<Rightarrow> ip \<Rightarrow> bool" where
  "demo_Find n a \<longleftrightarrow> (n = ''lan'' \<and> take 1 a = [10]) \<or> n = ''wan''"

definition demo_asker :: "ip \<Rightarrow> string list Client" where
  "demo_asker a = client_reset 0 (UDPAddr a 53) (UDPAddr [10, 0, 0, 9] 53) False
     \<lparr>m_Header = empty_header, m_Question = Some \<lparr>q_Name = [''x''], q_Type = RR_A, q_Class = CLASS_IN\<rparr>,
      m_Answer = [], m_Auth = [], m_Additional = [], m_Tsig = None\<rparr>"

theorem views_separated_witness:
  "\<exists>c1 c2 k. SelectView ref_g53 ref_tsig demo_Find (allocateIdForView demo_selectors) (demo_asker [10, 0, 0, 1]) = Some (c1, True) \<and>
     SelectView ref_g53 ref_tsig demo_Find (allocateIdForView demo_selectors) (demo_asker [10, 0, 0, 2]) = Some (c2, True) \<and>
     QueryKey ref_g53 c1 = Some k \<and> QueryKey ref_g53 c2 = Some k \<and> c_View c1 = c_View c2"
proof -
  let ?m = "allocateIdForView demo_selectors"
  let ?s = "\<lambda>a. SelectView ref_g53 ref_tsig demo_Find ?m (demo_asker a)"
  have "map_option snd (?s [10, 0, 0, 1]) = Some True" "map_option snd (?s [10, 0, 0, 2]) = Some True" by code_simp+
  then obtain c1 c2 where s: "?s [10, 0, 0, 1] = Some (c1, True)" "?s [10, 0, 0, 2] = Some (c2, True)" by auto
  have "map_option (\<lambda>p. QueryKey ref_g53 (fst p)) (?s [10, 0, 0, 1]) = map_option (\<lambda>p. QueryKey ref_g53 (fst p)) (?s [10, 0, 0, 2])"
    "map_option (\<lambda>p. QueryKey ref_g53 (fst p) = None) (?s [10, 0, 0, 1]) = Some False" by code_simp+
  then obtain k where k: "QueryKey ref_g53 c1 = Some k" "QueryKey ref_g53 c2 = Some k" using s by auto
  have n: "card (insert vs_DefaultView (set (concat (map GetViews (selectors demo_selectors))))) < 2 ^ 16"
    by (simp add: demo_selectors_def addr_GetViews_def tsig_GetViews_def vs_DefaultView_def)
  have d: "c_View (demo_asker a) = vs_DefaultView" "c_ViewId (demo_asker a) = 0" for a
    by (simp_all add: demo_asker_def client_reset_def vs_DefaultView_def)
  from views_separated [OF n d d s k] s k show ?thesis by blast
qed

text \<open>
  C16. After an accepted order of the views, the view of a query is the first one in that order that has
  an access control list containing the client's address, and none when no view has one.
\<close>

theorem priority_order_respected:
  assumes srt: "sort_contract srt" and d: "distinct orders" and u: "updateViewPriority srt orders v = (v', None)"
    and a: "client_IP c = Some a"
  shows "addr_ViewForQuery Find v' c =
    Some (c, case find (\<lambda>n. \<exists>va\<in>set v. va_name va = n \<and> (\<exists>l\<in>set (va_acls va). Find l a)) orders of
               None \<Rightarrow> ([], False) | Some n \<Rightarrow> (n, True))"
proof -
  let ?ps = "view_priorities orders" and ?P = "view_matches Find a"
  let ?set = "map (\<lambda>va. va\<lparr>va_priority := the (?ps (va_name va))\<rparr>) v"
  let ?Q = "\<lambda>n. \<exists>va\<in>set v. va_name va = n \<and> ?P va"
  from u have v': "v' = srt va_priority ?set" and dom: "va_name ` set v \<subseteq> dom ?ps"
    by (auto simp: updateViewPriority_def split: prod.splits option.splits dest!: set_priorities_ok)
  have names: "\<exists>i < length orders. orders ! i = va_name va \<and> the (?ps (va_name va)) = int i" if "va \<in> set v" for va
    using dom that view_priorities_nth [OF d] by (metis domD image_eqI option.sel subsetD)
  have set: "set v' = set ?set" using sort_contractD(3) [OF srt] v' by simp
  have "(case find ?P v' of None \<Rightarrow> ([], False) | Some va \<Rightarrow> (va_name va, True)) =
      (case find ?Q orders of None \<Rightarrow> ([], False) | Some n \<Rightarrow> (n, True))"
  proof (cases "find ?P v'")
    case None
    then have "\<not> ?P va" if "va \<in> set v" for va using that set by (auto simp: find_None_iff view_matches_def)
    then have "find ?Q orders = None" by (auto simp: find_None_iff)
    then show ?thesis using None by simp
  next
    case (Some x)
    then have x: "x \<in> set v'" "?P x" by (auto simp: find_Some_iff)
    then obtain va where va: "va \<in> set v" "x = va\<lparr>va_priority := the (?ps (va_name va))\<rparr>" using set by auto
    obtain i where i: "i < length orders" "orders ! i = va_name va" "va_priority x = int i" using names [OF va(1)] va(2) by auto
    have "\<not> ?Q (orders ! j)" if "j < i" for j
    proof
      assume "?Q (orders ! j)"
      then obtain vb where vb: "vb \<in> set v" "va_name vb = orders ! j" "?P vb" by blast
      let ?y = "vb\<lparr>va_priority := the (?ps (va_name vb))\<rparr>"
      have "?y \<in> set v'" "?P ?y" using vb(1,3) set by (simp_all add: view_matches_def)
      then have "va_priority x \<le> va_priority ?y"
        using find_sorted_least [OF Some, of va_priority ?y] sort_contractD(2) [OF srt] v' by simp
      moreover have "?ps (orders ! j) = Some (int j)"
        using iffD2 [OF view_priorities_nth [OF d], of "orders ! j" "int j"] i(1) that by auto
      ultimately show False using vb(2) i(3) that by simp
    qed
    moreover have "?Q (orders ! i)" using va x(2) i(2) by (auto simp: view_matches_def)
    ultimately have "find ?Q orders = Some (va_name va)" unfolding find_Some_iff using i(1,2) by metis
    then show ?thesis using Some va(2) by simp
  qed
  then show ?thesis using a by (simp add: addr_ViewForQuery_def addr_loop_find view_matches_def)
qed

theorem priority_order_respected_witness:
  "\<exists>v'. updateViewPriority (\<lambda>k. sort_key k) [''out'', ''in''] [\<lparr>va_name = ''in'', va_acls = [''lan''], va_priority = 0\<rparr>,
      \<lparr>va_name = ''out'', va_acls = [''wan''], va_priority = 1\<rparr>] = (v', None) \<and>
    addr_ViewForQuery demo_Find v' (demo_asker [10, 0, 0, 1]) = Some (demo_asker [10, 0, 0, 1], ''out'', True)"
proof -
  let ?v = "[\<lparr>va_name = ''in'', va_acls = [''lan''], va_priority = 0\<rparr>, \<lparr>va_name = ''out'', va_acls = [''wan''], va_priority = 1\<rparr>]"
  have "snd (updateViewPriority (\<lambda>k. sort_key k) [''out'', ''in''] ?v) = None" by code_simp
  then obtain v' where v': "updateViewPriority (\<lambda>k. sort_key k) [''out'', ''in''] ?v = (v', None)"
    by (metis prod.collapse)
  have "client_IP (demo_asker [10, 0, 0, 1]) = Some [10, 0, 0, 1]" by (simp add: demo_asker_def client_reset_def client_IP_def)
  from priority_order_respected [OF sort_contract_insort _ v' this, of demo_Find] v' show ?thesis
    by (simp add: demo_Find_def)
qed

text \<open>
  Views with weights: the number of outcomes of the random draw that select a view is exactly its
  weight, when no weight is negative and some weight is positive.
\<close>

theorem weights_are_shares:
  fixes p :: PriorityBaseView
  defines "ps \<equiv> pv_priorityBaseViews p"
  assumes w: "\<forall>q\<in>set ps. snd q \<ge> 0" and d: "distinct (map fst ps)" and i: "i < length ps"
  shows "card {n. 0 \<le> n \<and> n < sum_list (map snd ps) \<and>
      priority_ViewForQuery (\<lambda>_. n) (calculateViewMarks p) = Some (fst (ps ! i), True)} = nat (snd (ps ! i))"
proof -
  let ?m = "\<lambda>i. sum_list (map snd (take i ps))"
  have "{n. 0 \<le> n \<and> n < sum_list (map snd ps) \<and>
      priority_ViewForQuery (\<lambda>_. n) (calculateViewMarks p) = Some (fst (ps ! i), True)} = {?m i..<?m (Suc i)}" (is "?A = ?B")
  proof (intro set_eqI iffI)
    fix n assume "n \<in> ?A"
    then obtain j where j: "j < length ps" "fst (ps ! j) = fst (ps ! i)" "?m j \<le> n" "n < ?m (Suc j)"
      using priority_position [of p n] w unfolding ps_def by auto
    then have "j = i" using d i by (simp add: distinct_conv_nth) metis
    then show "n \<in> ?B" using j by simp
  next
    fix n assume n: "n \<in> ?B"
    have b: "0 \<le> n" "n < sum_list (map snd ps)"
      using n take_sum_mono [OF w, of 0 i] take_sum_mono [OF w, of "Suc i" "length ps"] i by auto
    then obtain j where j: "j < length ps" "?m j \<le> n" "n < ?m (Suc j)"
      "priority_ViewForQuery (\<lambda>_. n) (calculateViewMarks p) = Some (fst (ps ! j), True)"
      using priority_position [of p n] w unfolding ps_def by auto
    have "j = i"
    proof (rule ccontr)
      assume "j \<noteq> i"
      then consider "Suc j \<le> i" | "Suc i \<le> j" by linarith
      then show False using take_sum_mono [OF w] j n by cases fastforce+
    qed
    then show "n \<in> ?A" using b j by simp
  qed
  moreover have "?m (Suc i) = ?m i + snd (ps ! i)" using i by (simp add: take_Suc_conv_app_nth)
  ultimately show ?thesis by simp
qed

theorem weights_are_shares_witness:
  "card {n. 0 \<le> n \<and> n < (5 :: int) \<and> priority_ViewForQuery (\<lambda>_. n)
     (calculateViewMarks \<lparr>pv_priorityBaseViews = [(''a'', 2), (''b'', 3)], pv_views = [], pv_viewMarks = []\<rparr>) = Some (''b'', True)} = 3"
  using weights_are_shares [of "\<lparr>pv_priorityBaseViews = [(''a'', 2), (''b'', 3)], pv_views = [], pv_viewMarks = []\<rparr>" 1]
  by simp

end
