(* ===== verification/Util.thy ===== *)
theory Util
  imports Dns
begin

text \<open>
  The helpers of \<open>util/\<close>: the classification of responses and wildcard names (\<open>dnshelper.go\<close>), the
  set of domain names (\<open>domainset.go\<close>), the pool of buffers (\<open>bytepool.go\<close>), the UDP exchange with a
  server (\<open>sender.go\<close>) and its use by several queries at once (\<open>safesender.go\<close>). The network is the
  list of datagrams that arrive before the deadline. The lemmas show that the set is a set up to
  equality of names, that no rendering buffer is in use twice, which answers of a server are accepted
  and that the loop over foreign datagrams gives up after the first one.
\<close>

section \<open>Responses\<close>

datatype AnswerType = EMPTY | ANSWER | REFERRAL | NXDOMAIN | NXRRSET | UNKNOWN

text \<open>The counts of the header are trusted: an empty section or a missing question is a panic.\<close>

definition ClassifyResponse :: "'n g53 \<Rightarrow> 'n Message \<Rightarrow> AnswerType may_panic" where
  "ClassifyResponse G response =
     (case h_Rcode (m_Header response) of
        R_NXDOMAIN \<Rightarrow> Some NXDOMAIN
      | R_NOERROR \<Rightarrow>
          if h_ANCount (m_Header response) > 0 then
            (case (m_Answer response, m_Question response) of
               (firstRRset # _, Some q) \<Rightarrow>
                 if Name_Equals G (rr_Name firstRRset) (q_Name q) \<and>
                    (rr_Type firstRRset = q_Type q \<or> rr_Type firstRRset = RR_CNAME)
                 then Some ANSWER else Some UNKNOWN
             | _ \<Rightarrow> None)
          else if h_NSCount (m_Header response) > 0 then
            (case m_Auth response of
               [] \<Rightarrow> None
             | authRRset # _ \<Rightarrow>
                 if rr_Type authRRset = RR_NS then
                   (case m_Question response of
                      None \<Rightarrow> None
                    | Some q \<Rightarrow> if Name_IsSubDomain G (q_Name q) (rr_Name authRRset) then Some REFERRAL else Some UNKNOWN)
                 else if rr_Type authRRset = RR_SOA then Some NXRRSET
                 else Some UNKNOWN)
          else Some UNKNOWN
      | _ \<Rightarrow> Some UNKNOWN)"

definition NameStripFirstWildcard :: "'n g53 \<Rightarrow> string \<Rightarrow> string + bool \<times> 'n" where
  "NameStripFirstWildcard G name =
     (let hasWildcard = (take 2 name = ''*.'');
          name' = (if hasWildcard then drop 2 name else name)
      in bindE (NameFromString G name') (\<lambda>dname. Inr (hasWildcard, dname)))"

section \<open>Sets of names\<close>

type_synonym 'n DomainSet = "u32 \<rightharpoonup> 'n list"

definition NewDomainSet :: "'n DomainSet" where
  "NewDomainSet = Map.empty"

definition ds_Include :: "'n g53 \<Rightarrow> 'n DomainSet \<Rightarrow> 'n \<Rightarrow> bool" where
  "ds_Include G s name =
     (case s (Name_Hash G name) of
        None \<Rightarrow> False
      | Some ns \<Rightarrow> \<exists>n\<in>set ns. Name_Equals G name n)"

definition ds_Add :: "'n g53 \<Rightarrow> 'n \<Rightarrow> 'n DomainSet \<Rightarrow> 'n DomainSet" where
  "ds_Add G name s =
     (if ds_Include G s name then s
      else let h = Name_Hash G name in
           case s h of
             Some ns \<Rightarrow> s(h \<mapsto> ns @ [name])
           | None \<Rightarrow> s(h \<mapsto> [name]))"

text \<open>The hashes \<open>hs\<close> are the keys of the map in the order of the iteration.\<close>

definition TrimRight :: "string \<Rightarrow> char list \<Rightarrow> string" where
  "TrimRight s cutset = rev (dropWhile (\<lambda>c. c \<in> set cutset) (rev s))"

definition ds_String :: "'n g53 \<Rightarrow> u32 list \<Rightarrow> 'n DomainSet \<Rightarrow> string" where
  "ds_String G hs s =
     TrimRight (concat (map (\<lambda>h. case s h of None \<Rightarrow> [] | Some ns \<Rightarrow> concat (map (\<lambda>n. Name_String G n @ '', '') ns)) hs)) '', ''"

section \<open>Buffers\<close>

text \<open>A buffered channel of \<open>bp_max\<close> buffers.\<close>

record BytePool =
  bp_c :: "u8 list list"
  bp_max :: nat
  bp_w :: nat

definition NewBytePool :: "nat \<Rightarrow> nat \<Rightarrow> BytePool" where
  "NewBytePool maxSize width = \<lparr>bp_c = [], bp_max = maxSize, bp_w = width\<rparr>"

definition bp_Get :: "BytePool \<Rightarrow> u8 list \<times> BytePool" where
  "bp_Get bp = (case bp_c bp of b # bs \<Rightarrow> (b, bp\<lparr>bp_c := bs\<rparr>) | [] \<Rightarrow> (replicate (bp_w bp) 0, bp))"

definition bp_Put :: "u8 list \<Rightarrow> BytePool \<Rightarrow> BytePool" where
  "bp_Put b bp = (if length (bp_c bp) < bp_max bp then bp\<lparr>bp_c := bp_c bp @ [b]\<rparr> else bp)"

definition bp_Width :: "BytePool \<Rightarrow> nat" where
  "bp_Width bp = bp_w bp"

section \<open>Exchange with a server\<close>

text \<open>What is used of the wire format: the decoder of messages and the comparison of questions.\<close>

record 'n wire_lib =
  f_MessageFromWire :: "u8 list \<Rightarrow> string + 'n Message"
  f_Question_Equals :: "'n Question \<Rightarrow> 'n Question \<Rightarrow> bool"

record UDPSender =
  us_LocalAddr :: "string option"
  us_timeout :: duration

text \<open>\<open>Resolve\<close> is the resolution of an address by the system.\<close>

definition setQuerySource :: "(string \<Rightarrow> string + string) \<Rightarrow> string \<Rightarrow> UDPSender \<Rightarrow> string + UDPSender" where
  "setQuerySource Resolve source f =
     (if source = [] then Inr (f\<lparr>us_LocalAddr := None\<rparr>)
      else bindE (Resolve source) (\<lambda>a. Inr (f\<lparr>us_LocalAddr := Some a\<rparr>)))"

definition NewUDPSender :: "(string \<Rightarrow> string + string) \<Rightarrow> string \<Rightarrow> duration \<Rightarrow> string + UDPSender" where
  "NewUDPSender Resolve querySource timeout =
     setQuerySource Resolve querySource \<lparr>us_LocalAddr = None, us_timeout = timeout\<rparr>"

definition us_GetQuerySource :: "UDPSender \<Rightarrow> string" where
  "us_GetQuerySource f = (case us_LocalAddr f of None \<Rightarrow> [] | Some a \<Rightarrow> a)"

definition isResponseValid :: "'n wire_lib \<Rightarrow> 'n Message \<Rightarrow> 'n Message \<Rightarrow> string option" where
  "isResponseValid W req resp =
     (if h_Rcode (m_Header resp) = R_FORMERR then None
      else case (m_Question resp, m_Question req) of
             (Some q, Some q') \<Rightarrow> if f_Question_Equals W q q' then None else Some ''response format error''
           | _ \<Rightarrow> Some ''response format error'')"

text \<open>
  The loop of \<open>Query\<close>: a read takes the next datagram, cut to the length of the buffer, or ends with
  the error of the deadline. A message with another identifier is skipped, and the buffer is cut to
  nothing (\<open>buf = buf[:0]\<close>) before the next read.
\<close>

fun query_loop :: "'n wire_lib \<Rightarrow> 'n Message \<Rightarrow> nat \<Rightarrow> u8 list list \<Rightarrow> string + 'n Message" where
  "query_loop W query buflen [] = Inl ''i/o timeout''"
| "query_loop W query buflen (d # ds) =
     (case f_MessageFromWire W (take buflen d) of
        Inl err \<Rightarrow> Inl err
      | Inr msg \<Rightarrow>
          if h_Id (m_Header msg) = h_Id (m_Header query) then
            (case isResponseValid W query msg of None \<Rightarrow> Inr msg | Some err \<Rightarrow> Inl err)
          else query_loop W query 0 ds)"

text \<open>\<open>dial\<close> is the error of the dialler; \<open>ds\<close> the datagrams that arrive; \<open>elapsed\<close> the time until the answer.\<close>

definition us_Query ::
  "'n wire_lib \<Rightarrow> UDPSender \<Rightarrow> string option \<Rightarrow> u8 list list \<Rightarrow> duration \<Rightarrow> 'n Message \<Rightarrow> (string + 'n Message) \<times> duration" where
  "us_Query W f dial ds elapsed query =
     (case dial of
        Some err \<Rightarrow> (Inl err, us_timeout f)
      | None \<Rightarrow>
          (case query_loop W query 1024 ds of
             Inr msg \<Rightarrow> (Inr msg, elapsed)
           | Inl err \<Rightarrow> (Inl err, if err = ''response format error'' then elapsed else us_timeout f)))"

section \<open>Shared senders\<close>

text \<open>Rendering buffers are numbered in the order of their creation.\<close>

record SafeUDPSender =
  ss_sender :: UDPSender
  ss_renders :: "nat option list"
  ss_created :: nat

definition NewSafeUDPSender :: "(string \<Rightarrow> string + string) \<Rightarrow> string \<Rightarrow> duration \<Rightarrow> string + SafeUDPSender" where
  "NewSafeUDPSender Resolve querySource timeout =
     bindE (NewUDPSender Resolve querySource timeout)
       (\<lambda>s. Inr \<lparr>ss_sender = s, ss_renders = [], ss_created = 0\<rparr>)"

fun take_render :: "nat option list \<Rightarrow> (nat \<times> nat option list) option" where
  "take_render [] = None"
| "take_render (Some r # rs) = Some (r, None # rs)"
| "take_render (None # rs) = map_option (\<lambda>(r, rs'). (r, None # rs')) (take_render rs)"

definition getRender :: "SafeUDPSender \<Rightarrow> nat \<times> SafeUDPSender" where
  "getRender f =
     (case take_render (ss_renders f) of
        Some (r, rs) \<Rightarrow> (r, f\<lparr>ss_renders := rs\<rparr>)
      | None \<Rightarrow> (ss_created f, f\<lparr>ss_created := Suc (ss_created f)\<rparr>))"

fun put_render :: "nat \<Rightarrow> nat option list \<Rightarrow> nat option list" where
  "put_render r [] = [Some r]"
| "put_render r (None # rs) = Some r # rs"
| "put_render r (Some x # rs) = Some x # put_render r rs"

definition releaseRender :: "nat \<Rightarrow> SafeUDPSender \<Rightarrow> SafeUDPSender" where
  "releaseRender r f = f\<lparr>ss_renders := put_render r (ss_renders f)\<rparr>"

text \<open>A query takes a render, exchanges the messages and gives the render back.\<close>

definition ss_Query ::
  "'n wire_lib \<Rightarrow> SafeUDPSender \<Rightarrow> string option \<Rightarrow> u8 list list \<Rightarrow> duration \<Rightarrow> 'n Message
   \<Rightarrow> SafeUDPSender \<times> (string + 'n Message) \<times> duration" where
  "ss_Query W f dial ds elapsed query =
     (case getRender f of
        (render, f') \<Rightarrow> (releaseRender render f', us_Query W (ss_sender f') dial ds elapsed query))"

section \<open>Lemmas\<close>

lemma ds_Include_Add:
  assumes "name_laws G"
  shows "ds_Include G (ds_Add G name s) n \<longleftrightarrow> ds_Include G s n \<or> Name_Equals G n name"
proof (cases "ds_Include G s name")
  case True
  have "ds_Include G s n" if "Name_Equals G n name"
    using True that Name_Hash_Equals [OF assms that] Name_Equals_trans [OF assms that]
    by (auto simp: ds_Include_def split: option.splits)
  then show ?thesis using True by (auto simp: ds_Add_def)
next
  case False
  have "Name_Hash G n = Name_Hash G name" if "Name_Equals G n name" using Name_Hash_Equals [OF assms that] .
  then show ?thesis using False
    by (auto simp: ds_Add_def ds_Include_def Let_def split: option.splits if_splits)
qed

lemma ds_Include_New [simp]: "\<not> ds_Include G NewDomainSet n"
  by (simp add: ds_Include_def NewDomainSet_def)

text \<open>Several queries at once: renders taken and given back in any order.\<close>

definition pooled :: "SafeUDPSender \<Rightarrow> nat list" where
  "pooled f = concat (map (\<lambda>x. case x of None \<Rightarrow> [] | Some r \<Rightarrow> [r]) (ss_renders f))"

inductive sender_run :: "SafeUDPSender \<Rightarrow> nat list \<Rightarrow> bool" where
  run_new: "NewSafeUDPSender Resolve source t = Inr f \<Longrightarrow> sender_run f []"
| run_get: "sender_run f held \<Longrightarrow> getRender f = (r, f') \<Longrightarrow> sender_run f' (r # held)"
| run_release: "sender_run f held \<Longrightarrow> r \<in> set held \<Longrightarrow> sender_run (releaseRender r f) (remove1 r held)"

lemma take_render_spec:
  "take_render rs = Some (r, rs') \<Longrightarrow>
   mset (concat (map (\<lambda>x. case x of None \<Rightarrow> [] | Some r \<Rightarrow> [r]) rs)) =
   add_mset r (mset (concat (map (\<lambda>x. case x of None \<Rightarrow> [] | Some r \<Rightarrow> [r]) rs')))"
  by (induction rs arbitrary: rs' rule: take_render.induct) auto

lemma put_render_spec:
  "mset (concat (map (\<lambda>x. case x of None \<Rightarrow> [] | Some r \<Rightarrow> [r]) (put_render r rs))) =
   add_mset r (mset (concat (map (\<lambda>x. case x of None \<Rightarrow> [] | Some r \<Rightarrow> [r]) rs)))"
  by (induction r rs rule: put_render.induct) auto

lemma sender_run_inv:
  "sender_run f held \<Longrightarrow> distinct (held @ pooled f) \<and> (\<forall>r\<in>set (held @ pooled f). r < ss_created f)"
proof (induction rule: sender_run.induct)
  case (run_new Resolve source t f)
  then show ?case by (auto simp: NewSafeUDPSender_def bindE_Inr_iff pooled_def)
next
  case (run_get f held r f')
  show ?case
  proof (cases "take_render (ss_renders f)")
    case None
    then have "r = ss_created f" "f' = f\<lparr>ss_created := Suc (ss_created f)\<rparr>" using run_get.hyps(2) by (auto simp: getRender_def)
    then show ?thesis using run_get.IH by (auto simp: pooled_def less_Suc_eq)
  next
    case (Some p)
    then obtain rs' where rs': "take_render (ss_renders f) = Some (r, rs')" "f' = f\<lparr>ss_renders := rs'\<rparr>"
      using run_get.hyps(2) by (cases p) (auto simp: getRender_def)
    have "mset (pooled f) = add_mset r (mset (pooled f'))" using take_render_spec [OF rs'(1)] rs'(2) by (simp add: pooled_def)
    then have m: "mset (held @ pooled f) = mset ((r # held) @ pooled f')" by simp
    have "distinct ((r # held) @ pooled f')" "set ((r # held) @ pooled f') = set (held @ pooled f)"
      using run_get.IH mset_eq_imp_distinct_iff [OF m] mset_eq_setD [OF m] by blast+
    then show ?thesis using run_get.IH rs'(2) by simp
  qed
next
  case (run_release f held r)
  have "mset (pooled (releaseRender r f)) = add_mset r (mset (pooled f))"
    using put_render_spec by (simp add: pooled_def releaseRender_def)
  then have m: "mset (remove1 r held @ pooled (releaseRender r f)) = mset (held @ pooled f)"
    using run_release.hyps(2) by simp
  have "distinct (remove1 r held @ pooled (releaseRender r f))"
    "set (remove1 r held @ pooled (releaseRender r f)) = set (held @ pooled f)"
    using run_release.IH mset_eq_imp_distinct_iff [OF m] mset_eq_setD [OF m] by blast+
  moreover have "ss_created (releaseRender r f) = ss_created f" by (simp add: releaseRender_def)
  ultimately show ?case using run_release.IH by simp
qed

lemma query_loop_valid:
  "query_loop W query k ds = Inr msg \<Longrightarrow>
   h_Id (m_Header msg) = h_Id (m_Header query) \<and> isResponseValid W query msg = None \<and>
   (\<exists>d\<in>set ds. \<exists>j \<le> k. f_MessageFromWire W (take j d) = Inr msg)"
proof (induction W query k ds rule: query_loop.induct)
  case (2 W query k d ds)
  then show ?case by (fastforce split: sum.splits if_splits option.splits)
qed simp

lemma isResponseValid_None:
  "isResponseValid W req resp = None \<longleftrightarrow> h_Rcode (m_Header resp) = R_FORMERR \<or>
    (\<exists>q q'. m_Question resp = Some q \<and> m_Question req = Some q' \<and> f_Question_Equals W q q')"
  by (auto simp: isResponseValid_def split: option.splits)

section \<open>Properties\<close>

text \<open>
  C17. A message accepted as the answer of a server was received from the socket, has the identifier of
  the query, and either reports a format error or has the question of the query.
\<close>

theorem accepted_answer:
  assumes "us_Query W f dial ds elapsed query = (Inr msg, rtt)"
  shows "h_Id (m_Header msg) = h_Id (m_Header query) \<and>
    (h_Rcode (m_Header msg) = R_FORMERR \<or>
     (\<exists>q q'. m_Question msg = Some q \<and> m_Question query = Some q' \<and> f_Question_Equals W q q')) \<and>
    (\<exists>d\<in>set ds. \<exists>j \<le> 1024. f_MessageFromWire W (take j d) = Inr msg) \<and> rtt = elapsed"
proof -
  have "query_loop W query 1024 ds = Inr msg" "rtt = elapsed"
    using assms by (auto simp: us_Query_def split: option.splits sum.splits)
  then show ?thesis using query_loop_valid isResponseValid_None by metis
qed

text \<open>A reference decoder: the first byte is the identifier, and nothing is not a message.\<close>

definition ref_wire :: "string list wire_lib" where
  "ref_wire = \<lparr>f_MessageFromWire = (\<lambda>bs. case bs of [] \<Rightarrow> Inl ''buffer is empty'' | b # _ \<Rightarrow>
       Inr \<lparr>m_Header = empty_header\<lparr>h_Id := ucast b\<rparr>, m_Question = Some \<lparr>q_Name = [''a''], q_Type = RR_A, q_Class = CLASS_IN\<rparr>,
            m_Answer = [], m_Auth = [], m_Additional = [], m_Tsig = None\<rparr>),
     f_Question_Equals = (=)\<rparr>"

definition ref_query :: "u16 \<Rightarrow> string list Message" where
  "ref_query i = \<lparr>m_Header = empty_header\<lparr>h_Id := i\<rparr>, m_Question = Some \<lparr>q_Name = [''a''], q_Type = RR_A, q_Class = CLASS_IN\<rparr>,
     m_Answer = [], m_Auth = [], m_Additional = [], m_Tsig = None\<rparr>"

theorem accepted_answer_witness:
  "us_Query ref_wire \<lparr>us_LocalAddr = None, us_timeout = 2\<rparr> None [[7, 1, 2]] 1 (ref_query 7) = (Inr (ref_query 7), 1) \<and>
   h_Id (m_Header (ref_query 7)) = 7"
proof -
  have "us_Query ref_wire \<lparr>us_LocalAddr = None, us_timeout = 2\<rparr> None [[7, 1, 2]] 1 (ref_query 7) = (Inr (ref_query 7), 1)"
    by (simp add: us_Query_def ref_wire_def ref_query_def isResponseValid_def)
  with accepted_answer [OF this] show ?thesis by (simp add: ref_query_def)
qed

text \<open>
  A datagram with a foreign identifier ends the exchange. The loop means to wait for the next one,
  but it cuts its buffer to length zero, so the next datagram, even the right answer, is read as the
  empty message, which the decoder rejects.
\<close>

theorem foreign_datagram_ends_query:
  assumes "f_MessageFromWire W [] = Inl err" "err \<noteq> ''response format error''"
    and "f_MessageFromWire W (take 1024 d) = Inr msg" "h_Id (m_Header msg) \<noteq> h_Id (m_Header query)"
  shows "us_Query W f None (d # answer # ds) elapsed query = (Inl err, us_timeout f)"
  using assms by (simp add: us_Query_def)

theorem foreign_datagram_ends_query_witness:
  "us_Query ref_wire \<lparr>us_LocalAddr = None, us_timeout = 2\<rparr> None [[8], [7]] 1 (ref_query 7) = (Inl ''buffer is empty'', 2)"
  using foreign_datagram_ends_query [of ref_wire "''buffer is empty''" "[8]" "ref_query 8" "ref_query 7"
      "\<lparr>us_LocalAddr = None, us_timeout = 2\<rparr>" "[7]" "[]" 1]
  by (simp add: ref_wire_def ref_query_def)

text \<open>
  Queries of one sender that run at the same time never share a rendering buffer: in every state
  reached by taking and giving back buffers in any order, the buffers in use are different from each
  other and from the buffers in the pool.
\<close>

theorem renders_exclusive:
  assumes "sender_run f held" "getRender f = (r, f')"
  shows "r \<notin> set held \<and> distinct held \<and> set held \<inter> set (pooled f) = {}"
  using sender_run_inv [OF assms(1)] sender_run_inv [OF run_get [OF assms]] by auto

theorem renders_exclusive_witness:
  "\<exists>f f'. sender_run f [1] \<and> getRender f = (0, f') \<and> 0 \<notin> set [1 :: nat]"
proof -
  let ?s = "\<lparr>us_LocalAddr = None, us_timeout = 2\<rparr>"
  have f0: "sender_run \<lparr>ss_sender = ?s, ss_renders = [], ss_created = 0\<rparr> []"
    by (rule run_new [of Inr "[]" 2]) (simp add: NewSafeUDPSender_def NewUDPSender_def setQuerySource_def)
  have f1: "sender_run \<lparr>ss_sender = ?s, ss_renders = [], ss_created = 1\<rparr> [0]"
    by (rule run_get [OF f0]) (simp add: getRender_def)
  have f2: "sender_run \<lparr>ss_sender = ?s, ss_renders = [], ss_created = 2\<rparr> [1, 0]"
    by (rule run_get [OF f1]) (simp add: getRender_def)
  have f3: "sender_run \<lparr>ss_sender = ?s, ss_renders = [Some 0], ss_created = 2\<rparr> [1]"
    using run_release [OF f2, of 0] by (simp add: releaseRender_def)
  have g: "getRender \<lparr>ss_sender = ?s, ss_renders = [Some 0], ss_created = 2\<rparr> =
      (0, \<lparr>ss_sender = ?s, ss_renders = [None], ss_created = 2\<rparr>)" by (simp add: getRender_def)
  from renders_exclusive [OF f3 g] f3 g show ?thesis by blast
qed

text \<open>
  A set of domain names built by additions contains exactly the names equal to an added one, for
  every hash function that respects equality of names.
\<close>

theorem domain_set_is_set:
  assumes "name_laws G"
  shows "ds_Include G (fold (ds_Add G) ns NewDomainSet) n \<longleftrightarrow> (\<exists>m\<in>set ns. Name_Equals G n m)"
proof -
  have "ds_Include G (fold (ds_Add G) ns s) n \<longleftrightarrow> ds_Include G s n \<or> (\<exists>m\<in>set ns. Name_Equals G n m)" for s
    by (induction ns arbitrary: s) (auto simp: ds_Include_Add [OF assms])
  then show ?thesis by simp
qed

theorem domain_set_is_set_witness:
  "ds_Include ref_g53 (fold (ds_Add ref_g53) [[''a'', ''com''], [''B'', ''com'']] NewDomainSet) [''b'', ''com'']"
proof -
  have "\<exists>m\<in>set [[''a'', ''com''], [''B'', ''com'']]. Name_Equals ref_g53 [''b'', ''com''] m" by code_simp
  then show ?thesis using domain_set_is_set [OF ref_name_laws] by blast
qed

end
