(* ===== verification/Domain_Tree.thy ===== *)
theory Domain_Tree
  imports Dns
begin

text \<open>
  What the program relies on of the tree of domain names (\<open>domaintree\<close> of the \<open>cement\<close> library):
  \<open>domaintree_laws G D ct\<close> says that the tree \<open>t\<close> holds the names and data of the set \<open>ct t\<close>, that a
  search finds the data of an equal name, and that it otherwise returns the data of the names that
  enclose the one searched, the closest first. The reference tree at the end is a list.
\<close>

definition domaintree_laws :: "'n g53 \<Rightarrow> ('t, 'n, 'v) domaintree \<Rightarrow> ('t \<Rightarrow> ('n \<times> 'v) set) \<Rightarrow> bool" where
  "domaintree_laws G D ct \<longleftrightarrow>
     ct (NewDomainTree D) = {} \<and>
     (\<forall>t n v. (\<forall>p\<in>ct t. \<not> Name_Equals G (fst p) n) \<longrightarrow>
        (\<exists>t'. dt_Insert D t n v = Inr t' \<and> ct t' = insert (n, v) (ct t))) \<and>
     (\<forall>t n. ct (dt_Delete D t n) = {p \<in> ct t. \<not> Name_Equals G (fst p) n}) \<and>
     (\<forall>t n m v. (m, v) \<in> ct t \<longrightarrow> Name_Equals G m n \<longrightarrow>
        (\<exists>rest. dt_SearchParents D t n = (Some v # rest, ExactMatch))) \<and>
     (\<forall>t n. (\<forall>p\<in>ct t. \<not> Name_Equals G (fst p) n) \<longrightarrow>
        (if \<exists>p\<in>ct t. Name_IsSubDomain G n (fst p)
         then \<exists>ps. dt_SearchParents D t n = (map (Some \<circ> snd) ps, ClosestEncloser) \<and>
                   set ps = {p \<in> ct t. Name_IsSubDomain G n (fst p)} \<and>
                   sorted_wrt (\<lambda>p q. Name_IsSubDomain G (fst p) (fst q)) ps
         else snd (dt_SearchParents D t n) = NotFound))"

definition absent :: "'n g53 \<Rightarrow> ('n \<times> 'v) set \<Rightarrow> 'n \<Rightarrow> bool" where
  "absent G c n \<longleftrightarrow> (\<forall>p\<in>c. \<not> Name_Equals G (fst p) n)"

lemma tree_New: "domaintree_laws G D ct \<Longrightarrow> ct (NewDomainTree D) = {}"
  by (simp add: domaintree_laws_def)

lemma tree_Insert:
  "domaintree_laws G D ct \<Longrightarrow> absent G (ct t) n \<Longrightarrow> \<exists>t'. dt_Insert D t n v = Inr t' \<and> ct t' = insert (n, v) (ct t)"
  unfolding domaintree_laws_def absent_def by meson

lemma tree_Delete: "domaintree_laws G D ct \<Longrightarrow> ct (dt_Delete D t n) = {p \<in> ct t. \<not> Name_Equals G (fst p) n}"
  unfolding domaintree_laws_def by meson

lemma tree_Exact:
  "domaintree_laws G D ct \<Longrightarrow> (m, v) \<in> ct t \<Longrightarrow> Name_Equals G m n \<Longrightarrow>
   \<exists>rest. dt_SearchParents D t n = (Some v # rest, ExactMatch)"
  unfolding domaintree_laws_def by meson

lemma tree_NotFound:
  assumes "domaintree_laws G D ct" "absent G (ct t) n" "\<not> (\<exists>p\<in>ct t. Name_IsSubDomain G n (fst p))"
  shows "snd (dt_SearchParents D t n) = NotFound"
  using assms unfolding domaintree_laws_def absent_def by (metis (no_types, lifting))

lemma tree_Closest:
  assumes "domaintree_laws G D ct" "absent G (ct t) n" "\<exists>p\<in>ct t. Name_IsSubDomain G n (fst p)"
  shows "\<exists>ps. dt_SearchParents D t n = (map (Some \<circ> snd) ps, ClosestEncloser) \<and>
    set ps = {p \<in> ct t. Name_IsSubDomain G n (fst p)} \<and> sorted_wrt (\<lambda>p q. Name_IsSubDomain G (fst p) (fst q)) ps"
proof -
  have "if \<exists>p\<in>ct t. Name_IsSubDomain G n (fst p)
    then \<exists>ps. dt_SearchParents D t n = (map (Some \<circ> snd) ps, ClosestEncloser) \<and>
      set ps = {p \<in> ct t. Name_IsSubDomain G n (fst p)} \<and> sorted_wrt (\<lambda>p q. Name_IsSubDomain G (fst p) (fst q)) ps
    else snd (dt_SearchParents D t n) = NotFound"
    using assms(1,2) unfolding domaintree_laws_def absent_def by meson
  then show ?thesis unfolding if_P [OF assms(3)] .
qed

lemma tree_not_exact:
  assumes "domaintree_laws G D ct" "absent G (ct t) n"
  shows "snd (dt_SearchParents D t n) \<noteq> ExactMatch"
proof (cases "\<exists>p\<in>ct t. Name_IsSubDomain G n (fst p)")
  case True
  then show ?thesis using tree_Closest [OF assms] by auto
next
  case False
  then show ?thesis using tree_NotFound [OF assms] by simp
qed

section \<open>A reference tree\<close>

text \<open>The list of names and data, the latest first; an equal name hides the ones behind it.\<close>

definition same_name :: "string list \<Rightarrow> string list \<times> 'v \<Rightarrow> bool" where
  "same_name n p \<longleftrightarrow> map ToLower (fst p) = map ToLower n"

definition enclosers :: "(string list \<times> 'v) list \<Rightarrow> string list \<Rightarrow> (string list \<times> 'v) list" where
  "enclosers t n = concat (map (\<lambda>k. case find (same_name (drop k n)) t of None \<Rightarrow> [] | Some p \<Rightarrow> [p]) [0..<Suc (length n)])"

definition list_domaintree :: "((string list \<times> 'v) list, string list, 'v) domaintree" where
  "list_domaintree = \<lparr>
     NewDomainTree = [],
     dt_Insert = (\<lambda>t n v. if find (same_name n) t \<noteq> None then Inl ''duplicate name'' else Inr ((n, v) # t)),
     dt_Delete = (\<lambda>t n. filter (\<lambda>p. \<not> same_name n p) t),
     dt_Search = (\<lambda>t n. case find (same_name n) t of
        Some p \<Rightarrow> (Some (snd p), ExactMatch)
      | None \<Rightarrow> (case enclosers t n of p # _ \<Rightarrow> (Some (snd p), ClosestEncloser) | [] \<Rightarrow> (None, NotFound))),
     dt_SearchParents = (\<lambda>t n. (map (Some \<circ> snd) (enclosers t n),
        if find (same_name n) t \<noteq> None then ExactMatch else if enclosers t n \<noteq> [] then ClosestEncloser else NotFound))\<rparr>"

definition list_content :: "(string list \<times> 'v) list \<Rightarrow> (string list \<times> 'v) set" where
  "list_content t = {p. find (same_name (fst p)) t = Some p}"

lemma ref_Equals: "Name_Equals ref_g53 a b \<longleftrightarrow> map ToLower a = map ToLower b"
  by (simp add: ref_g53_simps)

lemma ref_IsSubDomain: "Name_IsSubDomain ref_g53 a b \<longleftrightarrow> (\<exists>k \<le> length a. map ToLower (drop k a) = map ToLower b)"
  by (auto simp: ref_g53_simps less_Suc_eq_le simp del: upt_Suc intro: exI [of _ "length a"])

lemma same_name_cong: "map ToLower n = map ToLower m \<Longrightarrow> same_name n = same_name m"
  by (auto simp: same_name_def fun_eq_iff)

lemma find_same: "find (same_name n) t = Some p \<Longrightarrow> p \<in> list_content t \<and> map ToLower (fst p) = map ToLower n"
proof -
  assume f: "find (same_name n) t = Some p"
  then have "same_name n p" by (auto simp: find_Some_iff)
  then have e: "map ToLower (fst p) = map ToLower n" by (simp add: same_name_def)
  then show ?thesis using f by (simp add: list_content_def same_name_cong [OF e])
qed

lemma content_find: "p \<in> list_content t \<Longrightarrow> map ToLower (fst p) = map ToLower n \<Longrightarrow> find (same_name n) t = Some p"
  by (simp add: list_content_def same_name_cong [of n "fst p"])

lemma find_same_iff: "find (same_name n) t = Some p \<longleftrightarrow> p \<in> list_content t \<and> map ToLower n = map ToLower (fst p)"
  using find_same [of n t p] content_find [of p t n] by metis

lemma find_same_None: "find (same_name n) t = None \<longleftrightarrow> (\<forall>p\<in>list_content t. map ToLower (fst p) \<noteq> map ToLower n)"
  using find_same [of n t] content_find [of _ t n] by (cases "find (same_name n) t") auto

lemma set_case_option: "set (case x of None \<Rightarrow> [] | Some p \<Rightarrow> [p]) = set_option x"
  by (cases x) simp_all

lemma set_enclosers: "set (enclosers t n) = {p \<in> list_content t. Name_IsSubDomain ref_g53 n (fst p)}"
proof -
  have "p \<in> set (enclosers t n) \<longleftrightarrow> (\<exists>k \<le> length n. find (same_name (drop k n)) t = Some p)" for p
    by (auto simp: enclosers_def less_Suc_eq_le set_case_option simp del: upt_Suc)
  then show ?thesis by (auto simp: find_same_iff ref_IsSubDomain)
qed

lemma sorted_enclosers: "sorted_wrt (\<lambda>p q. Name_IsSubDomain ref_g53 (fst p) (fst q)) (enclosers t n)"
proof -
  have "sorted_wrt (\<lambda>p q. Name_IsSubDomain ref_g53 (fst p) (fst q))
      (concat (map (\<lambda>k. case find (same_name (drop k n)) t of None \<Rightarrow> [] | Some p \<Rightarrow> [p]) ks))"
    if "sorted_wrt (<) ks" "\<forall>k\<in>set ks. k \<le> length n" for ks
    using that
  proof (induction ks)
    case (Cons k ks)
    have "Name_IsSubDomain ref_g53 (fst p) (fst q)"
      if p: "find (same_name (drop k n)) t = Some p" and j: "j \<in> set ks" "find (same_name (drop j n)) t = Some q" for p q j
    proof -
      have e: "map ToLower (fst p) = map ToLower (drop k n)" "map ToLower (fst q) = map ToLower (drop j n)"
        using find_same [OF p] find_same [OF j(2)] by auto
      have le: "k < j" "j \<le> length n" using Cons.prems j(1) by auto
      have "map ToLower (drop (j - k) (fst p)) = drop (j - k) (map ToLower (fst p))" by (simp add: drop_map)
      also have "\<dots> = map ToLower (fst q)" using le by (simp add: e drop_map)
      finally have "map ToLower (drop (j - k) (fst p)) = map ToLower (fst q)" .
      moreover have "length (fst p) = length n - k" using e(1) by (metis length_drop length_map)
      ultimately show ?thesis using le by (auto simp: ref_IsSubDomain intro!: exI [of _ "j - k"])
    qed
    then show ?case using Cons by (cases "find (same_name (drop k n)) t") (auto simp: sorted_wrt_append set_case_option)
  qed simp
  then show ?thesis unfolding enclosers_def by (simp del: upt_Suc)
qed

lemma list_domaintree_laws: "domaintree_laws ref_g53 list_domaintree list_content"
  unfolding domaintree_laws_def
proof (intro conjI allI impI)
  show "list_content (NewDomainTree (list_domaintree :: ((string list \<times> 'a) list, string list, 'a) domaintree)) = {}"
    by (simp add: list_content_def list_domaintree_def)
next
  fix n and t :: "(string list \<times> 'a) list" and v :: 'a
  assume a: "\<forall>p\<in>list_content t. \<not> Name_Equals ref_g53 (fst p) n"
  then have "find (same_name n) t = None" by (simp add: find_same_None ref_Equals)
  moreover have "list_content ((n, v) # t) = insert (n, v) (list_content t)"
  proof (rule set_eqI)
    fix p
    show "p \<in> list_content ((n, v) # t) \<longleftrightarrow> p \<in> insert (n, v) (list_content t)"
    proof (cases "map ToLower n = map ToLower (fst p)")
      case True
      then have "p \<notin> list_content t" using a by (auto simp: ref_Equals)
      then show ?thesis using True by (auto simp: list_content_def same_name_def)
    next
      case False
      then have "p \<noteq> (n, v)" by auto
      then show ?thesis using False by (simp add: list_content_def same_name_def)
    qed
  qed
  ultimately show "\<exists>t'. dt_Insert list_domaintree t n v = Inr t' \<and> list_content t' = insert (n, v) (list_content t)"
    by (simp add: list_domaintree_def)
next
  fix n and t :: "(string list \<times> 'a) list"
  have keep: "find P (filter (\<lambda>p. \<not> Q p) xs) = find P xs" if "\<And>x. P x \<Longrightarrow> \<not> Q x"
    for P Q and xs :: "(string list \<times> 'a) list" using that by (induction xs) auto
  have drop: "find P (filter (\<lambda>p. \<not> Q p) xs) = None" if "\<And>x. P x \<Longrightarrow> Q x"
    for P Q and xs :: "(string list \<times> 'a) list" using that by (induction xs) auto
  have "find (same_name (fst p)) (filter (\<lambda>p. \<not> same_name n p) t) =
      (if map ToLower (fst p) = map ToLower n then None else find (same_name (fst p)) t)" for p :: "string list \<times> 'a"
  proof (cases "map ToLower (fst p) = map ToLower n")
    case True
    then show ?thesis using drop [of "same_name (fst p)" "same_name n"] by (simp add: same_name_cong [OF True])
  next
    case False
    then show ?thesis using keep [of "same_name (fst p)" "same_name n" t] by (simp add: same_name_def)
  qed
  then show "list_content (dt_Delete list_domaintree t n) = {p \<in> list_content t. \<not> Name_Equals ref_g53 (fst p) n}"
    by (auto simp: list_content_def list_domaintree_def ref_Equals)
next
  fix n m and t :: "(string list \<times> 'a) list" and v :: 'a
  assume "(m, v) \<in> list_content t" "Name_Equals ref_g53 m n"
  then have f: "find (same_name n) t = Some (m, v)" by (simp add: content_find ref_Equals)
  have "enclosers t n = (m, v) # concat (map (\<lambda>k. case find (same_name (drop k n)) t of None \<Rightarrow> [] | Some p \<Rightarrow> [p]) [Suc 0..<Suc (length n)])"
    using f by (simp add: enclosers_def upt_conv_Cons del: upt_Suc)
  then show "\<exists>rest. dt_SearchParents list_domaintree t n = (Some v # rest, ExactMatch)"
    using f by (simp add: list_domaintree_def)
next
  fix n and t :: "(string list \<times> 'a) list"
  assume "\<forall>p\<in>list_content t. \<not> Name_Equals ref_g53 (fst p) n"
  then have f: "find (same_name n) t = None" by (simp add: find_same_None ref_Equals)
  have ex: "(\<exists>p\<in>list_content t. Name_IsSubDomain ref_g53 n (fst p)) \<longleftrightarrow> enclosers t n \<noteq> []"
    using set_enclosers [of t n] by (metis (mono_tags, lifting) Collect_empty_eq set_empty)
  show "if \<exists>p\<in>list_content t. Name_IsSubDomain ref_g53 n (fst p)
    then \<exists>ps. dt_SearchParents list_domaintree t n = (map (Some \<circ> snd) ps, ClosestEncloser) \<and>
      set ps = {p \<in> list_content t. Name_IsSubDomain ref_g53 n (fst p)} \<and>
      sorted_wrt (\<lambda>p q. Name_IsSubDomain ref_g53 (fst p) (fst q)) ps
    else snd (dt_SearchParents list_domaintree t n) = NotFound"
    using sorted_enclosers [of t n] ex f
    by (cases "enclosers t n = []") (simp_all add: list_domaintree_def exI [of _ "enclosers t n"] set_enclosers)
qed

section \<open>The two searches\<close>

text \<open>
  \<open>Search\<close> returns the data of the name or of its closest encloser, the first that \<open>SearchParents\<close>
  lists.
\<close>

definition search_agrees :: "('t, 'n, 'v) domaintree \<Rightarrow> bool" where
  "search_agrees D \<longleftrightarrow>
     (\<forall>t n. snd (dt_Search D t n) = snd (dt_SearchParents D t n) \<and>
        (snd (dt_Search D t n) \<noteq> NotFound \<longrightarrow> fst (dt_Search D t n) = hd (fst (dt_SearchParents D t n))))"

lemma list_search_agrees: "search_agrees list_domaintree"
proof -
  have "\<exists>ps. enclosers t n = p # ps" if "find (same_name n) t = Some p" for t n p
    using that by (simp add: enclosers_def upt_conv_Cons del: upt_Suc)
  then show ?thesis by (fastforce simp: search_agrees_def list_domaintree_def split: option.splits list.splits)
qed

end
