(* ===== verification/Local_Data.thy ===== *)
theory Local_Data
  imports Core Util Domain_Tree
begin

text \<open>
  Answers from local policies, \<open>localdata/\<close>: the policies of a name (\<open>localpolicy.go\<close>), their text
  (\<open>localpolicybuilder.go\<close>), the trees of policies of the views (\<open>localdata.go\<close>) and the name a
  policy is looked up for (\<open>dnsutil.go\<close>); the resolver that answers from them,
  \<open>resolver/fakeauth/\<close>, and the handler that replaces negative answers by them,
  \<open>responsetransfer/hijack/\<close>. A tree holds the addresses of its policies, so that a policy changed
  in place is seen wherever it is reached. The lemmas show which queries a policy answers and with
  what, and what merging two policies of one name loses.
\<close>

section \<open>Policies\<close>

record 'n basePolicy =
  bp_name :: 'n
  bp_isZoneMatch :: bool

datatype 'n LocalPolicy =
    PolNXDomain "'n basePolicy"
  | PolNXRRset "'n basePolicy"
  | PolExceptionDomain "'n basePolicy"
  | PolLocalRRset "'n basePolicy" "'n RRset list"

datatype LocalPolicyType = LPNXDomain | LPNXRRset | LPExceptionDomain | LPLocalRRset

text \<open>What is used of the RRsets of the DNS library.\<close>

record 'n rrset_lib =
  f_RdataFromString :: "u16 \<Rightarrow> string \<Rightarrow> string + 'n Rdata"
  f_RRset_AddRdata :: "'n Rdata \<Rightarrow> 'n RRset \<Rightarrow> string + 'n RRset"
  f_RRset_RemoveRdata :: "'n Rdata \<Rightarrow> 'n RRset \<Rightarrow> 'n RRset"
  f_RRset_RRCount :: "'n RRset \<Rightarrow> nat"

fun pol_base :: "'n LocalPolicy \<Rightarrow> 'n basePolicy" where
  "pol_base (PolNXDomain b) = b"
| "pol_base (PolNXRRset b) = b"
| "pol_base (PolExceptionDomain b) = b"
| "pol_base (PolLocalRRset b rs) = b"

definition GetName :: "'n LocalPolicy \<Rightarrow> 'n" where
  "GetName p = bp_name (pol_base p)"

definition IsZoneMatch :: "'n LocalPolicy \<Rightarrow> bool" where
  "IsZoneMatch p = bp_isZoneMatch (pol_base p)"

text \<open>The TTL is converted to 32 bits.\<close>

definition newLocalRRset ::
  "'n g53 \<Rightarrow> 'n rrset_lib \<Rightarrow> 'n basePolicy \<Rightarrow> string \<Rightarrow> int \<Rightarrow> string \<Rightarrow> string + 'n LocalPolicy" where
  "newLocalRRset G R base typ ttl rdataStr =
     bindE (TypeFromString G typ) (\<lambda>rrType.
     bindE (f_RdataFromString R rrType rdataStr) (\<lambda>rdata.
       Inr (PolLocalRRset base [\<lparr>rr_Name = bp_name base, rr_Type = rrType, rr_Class = CLASS_IN,
                                 rr_Ttl = word_of_int ttl, rr_Rdatas = [rdata]\<rparr>])))"

text \<open>The message is the client's response, changed in place, or a new one.\<close>

fun localRRset_message :: "'n rrset_lib \<Rightarrow> u16 \<Rightarrow> 'n \<Rightarrow> 'n RRset list \<Rightarrow> 'n Message \<Rightarrow> 'n Message option" where
  "localRRset_message R qtype qname [] msg = None"
| "localRRset_message R qtype qname (rrset # rrsets) msg =
     (if rr_Type rrset = qtype
      then Some (msg\<lparr>m_Header := (m_Header msg)\<lparr>h_ANCount := of_nat (f_RRset_RRCount R rrset), h_Rcode := R_NOERROR\<rparr>,
                     m_Answer := m_Answer msg @ [\<lparr>rr_Name = qname, rr_Type = rr_Type rrset, rr_Class = rr_Class rrset,
                                                 rr_Ttl = rr_Ttl rrset, rr_Rdatas = rr_Rdatas rrset\<rparr>]\<rparr>)
      else localRRset_message R qtype qname rrsets msg)"

definition with_rcode :: "Rcode \<Rightarrow> 'n Message \<Rightarrow> 'n Message" where
  "with_rcode c m = m\<lparr>m_Header := (m_Header m)\<lparr>h_Rcode := c\<rparr>\<rparr>"

fun GetMessage :: "'n g53 \<Rightarrow> 'n rrset_lib \<Rightarrow> 'n Client \<Rightarrow> 'n \<Rightarrow> 'n LocalPolicy \<Rightarrow> 'n Message option may_panic" where
  "GetMessage G R cli qname (PolNXDomain b) = Some (Some (with_rcode R_NXDOMAIN (Message_MakeResponse G (c_Request cli))))"
| "GetMessage G R cli qname (PolNXRRset b) = Some (Some (with_rcode R_NOERROR (Message_MakeResponse G (c_Request cli))))"
| "GetMessage G R cli qname (PolExceptionDomain b) = Some None"
| "GetMessage G R cli qname (PolLocalRRset b rrsets) =
     (let msg = (case c_Response cli of Some m \<Rightarrow> m | None \<Rightarrow> Message_MakeResponse G (c_Request cli)) in
      if rrsets = [] then Some None
      else case m_Question (c_Request cli) of
             None \<Rightarrow> None
           | Some q \<Rightarrow> Some (localRRset_message R (q_Type q) qname rrsets msg))"

fun add_rdatas :: "'n rrset_lib \<Rightarrow> 'n Rdata list \<Rightarrow> 'n RRset \<Rightarrow> 'n RRset \<times> string option" where
  "add_rdatas R [] old = (old, None)"
| "add_rdatas R (d # ds) old =
     (case f_RRset_AddRdata R d old of
        Inl err \<Rightarrow> (old, Some err)
      | Inr old' \<Rightarrow> add_rdatas R ds old')"

text \<open>\<open>addRRset\<close> on the list of RRsets: the first one of the type gets the data, even part of them before an error.\<close>

fun addRRset :: "'n rrset_lib \<Rightarrow> 'n RRset \<Rightarrow> 'n RRset list \<Rightarrow> 'n RRset list \<times> string option" where
  "addRRset R new [] = ([new], None)"
| "addRRset R new (old # rest) =
     (if rr_Type old = rr_Type new then
        (case add_rdatas R (rr_Rdatas new) old of
           (old', Some err) \<Rightarrow> (old' # rest, Some err)
         | (old', None) \<Rightarrow> (old'\<lparr>rr_Ttl := rr_Ttl new\<rparr> # rest, None))
      else (case addRRset R new rest of (rest', e) \<Rightarrow> (old # rest', e)))"

text \<open>
  \<open>deleteRRset\<close> ranges over the slice while it removes from it. The types of a policy's RRsets are
  distinct (\<open>policy_ok\<close> below), so at most one element matches and the shifted elements are not
  missed.
\<close>

fun deleteRRset :: "'n rrset_lib \<Rightarrow> 'n RRset \<Rightarrow> 'n RRset list \<Rightarrow> 'n RRset list" where
  "deleteRRset R new [] = []"
| "deleteRRset R new (old # rest) =
     (if rr_Type old = rr_Type new then
        (let old' = fold (f_RRset_RemoveRdata R) (rr_Rdatas new) old in
         if f_RRset_RRCount R old' = 0 then rest else old' # rest)
      else old # deleteRRset R new rest)"

section \<open>Policies as text\<close>

definition ErrRedirectRRInvalid :: string where
  "ErrRedirectRRInvalid = ''redirect rr should in format name, type, ttl, rdata''"

definition BuildLocalPolicy :: "'n g53 \<Rightarrow> 'n rrset_lib \<Rightarrow> LocalPolicyType \<Rightarrow> string \<Rightarrow> string + 'n LocalPolicy" where
  "BuildLocalPolicy G R lPType data =
     (let fields = split_char CHR '' '' data in
      bindE (NameStripFirstWildcard G (hd fields)) (\<lambda>(isZoneMatch, origin).
        let base = \<lparr>bp_name = origin, bp_isZoneMatch = isZoneMatch\<rparr> in
        case lPType of
          LPNXDomain \<Rightarrow> Inr (PolNXDomain base)
        | LPNXRRset \<Rightarrow> Inr (PolNXRRset base)
        | LPExceptionDomain \<Rightarrow> Inr (PolExceptionDomain base)
        | LPLocalRRset \<Rightarrow>
            if length fields < 4 then Inl ErrRedirectRRInvalid
            else case Atoi (fields ! 1) of
                   None \<Rightarrow> Inl ''invalid syntax''
                 | Some ttl \<Rightarrow> newLocalRRset G R base (fields ! 2) ttl (strings_Join (drop 3 fields) '' '')))"

section \<open>The policies of the views\<close>

definition ErrInvalidPolicy :: cmd_error where
  "ErrInvalidPolicy = NewError LocalDataErrCodeStart ''policy data isn't valid''"
definition ErrDuplicatePolicy :: cmd_error where
  "ErrDuplicatePolicy = NewError (LocalDataErrCodeStart + 1) ''duplicate policy''"

record ('t, 'n) LocalData =
  ld_policies :: "view \<rightharpoonup> 't"
  ld_heap :: "nat \<rightharpoonup> 'n LocalPolicy"
  ld_fresh :: nat

definition NewLocalData :: "('t, 'n) LocalData" where
  "NewLocalData = \<lparr>ld_policies = Map.empty, ld_heap = Map.empty, ld_fresh = 0\<rparr>"

definition realQueryName :: "'n Client \<Rightarrow> 'n may_panic" where
  "realQueryName client =
     (case m_Question (c_Request client) of
        None \<Rightarrow> None
      | Some q \<Rightarrow>
          (case c_Response client of
             None \<Rightarrow> Some (q_Name q)
           | Some r \<Rightarrow>
               if m_Answer r = [] \<or> rr_Type (last (m_Answer r)) \<noteq> RR_CNAME then Some (q_Name q)
               else (case rr_Rdatas (last (m_Answer r)) of RdCName n # _ \<Rightarrow> Some n | _ \<Rightarrow> None)))"

text \<open>The data of a node: nil is a panic of the type assertion.\<close>

definition policy_at :: "('t, 'n) LocalData \<Rightarrow> nat option \<Rightarrow> 'n LocalPolicy may_panic" where
  "policy_at l x = (case x of None \<Rightarrow> None | Some a \<Rightarrow> ld_heap l a)"

fun encloser_message ::
  "'n g53 \<Rightarrow> 'n rrset_lib \<Rightarrow> ('t, 'n) LocalData \<Rightarrow> 'n Client \<Rightarrow> 'n \<Rightarrow> nat option list \<Rightarrow> 'n Message option may_panic" where
  "encloser_message G R l client qname [] = Some None"
| "encloser_message G R l client qname (x # xs) =
     (case policy_at l x of
        None \<Rightarrow> None
      | Some p \<Rightarrow>
          if IsZoneMatch p then
            (case GetMessage G R client qname p of
               None \<Rightarrow> None
             | Some (Some msg) \<Rightarrow> Some (Some msg)
             | Some None \<Rightarrow> encloser_message G R l client qname xs)
          else encloser_message G R l client qname xs)"

definition ResponseWithLocalData ::
  "'n g53 \<Rightarrow> 'n rrset_lib \<Rightarrow> ('t, 'n, nat) domaintree \<Rightarrow> ('t, 'n) LocalData \<Rightarrow> 'n Client \<Rightarrow> ('n Client \<times> bool) may_panic" where
  "ResponseWithLocalData G R D l client =
     (case ld_policies l (c_View client) of
        None \<Rightarrow> Some (client, False)
      | Some ps \<Rightarrow>
          Option.bind (realQueryName client) (\<lambda>qname.
          Option.bind
            (case dt_SearchParents D ps qname of
               (x # _, ExactMatch) \<Rightarrow> Option.bind (policy_at l x) (GetMessage G R client qname)
             | ([], ExactMatch) \<Rightarrow> None
             | (xs, ClosestEncloser) \<Rightarrow> encloser_message G R l client qname xs
             | (xs, NotFound) \<Rightarrow> Some None)
            (\<lambda>resp. case resp of
                      Some msg \<Rightarrow> Some (client\<lparr>c_Response := Some msg\<rparr>, True)
                    | None \<Rightarrow> Some (client, False))))"

fun addRRsets :: "'n rrset_lib \<Rightarrow> 'n RRset list \<Rightarrow> 'n RRset list \<Rightarrow> 'n RRset list \<times> string option" where
  "addRRsets R [] olds = (olds, None)"
| "addRRsets R (r # rs) olds =
     (case addRRset R r olds of
        (olds', Some err) \<Rightarrow> (olds', Some err)
      | (olds', None) \<Rightarrow> addRRsets R rs olds')"

definition tree_of :: "('t, 'n, nat) domaintree \<Rightarrow> view \<Rightarrow> ('t, 'n) LocalData \<Rightarrow> 't" where
  "tree_of D v l = (case ld_policies l v of Some ps \<Rightarrow> ps | None \<Rightarrow> NewDomainTree D)"

text \<open>The result of \<open>Insert\<close> is not looked at: a tree that refuses the name stays as it is.\<close>

definition insert_policy ::
  "('t, 'n, nat) domaintree \<Rightarrow> view \<Rightarrow> 't \<Rightarrow> 'n LocalPolicy \<Rightarrow> ('t, 'n) LocalData \<Rightarrow> ('t, 'n) LocalData" where
  "insert_policy D v ps p l =
     (let a = ld_fresh l in
      l\<lparr>ld_policies := (ld_policies l)(v \<mapsto> (case dt_Insert D ps (GetName p) a of Inr ps' \<Rightarrow> ps' | Inl err \<Rightarrow> ps)),
        ld_heap := (ld_heap l)(a \<mapsto> p), ld_fresh := Suc a\<rparr>)"

definition addPolicy ::
  "'n rrset_lib \<Rightarrow> ('t, 'n, nat) domaintree \<Rightarrow> view \<Rightarrow> 'n LocalPolicy \<Rightarrow> ('t, 'n) LocalData
   \<Rightarrow> (('t, 'n) LocalData \<times> cmd_error option) may_panic" where
  "addPolicy R D v p l =
     (let ps = tree_of D v l; l1 = l\<lparr>ld_policies := (ld_policies l)(v \<mapsto> ps)\<rparr> in
      case dt_SearchParents D ps (GetName p) of
        (Some a # _, ExactMatch) \<Rightarrow>
          (case ld_heap l1 a of
             None \<Rightarrow> None
           | Some (PolLocalRRset b olds) \<Rightarrow>
               (case p of
                  PolLocalRRset _ news \<Rightarrow>
                    (case addRRsets R news olds of
                       (olds', e) \<Rightarrow>
                         Some (l1\<lparr>ld_heap := (ld_heap l1)(a \<mapsto> PolLocalRRset b olds')\<rparr>,
                               map_option (AddDetail ErrDuplicatePolicy) e))
                | _ \<Rightarrow> Some (l1, Some ErrDuplicatePolicy))
           | Some _ \<Rightarrow> Some (l1, Some ErrDuplicatePolicy))
      | (_, ExactMatch) \<Rightarrow> None
      | _ \<Rightarrow> Some (insert_policy D v ps p l1, None))"

fun AddPolicies ::
  "'n g53 \<Rightarrow> 'n rrset_lib \<Rightarrow> ('t, 'n, nat) domaintree \<Rightarrow> view \<Rightarrow> LocalPolicyType \<Rightarrow> string list \<Rightarrow> ('t, 'n) LocalData
   \<Rightarrow> (('t, 'n) LocalData \<times> cmd_error option) may_panic" where
  "AddPolicies G R D v typ [] l = Some (l, None)"
| "AddPolicies G R D v typ (data # datas) l =
     (case BuildLocalPolicy G R typ data of
        Inl err \<Rightarrow> Some (l, Some (AddDetail ErrInvalidPolicy err))
      | Inr p \<Rightarrow>
          (case addPolicy R D v p l of
             None \<Rightarrow> None
           | Some (l', Some err) \<Rightarrow> Some (l', Some err)
           | Some (l', None) \<Rightarrow> AddPolicies G R D v typ datas l'))"

definition removePolicy ::
  "'n rrset_lib \<Rightarrow> ('t, 'n, nat) domaintree \<Rightarrow> view \<Rightarrow> 'n LocalPolicy \<Rightarrow> ('t, 'n) LocalData
   \<Rightarrow> (('t, 'n) LocalData \<times> cmd_error option) may_panic" where
  "removePolicy R D v p l =
     (case ld_policies l v of
        None \<Rightarrow> Some (l, Some ErrUnknownView)
      | Some ps \<Rightarrow>
          (case dt_SearchParents D ps (GetName p) of
             (Some a # _, ExactMatch) \<Rightarrow>
               (case ld_heap l a of
                  None \<Rightarrow> None
                | Some (PolLocalRRset b olds) \<Rightarrow>
                    (case p of
                       PolLocalRRset _ news \<Rightarrow>
                         (let olds' = fold (deleteRRset R) news olds;
                              l1 = l\<lparr>ld_heap := (ld_heap l)(a \<mapsto> PolLocalRRset b olds')\<rparr>
                          in Some (if olds' = []
                                   then l1\<lparr>ld_policies := (ld_policies l1)(v \<mapsto> dt_Delete D ps (GetName p))\<rparr>
                                   else l1, None))
                     | _ \<Rightarrow> Some (l, None))
                | Some _ \<Rightarrow> Some (l\<lparr>ld_policies := (ld_policies l)(v \<mapsto> dt_Delete D ps (GetName p))\<rparr>, None))
           | (_, ExactMatch) \<Rightarrow> None
           | _ \<Rightarrow> Some (l, None)))"

fun RemovePolicies ::
  "'n g53 \<Rightarrow> 'n rrset_lib \<Rightarrow> ('t, 'n, nat) domaintree \<Rightarrow> view \<Rightarrow> LocalPolicyType \<Rightarrow> string list \<Rightarrow> ('t, 'n) LocalData
   \<Rightarrow> (('t, 'n) LocalData \<times> cmd_error option) may_panic" where
  "RemovePolicies G R D v typ [] l = Some (l, None)"
| "RemovePolicies G R D v typ (data # datas) l =
     (case BuildLocalPolicy G R typ data of
        Inl err \<Rightarrow> Some (l, Some (AddDetail ErrInvalidPolicy err))
      | Inr p \<Rightarrow>
          (case removePolicy R D v p l of
             None \<Rightarrow> None
           | Some (l', Some err) \<Rightarrow> Some (l', Some err)
           | Some (l', None) \<Rightarrow> RemovePolicies G R D v typ datas l'))"

section \<open>The resolver of local data\<close>

record LocaldataInView =
  ldc_View :: view
  ldc_NXDomain :: "string list"
  ldc_NXRRset :: "string list"
  ldc_Exception :: "string list"
  ldc_Redirect :: "string list"

text \<open>A policy that is refused while the configuration is read is a panic.\<close>

definition must_add ::
  "'n g53 \<Rightarrow> 'n rrset_lib \<Rightarrow> ('t, 'n, nat) domaintree \<Rightarrow> view \<Rightarrow> LocalPolicyType \<Rightarrow> string list \<Rightarrow> ('t, 'n) LocalData
   \<Rightarrow> ('t, 'n) LocalData may_panic" where
  "must_add G R D v typ datas l =
     (case AddPolicies G R D v typ datas l of Some (l', None) \<Rightarrow> Some l' | _ \<Rightarrow> None)"

fun fakeauth_load ::
  "'n g53 \<Rightarrow> 'n rrset_lib \<Rightarrow> ('t, 'n, nat) domaintree \<Rightarrow> LocaldataInView list \<Rightarrow> ('t, 'n) LocalData \<Rightarrow> ('t, 'n) LocalData may_panic" where
  "fakeauth_load G R D [] l = Some l"
| "fakeauth_load G R D (c # cs) l =
     Option.bind (must_add G R D (ldc_View c) LPNXDomain (ldc_NXDomain c) l) (\<lambda>l1.
     Option.bind (must_add G R D (ldc_View c) LPNXRRset (ldc_NXRRset c) l1) (\<lambda>l2.
     Option.bind (must_add G R D (ldc_View c) LPExceptionDomain (ldc_Exception c) l2) (\<lambda>l3.
     Option.bind (must_add G R D (ldc_View c) LPLocalRRset (ldc_Redirect c) l3) (fakeauth_load G R D cs))))"

definition fakeauth_ReloadConfig ::
  "'n g53 \<Rightarrow> 'n rrset_lib \<Rightarrow> ('t, 'n, nat) domaintree \<Rightarrow> LocaldataInView list \<Rightarrow> ('t, 'n) LocalData may_panic" where
  "fakeauth_ReloadConfig G R D confs = fakeauth_load G R D confs NewLocalData"

text \<open>A resolver of the resolver chain, linked to the next one.\<close>

definition fakeauth_Resolve ::
  "'n g53 \<Rightarrow> 'n rrset_lib \<Rightarrow> ('t, 'n, nat) domaintree \<Rightarrow> ('w \<Rightarrow> ('t, 'n) LocalData) \<Rightarrow> ('w, 'n) handler" where
  "fakeauth_Resolve G R D get nxt w client =
     (case ResponseWithLocalData G R D (get w) client of
        None \<Rightarrow> None
      | Some (client', True) \<Rightarrow> Some (w, client'\<lparr>c_CacheAnswer := False\<rparr>)
      | Some (client', False) \<Rightarrow> PassToNext nxt w client')"

record LocalPolicyData =
  lpd_Policy :: LocalPolicyType
  lpd_View :: view
  lpd_Data :: string

datatype fakeauth_cmd =
  AddLocalData LocalPolicyData | DeleteLocalData LocalPolicyData | UpdateLocalData LocalPolicyData LocalPolicyData

definition cmd_of :: "('t, 'n) LocalData \<Rightarrow> (('t, 'n) LocalData \<times> cmd_error option) may_panic \<Rightarrow> ('t, 'n) LocalData \<times> unit cmd_outcome" where
  "cmd_of l r = (case r of None \<Rightarrow> (l, Panics ''interface conversion'') | Some (l', e) \<Rightarrow> (l', Returns None e))"

definition run_add ::
  "'n g53 \<Rightarrow> 'n rrset_lib \<Rightarrow> ('t, 'n, nat) domaintree \<Rightarrow> view \<Rightarrow> LocalPolicyType \<Rightarrow> string \<Rightarrow> ('t, 'n) LocalData
   \<Rightarrow> ('t, 'n) LocalData \<times> unit cmd_outcome" where
  "run_add G R D v typ data l = cmd_of l (AddPolicies G R D v typ [data] l)"

definition run_remove ::
  "'n g53 \<Rightarrow> 'n rrset_lib \<Rightarrow> ('t, 'n, nat) domaintree \<Rightarrow> view \<Rightarrow> LocalPolicyType \<Rightarrow> string \<Rightarrow> ('t, 'n) LocalData
   \<Rightarrow> ('t, 'n) LocalData \<times> unit cmd_outcome" where
  "run_remove G R D v typ data l = cmd_of l (RemovePolicies G R D v typ [data] l)"

text \<open>An update removes, ignoring the error, and then adds.\<close>

definition run_update ::
  "(('t, 'n) LocalData \<Rightarrow> ('t, 'n) LocalData \<times> unit cmd_outcome) \<Rightarrow>
   (('t, 'n) LocalData \<Rightarrow> ('t, 'n) LocalData \<times> unit cmd_outcome) \<Rightarrow>
   ('t, 'n) LocalData \<Rightarrow> ('t, 'n) LocalData \<times> unit cmd_outcome" where
  "run_update rm ad l = (case rm l of (l', Panics e) \<Rightarrow> (l', Panics e) | (l', Returns _ _) \<Rightarrow> ad l')"

fun fakeauth_HandleCmd ::
  "'n g53 \<Rightarrow> 'n rrset_lib \<Rightarrow> ('t, 'n, nat) domaintree \<Rightarrow> ('t, 'n) LocalData \<Rightarrow> fakeauth_cmd \<Rightarrow> ('t, 'n) LocalData \<times> unit cmd_outcome" where
  "fakeauth_HandleCmd G R D l (AddLocalData d) = run_add G R D (lpd_View d) (lpd_Policy d) (lpd_Data d) l"
| "fakeauth_HandleCmd G R D l (DeleteLocalData d) = run_remove G R D (lpd_View d) (lpd_Policy d) (lpd_Data d) l"
| "fakeauth_HandleCmd G R D l (UpdateLocalData old new) =
     run_update (run_remove G R D (lpd_View old) (lpd_Policy old) (lpd_Data old))
       (run_add G R D (lpd_View new) (lpd_Policy new) (lpd_Data new)) l"

section \<open>Replacing negative answers\<close>

record HijackInView =
  hj_View :: view
  hj_Redirect :: "string list"

fun hijack_load ::
  "'n g53 \<Rightarrow> 'n rrset_lib \<Rightarrow> ('t, 'n, nat) domaintree \<Rightarrow> HijackInView list \<Rightarrow> ('t, 'n) LocalData \<Rightarrow> ('t, 'n) LocalData may_panic" where
  "hijack_load G R D [] l = Some l"
| "hijack_load G R D (c # cs) l =
     Option.bind (must_add G R D (hj_View c) LPLocalRRset (hj_Redirect c) l) (hijack_load G R D cs)"

definition hijack_ReloadConfig ::
  "'n g53 \<Rightarrow> 'n rrset_lib \<Rightarrow> ('t, 'n, nat) domaintree \<Rightarrow> HijackInView list \<Rightarrow> ('t, 'n) LocalData may_panic" where
  "hijack_ReloadConfig G R D confs = hijack_load G R D confs NewLocalData"

definition hijack_TransferResponse ::
  "'n g53 \<Rightarrow> 'n rrset_lib \<Rightarrow> ('t, 'n, nat) domaintree \<Rightarrow> ('t, 'n) LocalData \<Rightarrow> 'n Client \<Rightarrow> 'n Client may_panic" where
  "hijack_TransferResponse G R D l client =
     (case c_Response client of
        Some r \<Rightarrow>
          if h_Rcode (m_Header r) \<noteq> R_NXDOMAIN then Some client
          else map_option fst (ResponseWithLocalData G R D l client)
      | None \<Rightarrow> map_option fst (ResponseWithLocalData G R D l client))"

datatype hijack_cmd =
    AddRedirectRR view string string string string
  | DeleteRedirectRR view string string string
  | UpdateRedirectRR view string string string string string

definition rr_text :: "string \<Rightarrow> string \<Rightarrow> string \<Rightarrow> string \<Rightarrow> string" where
  "rr_text name ttl typ rdata = strings_Join [name, ttl, typ, rdata] '' ''"

fun hijack_HandleCmd ::
  "'n g53 \<Rightarrow> 'n rrset_lib \<Rightarrow> ('t, 'n, nat) domaintree \<Rightarrow> ('t, 'n) LocalData \<Rightarrow> hijack_cmd \<Rightarrow> ('t, 'n) LocalData \<times> unit cmd_outcome" where
  "hijack_HandleCmd G R D l (AddRedirectRR v name ttl typ rdata) =
     run_add G R D v LPLocalRRset (rr_text name ttl typ rdata) l"
| "hijack_HandleCmd G R D l (DeleteRedirectRR v name typ rdata) =
     run_remove G R D v LPLocalRRset (rr_text name ''0'' typ rdata) l"
| "hijack_HandleCmd G R D l (UpdateRedirectRR v name typ oldRdata newTtl newRdata) =
     run_update (run_remove G R D v LPLocalRRset (rr_text name ''0'' typ oldRdata))
       (run_add G R D v LPLocalRRset (rr_text name newTtl typ newRdata)) l"

section \<open>Lemmas\<close>

text \<open>What is relied on of the RRsets: data are added and removed, the other fields kept.\<close>

definition rrset_laws :: "'n rrset_lib \<Rightarrow> bool" where
  "rrset_laws R \<longleftrightarrow>
     (\<forall>d r r'. f_RRset_AddRdata R d r = Inr r' \<longrightarrow> r' = r\<lparr>rr_Rdatas := rr_Rdatas r @ [d]\<rparr>) \<and>
     (\<forall>d r. f_RRset_RemoveRdata R d r = r\<lparr>rr_Rdatas := filter (\<lambda>x. x \<noteq> d) (rr_Rdatas r)\<rparr>) \<and>
     (\<forall>r. f_RRset_RRCount R r = length (rr_Rdatas r))"

definition ref_rrset :: "string list rrset_lib" where
  "ref_rrset = \<lparr>
     f_RdataFromString = (\<lambda>t s. if t = RR_A then (case split_char CHR ''.'' s of
        [a, b, c, d] \<Rightarrow> Inr (RdA (map (\<lambda>x. case Atoi x of None \<Rightarrow> 0 | Some i \<Rightarrow> word_of_int i) [a, b, c, d])) | _ \<Rightarrow> Inl ''bad address'')
      else Inr (RdOther s)),
     f_RRset_AddRdata = (\<lambda>d r. if d \<in> set (rr_Rdatas r) then Inl ''duplicate rdata'' else Inr (r\<lparr>rr_Rdatas := rr_Rdatas r @ [d]\<rparr>)),
     f_RRset_RemoveRdata = (\<lambda>d r. r\<lparr>rr_Rdatas := filter (\<lambda>x. x \<noteq> d) (rr_Rdatas r)\<rparr>),
     f_RRset_RRCount = (\<lambda>r. length (rr_Rdatas r))\<rparr>"

lemma ref_rrset_laws: "rrset_laws ref_rrset"
  by (auto simp: rrset_laws_def ref_rrset_def split: if_splits)

fun policy_ok :: "'n LocalPolicy \<Rightarrow> bool" where
  "policy_ok (PolLocalRRset b rs) = distinct (map rr_Type rs)"
| "policy_ok _ = True"

definition heap_ok :: "('t, 'n) LocalData \<Rightarrow> bool" where
  "heap_ok l \<longleftrightarrow> (\<forall>p\<in>ran (ld_heap l). policy_ok p)"

lemma AddRdata_Inr: "rrset_laws R \<Longrightarrow> f_RRset_AddRdata R d r = Inr r' \<Longrightarrow> r' = r\<lparr>rr_Rdatas := rr_Rdatas r @ [d]\<rparr>"
  unfolding rrset_laws_def by blast

lemma add_rdatas_type: "rrset_laws R \<Longrightarrow> rr_Type (fst (add_rdatas R ds old)) = rr_Type old"
proof (induction ds arbitrary: old)
  case (Cons d ds)
  then show ?case by (cases "f_RRset_AddRdata R d old") (auto dest: AddRdata_Inr)
qed simp

lemma addRRset_types:
  assumes "rrset_laws R"
  shows "map rr_Type (fst (addRRset R new olds)) =
    map rr_Type olds @ (if rr_Type new \<in> set (map rr_Type olds) then [] else [rr_Type new])"
proof (induction olds)
  case (Cons old olds)
  then show ?case using add_rdatas_type [OF assms, of "rr_Rdatas new" old]
    by (auto split: prod.splits option.splits)
qed simp

lemma addRRsets_distinct:
  "rrset_laws R \<Longrightarrow> distinct (map rr_Type olds) \<Longrightarrow> distinct (map rr_Type (fst (addRRsets R rs olds)))"
proof (induction rs arbitrary: olds)
  case (Cons r rs)
  then have "distinct (map rr_Type (fst (addRRset R r olds)))" using addRRset_types [OF Cons.prems(1), of r olds] by auto
  then show ?case using Cons by (cases "addRRset R r olds") (auto split: option.splits)
qed simp

lemma remove_type: "rrset_laws R \<Longrightarrow> rr_Type (fold (f_RRset_RemoveRdata R) ds old) = rr_Type old"
  by (induction ds arbitrary: old) (simp_all add: rrset_laws_def)

lemma deleteRRset_types: "rrset_laws R \<Longrightarrow> set (map rr_Type (deleteRRset R new olds)) \<subseteq> set (map rr_Type olds)"
  by (induction olds) (auto simp: Let_def remove_type split: if_splits)

lemma deleteRRset_distinct: "rrset_laws R \<Longrightarrow> distinct (map rr_Type olds) \<Longrightarrow> distinct (map rr_Type (deleteRRset R new olds))"
proof (induction olds)
  case (Cons old olds)
  then show ?case using deleteRRset_types [OF Cons.prems(1), of new olds] by (auto simp: Let_def remove_type)
qed simp

lemma deletes_distinct: "rrset_laws R \<Longrightarrow> distinct (map rr_Type olds) \<Longrightarrow> distinct (map rr_Type (fold (deleteRRset R) rs olds))"
  by (induction rs arbitrary: olds) (simp_all add: deleteRRset_distinct)

lemma heap_ok_upd: "heap_ok l \<Longrightarrow> policy_ok p \<Longrightarrow> heap_ok (l\<lparr>ld_heap := (ld_heap l)(a \<mapsto> p)\<rparr>)"
  using ran_upd_subset [of "ld_heap l" a p] by (auto simp: heap_ok_def)

lemma heap_ok_cong: "ld_heap l' = ld_heap l \<Longrightarrow> heap_ok l' = heap_ok l"
  by (simp add: heap_ok_def)

lemma heap_ok_at: "heap_ok l \<Longrightarrow> ld_heap l a = Some (PolLocalRRset b rs) \<Longrightarrow> distinct (map rr_Type rs)"
  by (force simp: heap_ok_def ran_def)

lemma insert_policy_ok: "heap_ok l \<Longrightarrow> policy_ok p \<Longrightarrow> heap_ok (insert_policy D v ps p l)"
  using heap_ok_upd [of l p "ld_fresh l"] by (simp add: insert_policy_def Let_def heap_ok_def)

lemma BuildLocalPolicy_ok: "BuildLocalPolicy G R typ data = Inr p \<Longrightarrow> policy_ok p"
  by (cases "typ") (auto simp: BuildLocalPolicy_def newLocalRRset_def Let_def bindE_Inr_iff split: if_splits option.splits)

lemma addPolicy_ok:
  assumes "rrset_laws R" "heap_ok l" "policy_ok p" "addPolicy R D v p l = Some (l', e)"
  shows "heap_ok l'"
proof -
  let ?ps = "tree_of D v l"
  let ?l1 = "l\<lparr>ld_policies := (ld_policies l)(v \<mapsto> ?ps)\<rparr>"
  have l1: "heap_ok ?l1" using assms(2) by (simp add: heap_ok_def)
  show ?thesis
  proof (cases "\<exists>a b olds news b' rest. dt_SearchParents D ?ps (GetName p) = (Some a # rest, ExactMatch) \<and>
      ld_heap l a = Some (PolLocalRRset b olds) \<and> p = PolLocalRRset b' news")
    case True
    then obtain a b olds news b' rest where x: "dt_SearchParents D ?ps (GetName p) = (Some a # rest, ExactMatch)"
      "ld_heap l a = Some (PolLocalRRset b olds)" "p = PolLocalRRset b' news" by blast
    have "distinct (map rr_Type (fst (addRRsets R news olds)))"
      using addRRsets_distinct [OF assms(1)] heap_ok_at [OF assms(2) x(2)] by blast
    then show ?thesis using assms(4) x heap_ok_upd [OF l1]
      by (cases "addRRsets R news olds") (auto simp: addPolicy_def Let_def)
  next
    case False
    then have "l' = ?l1 \<or> l' = insert_policy D v ?ps p ?l1"
      using assms(4) by (auto simp: addPolicy_def Let_def split: prod.splits list.splits option.splits SearchResult.splits LocalPolicy.splits)
    then show ?thesis using l1 insert_policy_ok [OF l1 assms(3)] by auto
  qed
qed

lemma removePolicy_ok:
  assumes "rrset_laws R" "heap_ok l" "removePolicy R D v p l = Some (l', e)"
  shows "heap_ok l'"
proof (cases "\<exists>ps a b olds news b' rest. ld_policies l v = Some ps \<and> dt_SearchParents D ps (GetName p) = (Some a # rest, ExactMatch) \<and>
    ld_heap l a = Some (PolLocalRRset b olds) \<and> p = PolLocalRRset b' news")
  case True
  then obtain ps a b olds news b' rest where x: "ld_policies l v = Some ps"
    "dt_SearchParents D ps (GetName p) = (Some a # rest, ExactMatch)"
    "ld_heap l a = Some (PolLocalRRset b olds)" "p = PolLocalRRset b' news" by blast
  have "distinct (map rr_Type (fold (deleteRRset R) news olds))"
    using deletes_distinct [OF assms(1)] heap_ok_at [OF assms(2) x(3)] by blast
  then have "heap_ok (l\<lparr>ld_heap := (ld_heap l)(a \<mapsto> PolLocalRRset b (fold (deleteRRset R) news olds))\<rparr>)"
    using heap_ok_upd [OF assms(2)] by simp
  then show ?thesis using assms(3) x by (auto simp: removePolicy_def Let_def heap_ok_def split: if_splits)
next
  case False
  then have "ld_heap l' = ld_heap l"
    using assms(3) by (auto simp: removePolicy_def Let_def split: prod.splits list.splits option.splits SearchResult.splits LocalPolicy.splits)
  then show ?thesis using assms(2) heap_ok_cong by blast
qed

lemma AddPolicies_ok:
  "rrset_laws R \<Longrightarrow> heap_ok l \<Longrightarrow> AddPolicies G R D v typ datas l = Some (l', e) \<Longrightarrow> heap_ok l'"
  by (induction datas arbitrary: l)
     (auto split: sum.splits option.splits dest!: BuildLocalPolicy_ok dest: addPolicy_ok)

lemma RemovePolicies_ok:
  "rrset_laws R \<Longrightarrow> heap_ok l \<Longrightarrow> RemovePolicies G R D v typ datas l = Some (l', e) \<Longrightarrow> heap_ok l'"
  by (induction datas arbitrary: l) (auto split: sum.splits option.splits dest: removePolicy_ok)

lemma run_add_ok: "rrset_laws R \<Longrightarrow> heap_ok l \<Longrightarrow> heap_ok (fst (run_add G R D v typ data l))"
  by (auto simp: run_add_def cmd_of_def split: option.splits dest: AddPolicies_ok simp del: AddPolicies.simps)

lemma run_remove_ok: "rrset_laws R \<Longrightarrow> heap_ok l \<Longrightarrow> heap_ok (fst (run_remove G R D v typ data l))"
  by (auto simp: run_remove_def cmd_of_def split: option.splits dest: RemovePolicies_ok simp del: RemovePolicies.simps)

lemma run_update_ok:
  assumes "\<And>l. heap_ok l \<Longrightarrow> heap_ok (fst (rm l))" "\<And>l. heap_ok l \<Longrightarrow> heap_ok (fst (ad l))" "heap_ok l"
  shows "heap_ok (fst (run_update rm ad l))"
  using assms(1) [OF assms(3)] assms(2) [of "fst (rm l)"]
  by (cases "rm l"; cases "snd (rm l)") (auto simp: run_update_def)

lemma fakeauth_HandleCmd_ok: "rrset_laws R \<Longrightarrow> heap_ok l \<Longrightarrow> heap_ok (fst (fakeauth_HandleCmd G R D l c))"
  by (cases c) (simp_all add: run_add_ok run_remove_ok run_update_ok)

lemma hijack_HandleCmd_ok: "rrset_laws R \<Longrightarrow> heap_ok l \<Longrightarrow> heap_ok (fst (hijack_HandleCmd G R D l c))"
  by (cases c) (simp_all add: run_add_ok run_remove_ok run_update_ok)

text \<open>The invariant of the commands, for every library that keeps the laws.\<close>

definition local_ok :: "'n rrset_lib \<Rightarrow> ('t, 'n) LocalData \<Rightarrow> bool" where
  "local_ok R l \<longleftrightarrow> (rrset_laws R \<longrightarrow> heap_ok l)"

lemma fakeauth_step: "local_ok R s \<Longrightarrow> fakeauth_HandleCmd G R D s c = (s', out) \<Longrightarrow> local_ok R s'"
  using fakeauth_HandleCmd_ok [of R s G D c] by (simp add: local_ok_def)

lemma hijack_step: "local_ok R s \<Longrightarrow> hijack_HandleCmd G R D s c = (s', out) \<Longrightarrow> local_ok R s'"
  using hijack_HandleCmd_ok [of R s G D c] by (simp add: local_ok_def)

interpretation fakeauth_cmds: command_handler "fakeauth_HandleCmd G R D" "local_ok R" for G R D
  by unfold_locales (rule fakeauth_step)

interpretation hijack_cmds: command_handler "hijack_HandleCmd G R D" "local_ok R" for G R D
  by unfold_locales (rule hijack_step)

section \<open>Properties\<close>

text \<open>The tree of a view after a policy is added for a name it does not have.\<close>

lemma addPolicy_new:
  assumes D: "domaintree_laws G D ct" and new: "absent G (ct (tree_of D v l)) (GetName p)"
  shows "\<exists>t'. addPolicy R D v p l = Some (l\<lparr>ld_policies := (ld_policies l)(v \<mapsto> t'),
      ld_heap := (ld_heap l)(ld_fresh l \<mapsto> p), ld_fresh := Suc (ld_fresh l)\<rparr>, None) \<and>
    ct t' = insert (GetName p, ld_fresh l) (ct (tree_of D v l))"
proof -
  obtain t' where t': "dt_Insert D (tree_of D v l) (GetName p) (ld_fresh l) = Inr t'"
    "ct t' = insert (GetName p, ld_fresh l) (ct (tree_of D v l))" using tree_Insert [OF D new] by blast
  have "snd (dt_SearchParents D (tree_of D v l) (GetName p)) \<noteq> ExactMatch" by (rule tree_not_exact [OF D new])
  then have "addPolicy R D v p l = Some (insert_policy D v (tree_of D v l) p
      (l\<lparr>ld_policies := (ld_policies l)(v \<mapsto> tree_of D v l)\<rparr>), None)"
    by (cases "dt_SearchParents D (tree_of D v l) (GetName p)"; cases "snd (dt_SearchParents D (tree_of D v l) (GetName p))")
       (auto simp: addPolicy_def Let_def split: list.splits option.splits)
  then show ?thesis using t' by (auto simp: insert_policy_def Let_def)
qed

text \<open>
  C19. A redirection added for a name that has no policy yet is accepted, and a later query for that name
  and the type of the redirection, in the view, is answered without an error by one RRset with the
  redirection's type, TTL and data under the queried name. The answer is kept out of the cache.
\<close>

theorem redirect_answers:
  assumes laws: "name_laws G" "message_laws G" "domaintree_laws G D ct"
    and build: "BuildLocalPolicy G R LPLocalRRset data = Inr (PolLocalRRset b [r])"
    and new: "absent G (ct (tree_of D v l)) (bp_name b)"
    and client: "c_View client = v" "c_Response client = None" "m_Question (c_Request client) = Some q"
      "q_Type q = rr_Type r" "Name_Equals G (bp_name b) (q_Name q)"
  shows "\<exists>l' m. AddPolicies G R D v LPLocalRRset [data] l = Some (l', None) \<and>
    fakeauth_Resolve G R D (\<lambda>_. l') nxt w client = Some (w, client\<lparr>c_Response := Some m, c_CacheAnswer := False\<rparr>) \<and>
    h_Rcode (m_Header m) = R_NOERROR \<and>
    m_Answer m = [\<lparr>rr_Name = q_Name q, rr_Type = rr_Type r, rr_Class = rr_Class r, rr_Ttl = rr_Ttl r, rr_Rdatas = rr_Rdatas r\<rparr>]"
proof -
  let ?p = "PolLocalRRset b [r]"
  have n: "GetName ?p = bp_name b" by (simp add: GetName_def)
  obtain t' where t': "addPolicy R D v ?p l = Some (l\<lparr>ld_policies := (ld_policies l)(v \<mapsto> t'),
      ld_heap := (ld_heap l)(ld_fresh l \<mapsto> ?p), ld_fresh := Suc (ld_fresh l)\<rparr>, None)"
    "ct t' = insert (bp_name b, ld_fresh l) (ct (tree_of D v l))"
    using addPolicy_new [OF laws(3), of v l ?p R] new n by auto
  let ?l = "l\<lparr>ld_policies := (ld_policies l)(v \<mapsto> t'), ld_heap := (ld_heap l)(ld_fresh l \<mapsto> ?p), ld_fresh := Suc (ld_fresh l)\<rparr>"
  have "(bp_name b, ld_fresh l) \<in> ct t'" by (simp add: t'(2))
  from tree_Exact [OF laws(3) this client(5)] obtain rest where s: "dt_SearchParents D t' (q_Name q) = (Some (ld_fresh l) # rest, ExactMatch)"
    by blast
  have e: "m_Answer (Message_MakeResponse G (c_Request client)) = []"
    using message_lawsD(10) [OF laws(2), of AnswerSection] by simp
  let ?m = "(Message_MakeResponse G (c_Request client))\<lparr>m_Header := (m_Header (Message_MakeResponse G (c_Request client)))
      \<lparr>h_ANCount := of_nat (f_RRset_RRCount R r), h_Rcode := R_NOERROR\<rparr>,
    m_Answer := [\<lparr>rr_Name = q_Name q, rr_Type = rr_Type r, rr_Class = rr_Class r, rr_Ttl = rr_Ttl r, rr_Rdatas = rr_Rdatas r\<rparr>]\<rparr>"
  have "AddPolicies G R D v LPLocalRRset [data] l = Some (?l, None)" using build t'(1) by simp
  moreover have "fakeauth_Resolve G R D (\<lambda>_. ?l) nxt w client = Some (w, client\<lparr>c_Response := Some ?m, c_CacheAnswer := False\<rparr>)"
    using client s e
    by (simp add: fakeauth_Resolve_def ResponseWithLocalData_def realQueryName_def policy_at_def Let_def)
  ultimately show ?thesis by (intro exI [of _ ?l] exI [of _ ?m]) simp
qed

text \<open>A client with a question, and the redirection of a name in the reference library.\<close>

definition demo_ask :: "string list \<Rightarrow> u16 \<Rightarrow> string list Client" where
  "demo_ask n t = client_reset 0 (UDPAddr [10, 0, 0, 1] 53) (UDPAddr [10, 0, 0, 2] 53) False
     \<lparr>m_Header = empty_header, m_Question = Some \<lparr>q_Name = n, q_Type = t, q_Class = CLASS_IN\<rparr>,
      m_Answer = [], m_Auth = [], m_Additional = [], m_Tsig = None\<rparr>"

definition demo_rrset :: "string list \<Rightarrow> u8 \<Rightarrow> string list RRset" where
  "demo_rrset n i = \<lparr>rr_Name = n, rr_Type = RR_A, rr_Class = CLASS_IN, rr_Ttl = 60, rr_Rdatas = [RdA [1, 1, 1, i]]\<rparr>"

lemma demo_build:
  "BuildLocalPolicy ref_g53 ref_rrset LPLocalRRset ''a.com 60 A 1.1.1.1'' =
     Inr (PolLocalRRset \<lparr>bp_name = [''a'', ''com''], bp_isZoneMatch = False\<rparr> [demo_rrset [''a'', ''com''] 1])"
  "BuildLocalPolicy ref_g53 ref_rrset LPLocalRRset ''*.a.com 60 A 1.1.1.2'' =
     Inr (PolLocalRRset \<lparr>bp_name = [''a'', ''com''], bp_isZoneMatch = True\<rparr> [demo_rrset [''a'', ''com''] 2])"
  by code_simp+

theorem redirect_answers_witness:
  "\<exists>l' m. AddPolicies ref_g53 ref_rrset list_domaintree ''default'' LPLocalRRset [''a.com 60 A 1.1.1.1''] NewLocalData = Some (l', None) \<and>
    fakeauth_Resolve ref_g53 ref_rrset list_domaintree (\<lambda>_. l') None () (demo_ask [''A'', ''com''] RR_A) =
      Some ((), (demo_ask [''A'', ''com''] RR_A)\<lparr>c_Response := Some m, c_CacheAnswer := False\<rparr>) \<and>
    m_Answer m = [demo_rrset [''A'', ''com''] 1]"
proof -
  let ?v = "''default''"
  have "absent ref_g53 (list_content (tree_of list_domaintree ?v (NewLocalData :: ((string list \<times> nat) list, string list) LocalData))) [''a'', ''com'']"
    by (simp add: absent_def tree_of_def NewLocalData_def list_domaintree_def list_content_def)
  moreover have "Name_Equals ref_g53 [''a'', ''com''] [''A'', ''com'']" by code_simp
  ultimately show ?thesis
    using redirect_answers [OF ref_name_laws ref_message_laws list_domaintree_laws demo_build(1), of ?v NewLocalData
        "demo_ask [''A'', ''com''] RR_A" "\<lparr>q_Name = [''A'', ''com''], q_Type = RR_A, q_Class = CLASS_IN\<rparr>" None "()"]
    by (auto simp: demo_ask_def client_reset_def demo_rrset_def simp del: AddPolicies.simps)
qed

text \<open>
  A redirection of all names below a name (\<open>*.name\<close>) is lost when the name itself already has a
  redirection: the command is accepted, the data join the old policy, whose match is exact, and a
  query below the name is still not answered locally.
\<close>

theorem wildcard_joins_exact_policy:
  assumes laws: "domaintree_laws G D ct"
    and old: "ld_policies l v = Some t" "(n, a) \<in> ct t" "ld_heap l a = Some (PolLocalRRset b olds)" "\<not> bp_isZoneMatch b"
    and build: "BuildLocalPolicy G R LPLocalRRset data = Inr (PolLocalRRset b' news)" "bp_isZoneMatch b'" "Name_Equals G n (bp_name b')"
    and accepted: "AddPolicies G R D v LPLocalRRset [data] l = Some (l', None)"
    and client: "c_View client = v" "c_Response client = None" "m_Question (c_Request client) = Some q"
    and below: "{p \<in> ct t. Name_IsSubDomain G (q_Name q) (fst p)} = {(n, a)}" "absent G (ct t) (q_Name q)"
  shows "ResponseWithLocalData G R D l' client = Some (client, False)"
proof -
  obtain rest where s: "dt_SearchParents D t (bp_name b') = (Some a # rest, ExactMatch)"
    using tree_Exact [OF laws old(2) build(3)] by blast
  have "l' = l\<lparr>ld_policies := (ld_policies l)(v \<mapsto> t), ld_heap := (ld_heap l)(a \<mapsto> PolLocalRRset b (fst (addRRsets R news olds)))\<rparr>"
    using accepted build(1) old s
    by (auto simp: addPolicy_def tree_of_def GetName_def Let_def split: prod.splits option.splits)
  then have l': "ld_policies l' v = Some t" "ld_heap l' a = Some (PolLocalRRset b (fst (addRRsets R news olds)))" by simp_all
  have "\<exists>p\<in>ct t. Name_IsSubDomain G (q_Name q) (fst p)" using below(1) by blast
  from tree_Closest [OF laws below(2) this] obtain ps where ps:
    "dt_SearchParents D t (q_Name q) = (map (Some \<circ> snd) ps, ClosestEncloser)" "set ps = {(n, a)}"
    using below(1) by auto
  have "encloser_message G R l' client (q_Name q) (map (Some \<circ> snd) ps) = Some None"
    using ps(2)
  proof -
    have "set qs \<subseteq> {(n, a)} \<Longrightarrow> encloser_message G R l' client (q_Name q) (map (Some \<circ> snd) qs) = Some None" for qs
      using l'(2) old(4) by (induction qs) (auto simp: policy_at_def IsZoneMatch_def)
    then show ?thesis using ps(2) by simp
  qed
  then show ?thesis using client l'(1) ps(1)
    by (cases ps) (simp_all add: ResponseWithLocalData_def realQueryName_def del: encloser_message.simps)
qed

theorem wildcard_joins_exact_policy_witness:
  "\<exists>l1 l2. AddPolicies ref_g53 ref_rrset list_domaintree ''default'' LPLocalRRset [''a.com 60 A 1.1.1.1''] NewLocalData = Some (l1, None) \<and>
    AddPolicies ref_g53 ref_rrset list_domaintree ''default'' LPLocalRRset [''*.a.com 60 A 1.1.1.2''] l1 = Some (l2, None) \<and>
    ResponseWithLocalData ref_g53 ref_rrset list_domaintree l2 (demo_ask [''x'', ''a'', ''com''] RR_A) =
      Some (demo_ask [''x'', ''a'', ''com''] RR_A, False)"
proof -
  let ?v = "''default''" and ?b = "\<lparr>bp_name = [''a'', ''com''], bp_isZoneMatch = False\<rparr>" and ?n = "[''a'', ''com'']"
  let ?l = "\<lparr>ld_policies = [?v \<mapsto> [(?n, 0)]], ld_heap = [0 \<mapsto> PolLocalRRset ?b [demo_rrset ?n 1]], ld_fresh = 1\<rparr>
    :: ((string list \<times> nat) list, string list) LocalData"
  have 1: "AddPolicies ref_g53 ref_rrset list_domaintree ?v LPLocalRRset [''a.com 60 A 1.1.1.1''] NewLocalData = Some (?l, None)"
    by (simp add: demo_build addPolicy_def tree_of_def NewLocalData_def list_domaintree_def GetName_def insert_policy_def Let_def enclosers_def)
  have "map_option snd (AddPolicies ref_g53 ref_rrset list_domaintree ?v LPLocalRRset [''*.a.com 60 A 1.1.1.2''] ?l) = Some None"
    by code_simp
  then obtain x where "AddPolicies ref_g53 ref_rrset list_domaintree ?v LPLocalRRset [''*.a.com 60 A 1.1.1.2''] ?l = Some x" "snd x = None"
    unfolding map_option_eq_Some by blast
  then obtain l2 where 2: "AddPolicies ref_g53 ref_rrset list_domaintree ?v LPLocalRRset [''*.a.com 60 A 1.1.1.2''] ?l = Some (l2, None)"
    by (cases x) (simp del: AddPolicies.simps)
  have ct: "list_content [(?n, 0 :: nat)] = {(?n, 0)}" by (auto simp: list_content_def same_name_def split: if_splits)
  have sub: "Name_IsSubDomain ref_g53 [''x'', ''a'', ''com''] ?n" "Name_Equals ref_g53 ?n ?n"
    "\<not> Name_Equals ref_g53 ?n [''x'', ''a'', ''com'']" by code_simp+
  have b: "{p. p = (?n, 0 :: nat) \<and> Name_IsSubDomain ref_g53 [''x'', ''a'', ''com''] (fst p)} = {(?n, 0)}" using sub by auto
  from wildcard_joins_exact_policy [OF list_domaintree_laws _ _ _ _ demo_build(2) _ _ 2, of "[(?n, 0)]" ?n 0 ?b "[demo_rrset ?n 1]"
      "demo_ask [''x'', ''a'', ''com''] RR_A" "\<lparr>q_Name = [''x'', ''a'', ''com''], q_Type = RR_A, q_Class = CLASS_IN\<rparr>"]
  have "ResponseWithLocalData ref_g53 ref_rrset list_domaintree l2 (demo_ask [''x'', ''a'', ''com''] RR_A) =
      Some (demo_ask [''x'', ''a'', ''com''] RR_A, False)"
    using sub b by (simp add: ct absent_def demo_ask_def client_reset_def)
  with 1 2 show ?thesis by blast
qed

end
