(* ===== verification/Response_Transfer.thy ===== *)
theory Response_Transfer
  imports Message_Cache Local_Data Acl
begin

text \<open>
  Handlers that change the response on its way back, \<open>responsetransfer/\<close>: the adaptor that runs a
  transfer after the handlers behind it (\<open>transfer.go\<close>), the filter of AAAA records
  (\<open>aaaafilter/\<close>), and the order of addresses by the client's network (\<open>sortlist/\<close>); the replacement of
  negative answers is in the theory of local data. The locale \<open>response_transfer\<close> is the interface of
  a transfer: it changes nothing of the client but the response. The lemmas show what each transfer
  does to the answer, and that the filter changes the cached answer for every client.
\<close>

section \<open>The adaptor\<close>

definition adaptor_HandleQuery :: "('s \<Rightarrow> 'n Client \<Rightarrow> 'n Client may_panic) \<Rightarrow> ('w \<Rightarrow> 's) \<Rightarrow> ('w, 'n) handler" where
  "adaptor_HandleQuery transfer get nxt w client =
     (case PassToNext nxt w client of
        None \<Rightarrow> None
      | Some (w', client') \<Rightarrow> map_option (\<lambda>c. (w', c)) (transfer (get w') client'))"

locale response_transfer =
  fixes transfer :: "'s \<Rightarrow> 'n Client \<Rightarrow> 'n Client may_panic"
  assumes keeps: "transfer s c = Some c' \<Longrightarrow> \<exists>r. c' = c\<lparr>c_Response := r\<rparr>"
begin

lemma adaptor_keeps:
  assumes "adaptor_HandleQuery transfer get nxt w c = Some (w', c')"
  shows "\<exists>c1 r. PassToNext nxt w c = Some (w', c1) \<and> c' = c1\<lparr>c_Response := r\<rparr>"
  using assms keeps by (fastforce simp: adaptor_HandleQuery_def split: option.splits)

lemma adaptor_request:
  assumes "adaptor_HandleQuery transfer get nxt w c = Some (w', c')"
  shows "\<exists>c1. PassToNext nxt w c = Some (w', c1) \<and> c_Request c' = c_Request c1 \<and> c_View c' = c_View c1"
  using adaptor_keeps [OF assms] by auto

end

section \<open>The filter of AAAA records\<close>

type_synonym aaaaFilter = "view \<rightharpoonup> string list"

record AAAAFilterInView =
  af_View :: view
  af_Acls :: "string list"

definition aaaa_ReloadConfig :: "AAAAFilterInView list \<Rightarrow> aaaaFilter" where
  "aaaa_ReloadConfig confs = fold (\<lambda>c m. m(af_View c \<mapsto> af_Acls c)) confs Map.empty"

definition removeAaaaInSection :: "SectionType \<Rightarrow> 'n Message \<Rightarrow> 'n Message" where
  "removeAaaaInSection sec response =
     msg_set_section sec (filter (\<lambda>rrset. rr_Type rrset \<noteq> RR_AAAA) (msg_section sec response)) response"

definition removeAaaaRecords :: "'n Message \<Rightarrow> 'n Message" where
  "removeAaaaRecords response = removeAaaaInSection AdditionalSection (removeAaaaInSection AnswerSection response)"

text \<open>The client's address is asked for only when there is a list to look at.\<close>

definition isTransferEnable :: "(string \<Rightarrow> ip \<Rightarrow> bool) \<Rightarrow> aaaaFilter \<Rightarrow> 'n Client \<Rightarrow> bool may_panic" where
  "isTransferEnable Find f cli =
     (case f (c_View cli) of
        None \<Rightarrow> Some False
      | Some [] \<Rightarrow> Some False
      | Some names \<Rightarrow> map_option (\<lambda>a. \<exists>aclName\<in>set names. Find aclName a) (client_IP cli))"

definition aaaa_TransferResponse :: "(string \<Rightarrow> ip \<Rightarrow> bool) \<Rightarrow> aaaaFilter \<Rightarrow> 'n Client \<Rightarrow> 'n Client may_panic" where
  "aaaa_TransferResponse Find f cli =
     (case isTransferEnable Find f cli of
        None \<Rightarrow> None
      | Some False \<Rightarrow> Some cli
      | Some True \<Rightarrow>
          (case c_Response cli of
             None \<Rightarrow> Some cli
           | Some r \<Rightarrow>
               if h_Rcode (m_Header r) \<noteq> R_NOERROR then Some cli
               else Some (cli\<lparr>c_Response := Some (removeAaaaRecords r)\<rparr>)))"

datatype aaaa_cmd = PutAAAAFilter view "string list"

fun aaaa_cmd_String :: "aaaa_cmd \<Rightarrow> string" where
  "aaaa_cmd_String (PutAAAAFilter v ns) =
     ''name: update aaaa filter and params: {view: '' @ v @ '', filter_aaaa_ips:['' @ strings_Join ns '','' @ '']}''"

definition updateViewAcls :: "view \<Rightarrow> string list \<Rightarrow> aaaaFilter \<Rightarrow> aaaaFilter" where
  "updateViewAcls v names f = (if names = [] then f(v := None) else f(v \<mapsto> names))"

fun aaaa_HandleCmd :: "aaaaFilter \<Rightarrow> aaaa_cmd \<Rightarrow> aaaaFilter \<times> unit cmd_outcome" where
  "aaaa_HandleCmd f (PutAAAAFilter v ns) = (updateViewAcls v ns f, Returns None None)"

section \<open>Order of addresses\<close>

definition maxOrderCnt :: int where "maxOrderCnt = 65535"

definition ErrUnknownSortlist :: string where "ErrUnknownSortlist = ''unknown sort list''"

definition ErrAddSortListFailed :: cmd_error where
  "ErrAddSortListFailed = NewError SortListErrCodeStart ''add sort list failed''"
definition ErrDeleteSortListFailed :: cmd_error where
  "ErrDeleteSortListFailed = NewError (SortListErrCodeStart + 1) ''delete sort list failed''"

text \<open>A view has a tree from the clients' networks to trees of preferred networks with their rank.\<close>

type_synonym 't UserAddrBasedSorter = "view \<rightharpoonup> 't"

record SortListInView =
  sl_View :: view
  sl_SourceIp :: string
  sl_PreferredIps :: "string list"

definition rdata_host :: "u16 \<Rightarrow> 'n Rdata \<Rightarrow> ip may_panic" where
  "rdata_host t d =
     (if t = RR_A then (case d of RdA h \<Rightarrow> Some h | _ \<Rightarrow> None) else (case d of RdAAAA h \<Rightarrow> Some h | _ \<Rightarrow> None))"

definition rdata_order :: "('o, int) netradix \<Rightarrow> 'o \<Rightarrow> u16 \<Rightarrow> 'n Rdata \<Rightarrow> int" where
  "rdata_order N2 orderTree t d =
     (case rdata_host t d of
        None \<Rightarrow> 0
      | Some h \<Rightarrow> (case nr_SearchBest N2 orderTree h of Some order \<Rightarrow> order | None \<Rightarrow> maxOrderCnt))"

definition sorter_Sort ::
  "((('n Rdata \<Rightarrow> int)) \<Rightarrow> 'n Rdata list \<Rightarrow> 'n Rdata list) \<Rightarrow> ('t, 'o) netradix \<Rightarrow> ('o, int) netradix
   \<Rightarrow> 't UserAddrBasedSorter \<Rightarrow> view \<Rightarrow> ip \<Rightarrow> 'n RRset \<Rightarrow> 'n RRset may_panic" where
  "sorter_Sort srt N1 N2 sorter v sourceIP rrset =
     (if length (rr_Rdatas rrset) < 2 \<or> (rr_Type rrset \<noteq> RR_A \<and> rr_Type rrset \<noteq> RR_AAAA) then Some rrset
      else case sorter v of
             None \<Rightarrow> Some rrset
           | Some sourceTree \<Rightarrow>
               (case nr_SearchBest N1 sourceTree sourceIP of
                  None \<Rightarrow> Some rrset
                | Some orderTree \<Rightarrow>
                    if \<exists>d\<in>set (rr_Rdatas rrset). rdata_host (rr_Type rrset) d = None then None
                    else Some (rrset\<lparr>rr_Rdatas := srt (rdata_order N2 orderTree (rr_Type rrset)) (rr_Rdatas rrset)\<rparr>)))"

text \<open>Networks that are refused are left out; the others keep their position as rank.\<close>

definition newOrderTree :: "('o, int) netradix \<Rightarrow> string list \<Rightarrow> 'o" where
  "newOrderTree N2 preferedIps =
     fold (\<lambda>p t. case nr_Add N2 t (snd p) (int (fst p)) of Inr t' \<Rightarrow> t' | Inl err \<Rightarrow> t)
       (enumerate 0 preferedIps) (NewNetRadixTree N2)"

definition addSorter ::
  "('t, 'o) netradix \<Rightarrow> ('o, int) netradix \<Rightarrow> view \<Rightarrow> string \<Rightarrow> string list \<Rightarrow> 't UserAddrBasedSorter
   \<Rightarrow> 't UserAddrBasedSorter \<times> string option" where
  "addSorter N1 N2 v sourceIp preferedIps sorter =
     (let sourceTree = (case sorter v of Some t \<Rightarrow> t | None \<Rightarrow> NewNetRadixTree N1) in
      case nr_Add N1 sourceTree sourceIp (newOrderTree N2 preferedIps) of
        Inl err \<Rightarrow> (sorter(v \<mapsto> sourceTree), Some err)
      | Inr t' \<Rightarrow> (sorter(v \<mapsto> t'), None))"

definition deleteSorter ::
  "('t, 'o) netradix \<Rightarrow> view \<Rightarrow> string \<Rightarrow> 't UserAddrBasedSorter \<Rightarrow> 't UserAddrBasedSorter \<times> string option" where
  "deleteSorter N1 v sourceIp sorter =
     (case sorter v of
        None \<Rightarrow> (sorter, Some ErrUnknownSortlist)
      | Some sourceTree \<Rightarrow>
          (case nr_Delete N1 sourceTree sourceIp of
             Inl err \<Rightarrow> (sorter, Some err)
           | Inr t' \<Rightarrow> (sorter(v \<mapsto> t'), None)))"

definition updateSorter ::
  "('t, 'o) netradix \<Rightarrow> ('o, int) netradix \<Rightarrow> view \<Rightarrow> string \<Rightarrow> string list \<Rightarrow> 't UserAddrBasedSorter
   \<Rightarrow> 't UserAddrBasedSorter \<times> string option" where
  "updateSorter N1 N2 v sourceIp preferedIps sorter =
     (case sorter v of
        None \<Rightarrow> (sorter, Some ErrUnknownSortlist)
      | Some sourceTree \<Rightarrow>
          (case nr_Delete N1 sourceTree sourceIp of
             Inl err \<Rightarrow> (sorter, Some err)
           | Inr t1 \<Rightarrow>
               (case nr_Add N1 t1 sourceIp (newOrderTree N2 preferedIps) of
                  Inl err \<Rightarrow> (sorter(v \<mapsto> t1), Some err)
                | Inr t2 \<Rightarrow> (sorter(v \<mapsto> t2), None))))"

fun sorter_load ::
  "('t, 'o) netradix \<Rightarrow> ('o, int) netradix \<Rightarrow> SortListInView list \<Rightarrow> 't UserAddrBasedSorter \<Rightarrow> 't UserAddrBasedSorter may_panic" where
  "sorter_load N1 N2 [] sorter = Some sorter"
| "sorter_load N1 N2 (c # cs) sorter =
     (case addSorter N1 N2 (sl_View c) (sl_SourceIp c) (sl_PreferredIps c) sorter of
        (sorter', None) \<Rightarrow> sorter_load N1 N2 cs sorter'
      | (_, Some err) \<Rightarrow> None)"

definition sorter_ReloadConfig ::
  "('t, 'o) netradix \<Rightarrow> ('o, int) netradix \<Rightarrow> SortListInView list \<Rightarrow> 't UserAddrBasedSorter may_panic" where
  "sorter_ReloadConfig N1 N2 confs = sorter_load N1 N2 confs Map.empty"

definition sortlist_TransferResponse ::
  "((('n Rdata \<Rightarrow> int)) \<Rightarrow> 'n Rdata list \<Rightarrow> 'n Rdata list) \<Rightarrow> ('t, 'o) netradix \<Rightarrow> ('o, int) netradix
   \<Rightarrow> 't UserAddrBasedSorter \<Rightarrow> 'n Client \<Rightarrow> 'n Client may_panic" where
  "sortlist_TransferResponse srt N1 N2 sorter client =
     (case c_Response client of
        None \<Rightarrow> Some client
      | Some r \<Rightarrow>
          if m_Answer r = [] then Some client
          else Option.bind (client_IP client) (\<lambda>a.
            map_option (\<lambda>answers. client\<lparr>c_Response := Some (r\<lparr>m_Answer := answers\<rparr>)\<rparr>)
              (mapM (sorter_Sort srt N1 N2 sorter (c_View client) a) (m_Answer r))))"

datatype sortlist_cmd =
  AddSortList view string "string list" | DeleteSortList view string | UpdateSortList view string "string list"

fun sortlist_cmd_String :: "sortlist_cmd \<Rightarrow> string" where
  "sortlist_cmd_String (AddSortList v s ps) =
     ''name: add sortlist and params: {view:'' @ v @ '', source_ip:'' @ s @ '', prefered_ips:['' @ strings_Join ps '','' @ '']}''"
| "sortlist_cmd_String (DeleteSortList v s) =
     ''name: delete sortlist and params: {view:'' @ v @ '', source_ip:'' @ s @ ''}''"
| "sortlist_cmd_String (UpdateSortList v s ps) =
     ''name: update sortlist and params: {view:'' @ v @ '', source_ip:'' @ s @ '', prefered_ips:['' @ strings_Join ps '','' @ '']}''"

text \<open>A failed update is reported with the error of a failed deletion.\<close>

definition sortlist_outcome ::
  "cmd_error \<Rightarrow> 't UserAddrBasedSorter \<times> string option \<Rightarrow> 't UserAddrBasedSorter \<times> unit cmd_outcome" where
  "sortlist_outcome e r = (fst r, Returns None (map_option (AddDetail e) (snd r)))"

fun sortlist_HandleCmd ::
  "('t, 'o) netradix \<Rightarrow> ('o, int) netradix \<Rightarrow> 't UserAddrBasedSorter \<Rightarrow> sortlist_cmd \<Rightarrow> 't UserAddrBasedSorter \<times> unit cmd_outcome" where
  "sortlist_HandleCmd N1 N2 s (AddSortList v src ps) = sortlist_outcome ErrAddSortListFailed (addSorter N1 N2 v src ps s)"
| "sortlist_HandleCmd N1 N2 s (DeleteSortList v src) = sortlist_outcome ErrDeleteSortListFailed (deleteSorter N1 v src s)"
| "sortlist_HandleCmd N1 N2 s (UpdateSortList v src ps) = sortlist_outcome ErrDeleteSortListFailed (updateSorter N1 N2 v src ps s)"

section \<open>The transfers keep the query\<close>

lemma client_response_id: "\<exists>r. c = c\<lparr>c_Response := r\<rparr>" for c :: "'n Client"
  by (rule exI [of _ "c_Response c"]) simp

interpretation aaaa_transfer: response_transfer "aaaa_TransferResponse Find" for Find
  by unfold_locales
     (auto simp: aaaa_TransferResponse_def client_response_id split: option.splits bool.splits if_splits)

interpretation sortlist_transfer: response_transfer "sortlist_TransferResponse srt N1 N2" for srt N1 N2
  by unfold_locales
     (auto simp: sortlist_TransferResponse_def client_response_id option_bind_Some_iff split: option.splits if_splits)

lemma ResponseWithLocalData_keeps: "ResponseWithLocalData G R D l c = Some (c', b) \<Longrightarrow> \<exists>r. c' = c\<lparr>c_Response := r\<rparr>"
  by (auto simp: ResponseWithLocalData_def client_response_id option_bind_Some_iff split: option.splits)

interpretation hijack_transfer: response_transfer "hijack_TransferResponse G R D" for G R D
  by unfold_locales
     (auto simp: hijack_TransferResponse_def client_response_id split: option.splits if_splits dest: ResponseWithLocalData_keeps)

section \<open>The transfers write to the cached message\<close>

text \<open>
  Both transfers change the answer in place, and so the message the cache may hold. What they write
  keeps the question and has only RRsets that were there.
\<close>

lemma aaaa_narrows: "narrows m (removeAaaaRecords m)"
  by (force simp: narrows_def removeAaaaRecords_def removeAaaaInSection_def intro: rrset_from_refl)

lemma sorter_Sort_from: "sort_contract srt \<Longrightarrow> sorter_Sort srt N1 N2 sorter v a rrset = Some r \<Longrightarrow> rrset_from r rrset"
  using sort_contractD(1) [of srt] by (auto simp: sorter_Sort_def rrset_from_def split: if_splits option.splits)

lemma sortlist_narrows:
  assumes "sort_contract srt" "sortlist_TransferResponse srt N1 N2 sorter client = Some client'" "c_Response client = Some m" "c_Response client' = Some m'"
  shows "narrows m m'"
proof -
  have "list_all2 rrset_from ys xs" if "mapM (sorter_Sort srt N1 N2 sorter v a) xs = Some ys" for v a xs ys
    using that sorter_Sort_from [OF assms(1)] by (induction xs arbitrary: ys) (auto simp: option_bind_Some_iff split: option.splits)
  then show ?thesis using assms(2-4)
    by (intro narrows_list_all2) (auto simp: sortlist_TransferResponse_def option_bind_Some_iff list_all2_same split: if_splits)
qed

section \<open>The order of preferences\<close>

text \<open>
  What a search in a tree of networks returns: adding a network changes the result only for addresses
  in it, and for these to the new value unless another network that is more specific has an older one.
\<close>

definition netradix_value_laws :: "(string \<Rightarrow> ip \<Rightarrow> bool) \<Rightarrow> ('t, 'v) netradix \<Rightarrow> bool" where
  "netradix_value_laws covers N \<longleftrightarrow> (\<forall>a. nr_SearchBest N (NewNetRadixTree N) a = None) \<and>
     (\<forall>t net v t' a. nr_Add N t net v = Inr t' \<longrightarrow>
        (if covers net a then nr_SearchBest N t' a = Some v \<or> (nr_SearchBest N t' a = nr_SearchBest N t a \<and> nr_SearchBest N t a \<noteq> None)
         else nr_SearchBest N t' a = nr_SearchBest N t a))"

lemma value_New: "netradix_value_laws covers N \<Longrightarrow> nr_SearchBest N (NewNetRadixTree N) a = None"
  by (simp add: netradix_value_laws_def)

lemma value_Add:
  assumes "netradix_value_laws covers N" "nr_Add N t net v = Inr t'"
  shows "covers net a \<Longrightarrow> nr_SearchBest N t' a = Some v \<or> (nr_SearchBest N t' a = nr_SearchBest N t a \<and> nr_SearchBest N t a \<noteq> None)"
    and "\<not> covers net a \<Longrightarrow> nr_SearchBest N t' a = nr_SearchBest N t a"
  using assms unfolding netradix_value_laws_def by (metis (full_types))+

text \<open>The preferences of a list that are networks, with their positions, and those an address meets.\<close>

fun accepted :: "('o, int) netradix \<Rightarrow> nat \<Rightarrow> string list \<Rightarrow> 'o \<Rightarrow> (nat \<times> string) list" where
  "accepted N k [] t = []"
| "accepted N k (p # ps) t =
     (case nr_Add N t p (int k) of Inl err \<Rightarrow> accepted N (Suc k) ps t | Inr t' \<Rightarrow> (k, p) # accepted N (Suc k) ps t')"

definition ranks :: "(string \<Rightarrow> ip \<Rightarrow> bool) \<Rightarrow> ('o, int) netradix \<Rightarrow> string list \<Rightarrow> u16 \<Rightarrow> 'n Rdata \<Rightarrow> nat set" where
  "ranks covers N ps t d =
     {k. \<exists>p\<in>set (accepted N 0 ps (NewNetRadixTree N)). fst p = k \<and> (\<exists>h. rdata_host t d = Some h \<and> covers (snd p) h)}"

text \<open>An address may stand before another: the other has no preference, or this one has one that is no later.\<close>

definition may_precede :: "nat set \<Rightarrow> nat set \<Rightarrow> bool" where
  "may_precede K L \<longleftrightarrow> L = {} \<or> (\<exists>k\<in>K. \<exists>l\<in>L. k \<le> l)"

lemma order_tree_search:
  assumes laws: "netradix_value_laws covers N"
  shows "nr_SearchBest N (fold (\<lambda>p t. case nr_Add N t (snd p) (int (fst p)) of Inr t' \<Rightarrow> t' | Inl err \<Rightarrow> t) (enumerate k ps) t) h =
      nr_SearchBest N t h \<and> (\<forall>p\<in>set (accepted N k ps t). covers (snd p) h \<longrightarrow> nr_SearchBest N t h \<noteq> None) \<or>
    (\<exists>p\<in>set (accepted N k ps t). covers (snd p) h \<and>
      nr_SearchBest N (fold (\<lambda>p t. case nr_Add N t (snd p) (int (fst p)) of Inr t' \<Rightarrow> t' | Inl err \<Rightarrow> t) (enumerate k ps) t) h = Some (int (fst p)))"
proof (induction ps arbitrary: k t)
  case (Cons p ps)
  show ?case
  proof (cases "nr_Add N t p (int k)")
    case (Inl err)
    then show ?thesis using Cons.IH [of "Suc k" t] by simp
  next
    case (Inr t')
    note A = value_Add [OF laws Inr, of h]
    show ?thesis using Cons.IH [of "Suc k" t'] A Inr by (cases "covers p h") auto
  qed
qed simp

lemma rdata_order_ranks:
  assumes laws: "netradix_value_laws covers N" and h: "rdata_host t d \<noteq> None"
  shows "ranks covers N ps t d = {} \<and> rdata_order N (newOrderTree N ps) t d = maxOrderCnt \<or>
    (\<exists>k\<in>ranks covers N ps t d. rdata_order N (newOrderTree N ps) t d = int k)"
proof -
  obtain a where a: "rdata_host t d = Some a" using h by blast
  show ?thesis
    using order_tree_search [OF laws, of 0 ps "NewNetRadixTree N" a] value_New [OF laws, of a]
    by (auto simp: rdata_order_def newOrderTree_def ranks_def a)
qed

lemma accepted_bound: "p \<in> set (accepted N k ps t) \<Longrightarrow> fst p < k + length ps"
  by (induction ps arbitrary: k t) (fastforce split: sum.splits)+

lemma order_may_precede:
  assumes "netradix_value_laws covers N" "rdata_host t d \<noteq> None" "rdata_host t d' \<noteq> None" "length ps \<le> 65535"
    and "rdata_order N (newOrderTree N ps) t d \<le> rdata_order N (newOrderTree N ps) t d'"
  shows "may_precede (ranks covers N ps t d) (ranks covers N ps t d')"
proof -
  have "k < 65535" if "k \<in> ranks covers N ps t e" for k e
    using that accepted_bound [of _ N 0 ps "NewNetRadixTree N"] assms(4) by (fastforce simp: ranks_def)
  then show ?thesis
    using rdata_order_ranks [OF assms(1,2), of ps] rdata_order_ranks [OF assms(1,3), of ps] assms(5)
    by (fastforce simp: may_precede_def maxOrderCnt_def)
qed

section \<open>Properties\<close>

text \<open>
  C20. After a command has added a list of preferences for a network, a client of that network, and of no
  network with a list before, gets the addresses of an answer in the order of the preferences: they are
  the same addresses, and of two of them the first has a matching preference that comes no later in the
  list than one of the second, or the second matches none. Nothing else of the RRset changes. The list
  has at most 65535 entries; entries that are not networks are passed over. (An address may match
  several preferences; the most specific one counts then, which is the library's choice.)
\<close>

theorem sort_list_orders_answers:
  assumes "sort_contract srt" "netradix_value_laws covers N1" "netradix_value_laws covers N2" "length ps \<le> 65535"
    and cmd: "sortlist_HandleCmd N1 N2 sorter (AddSortList v src ps) = (sorter', Returns None None)"
    and client: "covers src a" "Option.bind (sorter v) (\<lambda>t. nr_SearchBest N1 t a) = None"
    and answer: "rr_Type rrset = RR_A \<or> rr_Type rrset = RR_AAAA" "\<forall>d\<in>set (rr_Rdatas rrset). rdata_host (rr_Type rrset) d \<noteq> None"
  shows "\<exists>r. sorter_Sort srt N1 N2 sorter' v a rrset = Some r \<and> mset (rr_Rdatas r) = mset (rr_Rdatas rrset) \<and>
    sorted_wrt (\<lambda>d d'. may_precede (ranks covers N2 ps (rr_Type rrset) d) (ranks covers N2 ps (rr_Type rrset) d')) (rr_Rdatas r) \<and>
    r = rrset\<lparr>rr_Rdatas := rr_Rdatas r\<rparr>"
proof -
  let ?o = "newOrderTree N2 ps" and ?t = "rr_Type rrset"
  obtain t0 t where t: "nr_Add N1 t0 src ?o = Inr t" "sorter' v = Some t" "nr_SearchBest N1 t0 a = None"
    using cmd client(2) value_New [OF assms(2)]
    by (cases "sorter v") (auto simp: sortlist_outcome_def addSorter_def Let_def split: sum.splits)
  have found: "nr_SearchBest N1 t a = Some ?o" using value_Add(1) [OF assms(2) t(1) client(1)] t(3) by simp
  have host: "\<not> (\<exists>d\<in>set (rr_Rdatas rrset). rdata_host ?t d = None)" using answer(2) by blast
  show ?thesis
  proof (cases "length (rr_Rdatas rrset) < 2")
    case True
    then have "sorted_wrt P (rr_Rdatas rrset)" for P by (cases "rr_Rdatas rrset" rule: remdups_adj.cases) simp_all
    then show ?thesis using True by (simp add: sorter_Sort_def)
  next
    case False
    let ?ds = "srt (rdata_order N2 ?o ?t) (rr_Rdatas rrset)"
    note S = sort_contractD(1,2) [OF assms(1), of "rdata_order N2 ?o ?t" "rr_Rdatas rrset"]
    have "sorted_wrt (\<lambda>d d'. rdata_order N2 ?o ?t d \<le> rdata_order N2 ?o ?t d') ?ds" using S(2) by (simp add: sorted_map)
    moreover have "rdata_host ?t d \<noteq> None" if "d \<in> set ?ds" for d using that answer(2) mset_eq_setD [OF S(1)] by simp
    ultimately have "sorted_wrt (\<lambda>d d'. may_precede (ranks covers N2 ps ?t d) (ranks covers N2 ps ?t d')) ?ds"
      using order_may_precede [OF assms(3)] assms(4) by (elim sorted_wrt_mono_rel [rotated]) blast
    moreover have "sorter_Sort srt N1 N2 sorter' v a rrset = Some (rrset\<lparr>rr_Rdatas := ?ds\<rparr>)"
      using False answer(1) t(2) found host unfolding sorter_Sort_def by auto
    ultimately show ?thesis using S(1) by simp
  qed
qed

lemma list_netradix_value_laws: "netradix_value_laws byte_covers list_netradix"
  by (auto simp: netradix_value_laws_def list_netradix_def)

text \<open>Of three addresses the two of preferred networks come first, in the order of the list.\<close>

theorem sort_list_orders_answers_witness:
  "\<exists>r. sorter_Sort (\<lambda>k. sort_key k) list_netradix list_netradix
     (fst (sortlist_HandleCmd list_netradix list_netradix Map.empty (AddSortList ''v1'' ''A'' [''B'', ''C'']))) ''v1'' [65, 0, 0, 1]
     \<lparr>rr_Name = [''x''], rr_Type = RR_A, rr_Class = CLASS_IN, rr_Ttl = 1, rr_Rdatas = [RdA [1, 2, 3, 4], RdA [67, 0, 0, 1], RdA [66, 0, 0, 1]]\<rparr> = Some r \<and>
     sorted_wrt (\<lambda>d d'. may_precede (ranks byte_covers list_netradix [''B'', ''C''] RR_A d) (ranks byte_covers list_netradix [''B'', ''C''] RR_A d')) (rr_Rdatas r)"
proof -
  let ?cmd = "AddSortList ''v1'' ''A'' [''B'', ''C'']"
  let ?r = "\<lparr>rr_Name = [''x''], rr_Type = RR_A, rr_Class = CLASS_IN, rr_Ttl = 1, rr_Rdatas = [RdA [1, 2, 3, 4], RdA [67, 0, 0, 1], RdA [66, 0, 0, 1]]\<rparr>"
  have "snd (sortlist_HandleCmd list_netradix list_netradix Map.empty ?cmd) = Returns None None"
    by (simp add: sortlist_outcome_def addSorter_def Let_def list_netradix_def)
  then have c: "sortlist_HandleCmd list_netradix list_netradix Map.empty ?cmd = (fst (sortlist_HandleCmd list_netradix list_netradix Map.empty ?cmd), Returns None None)"
    by (simp add: prod_eq_iff)
  have a: "byte_covers ''A'' [65, 0, 0, 1]" by (simp add: byte_covers_def)
  have h: "\<forall>d\<in>set (rr_Rdatas ?r). rdata_host (rr_Type ?r) d \<noteq> None" by (simp add: rdata_host_def)
  have "rr_Type ?r = RR_A \<or> rr_Type ?r = RR_AAAA" by simp
  from sort_list_orders_answers [where srt = "\<lambda>k. sort_key k", OF sort_contract_insort list_netradix_value_laws list_netradix_value_laws _ c a _ this h]
  show ?thesis by auto
qed

text \<open>
  The filter decides by the address of one client, but its change reaches all clients of the view:
  an answer it strips after a cache miss is the cached message, and until the entry expires every
  query for the name and type, from any client, gets the answer without the AAAA records.
\<close>

theorem aaaa_filter_strips_cached_answer:
  assumes laws: "message_laws G" "name_laws G" and ok: "mc_ok G c" and q: "m_Question m = Some q"
    and add: "mc_Add G t0 m c = Some (m', c')"
    and client: "isTransferEnable Find f client = Some True" "c_Response client = Some m'" "h_Rcode (m_Header m') = R_NOERROR"
    and now: "now \<le> e_expireTime (messageToCache G t0 c m)"
  shows "\<exists>client' r e. aaaa_TransferResponse Find f client = Some client' \<and> c_Response client' = Some r \<and>
    fst (mc_get G now (q_Name q) (q_Type q) (write_cached G (keyForMessage G (q_Name q) (q_Type q)) r c')) = Some e \<and>
    map rr_Type (m_Answer (e_message e)) = filter (\<lambda>t. t \<noteq> RR_AAAA) (map rr_Type (m_Answer m'))"
proof -
  let ?r = "removeAaaaRecords m'"
  have t: "aaaa_TransferResponse Find f client = Some (client\<lparr>c_Response := Some ?r\<rparr>)"
    using client by (simp add: aaaa_TransferResponse_def)
  have "m_Question m' = m_Question m" using mc_Add_spec [OF laws(1) ok add] messageToCache_question [OF laws(1)] by auto
  then have "m_Question ?r = Some q" using q by (simp add: removeAaaaRecords_def removeAaaaInSection_def)
  from write_cached_get [OF laws ok q add this Name_Equals_refl [OF laws(2)] now]
  have g: "fst (mc_get G now (q_Name q) (q_Type q) (write_cached G (keyForMessage G (q_Name q) (q_Type q)) ?r c')) =
    Some \<lparr>e_message = roundrobinAnswer G ?r, e_expireTime = e_expireTime (messageToCache G t0 c m)\<rparr>" .
  have "map rr_Type (m_Answer (roundrobinAnswer G ?r)) = filter (\<lambda>t. t \<noteq> RR_AAAA) (map rr_Type (m_Answer m'))"
    by (simp add: roundrobinAnswer_def removeAaaaRecords_def removeAaaaInSection_def RotateRdata_fields [OF laws(1)]
        o_def filter_map if_distrib cong: if_cong)
  then show ?thesis using t g by simp
qed

theorem aaaa_filter_strips_cached_answer_witness:
  "\<exists>m' c' client' r e. mc_Add ref_g53 0 demo_answer demo_cache = Some (m', c') \<and>
     aaaa_TransferResponse (\<lambda>n a. True) [''default'' \<mapsto> [''lan'']] ((demo_ask [''a'', ''b''] RR_A)\<lparr>c_Response := Some m'\<rparr>) = Some client' \<and>
     c_Response client' = Some r \<and>
     fst (mc_get ref_g53 Second [''a'', ''b''] RR_A (write_cached ref_g53 (keyForMessage ref_g53 [''a'', ''b''] RR_A) r c')) = Some e \<and>
     map rr_Type (m_Answer (e_message e)) = filter (\<lambda>t. t \<noteq> RR_AAAA) (map rr_Type (m_Answer m'))"
proof -
  let ?q = "\<lparr>q_Name = [''a'', ''b''], q_Type = RR_A, q_Class = CLASS_IN\<rparr>"
  obtain m' c' where a: "mc_Add ref_g53 0 demo_answer demo_cache = Some (m', c')"
    by (auto simp: mc_Add_def demo_answer_def Let_def)
  let ?c = "(demo_ask [''a'', ''b''] RR_A)\<lparr>c_Response := Some m'\<rparr>"
  have "h_Rcode (m_Header (fst (the (mc_Add ref_g53 0 demo_answer demo_cache)))) = R_NOERROR" by code_simp
  then have r: "h_Rcode (m_Header m') = R_NOERROR" by (simp add: a)
  have t: "Second \<le> e_expireTime (messageToCache ref_g53 0 demo_cache demo_answer)" by code_simp
  have q: "m_Question demo_answer = Some ?q" by (simp add: demo_answer_def)
  have e: "isTransferEnable (\<lambda>n a. True) [''default'' \<mapsto> [''lan'']] ?c = Some True"
    by (simp add: isTransferEnable_def demo_ask_def client_reset_def client_IP_def)
  have "c_Response ?c = Some m'" by simp
  from aaaa_filter_strips_cached_answer [OF ref_message_laws ref_name_laws demo_ok q a e this r t] a
  show ?thesis by auto
qed

end
