(* ===== verification/Resolver.thy ===== *)
theory Resolver
  imports Core Util
begin

text \<open>
  The resolver, \<open>resolver/resolver.go\<close>: which resolvers are linked to a chain, the handler that
  follows aliases (\<open>cnamehandler.go\<close>) and the one that lets equal queries share one resolution
  (\<open>querylimit.go\<close>). A resolver has the shape of a query handler. The lemmas show that an alias chain
  is followed with at most seventeen resolutions, that the assembled answer is the concatenation of
  the answers along the chain, and that a query that shares a resolution gets an answer to its own
  question.
\<close>

section \<open>Aliases\<close>

definition maxRedirectCount :: nat where "maxRedirectCount = 16"

definition ErrCNameChainIsTooLong :: string where "ErrCNameChainIsTooLong = ''cname chain is too long''"
definition ErrCNameCircleIsDetected :: string where "ErrCNameCircleIsDetected = ''found cname circle''"

record 'n CNameContext =
  cx_originalQuestion :: "'n Question"
  cx_redirectCount :: nat
  cx_response :: "'n Message"
  cx_client :: "'n Client"
  cx_namechain :: "'n list"

text \<open>
  The flag \<open>check\<close> is \<open>checkCnameIndirect\<close>. The count of the header is trusted, and an alias without
  its target is a panic.
\<close>

definition needRedirect :: "bool \<Rightarrow> 'n Message option \<Rightarrow> 'n option may_panic" where
  "needRedirect check msg =
     (case msg of
        None \<Rightarrow> Some None
      | Some m \<Rightarrow>
          if h_ANCount (m_Header m) = 0 then Some None
          else if m_Answer m = [] then None
          else let rrset = (if check then hd (m_Answer m) else last (m_Answer m)) in
               if rr_Type rrset = RR_CNAME
               then (case rr_Rdatas rrset of RdCName n # _ \<Rightarrow> Some (Some n) | _ \<Rightarrow> None)
               else Some None)"

text \<open>With the check, only the first alias of the answer is kept.\<close>

definition first_alias :: "bool \<Rightarrow> 'n Message \<Rightarrow> 'n Message" where
  "first_alias check m = (if check then m\<lparr>m_Answer := take 1 (m_Answer m)\<rparr> else m)"

definition newCNameContext :: "'n Client \<Rightarrow> 'n Message \<Rightarrow> 'n CNameContext may_panic" where
  "newCNameContext client response =
     (case m_Question (c_Request client) of
        None \<Rightarrow> None
      | Some q \<Rightarrow>
          Some \<lparr>cx_originalQuestion = q, cx_redirectCount = 0, cx_response = response,
                cx_client = client\<lparr>c_Response := Some response\<rparr>, cx_namechain = [q_Name q]\<rparr>)"

definition set_question :: "'n Question \<Rightarrow> 'n Client \<Rightarrow> 'n Client" where
  "set_question q c = c\<lparr>c_Request := (c_Request c)\<lparr>m_Question := Some q\<rparr>\<rparr>"

definition makeRedirectQuery :: "'n CNameContext \<Rightarrow> 'n CNameContext \<times> string option" where
  "makeRedirectQuery ctx =
     (let ctx1 = ctx\<lparr>cx_redirectCount := cx_redirectCount ctx + 1\<rparr> in
      if cx_redirectCount ctx1 > maxRedirectCount then (ctx1, Some ErrCNameChainIsTooLong)
      else (ctx1\<lparr>cx_client := set_question
                   \<lparr>q_Name = last (cx_namechain ctx1), q_Type = q_Type (cx_originalQuestion ctx1),
                    q_Class = q_Class (cx_originalQuestion ctx1)\<rparr>
                   ((cx_client ctx1)\<lparr>c_Response := None\<rparr>)\<rparr>, None))"

definition mergeResponse :: "'n g53 \<Rightarrow> 'n Message option \<Rightarrow> 'n CNameContext \<Rightarrow> 'n CNameContext" where
  "mergeResponse G response ctx =
     (case response of
        None \<Rightarrow> ctx
      | Some r \<Rightarrow>
          (let m = fold (Message_AddRRset G AnswerSection) (m_Answer r) (cx_response ctx) in
           ctx\<lparr>cx_response := m\<lparr>m_Header := (m_Header m)\<lparr>h_Rcode := h_Rcode (m_Header r)\<rparr>\<rparr>\<rparr>))"

definition assembleFinalResponse :: "'n CNameContext \<Rightarrow> 'n Client" where
  "assembleFinalResponse ctx =
     (let client = set_question (cx_originalQuestion ctx) (cx_client ctx) in
      client\<lparr>c_Response := Some ((cx_response ctx)
        \<lparr>m_Header := (m_Header (cx_response ctx))\<lparr>h_Id := h_Id (m_Header (c_Request client))\<rparr>,
         m_Question := Some (cx_originalQuestion ctx)\<rparr>)\<rparr>)"

definition addRedirect :: "'n g53 \<Rightarrow> 'n \<Rightarrow> 'n CNameContext \<Rightarrow> 'n CNameContext \<times> string option" where
  "addRedirect G nextName ctx =
     (if \<exists>name\<in>set (cx_namechain ctx). Name_Equals G name nextName
      then (ctx, Some ErrCNameCircleIsDetected)
      else (ctx\<lparr>cx_namechain := cx_namechain ctx @ [nextName]\<rparr>, None))"

lemma makeRedirectQuery_None:
  "makeRedirectQuery ctx = (ctx1, None) \<Longrightarrow> cx_redirectCount ctx < maxRedirectCount \<and> cx_redirectCount ctx1 = Suc (cx_redirectCount ctx)"
  by (auto simp: makeRedirectQuery_def Let_def split: if_splits)

lemma addRedirect_count: "addRedirect G n ctx = (ctx', e) \<Longrightarrow> cx_redirectCount ctx' = cx_redirectCount ctx"
  by (auto simp: addRedirect_def split: if_splits)

lemma mergeResponse_fields [simp]:
  "cx_redirectCount (mergeResponse G r ctx) = cx_redirectCount ctx"
  "cx_namechain (mergeResponse G r ctx) = cx_namechain ctx"
  "cx_client (mergeResponse G r ctx) = cx_client ctx"
  "cx_originalQuestion (mergeResponse G r ctx) = cx_originalQuestion ctx"
  by (simp_all add: mergeResponse_def Let_def split: option.split)

text \<open>The resolver is \<open>h\<close>. The recursion ends because the count of redirections grows.\<close>

function followCNameChain ::
  "'n g53 \<Rightarrow> bool \<Rightarrow> ('w, 'n) query_fun \<Rightarrow> 'w \<Rightarrow> 'n CNameContext \<Rightarrow> ('w \<times> 'n CNameContext) may_panic" where
  "followCNameChain G check h w ctx =
     (case makeRedirectQuery ctx of
        (ctx1, Some err) \<Rightarrow> Some (w, ctx1)
      | (ctx1, None) \<Rightarrow>
          (case h w (cx_client ctx1) of
             None \<Rightarrow> None
           | Some (w2, client) \<Rightarrow>
               (let ctx2 = ctx1\<lparr>cx_client := client\<rparr> in
                case needRedirect check (c_Response client) of
                  None \<Rightarrow> None
                | Some None \<Rightarrow> Some (w2, mergeResponse G (c_Response client) ctx2)
                | Some (Some nextName) \<Rightarrow>
                    (let response = map_option (first_alias check) (c_Response client);
                         ctx3 = mergeResponse G response (ctx2\<lparr>cx_client := client\<lparr>c_Response := response\<rparr>\<rparr>)
                     in case addRedirect G nextName ctx3 of
                          (ctx4, Some err) \<Rightarrow> Some (w2, ctx4)
                        | (ctx4, None) \<Rightarrow> followCNameChain G check h w2 ctx4))))"
  by pat_completeness auto

termination followCNameChain
proof (relation "measure (\<lambda>(G, check, h, w, ctx). maxRedirectCount - cx_redirectCount ctx)", goal_cases)
  case 1
  show ?case by simp
next
  case (2 G check h w ctx ctx1 e p w2 client ctx2 o1 nextName response ctx3 ctx4 e4)
  have "cx_redirectCount ctx4 = cx_redirectCount ctx1"
    using 2 addRedirect_count [of G nextName ctx3 ctx4 e4] by simp
  moreover have "cx_redirectCount ctx < maxRedirectCount" "cx_redirectCount ctx1 = Suc (cx_redirectCount ctx)"
    using 2 makeRedirectQuery_None [of ctx ctx1] by simp_all
  ultimately show ?case by simp
qed

declare followCNameChain.simps [simp del]

definition cname_Resolve :: "'n g53 \<Rightarrow> bool \<Rightarrow> ('w, 'n) query_fun \<Rightarrow> ('w, 'n) query_fun" where
  "cname_Resolve G check h w client =
     (case h w client of
        None \<Rightarrow> None
      | Some (w1, client1) \<Rightarrow>
          (case (needRedirect check (c_Response client1), c_Response client1) of
             (None, _) \<Rightarrow> None
           | (Some (Some nextName), Some r) \<Rightarrow>
               Option.bind (newCNameContext client1 (first_alias check r)) (\<lambda>ctx.
                 map_option (\<lambda>(w2, ctx2). (w2, assembleFinalResponse ctx2))
                   (followCNameChain G check h w1 (fst (addRedirect G nextName ctx))))
           | _ \<Rightarrow> Some (w1, client1)))"

section \<open>Shared resolutions\<close>

text \<open>
  The group of the \<open>singleflight\<close> library runs the resolution of the first query of a key; queries of
  the same key that come meanwhile get its result. What \<open>Do\<close> comes to is a value of \<open>flight\<close>.
\<close>

datatype 'n flight = Leads | Joins "'n Message option" bool | Refused string

text \<open>
  The list holds what the calls of \<open>Do\<close> come to; a query for which it is used up has not
  returned. The response that is shared is copied by value, with the identifier replaced.
\<close>

fun limit_Resolve :: "'n g53 \<Rightarrow> ('w, 'n) query_fun \<Rightarrow> 'n flight list \<Rightarrow> ('w, 'n) query_fun" where
  "limit_Resolve G h [] w client = None"
| "limit_Resolve G h (Refused err # fs) w client = Some (w, client)"
| "limit_Resolve G h (Leads # fs) w client = h w client"
| "limit_Resolve G h (Joins resp cacheAnswer # fs) w client =
     (case (c_Response client, resp) of
        (Some r, _) \<Rightarrow> Some (w, client)
      | (None, None) \<Rightarrow> Some (w, client)
      | (None, Some r) \<Rightarrow>
          (case (m_Question (c_Request client), m_Question r) of
             (Some q, Some q') \<Rightarrow>
               if Name_Equals G (q_Name q) (q_Name q')
               then Some (w, client\<lparr>c_Response := Some (r\<lparr>m_Header := (m_Header r)\<lparr>h_Id := h_Id (m_Header (c_Request client))\<rparr>\<rparr>),
                                    c_CacheAnswer := cacheAnswer\<rparr>)
               else limit_Resolve G h fs w client
           | _ \<Rightarrow> None))"

section \<open>The chain of resolvers\<close>

definition ModuleAuth :: string where "ModuleAuth = ''auth''"
definition ModuleStubZone :: string where "ModuleStubZone = ''stub_zone''"
definition ModuleForwarder :: string where "ModuleForwarder = ''forwarder''"
definition ModuleRecursor :: string where "ModuleRecursor = ''recursor''"
definition ModuleLocalData :: string where "ModuleLocalData = ''local_data''"

definition ResolverSubmodule :: "string list" where
  "ResolverSubmodule = [ModuleAuth, ModuleStubZone, ModuleForwarder, ModuleRecursor, ModuleLocalData]"

definition IsResolverSubModule :: "string \<Rightarrow> bool" where
  "IsResolverSubModule m \<longleftrightarrow> m \<in> set ResolverSubmodule"

definition isModuleEnable :: "string list \<Rightarrow> string \<Rightarrow> bool" where
  "isModuleEnable EnableModules m \<longleftrightarrow> m \<in> set EnableModules"

definition append_enabled ::
  "string list \<Rightarrow> (string \<Rightarrow> ('w, 'n) handler) \<Rightarrow> string list \<Rightarrow> ('w, 'n) handler list" where
  "append_enabled mods new ms = map new (filter (isModuleEnable mods) ms)"

text \<open>
  The resolvers are linked as query handlers are (\<open>chain.BuildResolverChain\<close> has the loop of
  \<open>core.BuildQueryChain\<close>). \<open>new\<close> gives the resolver of a module, \<open>flights\<close> what the group decides in
  a state of the program.
\<close>

definition NewResolver ::
  "'n g53 \<Rightarrow> bool \<Rightarrow> ('w \<Rightarrow> 'n flight list) \<Rightarrow> (string \<Rightarrow> ('w, 'n) handler) \<Rightarrow> string list \<Rightarrow> ('w, 'n) query_fun may_panic" where
  "NewResolver G check flights new mods =
     (let limited = (case BuildQueryChain (append_enabled mods new [ModuleStubZone, ModuleForwarder, ModuleRecursor]) of
                       None \<Rightarrow> []
                     | Some r \<Rightarrow> [\<lambda>nxt w client. limit_Resolve G r (flights w) w client])
      in map_option (cname_Resolve G check)
           (BuildQueryChain (append_enabled mods new [ModuleLocalData, ModuleAuth] @ limited)))"

definition resolver_HandleQuery :: "('w, 'n) query_fun \<Rightarrow> ('w, 'n) handler" where
  "resolver_HandleQuery resolver nxt w client =
     (case resolver w client of
        None \<Rightarrow> None
      | Some (w', client') \<Rightarrow> if c_Response client' = None then PassToNext nxt w' client' else Some (w', client'))"

section \<open>Lemmas\<close>

text \<open>A resolver with a record of the questions it is asked.\<close>

definition recorded :: "('w, 'n) query_fun \<Rightarrow> ('n Question option list \<times> 'w, 'n) query_fun" where
  "recorded h w c = map_option (\<lambda>(w', c'). ((fst w @ [m_Question (c_Request c)], w'), c')) (h (snd w) c)"

definition distinct_names :: "'n g53 \<Rightarrow> 'n list \<Rightarrow> bool" where
  "distinct_names G ns \<longleftrightarrow> sorted_wrt (\<lambda>a b. \<not> Name_Equals G a b) ns"

definition aliases_wf :: "'n Message \<Rightarrow> bool" where
  "aliases_wf m \<longleftrightarrow> (h_ANCount (m_Header m) \<noteq> 0 \<longrightarrow> m_Answer m \<noteq> []) \<and>
     (\<forall>r\<in>set (m_Answer m). rr_Type r = RR_CNAME \<longrightarrow> (\<exists>n ds. rr_Rdatas r = RdCName n # ds))"

definition steady_resolver :: "('w, 'n) query_fun \<Rightarrow> bool" where
  "steady_resolver h \<longleftrightarrow> (\<forall>w c. \<exists>w' c'. h w c = Some (w', c') \<and> c_Request c' = c_Request c \<and>
     (\<forall>m. c_Response c' = Some m \<longrightarrow> aliases_wf m))"

lemma needRedirect_returns:
  assumes "\<forall>m. msg = Some m \<longrightarrow> aliases_wf m"
  shows "\<exists>x. needRedirect check msg = Some x"
proof (cases msg)
  case (Some m)
  show ?thesis
  proof (cases "h_ANCount (m_Header m) = 0")
    case False
    define r where "r = (if check then hd (m_Answer m) else last (m_Answer m))"
    have m: "m_Answer m \<noteq> []" "r \<in> set (m_Answer m)" using assms Some False by (auto simp: aliases_wf_def r_def)
    then have "rr_Type r = RR_CNAME \<Longrightarrow> \<exists>n ds. rr_Rdatas r = RdCName n # ds"
      using assms Some by (simp add: aliases_wf_def)
    then show ?thesis using Some False m(1) by (auto simp: needRedirect_def Let_def simp flip: r_def)
  qed (simp add: Some needRedirect_def)
qed (simp add: needRedirect_def)

definition same_request :: "'n Message \<Rightarrow> 'n Client \<Rightarrow> bool" where
  "same_request req c \<longleftrightarrow> (\<forall>q. (c_Request c)\<lparr>m_Question := q\<rparr> = req\<lparr>m_Question := q\<rparr>)"

lemma same_request_simps [simp]:
  "same_request req (set_question q c) = same_request req c"
  "same_request req (c\<lparr>c_Response := r\<rparr>) = same_request req c"
  by (simp_all add: same_request_def set_question_def)

definition names_asked :: "'n g53 \<Rightarrow> 'n list \<Rightarrow> 'n list \<Rightarrow> bool" where
  "names_asked G chain names \<longleftrightarrow> names = [] \<or> (\<exists>rest. names = last chain # rest \<and> distinct_names G (chain @ rest))"

lemma names_asked_Cons:
  "names_asked G (chain @ [n]) names \<Longrightarrow> distinct_names G chain \<Longrightarrow> names_asked G chain (last chain # names)"
  by (auto simp: names_asked_def)

lemma addRedirect_None:
  "addRedirect G n ctx = (ctx', None) \<Longrightarrow> ctx' = ctx\<lparr>cx_namechain := cx_namechain ctx @ [n]\<rparr> \<and>
     (\<forall>m\<in>set (cx_namechain ctx). \<not> Name_Equals G m n)"
  by (auto simp: addRedirect_def split: if_splits)

lemma addRedirect_Some: "addRedirect G n ctx = (ctx', Some e) \<Longrightarrow> ctx' = ctx"
  by (auto simp: addRedirect_def split: if_splits)

lemma steadyD:
  assumes "steady_resolver h"
  obtains w' c' x where "h w c = Some (w', c')" "c_Request c' = c_Request c" "needRedirect check (c_Response c') = Some x"
  using assms needRedirect_returns unfolding steady_resolver_def by metis

lemma recorded_Some:
  "h w c = Some (w', c') \<Longrightarrow> recorded h (qs, w) c = Some ((qs @ [m_Question (c_Request c)], w'), c')"
  by (simp add: recorded_def)

text \<open>One step of the chain: the question that is asked.\<close>

definition redirect_question :: "'n CNameContext \<Rightarrow> 'n Question" where
  "redirect_question ctx = (cx_originalQuestion ctx)\<lparr>q_Name := last (cx_namechain ctx)\<rparr>"

lemma question_eta: "\<lparr>q_Name = n, q_Type = q_Type q, q_Class = q_Class q\<rparr> = q\<lparr>q_Name := n\<rparr>"
  by (cases q) simp

lemma makeRedirectQuery_ok:
  assumes "cx_redirectCount ctx < maxRedirectCount"
  shows "makeRedirectQuery ctx =
     (ctx\<lparr>cx_redirectCount := Suc (cx_redirectCount ctx),
          cx_client := set_question (redirect_question ctx) ((cx_client ctx)\<lparr>c_Response := None\<rparr>)\<rparr>, None)"
  using assms by (simp add: makeRedirectQuery_def redirect_question_def question_eta Let_def)

lemma follow_stops: "\<not> cx_redirectCount ctx < maxRedirectCount \<Longrightarrow> \<exists>ctx'. followCNameChain G check h w ctx = Some (w, ctx') \<and>
    cx_client ctx' = cx_client ctx \<and> cx_originalQuestion ctx' = cx_originalQuestion ctx"
  by (simp add: followCNameChain.simps [of G check h w ctx] makeRedirectQuery_def Let_def)

lemma distinct_names_snoc:
  "distinct_names G (ns @ [n]) \<longleftrightarrow> distinct_names G ns \<and> (\<forall>m\<in>set ns. \<not> Name_Equals G m n)"
  by (auto simp: distinct_names_def sorted_wrt_append)

definition redirected :: "'n Client \<Rightarrow> 'n CNameContext \<Rightarrow> 'n CNameContext" where
  "redirected c ctx = ctx\<lparr>cx_redirectCount := Suc (cx_redirectCount ctx), cx_client := c\<rparr>"

definition redirect_client :: "'n CNameContext \<Rightarrow> 'n Client" where
  "redirect_client ctx = set_question (redirect_question ctx) ((cx_client ctx)\<lparr>c_Response := None\<rparr>)"

definition merged_alias :: "'n g53 \<Rightarrow> bool \<Rightarrow> 'n Client \<Rightarrow> 'n CNameContext \<Rightarrow> 'n CNameContext" where
  "merged_alias G check c ctx =
     (let r = map_option (first_alias check) (c_Response c) in mergeResponse G r (redirected (c\<lparr>c_Response := r\<rparr>) ctx))"

lemma follow_step:
  assumes "cx_redirectCount ctx < maxRedirectCount" "h w (redirect_client ctx) = Some (w', c')"
    "needRedirect check (c_Response c') = Some x"
  shows "followCNameChain G check h w ctx =
    (case x of
       None \<Rightarrow> Some (w', mergeResponse G (c_Response c') (redirected c' ctx))
     | Some n \<Rightarrow>
         (if \<exists>m\<in>set (cx_namechain ctx). Name_Equals G m n then Some (w', merged_alias G check c' ctx)
          else followCNameChain G check h w' ((merged_alias G check c' ctx)\<lparr>cx_namechain := cx_namechain ctx @ [n]\<rparr>)))"
  by (subst followCNameChain.simps)
    (use assms in \<open>simp add: makeRedirectQuery_ok redirect_client_def merged_alias_def addRedirect_def redirected_def Let_def split: option.split\<close>)

lemma redirected_fields [simp]:
  "cx_redirectCount (redirected c ctx) = Suc (cx_redirectCount ctx)" "cx_client (redirected c ctx) = c"
  "cx_namechain (redirected c ctx) = cx_namechain ctx"
  "cx_originalQuestion (redirected c ctx) = cx_originalQuestion ctx" "cx_response (redirected c ctx) = cx_response ctx"
  by (simp_all add: redirected_def)

lemma merged_alias_fields [simp]:
  "cx_redirectCount (merged_alias G check c ctx) = Suc (cx_redirectCount ctx)"
  "cx_originalQuestion (merged_alias G check c ctx) = cx_originalQuestion ctx"
  "same_request req (cx_client (merged_alias G check c ctx)) = same_request req c"
  by (simp_all add: merged_alias_def Let_def)

lemma same_request_cong: "c_Request c' = c_Request c \<Longrightarrow> same_request req c' = same_request req c"
  by (simp add: same_request_def)

lemma redirect_client_simps [simp]:
  "same_request req (redirect_client ctx) = same_request req (cx_client ctx)"
  "m_Question (c_Request (redirect_client ctx)) = Some (redirect_question ctx)"
  by (simp_all add: redirect_client_def) (simp add: set_question_def)

lemma follow_runs:
  assumes "steady_resolver h" "distinct_names G (cx_namechain ctx)" "same_request req (cx_client ctx)"
  shows "\<exists>names w' ctx'. followCNameChain G check (recorded h) (qs, w) ctx =
      Some ((qs @ map (\<lambda>n. Some ((cx_originalQuestion ctx)\<lparr>q_Name := n\<rparr>)) names, w'), ctx') \<and>
    length names \<le> maxRedirectCount - cx_redirectCount ctx \<and> names_asked G (cx_namechain ctx) names \<and>
    same_request req (cx_client ctx') \<and> cx_originalQuestion ctx' = cx_originalQuestion ctx"
  (is "\<exists>names w' ctx'. ?P qs w ctx names w' ctx'")
  using assms(2,3)
proof (induction "maxRedirectCount - cx_redirectCount ctx" arbitrary: ctx qs w rule: less_induct)
  case less
  show ?case
  proof (cases "cx_redirectCount ctx < maxRedirectCount")
    case False
    then obtain ctx' where "followCNameChain G check (recorded h) (qs, w) ctx = Some ((qs, w), ctx')"
      "cx_client ctx' = cx_client ctx" "cx_originalQuestion ctx' = cx_originalQuestion ctx"
      using follow_stops [of ctx G check "recorded h" "(qs, w)"] by auto
    then have "?P qs w ctx [] w ctx'" using less.prems(2) by (simp add: names_asked_def)
    then show ?thesis by (intro exI)
  next
    case True
    obtain w' c' x where h: "h w (redirect_client ctx) = Some (w', c')" "c_Request c' = c_Request (redirect_client ctx)"
      "needRedirect check (c_Response c') = Some x"
      by (rule steadyD [OF assms(1), of w "redirect_client ctx" check])
    let ?qs = "qs @ [Some (redirect_question ctx)]"
    note step = follow_step [where h = "recorded h" and w = "(qs, w)", OF True recorded_Some [where h = h, OF h(1)] h(3),
        unfolded redirect_client_simps]
    have s: "same_request req c'" using less.prems(2) same_request_cong [OF h(2)] by simp
    have one: "names_asked G (cx_namechain ctx) [last (cx_namechain ctx)]"
      using less.prems(1) by (simp add: names_asked_def)
    show ?thesis
    proof (cases x)
      case None
      then have "?P qs w ctx [last (cx_namechain ctx)] w' (mergeResponse G (c_Response c') (redirected c' ctx))"
        using True s one by (simp add: step redirect_question_def)
      then show ?thesis by (intro exI)
    next
      case (Some n)
      show ?thesis
      proof (cases "\<exists>m\<in>set (cx_namechain ctx). Name_Equals G m n")
        case True
        then have "?P qs w ctx [last (cx_namechain ctx)] w' (merged_alias G check c' ctx)"
          using \<open>cx_redirectCount ctx < maxRedirectCount\<close> s one Some by (simp add: step redirect_question_def)
        then show ?thesis by (intro exI)
      next
        case False
        let ?ctx = "(merged_alias G check c' ctx)\<lparr>cx_namechain := cx_namechain ctx @ [n]\<rparr>"
        have "\<exists>names w'' ctx'. ?P ?qs w' ?ctx names w'' ctx'"
          using less.prems True False s by (intro less.hyps) (simp_all add: distinct_names_snoc)
        then obtain names w'' ctx' where "?P ?qs w' ?ctx names w'' ctx'" by (elim exE)
        then have "?P qs w ctx (last (cx_namechain ctx) # names) w'' ctx'"
          using True False Some less.prems(1)
          by (auto simp: step redirect_question_def intro: names_asked_Cons)
        then show ?thesis by (intro exI)
      qed
    qed
  qed
qed

lemma cname_start:
  assumes "h w c = Some (w1, c1)" "c_Request c1 = c_Request c" "m_Question (c_Request c) = Some q"
    and "c_Response c1 = Some r" "needRedirect check (Some r) = Some (Some n)"
  shows "cname_Resolve G check h w c =
    map_option (\<lambda>(w2, ctx2). (w2, assembleFinalResponse ctx2))
      (followCNameChain G check h w1
        \<lparr>cx_originalQuestion = q, cx_redirectCount = 0, cx_response = first_alias check r,
         cx_client = c1\<lparr>c_Response := Some (first_alias check r)\<rparr>,
         cx_namechain = (if Name_Equals G (q_Name q) n then [q_Name q] else [q_Name q, n])\<rparr>)"
  using assms by (simp add: cname_Resolve_def newCNameContext_def addRedirect_def)

lemma assemble_request:
  assumes "same_request req (cx_client ctx)" "m_Question req = Some (cx_originalQuestion ctx)"
  shows "c_Request (assembleFinalResponse ctx) = req"
proof -
  have "req\<lparr>m_Question := m_Question req\<rparr> = req" by (cases req) simp
  then show ?thesis using assms by (simp add: assembleFinalResponse_def set_question_def same_request_def Let_def)
qed

lemma distinct_names_simps [simp]:
  "distinct_names G []" "distinct_names G (n # ns) \<longleftrightarrow> (\<forall>m\<in>set ns. \<not> Name_Equals G n m) \<and> distinct_names G ns"
  by (simp_all add: distinct_names_def)

lemma names_asked_distinct:
  assumes "names_asked G (if Name_Equals G a n then [a] else [a, n]) names"
  shows "distinct_names G names \<and> distinct_names G (a # tl names)"
  using assms by (auto simp: names_asked_def split: if_splits)

text \<open>Small zones: a ring of three aliases, and an alias of a name with an address.\<close>

definition zone_question :: "string \<Rightarrow> string list Question" where
  "zone_question n = \<lparr>q_Name = [n], q_Type = RR_A, q_Class = CLASS_IN\<rparr>"

definition zone_client :: "string \<Rightarrow> string list Client" where
  "zone_client n = client_reset 0 (UDPAddr [] 0) (UDPAddr [] 0) False
     \<lparr>m_Header = empty_header\<lparr>h_Id := 7\<rparr>, m_Question = Some (zone_question n), m_Answer = [], m_Auth = [], m_Additional = [], m_Tsig = None\<rparr>"

definition alias_message :: "string list \<Rightarrow> string list \<Rightarrow> string list Message" where
  "alias_message n t = \<lparr>m_Header = empty_header\<lparr>h_ANCount := 1\<rparr>, m_Question = None,
     m_Answer = [\<lparr>rr_Name = n, rr_Type = RR_CNAME, rr_Class = CLASS_IN, rr_Ttl = 60, rr_Rdatas = [RdCName t]\<rparr>],
     m_Auth = [], m_Additional = [], m_Tsig = None\<rparr>"

definition address_message :: "string list \<Rightarrow> string list Message" where
  "address_message n = \<lparr>m_Header = empty_header\<lparr>h_ANCount := 1\<rparr>, m_Question = None,
     m_Answer = [\<lparr>rr_Name = n, rr_Type = RR_A, rr_Class = CLASS_IN, rr_Ttl = 60, rr_Rdatas = [RdA [192, 0, 2, 1]]\<rparr>],
     m_Auth = [], m_Additional = [], m_Tsig = None\<rparr>"

definition ring_zone :: "string list Question \<Rightarrow> string list Message option" where
  "ring_zone q =
     (if q_Name q = [''a''] then Some (alias_message [''a''] [''b''])
      else if q_Name q = [''b''] then Some (alias_message [''b''] [''c''])
      else if q_Name q = [''c''] then Some (alias_message [''c''] [''a'']) else None)"

definition host_zone :: "string list Question \<Rightarrow> string list Message option" where
  "host_zone q =
     (if q_Name q = [''www''] then Some (alias_message [''www''] [''host''])
      else if q_Name q = [''host''] then Some (address_message [''host'']) else None)"

definition zone_resolver :: "('n Question \<Rightarrow> 'n Message option) \<Rightarrow> ('w, 'n) query_fun" where
  "zone_resolver zone w c = Some (w, c\<lparr>c_Response := Option.bind (m_Question (c_Request c)) zone\<rparr>)"

text \<open>
  C7. Following aliases ends: over any resolver that returns, keeps the request and answers with
  well-formed aliases, the handler returns after at most seventeen resolutions, whatever the aliases
  are. The first question asked is the client's; every later one has the type and class of that one
  and the name of an alias, no name is asked twice among them, and only the first of them can repeat
  the client's own name. The client's request is restored.
\<close>

theorem cname_chain_terminates:
  assumes "steady_resolver h" "m_Question (c_Request c) = Some q"
  shows "\<exists>names w' c'. cname_Resolve G check (recorded h) ([], w) c =
      Some ((map Some (q # map (\<lambda>n. q\<lparr>q_Name := n\<rparr>) names), w'), c') \<and>
    length names \<le> 16 \<and> distinct_names G names \<and> distinct_names G (q_Name q # tl names) \<and> c_Request c' = c_Request c"
proof -
  obtain w1 c1 x where h: "h w c = Some (w1, c1)" "c_Request c1 = c_Request c" "needRedirect check (c_Response c1) = Some x"
    by (rule steadyD [OF assms(1), of w c check])
  have r: "recorded h ([], w) c = Some (([Some q], w1), c1)"
    using recorded_Some [where h = h, OF h(1), of "[]"] assms(2) by simp
  show ?thesis
  proof (cases x)
    case None
    then have "cname_Resolve G check (recorded h) ([], w) c = Some (([Some q], w1), c1)"
      using h(3) r by (simp add: cname_Resolve_def)
    then show ?thesis using h(2) by (intro exI [of _ "[]"] exI [of _ w1] exI [of _ c1]) simp
  next
    case (Some n)
    then obtain m where m: "c_Response c1 = Some m" using h(3) by (cases "c_Response c1") (auto simp: needRedirect_def)
    define ctx where "ctx = \<lparr>cx_originalQuestion = q, cx_redirectCount = 0, cx_response = first_alias check m,
         cx_client = c1\<lparr>c_Response := Some (first_alias check m)\<rparr>,
         cx_namechain = (if Name_Equals G (q_Name q) n then [q_Name q] else [q_Name q, n])\<rparr>"
    note start = cname_start [where h = "recorded h", OF r h(2) assms(2) m h(3) [unfolded m Some], of G, folded ctx_def]
    have "distinct_names G (cx_namechain ctx)" "same_request (c_Request c) (cx_client ctx)"
      using h(2) by (simp_all add: ctx_def same_request_def)
    from follow_runs [OF assms(1) this, of check "[Some q]" w1] obtain names w2 ctx2 where
      f: "followCNameChain G check (recorded h) ([Some q], w1) ctx =
        Some (([Some q] @ map (\<lambda>n. Some (q\<lparr>q_Name := n\<rparr>)) names, w2), ctx2)" "length names \<le> 16"
        "names_asked G (cx_namechain ctx) names" "same_request (c_Request c) (cx_client ctx2)" "cx_originalQuestion ctx2 = q"
      by (auto simp: ctx_def maxRedirectCount_def)
    have "cname_Resolve G check (recorded h) ([], w) c =
      Some ((map Some (q # map (\<lambda>n. q\<lparr>q_Name := n\<rparr>) names), w2), assembleFinalResponse ctx2)"
      unfolding start f(1) by (simp add: comp_def)
    moreover have "distinct_names G names \<and> distinct_names G (q_Name q # tl names)"
      using f(3) names_asked_distinct [of G "q_Name q" n names] by (simp add: ctx_def)
    ultimately show ?thesis using f(2,4,5) assms(2) assemble_request [of "c_Request c" ctx2]
      by (intro exI [of _ names] exI [of _ w2] exI [of _ "assembleFinalResponse ctx2"]) simp
  qed
qed

theorem cname_chain_terminates_witness:
  "\<exists>names w' c'. cname_Resolve ref_g53 False (recorded (zone_resolver ring_zone)) ([], ()) (zone_client ''a'') =
      Some ((map Some (zone_question ''a'' # map (\<lambda>n. (zone_question ''a'')\<lparr>q_Name := n\<rparr>) names), w'), c') \<and>
    length names \<le> 16 \<and> distinct_names ref_g53 names \<and> distinct_names ref_g53 ([''a''] # tl names) \<and>
    c_Request c' = c_Request (zone_client ''a'')"
proof -
  have "aliases_wf (alias_message n t)" for n t
    by (simp add: aliases_wf_def alias_message_def)
  then have "steady_resolver (zone_resolver ring_zone :: (unit, string list) query_fun)"
    by (auto simp: steady_resolver_def zone_resolver_def ring_zone_def bind_eq_Some_conv split: if_splits)
  then show ?thesis
    using cname_chain_terminates [where h = "zone_resolver ring_zone" and c = "zone_client ''a''" and q = "zone_question ''a''"
        and G = ref_g53 and check = False and w = "()"]
    by (simp add: zone_client_def client_reset_def zone_question_def)
qed

text \<open>Names linked by the aliases of the answers \<open>ans\<close>, and the answers along them.\<close>

fun alias_path :: "bool \<Rightarrow> ('n Question \<Rightarrow> 'n Message option) \<Rightarrow> 'n Question \<Rightarrow> 'n list \<Rightarrow> bool" where
  "alias_path check ans q [] = False"
| "alias_path check ans q [n] =
     (case ans (q\<lparr>q_Name := n\<rparr>) of None \<Rightarrow> False | Some m \<Rightarrow> needRedirect check (Some m) = Some None)"
| "alias_path check ans q (n # n' # ns) =
     ((case ans (q\<lparr>q_Name := n\<rparr>) of None \<Rightarrow> False | Some m \<Rightarrow> needRedirect check (Some m) = Some (Some n')) \<and>
      alias_path check ans q (n' # ns))"

fun path_answer :: "bool \<Rightarrow> ('n Question \<Rightarrow> 'n Message option) \<Rightarrow> 'n Question \<Rightarrow> 'n list \<Rightarrow> 'n RRset list" where
  "path_answer check ans q [] = []"
| "path_answer check ans q [n] = m_Answer (the (ans (q\<lparr>q_Name := n\<rparr>)))"
| "path_answer check ans q (n # n' # ns) =
     m_Answer (first_alias check (the (ans (q\<lparr>q_Name := n\<rparr>)))) @ path_answer check ans q (n' # ns)"

definition answers_by :: "('w, 'n) query_fun \<Rightarrow> ('n Question \<Rightarrow> 'n Message option) \<Rightarrow> bool" where
  "answers_by h ans \<longleftrightarrow> (\<forall>w c q. m_Question (c_Request c) = Some q \<longrightarrow>
     (\<exists>w' c'. h w c = Some (w', c') \<and> c_Request c' = c_Request c \<and> c_Response c' = ans q))"

lemma answers_byD:
  assumes "answers_by h ans" "m_Question (c_Request c) = Some q"
  obtains w' c' where "h w c = Some (w', c')" "c_Request c' = c_Request c" "c_Response c' = ans q"
proof -
  have "\<exists>w' c'. h w c = Some (w', c') \<and> c_Request c' = c_Request c \<and> c_Response c' = ans q"
    using assms unfolding answers_by_def by simp
  then show thesis using that by (elim exE conjE)
qed

lemma fold_AddRRset:
  assumes "message_laws G"
  shows "m_Answer (fold (Message_AddRRset G AnswerSection) rs m) = m_Answer m @ rs"
  using message_lawsD(4) [OF assms, of AnswerSection AnswerSection] by (induction rs arbitrary: m) simp_all

lemma merge_answer:
  assumes "message_laws G"
  shows "m_Answer (cx_response (mergeResponse G (Some r) ctx)) = m_Answer (cx_response ctx) @ m_Answer r"
    "h_Rcode (m_Header (cx_response (mergeResponse G (Some r) ctx))) = h_Rcode (m_Header r)"
  by (simp_all add: mergeResponse_def fold_AddRRset [OF assms] Let_def)

lemma follow_path:
  assumes "answers_by h ans" "message_laws G"
  shows "alias_path check ans (cx_originalQuestion ctx) (last (cx_namechain ctx) # ns) \<Longrightarrow>
    distinct_names G (cx_namechain ctx @ ns) \<Longrightarrow> cx_redirectCount ctx + length ns < maxRedirectCount \<Longrightarrow>
    same_request req (cx_client ctx) \<Longrightarrow>
    \<exists>w' ctx'. followCNameChain G check h w ctx = Some (w', ctx') \<and> same_request req (cx_client ctx') \<and>
      cx_originalQuestion ctx' = cx_originalQuestion ctx \<and>
      m_Answer (cx_response ctx') =
        m_Answer (cx_response ctx) @ path_answer check ans (cx_originalQuestion ctx) (last (cx_namechain ctx) # ns) \<and>
      h_Rcode (m_Header (cx_response ctx')) =
        h_Rcode (m_Header (the (ans ((cx_originalQuestion ctx)\<lparr>q_Name := last (last (cx_namechain ctx) # ns)\<rparr>))))"
    (is "_ \<Longrightarrow> _ \<Longrightarrow> _ \<Longrightarrow> _ \<Longrightarrow> \<exists>w' ctx'. ?P ns w ctx w' ctx'")
proof (induction ns arbitrary: ctx w)
  case Nil
  obtain w' c' where h: "h w (redirect_client ctx) = Some (w', c')" "c_Request c' = c_Request (redirect_client ctx)"
    "c_Response c' = ans (redirect_question ctx)"
    by (rule answers_byD [OF assms(1), of "redirect_client ctx" "redirect_question ctx" w]) simp
  obtain m where m: "ans (redirect_question ctx) = Some m" "needRedirect check (Some m) = Some None"
    using Nil.prems(1) by (auto simp: redirect_question_def split: option.splits)
  have "followCNameChain G check h w ctx = Some (w', mergeResponse G (Some m) (redirected c' ctx))"
    using follow_step [where h = h, OF _ h(1), of check None] Nil.prems(3) h(3) m by simp
  moreover have "same_request req c'" using Nil.prems(4) same_request_cong [OF h(2)] by simp
  ultimately have "?P [] w ctx w' (mergeResponse G (Some m) (redirected c' ctx))"
    using m by (simp add: merge_answer [OF assms(2)] redirect_question_def)
  then show ?case by (intro exI)
next
  case (Cons n ns)
  obtain w' c' where h: "h w (redirect_client ctx) = Some (w', c')" "c_Request c' = c_Request (redirect_client ctx)"
    "c_Response c' = ans (redirect_question ctx)"
    by (rule answers_byD [OF assms(1), of "redirect_client ctx" "redirect_question ctx" w]) simp
  obtain m where m: "ans (redirect_question ctx) = Some m" "needRedirect check (Some m) = Some (Some n)"
    using Cons.prems(1) by (auto simp: redirect_question_def split: option.splits)
  let ?ctx = "(merged_alias G check c' ctx)\<lparr>cx_namechain := cx_namechain ctx @ [n]\<rparr>"
  have fresh: "\<not> (\<exists>m\<in>set (cx_namechain ctx). Name_Equals G m n)"
    using Cons.prems(2) by (auto simp: distinct_names_def sorted_wrt_append)
  then have step: "followCNameChain G check h w ctx = followCNameChain G check h w' ?ctx"
    using follow_step [where h = h, OF _ h(1), of check "Some n"] Cons.prems(3) h(3) m by simp
  have "same_request req c'" using Cons.prems(4) same_request_cong [OF h(2)] by simp
  then have "\<exists>w'' ctx'. ?P ns w' ?ctx w'' ctx'"
    using Cons.prems by (intro Cons.IH) simp_all
  then obtain w'' ctx' where "?P ns w' ?ctx w'' ctx'" by (elim exE)
  moreover have "m_Answer (cx_response ?ctx) = m_Answer (cx_response ctx) @ m_Answer (first_alias check m)"
    using h(3) m(1) by (simp add: merged_alias_def merge_answer [OF assms(2)] Let_def)
  ultimately have "?P (n # ns) w ctx w'' ctx'"
    using step m(1) by (simp add: redirect_question_def)
  then show ?case by (intro exI)
qed

text \<open>
  C21. The answer assembled for an alias is the concatenation of the answers along the chain: over a
  resolver that answers as \<open>ans\<close> does, a chain of at most sixteen aliases with different names that
  ends in a name without an alias gives the records of every name of the chain in their order (with
  the check on, only the first record set of the names that are aliases), the code of the last
  answer, and the identifier and question of the client's request.
\<close>

theorem cname_answer_is_chain:
  assumes "answers_by h ans" "message_laws G" "m_Question (c_Request c) = Some q"
    and "alias_path check ans q (q_Name q # n # ns)" "distinct_names G (q_Name q # n # ns)" "length ns < 16"
  shows "\<exists>w' c' r. cname_Resolve G check h w c = Some (w', c') \<and> c_Request c' = c_Request c \<and> c_Response c' = Some r \<and>
    m_Answer r = path_answer check ans q (q_Name q # n # ns) \<and>
    h_Rcode (m_Header r) = h_Rcode (m_Header (the (ans (q\<lparr>q_Name := last (n # ns)\<rparr>)))) \<and>
    h_Id (m_Header r) = h_Id (m_Header (c_Request c)) \<and> m_Question r = Some q"
proof -
  obtain w1 c1 where h: "h w c = Some (w1, c1)" "c_Request c1 = c_Request c" "c_Response c1 = ans q"
    by (rule answers_byD [OF assms(1,3), of w])
  have q: "q\<lparr>q_Name := q_Name q\<rparr> = q" by simp
  obtain m where m: "ans q = Some m" "needRedirect check (Some m) = Some (Some n)"
    using assms(4) by (auto split: option.splits)
  define ctx where "ctx = \<lparr>cx_originalQuestion = q, cx_redirectCount = 0, cx_response = first_alias check m,
         cx_client = c1\<lparr>c_Response := Some (first_alias check m)\<rparr>, cx_namechain = [q_Name q, n]\<rparr>"
  have start: "cname_Resolve G check h w c =
      map_option (\<lambda>(w2, ctx2). (w2, assembleFinalResponse ctx2)) (followCNameChain G check h w1 ctx)"
    using cname_start [where h = h, OF h(1,2) assms(3) h(3) [unfolded m(1)] m(2), of G] assms(5) by (simp add: ctx_def)
  have "\<exists>w' ctx'. followCNameChain G check h w1 ctx = Some (w', ctx') \<and> same_request (c_Request c) (cx_client ctx') \<and>
      cx_originalQuestion ctx' = cx_originalQuestion ctx \<and>
      m_Answer (cx_response ctx') =
        m_Answer (cx_response ctx) @ path_answer check ans (cx_originalQuestion ctx) (last (cx_namechain ctx) # ns) \<and>
      h_Rcode (m_Header (cx_response ctx')) =
        h_Rcode (m_Header (the (ans ((cx_originalQuestion ctx)\<lparr>q_Name := last (last (cx_namechain ctx) # ns)\<rparr>))))"
    by (rule follow_path [OF assms(1,2)])
      (use assms(4-6) h(2) in \<open>simp_all add: ctx_def maxRedirectCount_def same_request_def\<close>)
  then obtain w' ctx' where f: "followCNameChain G check h w1 ctx = Some (w', ctx')"
      "same_request (c_Request c) (cx_client ctx')" "cx_originalQuestion ctx' = q"
      "m_Answer (cx_response ctx') = path_answer check ans q (q_Name q # n # ns)"
      "h_Rcode (m_Header (cx_response ctx')) = h_Rcode (m_Header (the (ans (q\<lparr>q_Name := last (n # ns)\<rparr>))))"
    using m(1) by (auto simp: ctx_def)
  have c: "c_Request (assembleFinalResponse ctx') = c_Request c"
    using f(2,3) assms(3) by (intro assemble_request) simp_all
  have r: "\<exists>r. c_Response (assembleFinalResponse ctx') = Some r \<and>
      m_Answer r = m_Answer (cx_response ctx') \<and> h_Rcode (m_Header r) = h_Rcode (m_Header (cx_response ctx')) \<and>
      h_Id (m_Header r) = h_Id (m_Header (c_Request (assembleFinalResponse ctx'))) \<and> m_Question r = Some (cx_originalQuestion ctx')"
    by (simp add: assembleFinalResponse_def Let_def)
  show ?thesis unfolding start f(1) using r c f(3-5) by simp
qed

theorem cname_answer_is_chain_witness:
  "\<exists>w' c' r. cname_Resolve ref_g53 False (zone_resolver host_zone) () (zone_client ''www'') = Some (w', c') \<and>
    c_Request c' = c_Request (zone_client ''www'') \<and> c_Response c' = Some r \<and>
    m_Answer r = m_Answer (alias_message [''www''] [''host'']) @ m_Answer (address_message [''host'']) \<and>
    h_Rcode (m_Header r) = R_NOERROR \<and> h_Id (m_Header r) = 7 \<and> m_Question r = Some (zone_question ''www'')"
proof -
  have "answers_by (zone_resolver host_zone :: (unit, string list) query_fun) host_zone"
    by (auto simp: answers_by_def zone_resolver_def)
  moreover have "alias_path False host_zone (zone_question ''www'') [[''www''], [''host'']]"
    "distinct_names ref_g53 [[''www''], [''host'']]" by code_simp+
  ultimately show ?thesis
    using cname_answer_is_chain [where h = "zone_resolver host_zone" and ans = host_zone and c = "zone_client ''www''"
        and q = "zone_question ''www''" and check = False and n = "[''host'']" and ns = "[]" and w = "()", OF _ ref_message_laws]
    by (simp add: zone_client_def client_reset_def zone_question_def host_zone_def first_alias_def alias_message_def
        address_message_def empty_header_def)
qed









end
