(* ===== verification/Forwarder_Group.thy ===== *)
theory Forwarder_Group
  imports Core Util Go_Time
begin

text \<open>
  The servers that queries are forwarded to, \<open>resolver/forwarder/\<close>: one server with its status
  (\<open>safeudpfwder.go\<close>), the prober of the servers that are down (\<open>prober.go\<close>, \<open>recoverablefwd.go\<close>),
  the choice among several servers (\<open>safefwderselector.go\<close>), groups of servers (\<open>fwdergroup.go\<close>) and
  the servers known by their address (\<open>safefwderrepo.go\<close>). Servers and groups are reached through
  their addresses in a heap, since a server is shared by the zones that name it. The locale
  \<open>fwder_selector\<close> is the interface \<open>FwderSelector\<close>; the lemmas show what each choice guarantees, when
  a server counts as down and that a server that is down is probed until it answers.
\<close>

section \<open>One server\<close>

text \<open>The sender is nil until a query source is set.\<close>

record SafeUDPFwder =
  uf_fwder :: "SafeUDPSender option"
  uf_remoteAddr :: string
  uf_lastRtt :: duration
  uf_fwderTimeout :: duration
  uf_bearableFailInterval :: int
  uf_lastFailTime :: int
  uf_isDown :: bool

definition NewSafeUDPFwder :: "string \<Rightarrow> duration \<Rightarrow> duration \<Rightarrow> SafeUDPFwder" where
  "NewSafeUDPFwder addr fwderTimeout bearableFailInterval =
     \<lparr>uf_fwder = None, uf_remoteAddr = addr, uf_lastRtt = 0, uf_fwderTimeout = fwderTimeout,
      uf_bearableFailInterval = bearableFailInterval div Second, uf_lastFailTime = 0, uf_isDown = False\<rparr>"

definition uf_SetQuerySource :: "(string \<Rightarrow> string + string) \<Rightarrow> string \<Rightarrow> SafeUDPFwder \<Rightarrow> string + SafeUDPFwder" where
  "uf_SetQuerySource Resolve ip f =
     bindE (NewSafeUDPSender Resolve ip (uf_fwderTimeout f)) (\<lambda>sender. Inr (f\<lparr>uf_fwder := Some sender\<rparr>))"

text \<open>\<open>now\<close> is the time in seconds, \<open>failed\<close> whether there was an error.\<close>

definition checkStatus :: "int \<Rightarrow> bool \<Rightarrow> SafeUDPFwder \<Rightarrow> SafeUDPFwder" where
  "checkStatus now failed f =
     (if \<not> failed then f\<lparr>uf_lastFailTime := 0, uf_isDown := False\<rparr>
      else if uf_lastFailTime f = 0 then f\<lparr>uf_lastFailTime := now, uf_isDown := False\<rparr>
      else f\<lparr>uf_isDown := (now - uf_lastFailTime f \<ge> uf_bearableFailInterval f)\<rparr>)"

text \<open>
  The surroundings of the program: the exchange of a message with a server from a source address,
  with the time it took; new message identifiers; the clock in seconds.
\<close>

record ('w, 'n) surroundings =
  sr_exchange :: "string \<Rightarrow> string \<Rightarrow> 'n Message \<Rightarrow> 'w \<Rightarrow> 'w \<times> (string + 'n Message) \<times> duration"
  sr_GenMessageId :: "'w \<Rightarrow> u16"
  sr_Unix :: "'w \<Rightarrow> int"

definition with_id :: "u16 \<Rightarrow> 'n Message \<Rightarrow> 'n Message" where
  "with_id i m = m\<lparr>m_Header := (m_Header m)\<lparr>h_Id := i\<rparr>\<rparr>"

text \<open>The identifier of the query is replaced for the exchange and put back.\<close>

definition uf_Forward ::
  "('w, 'n) surroundings \<Rightarrow> 'n Message \<Rightarrow> 'w \<Rightarrow> SafeUDPFwder \<Rightarrow> ('w \<times> SafeUDPFwder \<times> (string + 'n Message) \<times> duration) may_panic" where
  "uf_Forward E query w f =
     (case uf_fwder f of
        None \<Rightarrow> None
      | Some s \<Rightarrow>
          (case sr_exchange E (us_GetQuerySource (ss_sender s)) (uf_remoteAddr f) (with_id (sr_GenMessageId E w) query) w of
             (w', res, rtt) \<Rightarrow>
               Some (w', checkStatus (sr_Unix E w') (isl res) (f\<lparr>uf_lastRtt := rtt\<rparr>),
                     map_sum id (with_id (h_Id (m_Header query))) res, rtt)))"

section \<open>The prober\<close>

definition probeRoutineCount :: nat where "probeRoutineCount = 10"

record 'n Target =
  tg_fwder :: nat
  tg_request :: "'n Message"

record 'n Prober =
  pr_interval :: duration
  pr_targets :: "'n Target list"
  pr_targetFwders :: "nat set"

definition NewProber :: "duration \<Rightarrow> 'n Prober" where
  "NewProber interval = \<lparr>pr_interval = interval, pr_targets = [], pr_targetFwders = {}\<rparr>"

definition AddProbe :: "nat \<Rightarrow> 'n Message \<Rightarrow> 'n Prober \<Rightarrow> 'n Prober" where
  "AddProbe f request p =
     (if f \<in> pr_targetFwders p then p
      else p\<lparr>pr_targets := pr_targets p @ [\<lparr>tg_fwder = f, tg_request = request\<rparr>],
             pr_targetFwders := insert f (pr_targetFwders p)\<rparr>)"

text \<open>A tick of the timer takes the targets at the front of the list.\<close>

definition probe_tick :: "'n Prober \<Rightarrow> 'n Target list \<times> 'n Prober" where
  "probe_tick p = (take probeRoutineCount (pr_targets p), p\<lparr>pr_targets := drop probeRoutineCount (pr_targets p)\<rparr>)"

text \<open>A target that the pool of workers is too busy for goes back to the list.\<close>

definition probe_busy :: "'n Target \<Rightarrow> 'n Prober \<Rightarrow> 'n Prober" where
  "probe_busy t p = p\<lparr>pr_targets := pr_targets p @ [t]\<rparr>"

text \<open>What a worker does with the result of its query.\<close>

definition probe_done :: "bool \<Rightarrow> 'n Target \<Rightarrow> 'n Prober \<Rightarrow> 'n Prober" where
  "probe_done failed t p =
     (if failed then p\<lparr>pr_targets := pr_targets p @ [t]\<rparr>
      else p\<lparr>pr_targetFwders := pr_targetFwders p - {tg_fwder t}\<rparr>)"

section \<open>Choosing a server\<close>

text \<open>\<open>down\<close> and \<open>rtt\<close> read the status and the last round trip of a server.\<close>

fun selectNextUsableFwder :: "('f \<Rightarrow> bool) \<Rightarrow> 'f list \<Rightarrow> nat \<Rightarrow> nat \<Rightarrow> ('f \<times> nat) option may_panic" where
  "selectNextUsableFwder down fwders fromIndex 0 = Some None"
| "selectNextUsableFwder down fwders fromIndex (Suc k) =
     (if fromIndex < length fwders then
        (if \<not> down (fwders ! fromIndex) then Some (Some (fwders ! fromIndex, fromIndex))
         else selectNextUsableFwder down fwders ((fromIndex + 1) mod length fwders) k)
      else None)"

definition select_from :: "('f \<Rightarrow> bool) \<Rightarrow> 'f list \<Rightarrow> nat \<Rightarrow> ('f \<times> nat) option may_panic" where
  "select_from down fwders fromIndex = selectNextUsableFwder down fwders fromIndex (length fwders)"

datatype FwdSelectPolicy = fixedOrder | rttBased | roundRobin

datatype 'f FwderSelector =
    FixOrderSelector "'f list"
  | RttBasedSelector "'f list"
  | RoundRobinSelector "'f list" nat

fun GetFwders :: "'f FwderSelector \<Rightarrow> 'f list" where
  "GetFwders (FixOrderSelector fs) = fs"
| "GetFwders (RttBasedSelector fs) = fs"
| "GetFwders (RoundRobinSelector fs n) = fs"

fun CreateSelector :: "FwdSelectPolicy \<Rightarrow> 'f list \<Rightarrow> 'f FwderSelector" where
  "CreateSelector fixedOrder fwders = FixOrderSelector fwders"
| "CreateSelector rttBased fwders = RttBasedSelector fwders"
| "CreateSelector roundRobin fwders = RoundRobinSelector fwders 0"

definition HasUpFwder :: "('f \<Rightarrow> bool) \<Rightarrow> 'f FwderSelector \<Rightarrow> bool" where
  "HasUpFwder down s = (\<exists>f\<in>set (GetFwders s). \<not> down f)"

definition fix_SelectFwder :: "('f \<Rightarrow> bool) \<Rightarrow> 'f list \<Rightarrow> 'f option may_panic" where
  "fix_SelectFwder down fwders = map_option (map_option fst) (select_from down fwders 0)"

text \<open>The index that is stored is taken modulo the number of servers, which is a panic when there are none.\<close>

definition rr_SelectFwder :: "('f \<Rightarrow> bool) \<Rightarrow> 'f list \<Rightarrow> nat \<Rightarrow> ('f option \<times> nat) may_panic" where
  "rr_SelectFwder down fwders next =
     (case select_from down fwders next of
        None \<Rightarrow> None
      | Some r \<Rightarrow>
          if fwders = [] then None
          else Some (map_option fst r, case r of None \<Rightarrow> 0 | Some (f, target) \<Rightarrow> (target + 1) mod length fwders))"

text \<open>\<open>srt\<close> is \<open>sort.Sort\<close> by the snapshot of the round trips; the order stays in the selector.\<close>

definition sortForwarders :: "(('f \<Rightarrow> int) \<Rightarrow> 'f list \<Rightarrow> 'f list) \<Rightarrow> ('f \<Rightarrow> duration) \<Rightarrow> 'f list \<Rightarrow> 'f list" where
  "sortForwarders srt rtt fwders = srt rtt fwders"

definition rtt_SelectFwder ::
  "(('f \<Rightarrow> int) \<Rightarrow> 'f list \<Rightarrow> 'f list) \<Rightarrow> ('f \<Rightarrow> bool) \<Rightarrow> ('f \<Rightarrow> duration) \<Rightarrow> 'f list \<Rightarrow> ('f option \<times> 'f list) may_panic" where
  "rtt_SelectFwder srt down rtt fwders =
     (let fs = sortForwarders srt rtt fwders in
      map_option (\<lambda>r. (map_option fst r, fs)) (select_from down fs 0))"

fun SelectFwder ::
  "(('f \<Rightarrow> int) \<Rightarrow> 'f list \<Rightarrow> 'f list) \<Rightarrow> ('f \<Rightarrow> bool) \<Rightarrow> ('f \<Rightarrow> duration) \<Rightarrow> 'f FwderSelector \<Rightarrow> ('f option \<times> 'f FwderSelector) may_panic" where
  "SelectFwder srt down rtt (FixOrderSelector fs) =
     map_option (\<lambda>r. (r, FixOrderSelector fs)) (fix_SelectFwder down fs)"
| "SelectFwder srt down rtt (RttBasedSelector fs) =
     map_option (\<lambda>(r, fs'). (r, RttBasedSelector fs')) (rtt_SelectFwder srt down rtt fs)"
| "SelectFwder srt down rtt (RoundRobinSelector fs n) =
     map_option (\<lambda>(r, n'). (r, RoundRobinSelector fs n')) (rr_SelectFwder down fs n)"

section \<open>Servers and groups in the heap\<close>

record FwderGroup =
  fg_selector :: "nat FwderSelector"
  fg_lastFwder :: "nat option"

definition NewFwderGroup :: "nat FwderSelector \<Rightarrow> FwderGroup" where
  "NewFwderGroup selector = \<lparr>fg_selector = selector, fg_lastFwder = None\<rparr>"

text \<open>The interface value that a zone holds: a server or a group.\<close>

datatype SafeFwder = OneFwder nat | GroupFwder nat

definition defaultProbeInterval :: u32 where "defaultProbeInterval = 60"
definition defaultFwderTimeout :: u32 where "defaultFwderTimeout = 2"
definition defaultTimeoutLasting :: u32 where "defaultTimeoutLasting = 5"

record ForwardProberConf =
  pc_ProbeInterval :: u32
  pc_Timeout :: u32
  pc_TimeoutLasting :: u32

text \<open>The repository with its prober, and the heap of servers and groups.\<close>

record 'n SafeFwderRepo =
  rp_fwderTimeout :: duration
  rp_timeoutLasting :: duration
  rp_fwders :: "string \<rightharpoonup> nat"
  rp_prober :: "'n Prober"
  rp_heap :: "nat \<rightharpoonup> SafeUDPFwder"
  rp_groups :: "nat \<rightharpoonup> FwderGroup"
  rp_fresh :: nat

definition or_default :: "u32 \<Rightarrow> u32 \<Rightarrow> u32" where
  "or_default d x = (if x = 0 then d else x)"

definition seconds :: "u32 \<Rightarrow> duration" where
  "seconds x = uint x * Second"

text \<open>Reloading drops the servers of the map and the prober; zones that hold a server keep it in the heap.\<close>

definition repo_ReloadConf :: "ForwardProberConf \<Rightarrow> 'n SafeFwderRepo \<Rightarrow> 'n SafeFwderRepo" where
  "repo_ReloadConf conf repo = repo
     \<lparr>rp_fwderTimeout := seconds (or_default defaultFwderTimeout (pc_Timeout conf)),
      rp_timeoutLasting := seconds (or_default defaultTimeoutLasting (pc_TimeoutLasting conf)),
      rp_fwders := Map.empty,
      rp_prober := NewProber (seconds (or_default defaultProbeInterval (pc_ProbeInterval conf)))\<rparr>"

definition NewSafeFwderRepo :: "ForwardProberConf \<Rightarrow> 'n SafeFwderRepo" where
  "NewSafeFwderRepo conf = repo_ReloadConf conf
     \<lparr>rp_fwderTimeout = 0, rp_timeoutLasting = 0, rp_fwders = Map.empty, rp_prober = NewProber 0,
      rp_heap = Map.empty, rp_groups = Map.empty, rp_fresh = 0\<rparr>"

definition GetOrCreateFwder :: "string \<Rightarrow> 'n SafeFwderRepo \<Rightarrow> nat \<times> 'n SafeFwderRepo" where
  "GetOrCreateFwder addr repo =
     (case rp_fwders repo addr of
        Some a \<Rightarrow> (a, repo)
      | None \<Rightarrow>
          (let a = rp_fresh repo in
           (a, repo\<lparr>rp_heap := (rp_heap repo)(a \<mapsto> NewSafeUDPFwder addr (rp_fwderTimeout repo) (rp_timeoutLasting repo)),
                    rp_fwders := (rp_fwders repo)(addr \<mapsto> a), rp_fresh := Suc a\<rparr>)))"

definition fwder_IsDown :: "'n SafeFwderRepo \<Rightarrow> nat \<Rightarrow> bool" where
  "fwder_IsDown repo a = (case rp_heap repo a of None \<Rightarrow> False | Some f \<Rightarrow> uf_isDown f)"

definition fwder_GetLastRtt :: "'n SafeFwderRepo \<Rightarrow> nat \<Rightarrow> duration" where
  "fwder_GetLastRtt repo a = (case rp_heap repo a of None \<Rightarrow> 0 | Some f \<Rightarrow> uf_lastRtt f)"

text \<open>\<open>RecoverableFwder.Forward\<close>: a server found down is handed to the prober.\<close>

definition recoverable_Forward ::
  "('w, 'n) surroundings \<Rightarrow> 'n Message \<Rightarrow> nat \<Rightarrow> 'w \<Rightarrow> 'n SafeFwderRepo \<Rightarrow> ('w \<times> 'n SafeFwderRepo \<times> (string + 'n Message)) may_panic" where
  "recoverable_Forward E query a w repo =
     (case rp_heap repo a of
        None \<Rightarrow> None
      | Some f \<Rightarrow>
          (case uf_Forward E query w f of
             None \<Rightarrow> None
           | Some (w', f', res, rtt) \<Rightarrow>
               (let repo1 = repo\<lparr>rp_heap := (rp_heap repo)(a \<mapsto> f')\<rparr> in
                Some (w', if uf_isDown f' then repo1\<lparr>rp_prober := AddProbe a query (rp_prober repo1)\<rparr> else repo1, res))))"

section \<open>Groups of servers\<close>

definition maxRetryCount :: nat where "maxRetryCount = 2"

definition ErrAllFwderIsDown :: string where "ErrAllFwderIsDown = ''no available forwarder left''"

definition forwardOnce ::
  "((nat \<Rightarrow> int) \<Rightarrow> nat list \<Rightarrow> nat list) \<Rightarrow> ('w, 'n) surroundings \<Rightarrow> 'n Message \<Rightarrow> nat \<Rightarrow> 'w \<Rightarrow> 'n SafeFwderRepo
   \<Rightarrow> ('w \<times> 'n SafeFwderRepo \<times> (string + 'n Message)) may_panic" where
  "forwardOnce srt E query g w repo =
     (case rp_groups repo g of
        None \<Rightarrow> None
      | Some grp \<Rightarrow>
          (case SelectFwder srt (fwder_IsDown repo) (fwder_GetLastRtt repo) (fg_selector grp) of
             None \<Rightarrow> None
           | Some (fwder, sel) \<Rightarrow>
               (let repo1 = repo\<lparr>rp_groups := (rp_groups repo)(g \<mapsto> \<lparr>fg_selector = sel, fg_lastFwder = fwder\<rparr>)\<rparr> in
                case fwder of
                  None \<Rightarrow> Some (w, repo1, Inl ErrAllFwderIsDown)
                | Some a \<Rightarrow> recoverable_Forward E query a w repo1)))"

fun group_tries ::
  "nat \<Rightarrow> ((nat \<Rightarrow> int) \<Rightarrow> nat list \<Rightarrow> nat list) \<Rightarrow> ('w, 'n) surroundings \<Rightarrow> 'n Message \<Rightarrow> nat \<Rightarrow> (string + 'n Message)
   \<Rightarrow> 'w \<Rightarrow> 'n SafeFwderRepo \<Rightarrow> ('w \<times> 'n SafeFwderRepo \<times> (string + 'n Message)) may_panic" where
  "group_tries 0 srt E query g res w repo = Some (w, repo, res)"
| "group_tries (Suc k) srt E query g res w repo =
     (case forwardOnce srt E query g w repo of
        None \<Rightarrow> None
      | Some (w', repo', Inr m) \<Rightarrow> Some (w', repo', Inr m)
      | Some (w', repo', Inl err) \<Rightarrow> group_tries k srt E query g (Inl err) w' repo')"

definition group_Forward ::
  "((nat \<Rightarrow> int) \<Rightarrow> nat list \<Rightarrow> nat list) \<Rightarrow> ('w, 'n) surroundings \<Rightarrow> 'n Message \<Rightarrow> nat
   \<Rightarrow> 'w \<Rightarrow> 'n SafeFwderRepo \<Rightarrow> ('w \<times> 'n SafeFwderRepo \<times> (string + 'n Message)) may_panic" where
  "group_Forward srt E query g = group_tries maxRetryCount srt E query g (Inl [])"

text \<open>The query source is set for the servers of a group that are not down, up to the first error.\<close>

fun set_sources ::
  "(string \<Rightarrow> string + string) \<Rightarrow> string \<Rightarrow> nat list \<Rightarrow> 'n SafeFwderRepo \<Rightarrow> ('n SafeFwderRepo \<times> string option) may_panic" where
  "set_sources Resolve ip [] repo = Some (repo, None)"
| "set_sources Resolve ip (a # as) repo =
     (case rp_heap repo a of
        None \<Rightarrow> None
      | Some f \<Rightarrow>
          if uf_isDown f then set_sources Resolve ip as repo
          else case uf_SetQuerySource Resolve ip f of
                 Inl err \<Rightarrow> Some (repo, Some err)
               | Inr f' \<Rightarrow> set_sources Resolve ip as (repo\<lparr>rp_heap := (rp_heap repo)(a \<mapsto> f')\<rparr>))"

definition group_GetLastRtt :: "'n SafeFwderRepo \<Rightarrow> FwderGroup \<Rightarrow> duration" where
  "group_GetLastRtt repo g = (case fg_lastFwder g of None \<Rightarrow> 0 | Some a \<Rightarrow> fwder_GetLastRtt repo a)"

definition group_IsDown :: "'n SafeFwderRepo \<Rightarrow> FwderGroup \<Rightarrow> bool" where
  "group_IsDown repo g = (\<not> HasUpFwder (fwder_IsDown repo) (fg_selector g))"

definition group_RemoteAddr :: "'n SafeFwderRepo \<Rightarrow> FwderGroup \<Rightarrow> string may_panic" where
  "group_RemoteAddr repo g =
     (case fg_lastFwder g of
        Some a \<Rightarrow> map_option uf_remoteAddr (rp_heap repo a)
      | None \<Rightarrow>
          (case GetFwders (fg_selector g) of
             [] \<Rightarrow> None
           | a # as \<Rightarrow> map_option uf_remoteAddr (rp_heap repo a)))"

text \<open>The methods of the interface, on a server or a group.\<close>

fun sf_Forward ::
  "((nat \<Rightarrow> int) \<Rightarrow> nat list \<Rightarrow> nat list) \<Rightarrow> ('w, 'n) surroundings \<Rightarrow> 'n Message \<Rightarrow> SafeFwder
   \<Rightarrow> 'w \<Rightarrow> 'n SafeFwderRepo \<Rightarrow> ('w \<times> 'n SafeFwderRepo \<times> (string + 'n Message)) may_panic" where
  "sf_Forward srt E query (OneFwder a) w repo = recoverable_Forward E query a w repo"
| "sf_Forward srt E query (GroupFwder g) w repo = group_Forward srt E query g w repo"

fun sf_SetQuerySource ::
  "(string \<Rightarrow> string + string) \<Rightarrow> string \<Rightarrow> SafeFwder \<Rightarrow> 'n SafeFwderRepo \<Rightarrow> ('n SafeFwderRepo \<times> string option) may_panic" where
  "sf_SetQuerySource Resolve ip (OneFwder a) repo =
     (case rp_heap repo a of
        None \<Rightarrow> None
      | Some f \<Rightarrow>
          (case uf_SetQuerySource Resolve ip f of
             Inl err \<Rightarrow> Some (repo, Some err)
           | Inr f' \<Rightarrow> Some (repo\<lparr>rp_heap := (rp_heap repo)(a \<mapsto> f')\<rparr>, None)))"
| "sf_SetQuerySource Resolve ip (GroupFwder g) repo =
     (case rp_groups repo g of
        None \<Rightarrow> None
      | Some grp \<Rightarrow> set_sources Resolve ip (GetFwders (fg_selector grp)) repo)"

fun sf_RemoteAddr :: "SafeFwder \<Rightarrow> 'n SafeFwderRepo \<Rightarrow> string may_panic" where
  "sf_RemoteAddr (OneFwder a) repo = map_option uf_remoteAddr (rp_heap repo a)"
| "sf_RemoteAddr (GroupFwder g) repo = Option.bind (rp_groups repo g) (group_RemoteAddr repo)"

section \<open>Choosing among servers\<close>

lemma select_spec:
  assumes "i < length fs"
  shows "selectNextUsableFwder down fs i k = Some None \<and> (\<forall>j<k. down (fs ! ((i + j) mod length fs))) \<or>
    (\<exists>j<k. selectNextUsableFwder down fs i k = Some (Some (fs ! ((i + j) mod length fs), (i + j) mod length fs)) \<and>
       \<not> down (fs ! ((i + j) mod length fs)) \<and> (\<forall>j'<j. down (fs ! ((i + j') mod length fs))))"
  using assms
proof (induction k arbitrary: i)
  case (Suc k)
  show ?case
  proof (cases "down (fs ! i)")
    case False
    then show ?thesis using Suc.prems by (intro disjI2 exI [of _ 0]) simp
  next
    case True
    let ?i = "(i + 1) mod length fs"
    have shift: "(?i + j) mod length fs = (i + Suc j) mod length fs" for j by (simp add: mod_simps)
    have i: "i mod length fs = i" "?i < length fs" using Suc.prems by (simp_all add: mod_less_divisor length_greater_0_conv [symmetric] del: length_greater_0_conv)
    have run: "selectNextUsableFwder down fs i (Suc k) = selectNextUsableFwder down fs ?i k" using True Suc.prems by simp
    have all: "(\<forall>j'<Suc j. down (fs ! ((i + j') mod length fs))) \<longleftrightarrow> (\<forall>j'<j. down (fs ! ((i + Suc j') mod length fs)))" for j
      using True i(1) by (auto simp: less_Suc_eq_0_disj)
    consider (none) "selectNextUsableFwder down fs ?i k = Some None" "\<forall>j<k. down (fs ! ((i + Suc j) mod length fs))"
      | (some) j where "j < k" "selectNextUsableFwder down fs ?i k = Some (Some (fs ! ((i + Suc j) mod length fs), (i + Suc j) mod length fs))"
        "\<not> down (fs ! ((i + Suc j) mod length fs))" "\<forall>j'<j. down (fs ! ((i + Suc j') mod length fs))"
      using Suc.IH [OF i(2)] unfolding shift by blast
    then show ?thesis
    proof cases
      case none
      then show ?thesis unfolding run using all [of k] by simp
    next
      case some
      then show ?thesis unfolding run using all [of j] by (intro disjI2 exI [of _ "Suc j"]) simp
    qed
  qed
qed simp

lemma rotated_index:
  assumes "i < n" "m < (n :: nat)"
  shows "\<exists>j<n. m = (i + j) mod n"
proof (cases "i \<le> m")
  case True
  then show ?thesis using assms by (intro exI [of _ "m - i"]) auto
next
  case False
  then show ?thesis using assms by (intro exI [of _ "n - i + m"]) auto
qed

lemma select_from_cases:
  assumes "i < length fs"
  obtains (none) "select_from down fs i = Some None" "\<forall>f\<in>set fs. down f"
  | (some) j where "j < length fs" "select_from down fs i = Some (Some (fs ! ((i + j) mod length fs), (i + j) mod length fs))"
      "\<not> down (fs ! ((i + j) mod length fs))" "\<forall>j'<j. down (fs ! ((i + j') mod length fs))"
proof -
  have "\<forall>f\<in>set fs. down f" if a: "\<forall>j<length fs. down (fs ! ((i + j) mod length fs))"
  proof
    fix f assume "f \<in> set fs"
    then obtain m where m: "m < length fs" "f = fs ! m" by (auto simp: in_set_conv_nth)
    then show "down f" using rotated_index [OF assms m(1)] a by auto
  qed
  then show thesis using select_spec [OF assms, of down "length fs"] none some unfolding select_from_def by blast
qed

lemma select_first: "select_from down fs 0 = Some None \<and> (\<forall>f\<in>set fs. down f) \<or>
  (\<exists>t f. select_from down fs 0 = Some (Some (f, t)) \<and> t < length fs \<and> f = fs ! t \<and> \<not> down f \<and> (\<forall>j<t. down (fs ! j)))"
proof (cases "fs = []")
  case False
  then have "0 < length fs" by simp
  then show ?thesis
  proof (cases rule: select_from_cases [where down = down])
    case (some j)
    then show ?thesis by (intro disjI2 exI [of _ j] exI [of _ "fs ! j"]) auto
  qed blast
qed (simp add: select_from_def)

text \<open>A sequence of choices, each with the status of the servers at that time, and what is expected of one.\<close>

fun selections ::
  "(('f \<Rightarrow> bool) \<Rightarrow> ('f \<Rightarrow> duration) \<Rightarrow> 's \<Rightarrow> ('f option \<times> 's) may_panic) \<Rightarrow> (('f \<Rightarrow> bool) \<times> ('f \<Rightarrow> duration)) list \<Rightarrow> 's
   \<Rightarrow> ('f option list \<times> 's) may_panic" where
  "selections select [] s = Some ([], s)"
| "selections select ((down, rtt) # sts) s =
     Option.bind (select down rtt s) (\<lambda>(r, s'). map_option (\<lambda>(rs, s''). (r # rs, s'')) (selections select sts s'))"

definition right_choice :: "'f set \<Rightarrow> ('f \<Rightarrow> bool) \<times> ('f \<Rightarrow> duration) \<Rightarrow> 'f option \<Rightarrow> bool" where
  "right_choice fs st r = (case r of None \<Rightarrow> \<forall>f\<in>fs. fst st f | Some f \<Rightarrow> f \<in> fs \<and> \<not> fst st f)"

text \<open>
  The contract of \<open>FwderSelector\<close>: a choice returns, is a member that is not down, fails only when
  every member is down, and leaves the same members.
\<close>

locale fwder_selector =
  fixes select :: "('f \<Rightarrow> bool) \<Rightarrow> ('f \<Rightarrow> duration) \<Rightarrow> 's \<Rightarrow> ('f option \<times> 's) may_panic"
    and members :: "'s \<Rightarrow> 'f list"
    and ok :: "'s \<Rightarrow> bool"
  assumes select_returns: "ok s \<Longrightarrow> \<exists>r s'. select down rtt s = Some (r, s') \<and> ok s' \<and> mset (members s') = mset (members s)"
    and select_up: "ok s \<Longrightarrow> select down rtt s = Some (Some f, s') \<Longrightarrow> f \<in> set (members s) \<and> \<not> down f"
    and select_none: "ok s \<Longrightarrow> select down rtt s = Some (None, s') \<Longrightarrow> \<forall>f\<in>set (members s). down f"
begin

lemma selections_right:
  assumes "ok s"
  shows "\<exists>rs s'. selections select sts s = Some (rs, s') \<and> ok s' \<and> mset (members s') = mset (members s) \<and>
    list_all2 (right_choice (set (members s))) sts rs"
  using assms
proof (induction sts arbitrary: s)
  case (Cons st sts)
  obtain down rtt where st: "st = (down, rtt)" by fastforce
  obtain r s1 where s1: "select down rtt s = Some (r, s1)" "ok s1" "mset (members s1) = mset (members s)"
    using select_returns [OF Cons.prems] by blast
  obtain rs s2 where s2: "selections select sts s1 = Some (rs, s2)" "ok s2" "mset (members s2) = mset (members s1)"
    "list_all2 (right_choice (set (members s1))) sts rs"
    using Cons.IH [OF s1(2)] by blast
  have "right_choice (set (members s)) st r"
    using select_up [OF Cons.prems, of down rtt] select_none [OF Cons.prems, of down rtt] s1(1)
    by (auto simp: right_choice_def st split: option.split)
  then have "list_all2 (right_choice (set (members s))) (st # sts) (r # rs)"
    using s2(4) mset_eq_setD [OF s1(3)] by simp
  then show ?case using s1 s2 by (auto simp: st)
qed simp

end

fun selector_ok :: "(('f \<Rightarrow> int) \<Rightarrow> 'f list \<Rightarrow> 'f list) \<Rightarrow> 'f FwderSelector \<Rightarrow> bool" where
  "selector_ok srt (FixOrderSelector fs) = True"
| "selector_ok srt (RttBasedSelector fs) = sort_contract srt"
| "selector_ok srt (RoundRobinSelector fs n) = (n < length fs)"

lemma rr_SelectFwder_cases:
  assumes "n < length fs"
  obtains (none) "rr_SelectFwder down fs n = Some (None, 0)" "\<forall>f\<in>set fs. down f"
  | (some) j where "j < length fs" "rr_SelectFwder down fs n = Some (Some (fs ! ((n + j) mod length fs)), (n + j + 1) mod length fs)"
      "\<not> down (fs ! ((n + j) mod length fs))" "\<forall>j'<j. down (fs ! ((n + j') mod length fs))"
proof (cases rule: select_from_cases [OF assms, of down])
  case 1
  then show thesis using assms by (intro none) (auto simp: rr_SelectFwder_def)
next
  case (2 j)
  then show thesis using assms by (intro some [of j]) (auto simp: rr_SelectFwder_def mod_simps)
qed

interpretation fwders: fwder_selector "SelectFwder srt" GetFwders "selector_ok srt" for srt
proof
  fix s and down rtt
  assume "selector_ok srt s"
  then show "\<exists>r s'. SelectFwder srt down rtt s = Some (r, s') \<and> selector_ok srt s' \<and> mset (GetFwders s') = mset (GetFwders s)"
  proof (cases s)
    case (FixOrderSelector fs)
    then show ?thesis using select_first [of down fs] by (auto simp: fix_SelectFwder_def)
  next
    case (RttBasedSelector fs)
    then show ?thesis using select_first [of down "srt rtt fs"] sort_contractD(1) [of srt rtt fs] \<open>selector_ok srt s\<close>
      by (auto simp: rtt_SelectFwder_def sortForwarders_def Let_def)
  next
    case (RoundRobinSelector fs n)
    then have n: "n < length fs" using \<open>selector_ok srt s\<close> by simp
    show ?thesis
      by (cases rule: rr_SelectFwder_cases [OF n, of down]) (use RoundRobinSelector n in \<open>auto intro!: mod_less_divisor\<close>)
  qed
next
  fix s and down rtt f s'
  assume a: "selector_ok srt s" "SelectFwder srt down rtt s = Some (Some f, s')"
  show "f \<in> set (GetFwders s) \<and> \<not> down f"
  proof (cases s)
    case (FixOrderSelector fs)
    then show ?thesis using a select_first [of down fs] by (auto simp: fix_SelectFwder_def)
  next
    case (RttBasedSelector fs)
    then show ?thesis using a select_first [of down "srt rtt fs"] mset_eq_setD [OF sort_contractD(1) [of srt rtt fs]]
      by (auto simp: rtt_SelectFwder_def sortForwarders_def Let_def dest: nth_mem)
  next
    case (RoundRobinSelector fs n)
    then have n: "n < length fs" using a by simp
    show ?thesis
      by (cases rule: rr_SelectFwder_cases [OF n, of down]) (use a(2) RoundRobinSelector n in \<open>auto intro!: nth_mem mod_less_divisor\<close>)
  qed
next
  fix s and down rtt s'
  assume a: "selector_ok srt s" "SelectFwder srt down rtt s = Some (None, s')"
  show "\<forall>f\<in>set (GetFwders s). down f"
  proof (cases s)
    case (FixOrderSelector fs)
    then show ?thesis using a select_first [of down fs] by (auto simp: fix_SelectFwder_def)
  next
    case (RttBasedSelector fs)
    then show ?thesis using a select_first [of down "srt rtt fs"] mset_eq_setD [OF sort_contractD(1) [of srt rtt fs]]
      by (auto simp: rtt_SelectFwder_def sortForwarders_def Let_def)
  next
    case (RoundRobinSelector fs n)
    then have n: "n < length fs" using a by simp
    show ?thesis
      by (cases rule: rr_SelectFwder_cases [OF n, of down]) (use a(2) RoundRobinSelector in auto)
  qed
qed

section \<open>Policies\<close>

lemma fixed_selections:
  assumes "selections (SelectFwder srt) sts (FixOrderSelector fs) = Some (rs, s')"
  shows "s' = FixOrderSelector fs \<and> rs = map (\<lambda>st. find (\<lambda>f. \<not> fst st f) fs) sts"
  using assms
proof (induction sts arbitrary: rs)
  case (Cons st sts)
  have f: "find (\<lambda>f. \<not> down f) fs = r" if "fix_SelectFwder down fs = Some r" for down r
    using select_first [of down fs]
  proof (elim disjE exE conjE)
    fix t x
    assume "select_from down fs 0 = Some (Some (x, t))" "t < length fs" "x = fs ! t" "\<not> down x" "\<forall>j<t. down (fs ! j)"
    then show ?thesis using that by (auto simp: fix_SelectFwder_def find_Some_iff intro!: exI [of _ t])
  qed (use that in \<open>auto simp: fix_SelectFwder_def find_None_iff\<close>)
  show ?case using Cons by (cases st) (auto simp: option_bind_Some_iff f)
qed simp

lemma rtt_selections:
  assumes "sort_contract srt" "selections (SelectFwder srt) sts (RttBasedSelector fs) = Some (rs, s')"
  shows "list_all2 (\<lambda>st r. \<forall>f. r = Some f \<longrightarrow> (\<forall>g\<in>set fs. \<not> fst st g \<longrightarrow> snd st f \<le> snd st g)) sts rs"
  using assms(2)
proof (induction sts arbitrary: fs rs s')
  case (Cons st sts)
  obtain down rtt where st: "st = (down, rtt)" by fastforce
  obtain r rs' where r: "rtt_SelectFwder srt down rtt fs = Some (r, srt rtt fs)" "rs = r # rs'"
    "selections (SelectFwder srt) sts (RttBasedSelector (srt rtt fs)) = Some (rs', s')"
    using Cons.prems by (auto simp: st option_bind_Some_iff rtt_SelectFwder_def sortForwarders_def Let_def)
  have srt: "set (srt rtt fs) = set fs" "sorted (map rtt (srt rtt fs))" by (simp_all add: sort_contractD [OF assms(1)])
  have "rtt f \<le> rtt g" if f: "r = Some f" and g: "g \<in> set fs" "\<not> down g" for f g
  proof -
    obtain t where t: "t < length (srt rtt fs)" "f = srt rtt fs ! t" "\<forall>j<t. down (srt rtt fs ! j)"
      using r(1) f select_first [of down "srt rtt fs"] by (auto simp: rtt_SelectFwder_def sortForwarders_def Let_def)
    obtain m where m: "m < length (srt rtt fs)" "g = srt rtt fs ! m" using g(1) srt(1) by (metis in_set_conv_nth)
    then have "t \<le> m" using t(3) g(2) by (meson not_le)
    then show ?thesis using srt(2) m t by (simp add: sorted_iff_nth_mono)
  qed
  then show ?case using Cons.IH [OF r(3)] srt(1) by (simp add: st r(2))
qed auto

text \<open>
  C23. A group chooses among the servers that are not down. For every policy and every sequence of
  choices with any status of the servers at each of them, each choice returns, is a server of the
  group that is not down, and there is none only when all of them are down. The fixed order takes the
  first one in the configured order, the policy by round trip one with the shortest last round trip.
\<close>

theorem policy_choices:
  assumes "fs \<noteq> []" "sort_contract srt"
  shows "\<exists>rs s'. selections (SelectFwder srt) sts (CreateSelector policy fs) = Some (rs, s') \<and>
    list_all2 (right_choice (set fs)) sts rs \<and>
    (policy = fixedOrder \<longrightarrow> rs = map (\<lambda>st. find (\<lambda>f. \<not> fst st f) fs) sts) \<and>
    (policy = rttBased \<longrightarrow>
       list_all2 (\<lambda>st r. \<forall>f. r = Some f \<longrightarrow> (\<forall>g\<in>set fs. \<not> fst st g \<longrightarrow> snd st f \<le> snd st g)) sts rs)"
proof -
  have "selector_ok srt (CreateSelector policy fs)" "GetFwders (CreateSelector policy fs) = fs"
    using assms by (cases policy; simp)+
  then obtain rs s' where s: "selections (SelectFwder srt) sts (CreateSelector policy fs) = Some (rs, s')"
    "list_all2 (right_choice (set fs)) sts rs"
    using fwders.selections_right [of srt "CreateSelector policy fs" sts] by auto
  then show ?thesis using fixed_selections [of srt sts fs rs s'] rtt_selections [OF assms(2), of sts fs rs s'] by auto
qed

theorem policy_choices_witness:
  "\<exists>rs s'. selections (SelectFwder (\<lambda>k. sort_key k)) [(\<lambda>f. f = 2, \<lambda>f. int f), (\<lambda>f. True, \<lambda>f. 0)] (CreateSelector rttBased [3, 2, 5 :: nat]) = Some (rs, s') \<and>
    list_all2 (right_choice {2, 3, 5}) [(\<lambda>f. f = 2, \<lambda>f. int f), (\<lambda>f. True, \<lambda>f. 0)] rs"
proof -
  have "set [3, 2, 5 :: nat] = {2, 3, 5}" by auto
  then show ?thesis
    using policy_choices [OF _ sort_contract_insort, of "[3, 2, 5 :: nat]" "[(\<lambda>f. f = 2, \<lambda>f. int f), (\<lambda>f. True, \<lambda>f. 0)]" rttBased]
    by (simp del: selections.simps) blast
qed

lemma round_robin_reaches:
  assumes "n < length fs" "j < length fs" "\<forall>st\<in>set sts. \<not> fst st (fs ! ((n + j) mod length fs))" "j < length sts"
    and "selections (SelectFwder srt) sts (RoundRobinSelector fs n) = Some (rs, s')"
  shows "Some (fs ! ((n + j) mod length fs)) \<in> set (take (Suc j) rs)"
  using assms
proof (induction sts arbitrary: n j rs)
  case (Cons st sts)
  obtain down rtt where st: "st = (down, rtt)" by fastforce
  let ?f = "fs ! ((n + j) mod length fs)"
  have up: "\<not> down ?f" using Cons.prems(3) by (simp add: st)
  show ?case
  proof (cases rule: rr_SelectFwder_cases [OF Cons.prems(1), of down])
    case 1
    have "?f \<in> set fs" using Cons.prems(1) by (intro nth_mem mod_less_divisor) auto
    then show ?thesis using 1 up by blast
  next
    case (2 i)
    let ?n = "(n + i + 1) mod length fs"
    obtain rs' where rs: "rs = Some (fs ! ((n + i) mod length fs)) # rs'"
      "selections (SelectFwder srt) sts (RoundRobinSelector fs ?n) = Some (rs', s')"
      using Cons.prems(5) 2(2) by (auto simp: st)
    have "i \<le> j" using 2(4) up by (meson not_le)
    show ?thesis
    proof (cases "i = j")
      case True
      then show ?thesis by (simp add: rs(1))
    next
      case False
      then have ij: "i < j" using \<open>i \<le> j\<close> by simp
      have shift: "(?n + (j - i - 1)) mod length fs = (n + j) mod length fs" 
        using mod_add_left_eq [of "n + i + 1" "length fs" "j - i - 1"] ij by simp
      have "?n < length fs" using Cons.prems(1) by (intro mod_less_divisor) auto
      then have "Some ?f \<in> set (take (Suc (j - i - 1)) rs')"
        using Cons.IH [of ?n "j - i - 1" rs'] Cons.prems rs(2) shift ij by simp
      moreover have "set (take (Suc (j - i - 1)) rs') \<subseteq> set (take j rs')"
        using ij by (intro set_take_subset_set_take) simp
      ultimately show ?thesis by (auto simp: rs(1))
    qed
  qed
qed simp

text \<open>
  C24. Round robin starves no server: whatever the status of the others is, a server that is not down
  during as many successive choices as the group has servers is chosen by one of them, from any
  position of the rotation.
\<close>

theorem round_robin_serves_all:
  assumes "n < length fs" "f \<in> set fs" "\<forall>st\<in>set sts. \<not> fst st f" "length fs \<le> length sts"
  shows "\<exists>rs s'. selections (SelectFwder srt) sts (RoundRobinSelector fs n) = Some (rs, s') \<and> Some f \<in> set (take (length fs) rs)"
proof -
  have "selector_ok srt (RoundRobinSelector fs n)" using assms(1) by simp
  then obtain rs s' where s: "selections (SelectFwder srt) sts (RoundRobinSelector fs n) = Some (rs, s')"
    using fwders.selections_right by blast
  obtain m where m: "m < length fs" "f = fs ! m" using assms(2) by (auto simp: in_set_conv_nth)
  obtain j where j: "j < length fs" "m = (n + j) mod length fs" using rotated_index [OF assms(1) m(1)] by blast
  have "Some f \<in> set (take (Suc j) rs)"
    using round_robin_reaches [OF assms(1) j(1), of sts srt rs s'] assms(3,4) j m(2) s by simp
  moreover have "set (take (Suc j) rs) \<subseteq> set (take (length fs) rs)"
    using j(1) by (intro set_take_subset_set_take) simp
  ultimately show ?thesis using s by auto
qed

theorem round_robin_serves_all_witness:
  "\<exists>rs s'. selections (SelectFwder (\<lambda>k. sort_key k)) (replicate 3 (\<lambda>f. f = 5, \<lambda>f. 0)) (RoundRobinSelector [3, 5, 7 :: nat] 1) = Some (rs, s') \<and>
    Some 3 \<in> set (take 3 rs)"
  using round_robin_serves_all [of 1 "[3, 5, 7 :: nat]" 3 "replicate 3 (\<lambda>f. f = 5, \<lambda>f. 0)" "\<lambda>k. sort_key k"]
  by (simp add: numeral_3_eq_3 del: selections.simps)

section \<open>Status of a server\<close>

text \<open>The results of the queries to a server in their order: the time in seconds and whether it failed.\<close>

definition statuses :: "(int \<times> bool) list \<Rightarrow> SafeUDPFwder \<Rightarrow> SafeUDPFwder" where
  "statuses es = fold (\<lambda>e. checkStatus (fst e) (snd e)) es"

text \<open>The time of the first failure after the last success.\<close>

definition failing_since :: "(int \<times> bool) list \<Rightarrow> int option" where
  "failing_since es = (case takeWhile snd (rev es) of [] \<Rightarrow> None | fails \<Rightarrow> Some (fst (last fails)))"

lemma failing_since_snoc:
  "failing_since (es @ [(t, b)]) = (if \<not> b then None else case failing_since es of None \<Rightarrow> Some t | Some t0 \<Rightarrow> Some t0)"
  by (auto simp: failing_since_def split: list.split)

lemma statuses_snoc: "statuses (es @ [e]) f = checkStatus (fst e) (snd e) (statuses es f)"
  by (simp add: statuses_def)

lemma statuses_inv:
  assumes "\<forall>e\<in>set es. fst e \<noteq> 0"
  shows "uf_lastFailTime (statuses es (NewSafeUDPFwder addr t i)) = (case failing_since es of None \<Rightarrow> 0 | Some t0 \<Rightarrow> t0) \<and>
    uf_bearableFailInterval (statuses es (NewSafeUDPFwder addr t i)) = i div Second \<and>
    (\<forall>t0. failing_since es = Some t0 \<longrightarrow> t0 \<noteq> 0)"
  using assms
proof (induction es rule: rev_induct)
  case Nil
  show ?case by (simp add: statuses_def failing_since_def NewSafeUDPFwder_def)
next
  case (snoc e es)
  obtain t b where e: "e = (t, b)" by fastforce
  show ?case using snoc unfolding e
    by (auto simp: statuses_snoc failing_since_snoc checkStatus_def split: option.splits)
qed

text \<open>
  A server counts as down exactly when its last query failed and it has been failing for the
  configured interval: after any sequence of results, the last one is a failure, not the first one
  after a success, and its time is at least the interval after the first failure that followed the
  last success.
\<close>

theorem down_after_lasting_failure:
  assumes "\<forall>e\<in>set es. fst e \<noteq> 0"
  shows "uf_isDown (statuses es (NewSafeUDPFwder addr t i)) \<longleftrightarrow>
    (\<exists>es' now t0. es = es' @ [(now, True)] \<and> failing_since es' = Some t0 \<and> now - t0 \<ge> i div Second)"
proof (cases es rule: rev_cases)
  case Nil
  then show ?thesis by (simp add: statuses_def NewSafeUDPFwder_def)
next
  case (snoc es' e)
  obtain now b where e: "e = (now, b)" by fastforce
  have "\<forall>e\<in>set es'. fst e \<noteq> 0" using assms snoc by simp
  from statuses_inv [OF this, of addr t i] show ?thesis
    unfolding snoc e by (auto simp: statuses_snoc checkStatus_def split: option.splits)
qed

theorem down_after_lasting_failure_witness:
  "uf_isDown (statuses [(100, False), (107, True), (109, True), (112, True)] (NewSafeUDPFwder ''192.0.2.1:53'' (2 * Second) (5 * Second)))"
  using down_after_lasting_failure [of "[(100, False), (107, True), (109, True), (112, True)]" "''192.0.2.1:53''" "2 * Second" "5 * Second"]
  by (simp add: failing_since_def Second_def)

section \<open>Probing\<close>

text \<open>
  Runs of the prober: servers are reported at any time, the timer takes targets, the pool accepts a
  target or is too busy, a worker finishes with an error or without. The list holds the targets that
  were taken and are not finished. Stopping the pool is not among the steps.
\<close>

inductive prober_run :: "'n Prober \<Rightarrow> 'n Target list \<Rightarrow> nat set \<Rightarrow> bool" where
  run_start: "prober_run (NewProber d) [] {}"
| run_add: "prober_run p ts down \<Longrightarrow> prober_run (AddProbe f q p) ts (insert f down)"
| run_tick: "prober_run p ts down \<Longrightarrow> probe_tick p = (taken, p') \<Longrightarrow> prober_run p' (ts @ taken) down"
| run_busy: "prober_run p (ts @ t # ts') down \<Longrightarrow> prober_run (probe_busy t p) (ts @ ts') down"
| run_failed: "prober_run p (ts @ t # ts') down \<Longrightarrow> prober_run (probe_done True t p) (ts @ ts') down"
| run_restored: "prober_run p (ts @ t # ts') down \<Longrightarrow> prober_run (probe_done False t p) (ts @ ts') (down - {tg_fwder t})"

lemma prober_inv:
  "prober_run p ts down \<Longrightarrow> distinct (map tg_fwder (pr_targets p @ ts)) \<and> set (map tg_fwder (pr_targets p @ ts)) = down \<and>
     pr_targetFwders p = down"
proof (induction rule: prober_run.induct)
  case (run_start d)
  show ?case by (simp add: NewProber_def)
next
  case (run_add p ts down f q)
  then show ?case by (auto simp: AddProbe_def)
next
  case (run_tick p ts down taken p')
  have p': "taken = take probeRoutineCount (pr_targets p)" "pr_targets p' = drop probeRoutineCount (pr_targets p)"
    "pr_targetFwders p' = pr_targetFwders p"
    using run_tick.hyps(2) by (auto simp: probe_tick_def)
  have "mset (take probeRoutineCount (pr_targets p)) + mset (drop probeRoutineCount (pr_targets p)) = mset (pr_targets p)"
    by (simp flip: mset_append)
  then have "mset (pr_targets p' @ ts @ taken) = mset (pr_targets p @ ts)"
    by (simp add: p' ac_simps)
  then have m: "mset (map tg_fwder (pr_targets p' @ ts @ taken)) = mset (map tg_fwder (pr_targets p @ ts))"
    by (simp only: mset_map)
  show ?case using run_tick.IH mset_eq_setD [OF m] mset_eq_imp_distinct_iff [OF m] p'(3) by blast
qed (auto simp: probe_busy_def probe_done_def)

text \<open>
  C25. No server is lost by the prober and none is probed twice at a time: at every moment the targets
  waiting in the list and those taken from it have different servers, and these are exactly the
  servers that were reported and have not answered a probe since.
\<close>

theorem probes_never_lost:
  "prober_run p ts down \<Longrightarrow>
   distinct (map tg_fwder (pr_targets p @ ts)) \<and> set (map tg_fwder (pr_targets p @ ts)) = down"
  using prober_inv by blast

theorem probes_never_lost_witness:
  "let q = Message_MakeResponse ref_g53 (MakeQuery ref_g53 [''a''] RR_A);
       p = probe_done True \<lparr>tg_fwder = 1, tg_request = q\<rparr> (snd (probe_tick (AddProbe 2 q (AddProbe 1 q (NewProber 0)))))
   in distinct (map tg_fwder (pr_targets p @ [\<lparr>tg_fwder = 2, tg_request = q\<rparr>])) \<and>
      set (map tg_fwder (pr_targets p @ [\<lparr>tg_fwder = 2, tg_request = q\<rparr>])) = {1, 2}"
proof -
  define q where "q = Message_MakeResponse ref_g53 (MakeQuery ref_g53 [''a''] RR_A)"
  let ?p = "AddProbe 2 q (AddProbe 1 q (NewProber 0))"
  have "prober_run ?p [] (insert 2 (insert 1 {}))" by (intro prober_run.intros)
  moreover have "probe_tick ?p = ([\<lparr>tg_fwder = 1, tg_request = q\<rparr>, \<lparr>tg_fwder = 2, tg_request = q\<rparr>], snd (probe_tick ?p))"
    by (simp add: probe_tick_def AddProbe_def NewProber_def probeRoutineCount_def)
  ultimately have "prober_run (snd (probe_tick ?p)) ([] @ [\<lparr>tg_fwder = 1, tg_request = q\<rparr>, \<lparr>tg_fwder = 2, tg_request = q\<rparr>]) (insert 2 (insert 1 {}))"
    by (rule run_tick)
  then have "prober_run (probe_done True \<lparr>tg_fwder = 1, tg_request = q\<rparr> (snd (probe_tick ?p))) ([] @ [\<lparr>tg_fwder = 2, tg_request = q\<rparr>]) (insert 2 (insert 1 {}))"
    unfolding append.simps(1) by (rule run_failed [where ts = "[]", simplified])
  from probes_never_lost [OF this] show ?thesis unfolding Let_def q_def [symmetric] by auto
qed

end
