(* ===== verification/Upstream.thy ===== *)
theory Upstream
  imports Core Util
begin

text \<open>
  Where queries go out: the source address of a view, \<open>resolver/querysource/\<close>, and the server asked
  when resolving failed, \<open>failforwarder/\<close>. Both keep one setting per view with the setting of the
  view \<open>*\<close> as the default and the same three commands; the locale \<open>view_settings\<close> is that
  interface, and its lemma, that the commands act on the settings as on a map, holds for both.
\<close>

section \<open>Query sources\<close>

definition DefaultViewForQuery :: view where "DefaultViewForQuery = ''*''"

definition ErrDuplicateQuerySource :: cmd_error where
  "ErrDuplicateQuerySource = NewError QuerySourceErrCodeStart ''duplicate query source''"
definition ErrNotExistQuerySource :: cmd_error where
  "ErrNotExistQuerySource = NewError (QuerySourceErrCodeStart + 1) ''unknown query source''"

type_synonym QuerySourceManager = "view \<rightharpoonup> string"

record QuerySourceInView =
  qs_View :: view
  qs_Address :: string

definition qs_ReloadConfig :: "QuerySourceInView list \<Rightarrow> QuerySourceManager" where
  "qs_ReloadConfig confs = fold (\<lambda>c m. m(qs_View c \<mapsto> qs_Address c)) confs Map.empty"

definition GetQuerySource :: "QuerySourceManager \<Rightarrow> view \<Rightarrow> string" where
  "GetQuerySource q v =
     (case q v of
        Some addr \<Rightarrow> addr
      | None \<Rightarrow> (case q DefaultViewForQuery of Some addr \<Rightarrow> addr | None \<Rightarrow> []))"

definition addQuerySource :: "view \<Rightarrow> string \<Rightarrow> QuerySourceManager \<Rightarrow> QuerySourceManager \<times> cmd_error option" where
  "addQuerySource v addr q =
     (if q v \<noteq> None then (q, Some ErrDuplicateQuerySource) else (q(v \<mapsto> addr), None))"

definition deleteQuerySource :: "view \<Rightarrow> QuerySourceManager \<Rightarrow> QuerySourceManager \<times> cmd_error option" where
  "deleteQuerySource v q =
     (if q v = None then (q, Some ErrNotExistQuerySource) else (q(v := None), None))"

definition updateQuerySource :: "view \<Rightarrow> string \<Rightarrow> QuerySourceManager \<Rightarrow> QuerySourceManager \<times> cmd_error option" where
  "updateQuerySource v addr q =
     (if q v = None then (q, Some ErrNotExistQuerySource) else (q(v \<mapsto> addr), None))"

datatype qs_cmd = AddQuerySource view string | DeleteQuerySource view | UpdateQuerySource view string

fun qs_cmd_String :: "qs_cmd \<Rightarrow> string" where
  "qs_cmd_String (AddQuerySource v a) = ''name: add query source and params:{view:'' @ v @ '', query_source:'' @ a @ ''}''"
| "qs_cmd_String (DeleteQuerySource v) = ''name: delete query source and params:{view:'' @ v @ ''}''"
| "qs_cmd_String (UpdateQuerySource v a) = ''name: update query source and params:{view:'' @ v @ '', query_source:'' @ a @ ''}''"

fun qs_HandleCmd :: "QuerySourceManager \<Rightarrow> qs_cmd \<Rightarrow> QuerySourceManager \<times> unit cmd_outcome" where
  "qs_HandleCmd q (AddQuerySource v a) = (case addQuerySource v a q of (q', e) \<Rightarrow> (q', Returns None e))"
| "qs_HandleCmd q (DeleteQuerySource v) = (case deleteQuerySource v q of (q', e) \<Rightarrow> (q', Returns None e))"
| "qs_HandleCmd q (UpdateQuerySource v a) = (case updateQuerySource v a q of (q', e) \<Rightarrow> (q', Returns None e))"

section \<open>Servers asked after a failure\<close>

definition viewNameForDefaultForwarder :: view where "viewNameForDefaultForwarder = ''*''"
definition ff_defaultTimeout :: duration where "ff_defaultTimeout = 2 * Second"

definition ErrInvalidFailForwarder :: cmd_error where
  "ErrInvalidFailForwarder = NewError FailForwarderErrCodeStart ''fail forward addr isn't valid''"
definition ErrDuplicateFailForwarder :: cmd_error where
  "ErrDuplicateFailForwarder = NewError (FailForwarderErrCodeStart + 1) ''duplicate fail forwarder''"
definition ErrNotExistFailForwarder :: cmd_error where
  "ErrNotExistFailForwarder = NewError (FailForwarderErrCodeStart + 2) ''unknown fail forwarder''"

record forwarder =
  fw_sender :: SafeUDPSender
  fw_server :: string

type_synonym FailForwarder = "view \<rightharpoonup> forwarder"

record FailForwarderInView =
  ffc_View :: view
  ffc_Forwarder :: string

text \<open>\<open>Resolve\<close> is the resolution of addresses by the system, \<open>qs\<close> the query sources.\<close>

definition newForwarder :: "(string \<Rightarrow> string + string) \<Rightarrow> QuerySourceManager \<Rightarrow> view \<Rightarrow> string \<Rightarrow> string + forwarder" where
  "newForwarder Resolve qs v server =
     bindE (NewSafeUDPSender Resolve (GetQuerySource qs v) ff_defaultTimeout)
       (\<lambda>f. Inr \<lparr>fw_sender = f, fw_server = server\<rparr>)"

fun ff_load ::
  "(string \<Rightarrow> string + string) \<Rightarrow> QuerySourceManager \<Rightarrow> FailForwarderInView list \<Rightarrow> FailForwarder \<Rightarrow> FailForwarder may_panic" where
  "ff_load Resolve qs [] fs = Some fs"
| "ff_load Resolve qs (c # cs) fs =
     (case newForwarder Resolve qs (ffc_View c) (ffc_Forwarder c) of
        Inl err \<Rightarrow> None
      | Inr f \<Rightarrow> ff_load Resolve qs cs (fs(ffc_View c \<mapsto> f)))"

definition ff_ReloadConfig ::
  "(string \<Rightarrow> string + string) \<Rightarrow> QuerySourceManager \<Rightarrow> FailForwarderInView list \<Rightarrow> FailForwarder may_panic" where
  "ff_ReloadConfig Resolve qs confs = ff_load Resolve qs confs Map.empty"

definition GetForwarder :: "FailForwarder \<Rightarrow> view \<Rightarrow> forwarder option" where
  "GetForwarder ff v = (case ff v of Some f \<Rightarrow> Some f | None \<Rightarrow> ff viewNameForDefaultForwarder)"

text \<open>\<open>exchange\<close> is the exchange of a message with a server, which may change the state of the program's surroundings.\<close>

definition ff_HandleQuery ::
  "(string \<Rightarrow> 'n Message \<Rightarrow> 'w \<Rightarrow> 'w \<times> (string + 'n Message)) \<Rightarrow> ('w \<Rightarrow> FailForwarder) \<Rightarrow> ('w, 'n) handler" where
  "ff_HandleQuery exchange get nxt w client =
     (case GetForwarder (get w) (c_View client) of
        Some f \<Rightarrow>
          (case exchange (fw_server f) (c_Request client) w of
             (w', Inr response) \<Rightarrow> Some (w', client\<lparr>c_Response := Some response\<rparr>)
           | (w', Inl err) \<Rightarrow> Some (w', client))
      | None \<Rightarrow> PassToNext nxt w client)"

definition AddForwarder ::
  "(string \<Rightarrow> string + string) \<Rightarrow> QuerySourceManager \<Rightarrow> view \<Rightarrow> string \<Rightarrow> FailForwarder \<Rightarrow> FailForwarder \<times> cmd_error option" where
  "AddForwarder Resolve qs v server ff =
     (case newForwarder Resolve qs v server of
        Inl err \<Rightarrow> (ff, Some (AddDetail ErrInvalidFailForwarder err))
      | Inr f \<Rightarrow> if ff v \<noteq> None then (ff, Some ErrDuplicateFailForwarder) else (ff(v \<mapsto> f), None))"

definition DeleteForwarder :: "view \<Rightarrow> FailForwarder \<Rightarrow> FailForwarder \<times> cmd_error option" where
  "DeleteForwarder v ff =
     (if ff v = None then (ff, Some ErrNotExistFailForwarder) else (ff(v := None), None))"

definition UpdateForwarder :: "view \<Rightarrow> string \<Rightarrow> FailForwarder \<Rightarrow> FailForwarder \<times> cmd_error option" where
  "UpdateForwarder v server ff =
     (case ff v of
        None \<Rightarrow> (ff, Some ErrNotExistFailForwarder)
      | Some f \<Rightarrow> (ff(v \<mapsto> f\<lparr>fw_server := server\<rparr>), None))"

datatype ff_cmd = AddFailForwarder view string | DeleteFailForwarder view | UpdateFailForwarder view string

fun ff_cmd_String :: "ff_cmd \<Rightarrow> string" where
  "ff_cmd_String (AddFailForwarder v f) = ''add fail forwarder and params:{view:'' @ v @ '', forwarder:'' @ f @ ''}''"
| "ff_cmd_String (UpdateFailForwarder v f) = ''update fail forwarder params:{view:'' @ v @ '', forwarder:'' @ f @ ''}''"
| "ff_cmd_String (DeleteFailForwarder v) = ''delete fail forwarder params:{view:'' @ v @ ''}''"

fun ff_HandleCmd ::
  "(string \<Rightarrow> string + string) \<Rightarrow> QuerySourceManager \<Rightarrow> FailForwarder \<Rightarrow> ff_cmd \<Rightarrow> FailForwarder \<times> unit cmd_outcome" where
  "ff_HandleCmd Resolve qs ff (AddFailForwarder v s) = (case AddForwarder Resolve qs v s ff of (ff', e) \<Rightarrow> (ff', Returns None e))"
| "ff_HandleCmd Resolve qs ff (DeleteFailForwarder v) = (case DeleteForwarder v ff of (ff', e) \<Rightarrow> (ff', Returns None e))"
| "ff_HandleCmd Resolve qs ff (UpdateFailForwarder v s) = (case UpdateForwarder v s ff of (ff', e) \<Rightarrow> (ff', Returns None e))"

section \<open>Settings of views\<close>

text \<open>A command on the settings and its effect on a map, when it is accepted.\<close>

datatype setting_cmd = SetNew view string | Unset view | SetOld view string

fun setting_step :: "(view \<rightharpoonup> string) \<Rightarrow> setting_cmd \<Rightarrow> (view \<rightharpoonup> string) option" where
  "setting_step m (SetNew v s) = (if m v = None then Some (m(v \<mapsto> s)) else None)"
| "setting_step m (Unset v) = (if m v = None then None else Some (m(v := None)))"
| "setting_step m (SetOld v s) = (if m v = None then None else Some (m(v \<mapsto> s)))"

definition effective :: "(view \<rightharpoonup> string) \<Rightarrow> view \<Rightarrow> string option" where
  "effective m v = (case m v of Some s \<Rightarrow> Some s | None \<Rightarrow> m ''*'')"

text \<open>The commands of a sequence that are accepted.\<close>

fun accepted_of :: "('s \<Rightarrow> 'c \<Rightarrow> 's \<times> 'e option) \<Rightarrow> 's \<Rightarrow> 'c list \<Rightarrow> 'c list" where
  "accepted_of run s [] = []"
| "accepted_of run s (c # cs) =
     (case run s c of (s', None) \<Rightarrow> c # accepted_of run s' cs | (s', Some e) \<Rightarrow> accepted_of run s' cs)"

locale view_settings =
  fixes settings :: "'s \<Rightarrow> view \<rightharpoonup> string"
    and run :: "'s \<Rightarrow> setting_cmd \<Rightarrow> 's \<times> cmd_error option"
    and lookup :: "'s \<Rightarrow> view \<Rightarrow> string option"
  assumes accepted: "run s c = (s', None) \<Longrightarrow> setting_step (settings s) c = Some (settings s')"
    and rejected: "run s c = (s', Some e) \<Longrightarrow> s' = s"
    and lookup_effective: "lookup s v = effective (settings s) v"
begin

lemma run_settings:
  "settings (fst (run s c)) = (if snd (run s c) = None then the (setting_step (settings s) c) else settings s)"
  using accepted [of s c] rejected [of s c] by (cases "run s c") (auto split: option.splits)

lemma runs_settings:
  "settings (fold (\<lambda>c s. fst (run s c)) cs s) = fold (\<lambda>c m. the (setting_step m c)) (accepted_of run s cs) (settings s)"
proof (induction cs arbitrary: s)
  case (Cons c cs)
  then show ?case using run_settings [of s c] by (cases "run s c") (auto split: option.splits)
qed simp

lemma runs_lookup:
  "lookup (fold (\<lambda>c s. fst (run s c)) cs s) v =
   effective (fold (\<lambda>c m. the (setting_step m c)) (accepted_of run s cs) (settings s)) v"
  by (simp add: lookup_effective runs_settings)

end

fun qs_run :: "QuerySourceManager \<Rightarrow> setting_cmd \<Rightarrow> QuerySourceManager \<times> cmd_error option" where
  "qs_run q (SetNew v s) = addQuerySource v s q"
| "qs_run q (Unset v) = deleteQuerySource v q"
| "qs_run q (SetOld v s) = updateQuerySource v s q"

definition qs_lookup :: "QuerySourceManager \<Rightarrow> view \<Rightarrow> string option" where
  "qs_lookup q v = (if q v = None \<and> q DefaultViewForQuery = None then None else Some (GetQuerySource q v))"

interpretation query_sources: view_settings "\<lambda>q. q" qs_run qs_lookup
proof
  fix s c s'
  assume "qs_run s c = (s', None)"
  then show "setting_step s c = Some s'"
    by (cases c) (auto simp: addQuerySource_def deleteQuerySource_def updateQuerySource_def split: if_splits)
next
  fix s c s' e
  assume "qs_run s c = (s', Some e)"
  then show "s' = s"
    by (cases c) (auto simp: addQuerySource_def deleteQuerySource_def updateQuerySource_def split: if_splits)
next
  fix s v
  show "qs_lookup s v = effective s v"
    by (auto simp: qs_lookup_def effective_def GetQuerySource_def DefaultViewForQuery_def split: option.splits)
qed

fun ff_run ::
  "(string \<Rightarrow> string + string) \<Rightarrow> QuerySourceManager \<Rightarrow> FailForwarder \<Rightarrow> setting_cmd \<Rightarrow> FailForwarder \<times> cmd_error option" where
  "ff_run Resolve qs ff (SetNew v s) = AddForwarder Resolve qs v s ff"
| "ff_run Resolve qs ff (Unset v) = DeleteForwarder v ff"
| "ff_run Resolve qs ff (SetOld v s) = UpdateForwarder v s ff"

definition ff_servers :: "FailForwarder \<Rightarrow> view \<rightharpoonup> string" where
  "ff_servers ff v = map_option fw_server (ff v)"

lemma ff_servers_upd: "ff_servers (ff(v \<mapsto> f)) = (ff_servers ff)(v \<mapsto> fw_server f)" "ff_servers (ff(v := None)) = (ff_servers ff)(v := None)"
  by (auto simp: ff_servers_def)

lemma newForwarder_server: "newForwarder Resolve qs v s = Inr f \<Longrightarrow> fw_server f = s"
  by (auto simp: newForwarder_def bindE_Inr_iff)

interpretation fail_forwarders: view_settings ff_servers "ff_run Resolve qs" "\<lambda>ff v. map_option fw_server (GetForwarder ff v)"
  for Resolve qs
proof
  fix s c s'
  assume "ff_run Resolve qs s c = (s', None)"
  then show "setting_step (ff_servers s) c = Some (ff_servers s')"
    by (cases c) (auto simp: AddForwarder_def DeleteForwarder_def UpdateForwarder_def ff_servers_upd ff_servers_def [of s]
        newForwarder_server split: if_splits option.splits sum.splits)
next
  fix s c s' e
  assume "ff_run Resolve qs s c = (s', Some e)"
  then show "s' = s"
    by (cases c) (auto simp: AddForwarder_def DeleteForwarder_def UpdateForwarder_def split: if_splits option.splits sum.splits)
next
  fix s v
  show "map_option fw_server (GetForwarder s v) = effective (ff_servers s) v"
    by (auto simp: effective_def GetForwarder_def ff_servers_def viewNameForDefaultForwarder_def split: option.splits)
qed

section \<open>Properties\<close>

text \<open>
  C18. After any sequence of commands, the server asked for a query is the one that the accepted
  commands, applied in turn to a map of servers, leave for the view of the client or else for \<open>*\<close>; its
  answer is the response, a failed exchange leaves the response as it was, and without a server the
  query is passed on.
\<close>

theorem fail_forwarder_asks_effective_server:
  "ff_HandleQuery exchange (\<lambda>_. fold (\<lambda>c ff. fst (ff_run Resolve qs ff c)) cmds ff) nxt w client =
   (case effective (fold (\<lambda>c m. the (setting_step m c)) (accepted_of (ff_run Resolve qs) ff cmds) (ff_servers ff)) (c_View client) of
      None \<Rightarrow> PassToNext nxt w client
    | Some server \<Rightarrow>
        (case exchange server (c_Request client) w of
           (w', Inr response) \<Rightarrow> Some (w', client\<lparr>c_Response := Some response\<rparr>)
         | (w', Inl err) \<Rightarrow> Some (w', client)))"
proof -
  let ?ff = "fold (\<lambda>c ff. fst (ff_run Resolve qs ff c)) cmds ff"
  note look = fail_forwarders.runs_lookup [of Resolve qs cmds ff "c_View client", symmetric]
  show ?thesis
    unfolding look by (cases "GetForwarder ?ff (c_View client)") (simp_all add: ff_HandleQuery_def)
qed

end
