(* ===== verification/Forwarder.thy ===== *)
theory Forwarder
  imports Forwarder_Group Upstream Domain_Tree
begin

text \<open>
  The forwarding of queries by zones, \<open>resolver/forwarder/\<close>: the zones of a view
  (\<open>viewforwarder.go\<close>), their configuration (\<open>viewforwardermgr.go\<close>), the resolver (\<open>forwarder.go\<close>) and
  the commands (\<open>cmdhandler.go\<close>). The lemmas show which zone decides for a name, that a zone added by
  a command is served by its servers and no longer once it is deleted, and that a zone without
  servers, which the commands accept, ends every query for it in a panic.
\<close>

section \<open>Zones\<close>

datatype ZoneMatchType = matchSubdomain | matchExact | matchException

record ZoneFwder =
  zf_matchType :: ZoneMatchType
  zf_fwderGroup :: SafeFwder

text \<open>The nodes that enclose a name, the closest first; a node without data is a panic.\<close>

fun getFwder_loop :: "SearchResult \<Rightarrow> ZoneFwder option list \<Rightarrow> SafeFwder option may_panic" where
  "getFwder_loop m [] = Some None"
| "getFwder_loop m (None # xs) = None"
| "getFwder_loop m (Some z # xs) =
     (case zf_matchType z of
        matchException \<Rightarrow> Some None
      | matchSubdomain \<Rightarrow> Some (Some (zf_fwderGroup z))
      | matchExact \<Rightarrow> if m = ExactMatch then Some (Some (zf_fwderGroup z)) else getFwder_loop m xs)"

definition getFwder :: "('t, 'n, ZoneFwder) domaintree \<Rightarrow> 'n \<Rightarrow> 't \<Rightarrow> SafeFwder option may_panic" where
  "getFwder D name t =
     (case dt_SearchParents D t name of
        (parents, m) \<Rightarrow> if m = NotFound then Some None else getFwder_loop m parents)"

definition ErrDuplicateForwardZone :: cmd_error where
  "ErrDuplicateForwardZone = NewError (ForwarderErrCodeStart + 4) ''duplicate forward zone''"
definition ErrAddForwardZoneFailed :: cmd_error where
  "ErrAddForwardZoneFailed = NewError (ForwarderErrCodeStart + 8) ''add forward zone failed''"
definition ErrDeleteForwardZoneFailed :: cmd_error where
  "ErrDeleteForwardZoneFailed = NewError (ForwarderErrCodeStart + 9) ''delete forward zone failed''"
definition ErrUpdateForwardZoneFailed :: cmd_error where
  "ErrUpdateForwardZoneFailed = NewError (ForwarderErrCodeStart + 10) ''update forward zone failed''"

definition addZoneFwder :: "'n g53 \<Rightarrow> ('t, 'n, ZoneFwder) domaintree \<Rightarrow> string \<Rightarrow> ZoneFwder \<Rightarrow> 't \<Rightarrow> string + 't" where
  "addZoneFwder G D name z t =
     bindE (NameFromString G name) (\<lambda>dname.
       case dt_Insert D t dname z of Inl err \<Rightarrow> Inl (Info ErrDuplicateForwardZone) | Inr t' \<Rightarrow> Inr t')"

definition deleteZoneFwder :: "'n g53 \<Rightarrow> ('t, 'n, ZoneFwder) domaintree \<Rightarrow> string \<Rightarrow> 't \<Rightarrow> string + 't" where
  "deleteZoneFwder G D name t = bindE (NameFromString G name) (\<lambda>dname. Inr (dt_Delete D t dname))"

section \<open>The manager\<close>

record ('t, 'n) ViewFwderMgr =
  vm_fwders :: "view \<rightharpoonup> 't"
  vm_repo :: "'n SafeFwderRepo"

text \<open>An unknown style reads the zero value of the map, which is the fixed order.\<close>

definition strToFwdSelectPolicy :: "string \<Rightarrow> FwdSelectPolicy" where
  "strToFwdSelectPolicy style =
     (case map_of [(''fixed_order'', fixedOrder), (''rtt'', rttBased), (''round_robin'', roundRobin)] style of
        Some p \<Rightarrow> p
      | None \<Rightarrow> fixedOrder)"

definition FwderMatchException :: string where "FwderMatchException = ''no''"

fun get_fwders :: "string list \<Rightarrow> 'n SafeFwderRepo \<Rightarrow> nat list \<times> 'n SafeFwderRepo" where
  "get_fwders [] repo = ([], repo)"
| "get_fwders (addr # addrs) repo =
     (case GetOrCreateFwder addr repo of
        (a, repo1) \<Rightarrow> (case get_fwders addrs repo1 of (as, repo2) \<Rightarrow> (a # as, repo2)))"

text \<open>No server is a group of none; making a server does not fail.\<close>

definition newZoneForwarder :: "string \<Rightarrow> string list \<Rightarrow> 'n SafeFwderRepo \<Rightarrow> ZoneFwder \<times> 'n SafeFwderRepo" where
  "newZoneForwarder style forwarders repo =
     (let matchType = (if style = FwderMatchException then matchException else matchSubdomain);
          policy = (if style = FwderMatchException then roundRobin else strToFwdSelectPolicy style)
      in case get_fwders forwarders repo of
           (fwders, repo1) \<Rightarrow>
             (case fwders of
                [a] \<Rightarrow> (\<lparr>zf_matchType = matchType, zf_fwderGroup = OneFwder a\<rparr>, repo1)
              | _ \<Rightarrow>
                  (let g = rp_fresh repo1 in
                   (\<lparr>zf_matchType = matchType, zf_fwderGroup = GroupFwder g\<rparr>,
                    repo1\<lparr>rp_groups := (rp_groups repo1)(g \<mapsto> NewFwderGroup (CreateSelector policy fwders)), rp_fresh := Suc g\<rparr>))))"

definition GetFwder :: "('t, 'n, ZoneFwder) domaintree \<Rightarrow> view \<Rightarrow> 'n \<Rightarrow> ('t, 'n) ViewFwderMgr \<Rightarrow> SafeFwder option may_panic" where
  "GetFwder D v name mgr = (case vm_fwders mgr v of None \<Rightarrow> Some None | Some t \<Rightarrow> getFwder D name t)"

record ForwardZoneConf =
  fz_Name :: string
  fz_ForwardStyle :: string
  fz_Forwarders :: "string list"

text \<open>While the configuration is read, an error or an unknown view is a panic.\<close>

fun load_zones ::
  "'n g53 \<Rightarrow> ('t, 'n, ZoneFwder) domaintree \<Rightarrow> (view \<times> ForwardZoneConf) list \<Rightarrow> (view \<rightharpoonup> 't) \<Rightarrow> 'n SafeFwderRepo
   \<Rightarrow> ((view \<rightharpoonup> 't) \<times> 'n SafeFwderRepo) may_panic" where
  "load_zones G D [] viewFwders repo = Some (viewFwders, repo)"
| "load_zones G D ((v, zone) # zones) viewFwders repo =
     (case newZoneForwarder (fz_ForwardStyle zone) (fz_Forwarders zone) repo of
        (z, repo1) \<Rightarrow>
          (case viewFwders v of
             None \<Rightarrow> None
           | Some t \<Rightarrow>
               (case addZoneFwder G D (fz_Name zone) z t of
                  Inl err \<Rightarrow> None
                | Inr t' \<Rightarrow> load_zones G D zones (viewFwders(v \<mapsto> t')) repo1)))"

record ForwardZoneInView =
  fzv_View :: view
  fzv_Zones :: "ForwardZoneConf list"

record ForwarderConf =
  fc_ForwardZones :: "ForwardZoneInView list"
  fc_Prober :: ForwardProberConf

definition vm_ReloadConfig ::
  "'n g53 \<Rightarrow> ('t, 'n, ZoneFwder) domaintree \<Rightarrow> view list \<Rightarrow> ForwarderConf \<Rightarrow> ('t, 'n) ViewFwderMgr \<Rightarrow> ('t, 'n) ViewFwderMgr may_panic" where
  "vm_ReloadConfig G D views conf mgr =
     map_option (\<lambda>(fwders, repo). \<lparr>vm_fwders = fwders, vm_repo = repo\<rparr>)
       (load_zones G D (concat (map (\<lambda>c. map (Pair (fzv_View c)) (fzv_Zones c)) (fc_ForwardZones conf)))
          (\<lambda>v. if v \<in> set views then Some (NewDomainTree D) else None) (repo_ReloadConf (fc_Prober conf) (vm_repo mgr)))"

definition NewViewFwderMgr ::
  "'n g53 \<Rightarrow> ('t, 'n, ZoneFwder) domaintree \<Rightarrow> view list \<Rightarrow> ForwarderConf \<Rightarrow> ('t, 'n) ViewFwderMgr may_panic" where
  "NewViewFwderMgr G D views conf =
     vm_ReloadConfig G D views conf \<lparr>vm_fwders = Map.empty, vm_repo = NewSafeFwderRepo (fc_Prober conf)\<rparr>"

text \<open>The configuration is loaded by the manager and once more by the resolver.\<close>

definition NewForwarder ::
  "'n g53 \<Rightarrow> ('t, 'n, ZoneFwder) domaintree \<Rightarrow> view list \<Rightarrow> ForwarderConf \<Rightarrow> ('t, 'n) ViewFwderMgr may_panic" where
  "NewForwarder G D views conf = Option.bind (NewViewFwderMgr G D views conf) (vm_ReloadConfig G D views conf)"

section \<open>The resolver\<close>

text \<open>
  \<open>qs\<close> are the query sources. The address of the server is part of what is logged after the exchange,
  so it is computed whatever the result is.
\<close>

definition processRequest ::
  "(string \<Rightarrow> string + string) \<Rightarrow> ((nat \<Rightarrow> int) \<Rightarrow> nat list \<Rightarrow> nat list) \<Rightarrow> ('t, 'n, ZoneFwder) domaintree \<Rightarrow> ('w, 'n) surroundings
   \<Rightarrow> QuerySourceManager \<Rightarrow> 'w \<Rightarrow> ('t, 'n) ViewFwderMgr \<Rightarrow> 'n Client \<Rightarrow> ('w \<times> ('t, 'n) ViewFwderMgr \<times> 'n Client) may_panic" where
  "processRequest Resolve srt D E qs w mgr client =
     Option.bind (m_Question (c_Request client)) (\<lambda>q.
     Option.bind (GetFwder D (c_View client) (q_Name q) mgr) (\<lambda>found.
       case found of
         None \<Rightarrow> Some (w, mgr, client)
       | Some f \<Rightarrow>
           Option.bind (sf_SetQuerySource Resolve (GetQuerySource qs (c_View client)) f (vm_repo mgr)) (\<lambda>(repo, err).
             if err \<noteq> None then Some (w, mgr\<lparr>vm_repo := repo\<rparr>, client)
             else
               Option.bind (sf_Forward srt E (c_Request client) f w repo) (\<lambda>(w', repo', res).
               Option.bind (sf_RemoteAddr f repo') (\<lambda>addr.
                 Some (w', mgr\<lparr>vm_repo := repo'\<rparr>,
                       case res of Inl err \<Rightarrow> client | Inr resp \<Rightarrow> client\<lparr>c_Response := Some resp\<rparr>))))))"

definition fwd_Resolve ::
  "'n g53 \<Rightarrow> (string \<Rightarrow> string + string) \<Rightarrow> ((nat \<Rightarrow> int) \<Rightarrow> nat list \<Rightarrow> nat list) \<Rightarrow> ('t, 'n, ZoneFwder) domaintree
   \<Rightarrow> ('w, 'n) surroundings \<Rightarrow> ('w \<Rightarrow> QuerySourceManager) \<Rightarrow> ('w \<Rightarrow> ('t, 'n) ViewFwderMgr) \<Rightarrow> (('t, 'n) ViewFwderMgr \<Rightarrow> 'w \<Rightarrow> 'w) \<Rightarrow> ('w, 'n) handler" where
  "fwd_Resolve G Resolve srt D E qs get put nxt w client =
     Option.bind (case c_Response client of None \<Rightarrow> Some EMPTY | Some r \<Rightarrow> ClassifyResponse G r) (\<lambda>kind.
       if kind = REFERRAL then Some (w, client)
       else
         Option.bind (processRequest Resolve srt D E (qs w) w (get w) client) (\<lambda>(w1, mgr, client1).
           let w2 = put mgr w1 in
           case c_Response client1 of
             None \<Rightarrow> PassToNext nxt w2 client1
           | Some r \<Rightarrow>
               Some (w2, client1
                 \<lparr>c_Response := Some (r\<lparr>m_Header := Header_SetFlag G FLAG_AA False ((m_Header r)\<lparr>h_Id := h_Id (m_Header (c_Request client1))\<rparr>)\<rparr>),
                  c_CacheAnswer := True\<rparr>)))"

section \<open>Commands\<close>

record ForwardZoneParam = ForwardZoneConf +
  fz_View :: view

datatype fwd_cmd =
    AddForwardZone "ForwardZoneParam list"
  | DeleteForwardZone view string
  | UpdateForwardZone ForwardZoneParam

definition zone_text :: "string \<Rightarrow> ForwardZoneParam \<Rightarrow> string" where
  "zone_text what z =
     ''name: '' @ what @ '' forward zone and params:{view:'' @ fz_View z @ '', name:'' @ fz_Name z @
     '', forwarders:['' @ strings_Join (fz_Forwarders z) '','' @ ''], forward_style:'' @ fz_ForwardStyle z @ ''}''"

fun fwd_cmd_String :: "fwd_cmd \<Rightarrow> string" where
  "fwd_cmd_String (AddForwardZone zones) = concat (map (\<lambda>z. zone_text ''add'' z @ '','') zones)"
| "fwd_cmd_String (DeleteForwardZone v name) = ''name: delete forward zone and params:{view:'' @ v @ '', name: '' @ name @ ''}''"
| "fwd_cmd_String (UpdateForwardZone z) = zone_text ''update'' z"

text \<open>Zones before one with an error stay added.\<close>

fun addForwardZone ::
  "'n g53 \<Rightarrow> ('t, 'n, ZoneFwder) domaintree \<Rightarrow> ForwardZoneParam list \<Rightarrow> ('t, 'n) ViewFwderMgr \<Rightarrow> ('t, 'n) ViewFwderMgr \<times> cmd_error option" where
  "addForwardZone G D [] mgr = (mgr, None)"
| "addForwardZone G D (z # zs) mgr =
     (case vm_fwders mgr (fz_View z) of
        None \<Rightarrow> (mgr, Some (AddDetail ErrUnknownView (fz_View z)))
      | Some t \<Rightarrow>
          (case newZoneForwarder (fz_ForwardStyle z) (fz_Forwarders z) (vm_repo mgr) of
             (zoneFwder, repo) \<Rightarrow>
               (case addZoneFwder G D (fz_Name z) zoneFwder t of
                  Inl err \<Rightarrow> (mgr\<lparr>vm_repo := repo\<rparr>, Some (AddDetail ErrAddForwardZoneFailed err))
                | Inr t' \<Rightarrow> addForwardZone G D zs (mgr\<lparr>vm_fwders := (vm_fwders mgr)(fz_View z \<mapsto> t'), vm_repo := repo\<rparr>))))"

definition deleteForwardZone ::
  "'n g53 \<Rightarrow> ('t, 'n, ZoneFwder) domaintree \<Rightarrow> view \<Rightarrow> string \<Rightarrow> ('t, 'n) ViewFwderMgr \<Rightarrow> ('t, 'n) ViewFwderMgr \<times> cmd_error option" where
  "deleteForwardZone G D v name mgr =
     (case vm_fwders mgr v of
        None \<Rightarrow> (mgr, Some (AddDetail ErrUnknownView v))
      | Some t \<Rightarrow>
          (case deleteZoneFwder G D name t of
             Inl err \<Rightarrow> (mgr, Some (AddDetail ErrDeleteForwardZoneFailed err))
           | Inr t' \<Rightarrow> (mgr\<lparr>vm_fwders := (vm_fwders mgr)(v \<mapsto> t')\<rparr>, None)))"

definition updateForwardZone ::
  "'n g53 \<Rightarrow> ('t, 'n, ZoneFwder) domaintree \<Rightarrow> ForwardZoneParam \<Rightarrow> ('t, 'n) ViewFwderMgr \<Rightarrow> ('t, 'n) ViewFwderMgr \<times> cmd_error option" where
  "updateForwardZone G D z mgr =
     (case vm_fwders mgr (fz_View z) of
        None \<Rightarrow> (mgr, Some (AddDetail ErrUnknownView (fz_View z)))
      | Some t \<Rightarrow>
          (case newZoneForwarder (fz_ForwardStyle z) (fz_Forwarders z) (vm_repo mgr) of
             (zoneFwder, repo) \<Rightarrow>
               (case deleteZoneFwder G D (fz_Name z) t of
                  Inl err \<Rightarrow> (mgr\<lparr>vm_repo := repo\<rparr>, Some (AddDetail ErrUpdateForwardZoneFailed err))
                | Inr t1 \<Rightarrow>
                    (case addZoneFwder G D (fz_Name z) zoneFwder t1 of
                       Inl err \<Rightarrow> (mgr\<lparr>vm_fwders := (vm_fwders mgr)(fz_View z \<mapsto> t1), vm_repo := repo\<rparr>,
                                   Some (AddDetail ErrUpdateForwardZoneFailed err))
                     | Inr t2 \<Rightarrow> (mgr\<lparr>vm_fwders := (vm_fwders mgr)(fz_View z \<mapsto> t2), vm_repo := repo\<rparr>, None)))))"

fun fwd_HandleCmd ::
  "'n g53 \<Rightarrow> ('t, 'n, ZoneFwder) domaintree \<Rightarrow> ('t, 'n) ViewFwderMgr \<Rightarrow> fwd_cmd \<Rightarrow> ('t, 'n) ViewFwderMgr \<times> unit cmd_outcome" where
  "fwd_HandleCmd G D mgr (AddForwardZone zs) = (case addForwardZone G D zs mgr of (m, e) \<Rightarrow> (m, Returns None e))"
| "fwd_HandleCmd G D mgr (DeleteForwardZone v name) = (case deleteForwardZone G D v name mgr of (m, e) \<Rightarrow> (m, Returns None e))"
| "fwd_HandleCmd G D mgr (UpdateForwardZone z) = (case updateForwardZone G D z mgr of (m, e) \<Rightarrow> (m, Returns None e))"

section \<open>Lemmas\<close>

definition repo_ok :: "'n SafeFwderRepo \<Rightarrow> bool" where
  "repo_ok repo \<longleftrightarrow>
     (\<forall>addr a. rp_fwders repo addr = Some a \<longrightarrow> map_option uf_remoteAddr (rp_heap repo a) = Some addr) \<and>
     (\<forall>a. rp_heap repo a \<noteq> None \<longrightarrow> a < rp_fresh repo)"

definition heap_addr :: "'n SafeFwderRepo \<Rightarrow> nat \<Rightarrow> string option" where
  "heap_addr repo a = map_option uf_remoteAddr (rp_heap repo a)"

fun fwder_addrs :: "'n SafeFwderRepo \<Rightarrow> SafeFwder \<Rightarrow> string option list" where
  "fwder_addrs repo (OneFwder a) = [heap_addr repo a]"
| "fwder_addrs repo (GroupFwder g) =
     (case rp_groups repo g of None \<Rightarrow> [] | Some grp \<Rightarrow> map (heap_addr repo) (GetFwders (fg_selector grp)))"

lemma NewSafeUDPFwder_addr [simp]: "uf_remoteAddr (NewSafeUDPFwder addr t i) = addr"
  by (simp add: NewSafeUDPFwder_def)

lemma GetOrCreateFwder_spec:
  assumes "repo_ok repo" "GetOrCreateFwder addr repo = (a, repo')"
  shows "repo_ok repo' \<and> heap_addr repo' a = Some addr \<and> (\<forall>b x. heap_addr repo b = Some x \<longrightarrow> heap_addr repo' b = Some x)"
proof (cases "rp_fwders repo addr")
  case (Some b)
  then show ?thesis using assms by (auto simp: GetOrCreateFwder_def repo_ok_def heap_addr_def)
next
  case None
  then have r: "a = rp_fresh repo"
    "repo' = repo\<lparr>rp_heap := (rp_heap repo)(a \<mapsto> NewSafeUDPFwder addr (rp_fwderTimeout repo) (rp_timeoutLasting repo)),
                  rp_fwders := (rp_fwders repo)(addr \<mapsto> a), rp_fresh := Suc a\<rparr>"
    using assms(2) by (auto simp: GetOrCreateFwder_def Let_def)
  have "rp_heap repo a = None" using assms(1) r(1) unfolding repo_ok_def by blast
  then show ?thesis using assms(1) unfolding r(2) by (auto simp: repo_ok_def heap_addr_def r(1) less_Suc_eq)
qed

lemma get_fwders_spec:
  "repo_ok repo \<Longrightarrow> get_fwders addrs repo = (as, repo') \<Longrightarrow>
   repo_ok repo' \<and> map (heap_addr repo') as = map Some addrs \<and> (\<forall>b x. heap_addr repo b = Some x \<longrightarrow> heap_addr repo' b = Some x)"
proof (induction addrs arbitrary: repo as)
  case (Cons addr addrs)
  obtain a repo1 where 1: "GetOrCreateFwder addr repo = (a, repo1)" by fastforce
  obtain as' where 2: "get_fwders addrs repo1 = (as', repo')" "as = a # as'"
    using Cons.prems(2) 1 by (auto split: prod.splits)
  have s: "repo_ok repo1" "heap_addr repo1 a = Some addr" "\<forall>b x. heap_addr repo b = Some x \<longrightarrow> heap_addr repo1 b = Some x"
    using GetOrCreateFwder_spec [OF Cons.prems(1) 1] by blast+
  show ?case using Cons.IH [OF s(1) 2(1)] s 2(2) by simp
qed simp

lemma GetFwders_CreateSelector [simp]: "GetFwders (CreateSelector p fs) = fs"
  by (cases p) simp_all

lemma newZoneForwarder_spec:
  assumes "repo_ok repo" "newZoneForwarder style addrs repo = (z, repo')"
  shows "repo_ok repo' \<and> fwder_addrs repo' (zf_fwderGroup z) = map Some addrs \<and>
    zf_matchType z = (if style = FwderMatchException then matchException else matchSubdomain)"
proof -
  define mt where "mt = (if style = FwderMatchException then matchException else matchSubdomain)"
  define policy where "policy = (if style = FwderMatchException then roundRobin else strToFwdSelectPolicy style)"
  obtain as repo1 where 1: "get_fwders addrs repo = (as, repo1)" by fastforce
  have s: "repo_ok repo1" "map (heap_addr repo1) as = map Some addrs" using get_fwders_spec [OF assms(1) 1] by blast+
  show ?thesis
  proof (cases "\<exists>a. as = [a]")
    case True
    then obtain a where a: "as = [a]" by blast
    have "z = \<lparr>zf_matchType = mt, zf_fwderGroup = OneFwder a\<rparr>" "repo' = repo1"
      using assms(2) by (simp_all add: newZoneForwarder_def 1 a mt_def)
    then show ?thesis using s by (simp add: a mt_def)
  next
    case False
    have "newZoneForwarder style addrs repo =
      (\<lparr>zf_matchType = mt, zf_fwderGroup = GroupFwder (rp_fresh repo1)\<rparr>,
       repo1\<lparr>rp_groups := (rp_groups repo1)(rp_fresh repo1 \<mapsto> NewFwderGroup (CreateSelector policy as)), rp_fresh := Suc (rp_fresh repo1)\<rparr>)"
      using False by (cases as; cases "tl as") (simp_all add: newZoneForwarder_def 1 mt_def policy_def Let_def)
    then have z: "z = \<lparr>zf_matchType = mt, zf_fwderGroup = GroupFwder (rp_fresh repo1)\<rparr>"
      "repo' = repo1\<lparr>rp_groups := (rp_groups repo1)(rp_fresh repo1 \<mapsto> NewFwderGroup (CreateSelector policy as)), rp_fresh := Suc (rp_fresh repo1)\<rparr>"
      using assms(2) by simp_all
    have "heap_addr repo' = heap_addr repo1" by (rule ext) (simp add: heap_addr_def z(2))
    moreover have "repo_ok repo'" using s(1) unfolding repo_ok_def z(2) by (simp add: less_Suc_eq)
    ultimately show ?thesis using s(2) by (simp add: z(1) mt_def) (simp add: z(2) NewFwderGroup_def)
  qed
qed

lemma getFwder_exact:
  assumes "domaintree_laws G D ct" "(m, z) \<in> ct t" "Name_Equals G m n" "zf_matchType z \<noteq> matchExact"
  shows "getFwder D n t = Some (if zf_matchType z = matchException then None else Some (zf_fwderGroup z))"
proof -
  obtain rest where "dt_SearchParents D t n = (Some z # rest, ExactMatch)" using tree_Exact [OF assms(1-3)] by blast
  then show ?thesis using assms(4) by (cases "zf_matchType z") (simp_all add: getFwder_def)
qed

lemma getFwder_none:
  assumes "domaintree_laws G D ct" "absent G (ct t) n" "\<not> (\<exists>p\<in>ct t. Name_IsSubDomain G n (fst p))"
  shows "getFwder D n t = Some None"
  using tree_NotFound [OF assms] by (cases "dt_SearchParents D t n") (simp add: getFwder_def)

text \<open>The zone that equals a name or else is the closest one that encloses it.\<close>

definition closest_zone :: "'n g53 \<Rightarrow> ('n \<times> 'v) set \<Rightarrow> 'n \<Rightarrow> 'n \<times> 'v \<Rightarrow> bool" where
  "closest_zone G c n z \<longleftrightarrow> z \<in> c \<and>
     (Name_Equals G (fst z) n \<or>
      absent G c n \<and> Name_IsSubDomain G n (fst z) \<and>
      (\<forall>p\<in>c. Name_IsSubDomain G n (fst p) \<longrightarrow> p = z \<or> Name_IsSubDomain G (fst z) (fst p)))"

lemma closest_search:
  assumes "domaintree_laws G D ct" "absent G (ct t) n" "\<exists>p\<in>ct t. Name_IsSubDomain G n (fst p)"
  obtains z rest where "dt_SearchParents D t n = (Some (snd z) # rest, ClosestEncloser)" "closest_zone G (ct t) n z"
proof -
  obtain ps where ps: "dt_SearchParents D t n = (map (Some \<circ> snd) ps, ClosestEncloser)"
    "set ps = {p \<in> ct t. Name_IsSubDomain G n (fst p)}" "sorted_wrt (\<lambda>p q. Name_IsSubDomain G (fst p) (fst q)) ps"
    using tree_Closest [OF assms] by (elim exE conjE)
  obtain z qs where q: "ps = z # qs" using assms(3) ps(2) by (cases ps) auto
  have z: "z \<in> ct t \<and> Name_IsSubDomain G n (fst z)" using ps(2) unfolding q by auto
  have "p = z \<or> Name_IsSubDomain G (fst z) (fst p)" if "p \<in> ct t" "Name_IsSubDomain G n (fst p)" for p
  proof -
    have "p \<in> set ps" using that ps(2) by simp
    then show ?thesis using ps(3) unfolding q by auto
  qed
  then have "closest_zone G (ct t) n z" using z assms(2) unfolding closest_zone_def by blast
  then show thesis using that ps(1) unfolding q by simp
qed

section \<open>Properties\<close>

text \<open>
  C26. The closest zone decides where a name is forwarded: with a zone that equals or encloses the
  name, the equal one or else the closest enclosing one is taken, its servers are asked, and if it is an
  exception nothing is forwarded, even when a zone further up has servers. Without any such zone
  nothing is forwarded.
\<close>

theorem closest_zone_decides:
  assumes "domaintree_laws G D ct" "\<forall>p\<in>ct t. zf_matchType (snd p) \<noteq> matchExact"
  shows "if \<exists>p\<in>ct t. Name_Equals G (fst p) n \<or> Name_IsSubDomain G n (fst p)
    then \<exists>z. closest_zone G (ct t) n z \<and>
      getFwder D n t = Some (if zf_matchType (snd z) = matchException then None else Some (zf_fwderGroup (snd z)))
    else getFwder D n t = Some None"
proof (cases "\<exists>p\<in>ct t. Name_Equals G (fst p) n")
  case True
  then obtain p where p: "p \<in> ct t" "Name_Equals G (fst p) n" by blast
  then have "closest_zone G (ct t) n p" unfolding closest_zone_def by blast
  moreover have "getFwder D n t = Some (if zf_matchType (snd p) = matchException then None else Some (zf_fwderGroup (snd p)))"
    using getFwder_exact [OF assms(1), of "fst p" "snd p" t n] assms(2) p by simp
  moreover have some: "\<exists>p\<in>ct t. Name_Equals G (fst p) n \<or> Name_IsSubDomain G n (fst p)" using True by blast
  ultimately show ?thesis unfolding if_P [OF some] by (intro exI conjI)
next
  case False
  then have absent: "absent G (ct t) n" by (simp add: absent_def)
  show ?thesis
  proof (cases "\<exists>p\<in>ct t. Name_IsSubDomain G n (fst p)")
    case True
    obtain z rest where z: "dt_SearchParents D t n = (Some (snd z) # rest, ClosestEncloser)" "closest_zone G (ct t) n z"
      by (rule closest_search [OF assms(1) absent True])
    then have "zf_matchType (snd z) \<noteq> matchExact" using assms(2) by (simp add: closest_zone_def)
    then have "getFwder D n t = Some (if zf_matchType (snd z) = matchException then None else Some (zf_fwderGroup (snd z)))"
      using z(1) by (cases "zf_matchType (snd z)") (simp_all add: getFwder_def)
    moreover have some: "\<exists>p\<in>ct t. Name_Equals G (fst p) n \<or> Name_IsSubDomain G n (fst p)" using True by blast
    ultimately show ?thesis unfolding if_P [OF some] using z(2) by (intro exI conjI)
  next
    case none: False
    then have no: "\<not> (\<exists>p\<in>ct t. Name_Equals G (fst p) n \<or> Name_IsSubDomain G n (fst p))" using False by blast
    show ?thesis unfolding if_not_P [OF no] by (rule getFwder_none [OF assms(1) absent none])
  qed
qed

definition demo_zones :: "(string list \<times> ZoneFwder) list" where
  "demo_zones = [([''com''], \<lparr>zf_matchType = matchSubdomain, zf_fwderGroup = OneFwder 0\<rparr>),
     ([''a'', ''com''], \<lparr>zf_matchType = matchException, zf_fwderGroup = GroupFwder 1\<rparr>)]"

theorem closest_zone_decides_witness:
  "\<exists>z. closest_zone ref_g53 (list_content demo_zones) [''x'', ''a'', ''com''] z \<and>
     getFwder list_domaintree [''x'', ''a'', ''com''] demo_zones =
       Some (if zf_matchType (snd z) = matchException then None else Some (zf_fwderGroup (snd z)))"
proof -
  have sub: "list_content demo_zones \<subseteq> set demo_zones" by (auto simp: list_content_def find_Some_iff)
  then have "\<forall>p\<in>list_content demo_zones. zf_matchType (snd p) \<noteq> matchExact" by (auto simp: demo_zones_def)
  from closest_zone_decides [OF list_domaintree_laws this, of "[''x'', ''a'', ''com'']"] show ?thesis
  proof (rule if_P [THEN subst [where P = "\<lambda>x. x"], rotated])
    have "find (same_name [''com'']) demo_zones = Some ([''com''], \<lparr>zf_matchType = matchSubdomain, zf_fwderGroup = OneFwder 0\<rparr>)"
      by code_simp
    then have "([''com''], \<lparr>zf_matchType = matchSubdomain, zf_fwderGroup = OneFwder 0\<rparr>) \<in> list_content demo_zones"
      by (simp add: list_content_def)
    moreover have "Name_IsSubDomain ref_g53 [''x'', ''a'', ''com''] [''com'']" by code_simp
    ultimately show "\<exists>p\<in>list_content demo_zones. Name_Equals ref_g53 (fst p) [''x'', ''a'', ''com''] \<or>
        Name_IsSubDomain ref_g53 [''x'', ''a'', ''com''] (fst p)" by force
  qed
qed

lemma delete_inserted:
  assumes "domaintree_laws G D ct" "name_laws G" "absent G (ct t) n" "dt_Insert D t n z = Inr t'"
  shows "ct (dt_Delete D t' n) = ct t"
proof -
  have "ct t' = insert (n, z) (ct t)" using tree_Insert [OF assms(1,3), of z] assms(4) by auto
  moreover have "{p \<in> insert (n, z) (ct t). \<not> Name_Equals G (fst p) n} = ct t"
    using assms(3) Name_Equals_refl [OF assms(2), of n] by (auto simp: absent_def)
  ultimately show ?thesis using tree_Delete [OF assms(1), of t' n] by simp
qed

text \<open>
  C27. A zone that is added is served by its servers until it is deleted: the command to add a zone
  that is not an exception, whose name is not in the view yet, succeeds; a query for that name, in any
  spelling, is then forwarded to servers with exactly the addresses of the command, in their order; and
  the command to delete it succeeds and leaves the zones of the view as they were.
\<close>

theorem forward_zone_roundtrip:
  assumes "name_laws G" "domaintree_laws G D ct" "repo_ok (vm_repo mgr)" "vm_fwders mgr (fz_View z) = Some t"
    and "NameFromString G (fz_Name z) = Inr n" "absent G (ct t) n" "fz_ForwardStyle z \<noteq> FwderMatchException"
  shows "\<exists>mgr1 mgr2 f t2. fwd_HandleCmd G D mgr (AddForwardZone [z]) = (mgr1, Returns None None) \<and>
    (\<forall>n'. Name_Equals G n n' \<longrightarrow> GetFwder D (fz_View z) n' mgr1 = Some (Some f)) \<and>
    fwder_addrs (vm_repo mgr1) f = map Some (fz_Forwarders z) \<and> repo_ok (vm_repo mgr1) \<and>
    fwd_HandleCmd G D mgr1 (DeleteForwardZone (fz_View z) (fz_Name z)) = (mgr2, Returns None None) \<and>
    vm_fwders mgr2 (fz_View z) = Some t2 \<and> ct t2 = ct t"
proof -
  obtain zf repo where z: "newZoneForwarder (fz_ForwardStyle z) (fz_Forwarders z) (vm_repo mgr) = (zf, repo)" by fastforce
  have zf: "repo_ok repo" "fwder_addrs repo (zf_fwderGroup zf) = map Some (fz_Forwarders z)" "zf_matchType zf = matchSubdomain"
    using newZoneForwarder_spec [OF assms(3) z] assms(7) by auto
  obtain t' where t': "dt_Insert D t n zf = Inr t'" "ct t' = insert (n, zf) (ct t)"
    using tree_Insert [OF assms(2,6)] by blast
  define mgr1 where "mgr1 = mgr\<lparr>vm_fwders := (vm_fwders mgr)(fz_View z \<mapsto> t'), vm_repo := repo\<rparr>"
  define mgr2 where "mgr2 = mgr1\<lparr>vm_fwders := (vm_fwders mgr1)(fz_View z \<mapsto> dt_Delete D t' n)\<rparr>"
  have v1: "vm_fwders mgr1 (fz_View z) = Some t'" by (simp add: mgr1_def)
  have add: "fwd_HandleCmd G D mgr (AddForwardZone [z]) = (mgr1, Returns None None)"
    using assms(4,5) z t'(1) by (simp add: addZoneFwder_def mgr1_def)
  have del: "fwd_HandleCmd G D mgr1 (DeleteForwardZone (fz_View z) (fz_Name z)) = (mgr2, Returns None None)"
    using assms(5) v1 by (simp add: deleteForwardZone_def deleteZoneFwder_def mgr2_def)
  have get: "\<forall>n'. Name_Equals G n n' \<longrightarrow> GetFwder D (fz_View z) n' mgr1 = Some (Some (zf_fwderGroup zf))"
    using getFwder_exact [OF assms(2), of n zf t'] t'(2) zf(3) by (simp add: GetFwder_def mgr1_def)
  have "vm_fwders mgr2 (fz_View z) = Some (dt_Delete D t' n)" by (simp add: mgr2_def)
  then show ?thesis
    using add del get zf delete_inserted [OF assms(2,1,6) t'(1)]
    by (intro exI [of _ mgr1] exI [of _ mgr2] exI [of _ "zf_fwderGroup zf"] exI [of _ "dt_Delete D t' n"]) (simp add: mgr1_def)
qed

definition demo_mgr :: "((string list \<times> ZoneFwder) list, string list) ViewFwderMgr" where
  "demo_mgr = \<lparr>vm_fwders = [''default'' \<mapsto> demo_zones],
     vm_repo = NewSafeFwderRepo \<lparr>pc_ProbeInterval = 0, pc_Timeout = 0, pc_TimeoutLasting = 0\<rparr>\<rparr>"

definition demo_zone :: "string list \<Rightarrow> ForwardZoneParam" where
  "demo_zone fs = \<lparr>fz_Name = ''b.com'', fz_ForwardStyle = ''rtt'', fz_Forwarders = fs, fz_View = ''default''\<rparr>"

lemma demo_mgr_ok:
  "repo_ok (vm_repo demo_mgr)" "vm_fwders demo_mgr (fz_View (demo_zone fs)) = Some demo_zones"
  "NameFromString ref_g53 (fz_Name (demo_zone fs)) = Inr [''b'', ''com'']" "absent ref_g53 (list_content demo_zones) [''b'', ''com'']"
  "fz_ForwardStyle (demo_zone fs) \<noteq> FwderMatchException"
proof -
  have "list_content demo_zones \<subseteq> set demo_zones" by (auto simp: list_content_def find_Some_iff)
  moreover have "\<forall>p\<in>set demo_zones. \<not> Name_Equals ref_g53 (fst p) [''b'', ''com'']" by code_simp
  ultimately show "absent ref_g53 (list_content demo_zones) [''b'', ''com'']" unfolding absent_def by blast
  have "NameFromString ref_g53 ''b.com'' = Inr [''b'', ''com'']" by code_simp
  then show "NameFromString ref_g53 (fz_Name (demo_zone fs)) = Inr [''b'', ''com'']" by (simp add: demo_zone_def)
qed (simp_all add: demo_mgr_def demo_zone_def repo_ok_def NewSafeFwderRepo_def repo_ReloadConf_def FwderMatchException_def)

theorem forward_zone_roundtrip_witness:
  "\<exists>mgr1 mgr2 f t2. fwd_HandleCmd ref_g53 list_domaintree demo_mgr (AddForwardZone [demo_zone [''192.0.2.1:53'', ''192.0.2.2:53'']]) = (mgr1, Returns None None) \<and>
    GetFwder list_domaintree ''default'' [''B'', ''com''] mgr1 = Some (Some f) \<and>
    fwder_addrs (vm_repo mgr1) f = [Some ''192.0.2.1:53'', Some ''192.0.2.2:53''] \<and>
    fwd_HandleCmd ref_g53 list_domaintree mgr1 (DeleteForwardZone ''default'' ''b.com'') = (mgr2, Returns None None) \<and>
    vm_fwders mgr2 ''default'' = Some t2 \<and> list_content t2 = list_content demo_zones"
proof -
  let ?z = "demo_zone [''192.0.2.1:53'', ''192.0.2.2:53'']"
  have z: "fz_View ?z = ''default''" "fz_Name ?z = ''b.com''" "fz_Forwarders ?z = [''192.0.2.1:53'', ''192.0.2.2:53'']"
    by (simp_all add: demo_zone_def)
  have "Name_Equals ref_g53 [''b'', ''com''] [''B'', ''com'']" by code_simp
  then show ?thesis
    using forward_zone_roundtrip [OF ref_name_laws list_domaintree_laws demo_mgr_ok(1) demo_mgr_ok(2) [of "fz_Forwarders ?z"]
        demo_mgr_ok(3) demo_mgr_ok(4) demo_mgr_ok(5), unfolded z]
    unfolding z by auto
qed

text \<open>A group of no servers.\<close>

lemma forwardOnce_empty:
  assumes "sort_contract srt" "rp_groups repo g = Some (NewFwderGroup (CreateSelector policy []))"
  shows "forwardOnce srt E query g w repo = None \<or> forwardOnce srt E query g w repo = Some (w, repo, Inl ErrAllFwderIsDown)"
proof -
  have srt: "srt k [] = []" for k using sort_contractD(1) [OF assms(1), of k "[]"] by simp
  have same: "repo\<lparr>rp_groups := (rp_groups repo)(g \<mapsto> NewFwderGroup (CreateSelector policy []))\<rparr> = repo"
    using assms(2) by (cases repo) (simp add: fun_upd_idem)
  show ?thesis
  proof (cases policy)
    case roundRobin
    then show ?thesis using assms(2) by (simp add: forwardOnce_def NewFwderGroup_def rr_SelectFwder_def select_from_def)
  qed (use assms(2) same srt in \<open>simp_all add: forwardOnce_def NewFwderGroup_def fix_SelectFwder_def rtt_SelectFwder_def
      sortForwarders_def select_from_def Let_def\<close>)
qed

lemma group_empty_panics:
  assumes "sort_contract srt" "rp_groups repo g = Some (NewFwderGroup (CreateSelector policy []))"
    and "sf_Forward srt E query (GroupFwder g) w repo = Some (w', repo', res)"
  shows "sf_RemoteAddr (GroupFwder g) repo' = None"
proof -
  have "forwardOnce srt E query g w repo = Some (w, repo, Inl ErrAllFwderIsDown)"
    using forwardOnce_empty [OF assms(1,2), of E query w] assms(3) by (auto simp: group_Forward_def maxRetryCount_def numeral_2_eq_2)
  then have "repo' = repo" using assms(3) by (simp add: group_Forward_def maxRetryCount_def numeral_2_eq_2)
  then show ?thesis using assms(2) by (simp add: NewFwderGroup_def group_RemoteAddr_def)
qed

text \<open>
  A zone without servers crashes the queries for it: the command to add a zone with an empty list
  of servers is accepted, and from then on resolving a query for its name panics, with every policy.
\<close>

theorem empty_zone_panics:
  assumes "domaintree_laws G D ct" "sort_contract srt" "repo_ok (vm_repo mgr)" "vm_fwders mgr (fz_View z) = Some t"
    and "NameFromString G (fz_Name z) = Inr n" "absent G (ct t) n" "fz_ForwardStyle z \<noteq> FwderMatchException" "fz_Forwarders z = []"
    and "c_View client = fz_View z" "m_Question (c_Request client) = Some q" "Name_Equals G n (q_Name q)" "c_Response client = None"
  shows "\<exists>mgr1. fwd_HandleCmd G D mgr (AddForwardZone [z]) = (mgr1, Returns None None) \<and>
    fwd_Resolve G Resolve srt D E qs (\<lambda>_. mgr1) put nxt w client = None"
proof -
  define policy where "policy = strToFwdSelectPolicy (fz_ForwardStyle z)"
  define g where "g = rp_fresh (vm_repo mgr)"
  define repo where "repo = (vm_repo mgr)\<lparr>rp_groups := (rp_groups (vm_repo mgr))(g \<mapsto> NewFwderGroup (CreateSelector policy [])), rp_fresh := Suc g\<rparr>"
  define zf where "zf = \<lparr>zf_matchType = matchSubdomain, zf_fwderGroup = GroupFwder g\<rparr>"
  have z: "newZoneForwarder (fz_ForwardStyle z) [] (vm_repo mgr) = (zf, repo)"
    using assms(7) by (simp add: newZoneForwarder_def policy_def g_def repo_def zf_def Let_def)
  obtain t' where t': "dt_Insert D t n zf = Inr t'" "ct t' = insert (n, zf) (ct t)"
    using tree_Insert [OF assms(1,6)] by blast
  define mgr1 where "mgr1 = mgr\<lparr>vm_fwders := (vm_fwders mgr)(fz_View z \<mapsto> t'), vm_repo := repo\<rparr>"
  have add: "fwd_HandleCmd G D mgr (AddForwardZone [z]) = (mgr1, Returns None None)"
    using assms(4,5,8) z t'(1) by (simp add: addZoneFwder_def mgr1_def)
  have get: "GetFwder D (fz_View z) (q_Name q) mgr1 = Some (Some (GroupFwder g))"
    using getFwder_exact [OF assms(1), of n zf t' "q_Name q"] t'(2) assms(11) by (simp add: GetFwder_def mgr1_def zf_def)
  have grp: "rp_groups repo g = Some (NewFwderGroup (CreateSelector policy []))" by (simp add: repo_def)
  have src: "sf_SetQuerySource Resolve ip (GroupFwder g) repo = Some (repo, None)" for ip using grp by (simp add: NewFwderGroup_def)
  have "Option.bind (sf_Forward srt E (c_Request client) (GroupFwder g) w repo) (\<lambda>(w', repo', res).
      Option.bind (sf_RemoteAddr (GroupFwder g) repo') (F w' repo' res)) = None" for F :: "_ \<Rightarrow> _ \<Rightarrow> _ \<Rightarrow> string \<Rightarrow> 'd option"
    using group_empty_panics [OF assms(2) grp, of E "c_Request client" w]
    by (cases "sf_Forward srt E (c_Request client) (GroupFwder g) w repo") (auto simp del: sf_Forward.simps sf_RemoteAddr.simps)
  then have "processRequest Resolve srt D E (qs w) w mgr1 client = None"
    using get src assms(9,10) by (simp add: processRequest_def mgr1_def)
  then show ?thesis using add assms(12) by (simp add: fwd_Resolve_def)
qed

theorem empty_zone_panics_witness:
  "\<exists>mgr1. fwd_HandleCmd ref_g53 list_domaintree demo_mgr (AddForwardZone [demo_zone []]) = (mgr1, Returns None None) \<and>
    fwd_Resolve ref_g53 Inr (\<lambda>k. sort_key k) list_domaintree
      \<lparr>sr_exchange = \<lambda>src addr m w. (w, Inl ''i/o timeout'', 0), sr_GenMessageId = \<lambda>w. 1, sr_Unix = \<lambda>w. 100\<rparr>
      (\<lambda>_. Map.empty) (\<lambda>_. mgr1) (\<lambda>_ w. w) None ()
      (client_reset 0 (UDPAddr [] 0) (UDPAddr [] 0) False (MakeQuery ref_g53 [''b'', ''com''] RR_A)) = None"
proof -
  let ?c = "client_reset 0 (UDPAddr [] 0) (UDPAddr [] 0) False (MakeQuery ref_g53 [''b'', ''com''] RR_A)"
  have c: "c_View ?c = fz_View (demo_zone [])" "c_Response ?c = None" "fz_Forwarders (demo_zone []) = []"
    "m_Question (c_Request ?c) = Some \<lparr>q_Name = [''b'', ''com''], q_Type = RR_A, q_Class = CLASS_IN\<rparr>"
    by (simp_all add: client_reset_def demo_zone_def ref_g53_simps)
  show ?thesis
    by (rule empty_zone_panics [OF list_domaintree_laws sort_contract_insort demo_mgr_ok(1) demo_mgr_ok(2) demo_mgr_ok(3)
        demo_mgr_ok(4) demo_mgr_ok(5) c(3) c(1) c(4) _ c(2)])
      (simp add: Name_Equals_refl [OF ref_name_laws])
qed

end
