(* ===== verification/Stub_Zone.thy ===== *)
theory Stub_Zone
  imports Forwarder_Group Upstream Domain_Tree
begin

text \<open>
  Stub zones, \<open>resolver/stub/\<close>: the masters of zones per view (\<open>stub.go\<close>) and the commands
  (\<open>cmdhandler.go\<close>). The state has the lock of the manager, since one command leaves it locked when it
  panics: a call that waits for a lock that nobody releases has no result. The lemmas show this and
  what a query for a stub zone is answered with.
\<close>

section \<open>State\<close>

definition stub_sendTimeout :: duration where "stub_sendTimeout = 3 * Second"

definition ErrAddStubZoneFailed :: cmd_error where
  "ErrAddStubZoneFailed = NewError StubZoneErrCodeStart ''add stub zone failed''"
definition ErrUpdateStubZoneFailed :: cmd_error where
  "ErrUpdateStubZoneFailed = NewError (StubZoneErrCodeStart + 2) ''update stub zone failed''"

record 't StubZoneManager =
  sz_stubZones :: "view \<rightharpoonup> 't"
  sz_sender :: "SafeUDPSender option"
  sz_locked :: bool

record StubZoneConf =
  szc_Name :: string
  szc_Masters :: "string list"

record StubZoneInView =
  szv_View :: view
  szv_Zones :: "StubZoneConf list"

text \<open>While the configuration is read, a bad name, a refused zone and an unknown view are panics.\<close>

fun stub_load ::
  "'n g53 \<Rightarrow> ('t, 'n, string list) domaintree \<Rightarrow> (view \<times> StubZoneConf) list \<Rightarrow> (view \<rightharpoonup> 't) \<Rightarrow> (view \<rightharpoonup> 't) may_panic" where
  "stub_load G D [] zones = Some zones"
| "stub_load G D ((v, z) # zs) zones =
     (case (NameFromString G (szc_Name z), zones v) of
        (Inr origin, Some t) \<Rightarrow>
          (case dt_Insert D t origin (szc_Masters z) of
             Inl err \<Rightarrow> None
           | Inr t' \<Rightarrow> stub_load G D zs (zones(v \<mapsto> t')))
      | _ \<Rightarrow> None)"

definition stub_ReloadConfig ::
  "'n g53 \<Rightarrow> ('t, 'n, string list) domaintree \<Rightarrow> view list \<Rightarrow> StubZoneInView list \<Rightarrow> 't StubZoneManager \<Rightarrow> 't StubZoneManager may_panic" where
  "stub_ReloadConfig G D views confs z =
     map_option (\<lambda>zones. z\<lparr>sz_stubZones := zones\<rparr>)
       (stub_load G D (concat (map (\<lambda>c. map (Pair (szv_View c)) (szv_Zones c)) confs))
          (\<lambda>v. if v \<in> set views then Some (NewDomainTree D) else None))"

definition NewStubZoneManager ::
  "'n g53 \<Rightarrow> ('t, 'n, string list) domaintree \<Rightarrow> view list \<Rightarrow> StubZoneInView list \<Rightarrow> 't StubZoneManager may_panic" where
  "NewStubZoneManager G D views confs =
     stub_ReloadConfig G D views confs \<lparr>sz_stubZones = Map.empty, sz_sender = None, sz_locked = False\<rparr>"

section \<open>Queries\<close>

text \<open>A locked manager keeps the query waiting. The data of a node that is found are its masters.\<close>

definition getMasters ::
  "('t, 'n, string list) domaintree \<Rightarrow> view \<Rightarrow> 'n \<Rightarrow> 't StubZoneManager \<Rightarrow> string list option may_panic" where
  "getMasters D v name z =
     (if sz_locked z then None
      else case sz_stubZones z v of
             None \<Rightarrow> Some None
           | Some t \<Rightarrow>
               (case dt_Search D t name of
                  (d, NotFound) \<Rightarrow> Some None
                | (None, _) \<Rightarrow> None
                | (Some masters, _) \<Rightarrow> Some (Some masters)))"

text \<open>
  One master is asked alone. Several are asked at once and the first answer counts: \<open>arrivals\<close> are the
  numbers of the masters whose exchange ends before the timeout, in the order of their ends.
\<close>

fun ask_all ::
  "('w, 'n) surroundings \<Rightarrow> string \<Rightarrow> 'n Message \<Rightarrow> string list \<Rightarrow> 'w \<Rightarrow> 'w \<times> (string + 'n Message) list" where
  "ask_all E src request [] w = (w, [])"
| "ask_all E src request (m # ms) w =
     (case sr_exchange E src m request w of
        (w1, res, rtt) \<Rightarrow> (case ask_all E src request ms w1 of (w2, rs) \<Rightarrow> (w2, res # rs)))"

definition first_answer :: "nat list \<Rightarrow> (string + 'n Message) list \<Rightarrow> string + 'n Message" where
  "first_answer arrivals rs =
     (case find (\<lambda>i. i < length rs \<and> \<not> isl (rs ! i)) arrivals of
        Some i \<Rightarrow> rs ! i
      | None \<Rightarrow> Inl ''query timeout'')"

definition stub_handleQuery ::
  "('w, 'n) surroundings \<Rightarrow> ('w \<Rightarrow> nat list) \<Rightarrow> string \<Rightarrow> 'n Message \<Rightarrow> string list \<Rightarrow> 'w \<Rightarrow> 'w \<times> (string + 'n Message)" where
  "stub_handleQuery E arrivals src request masters w =
     (case masters of
        [m] \<Rightarrow> (case sr_exchange E src m request w of (w', res, rtt) \<Rightarrow> (w', res))
      | _ \<Rightarrow> (case ask_all E src request masters w of (w', rs) \<Rightarrow> (w', first_answer (arrivals w') rs)))"

definition stub_failure :: "'n g53 \<Rightarrow> 'n Message \<Rightarrow> 'n Message" where
  "stub_failure G request =
     (let m = Message_MakeResponse G request in m\<lparr>m_Header := (m_Header m)\<lparr>h_Rcode := R_SERVFAIL\<rparr>\<rparr>)"

definition stub_Resolve ::
  "'n g53 \<Rightarrow> (string \<Rightarrow> string + string) \<Rightarrow> ('t, 'n, string list) domaintree \<Rightarrow> ('w, 'n) surroundings \<Rightarrow> ('w \<Rightarrow> nat list)
   \<Rightarrow> ('w \<Rightarrow> QuerySourceManager) \<Rightarrow> ('w \<Rightarrow> 't StubZoneManager) \<Rightarrow> ('t StubZoneManager \<Rightarrow> 'w \<Rightarrow> 'w) \<Rightarrow> ('w, 'n) handler" where
  "stub_Resolve G Resolve D E arrivals qs get put nxt w client =
     (case NewSafeUDPSender Resolve (GetQuerySource (qs w) (c_View client)) stub_sendTimeout of
        Inl err \<Rightarrow> Some (w, client)
      | Inr sender \<Rightarrow>
          (let w1 = put ((get w)\<lparr>sz_sender := Some sender\<rparr>) w in
           Option.bind (case c_Response client of None \<Rightarrow> Some EMPTY | Some r \<Rightarrow> ClassifyResponse G r) (\<lambda>kind.
             if kind = REFERRAL then Some (w1, client)
             else
               Option.bind (m_Question (c_Request client)) (\<lambda>q.
               Option.bind (getMasters D (c_View client) (q_Name q) (get w1)) (\<lambda>found.
                 case found of
                   None \<Rightarrow> PassToNext nxt w1 client
                 | Some masters \<Rightarrow>
                     (case stub_handleQuery E arrivals (us_GetQuerySource (ss_sender sender)) (c_Request client) masters w1 of
                        (w2, res) \<Rightarrow>
                          Some (w2, client\<lparr>c_Response := Some (case res of Inl err \<Rightarrow> stub_failure G (c_Request client) | Inr r \<Rightarrow> r),
                                            c_CacheAnswer := False\<rparr>)))))))"

section \<open>Commands\<close>

text \<open>
  A command that waits for the lock has no result. A view that is not in the map gives a nil tree; the
  model takes a call of a method of a nil tree for a nil pointer dereference.
\<close>

definition addStubZone ::
  "'n g53 \<Rightarrow> ('t, 'n, string list) domaintree \<Rightarrow> view \<Rightarrow> string \<Rightarrow> string list \<Rightarrow> 't StubZoneManager \<Rightarrow> ('t StubZoneManager \<times> unit cmd_outcome) option" where
  "addStubZone G D v name masters z =
     (case NameFromString G name of
        Inl err \<Rightarrow> Some (z, Returns None (Some (AddDetail ErrInvalidName err)))
      | Inr origin \<Rightarrow>
          (case sz_stubZones z v of
             None \<Rightarrow> Some (z, Returns None (Some (AddDetail ErrUnknownView v)))
           | Some t \<Rightarrow>
               if sz_locked z then None
               else (case dt_Insert D t origin masters of
                       Inl err \<Rightarrow> Some (z, Returns None (Some (AddDetail ErrAddStubZoneFailed err)))
                     | Inr t' \<Rightarrow> Some (z\<lparr>sz_stubZones := (sz_stubZones z)(v \<mapsto> t')\<rparr>, Returns None None))))"

text \<open>The lock is released by the last statement, which a panic does not reach.\<close>

definition deleteStubZone ::
  "'n g53 \<Rightarrow> ('t, 'n, string list) domaintree \<Rightarrow> view \<Rightarrow> string \<Rightarrow> 't StubZoneManager \<Rightarrow> ('t StubZoneManager \<times> unit cmd_outcome) option" where
  "deleteStubZone G D v name z =
     (case NameFromString G name of
        Inl err \<Rightarrow> Some (z, Returns None (Some (AddDetail ErrInvalidName err)))
      | Inr origin \<Rightarrow>
          if sz_locked z then None
          else (case sz_stubZones z v of
                  None \<Rightarrow> Some (z\<lparr>sz_locked := True\<rparr>, Panics ''nil pointer dereference'')
                | Some t \<Rightarrow> Some (z\<lparr>sz_stubZones := (sz_stubZones z)(v \<mapsto> dt_Delete D t origin)\<rparr>, Returns None None)))"

text \<open>Here the release is deferred, so that it also happens in a panic.\<close>

definition updateStubZone ::
  "'n g53 \<Rightarrow> ('t, 'n, string list) domaintree \<Rightarrow> view \<Rightarrow> string \<Rightarrow> string list \<Rightarrow> 't StubZoneManager \<Rightarrow> ('t StubZoneManager \<times> unit cmd_outcome) option" where
  "updateStubZone G D v name masters z =
     (case NameFromString G name of
        Inl err \<Rightarrow> Some (z, Returns None (Some (AddDetail ErrInvalidName err)))
      | Inr origin \<Rightarrow>
          if sz_locked z then None
          else (case sz_stubZones z v of
                  None \<Rightarrow> Some (z, Panics ''nil pointer dereference'')
                | Some t \<Rightarrow>
                    (let t1 = dt_Delete D t origin in
                     case dt_Insert D t1 origin masters of
                       Inl err \<Rightarrow> Some (z\<lparr>sz_stubZones := (sz_stubZones z)(v \<mapsto> t1)\<rparr>, Returns None (Some (AddDetail ErrUpdateStubZoneFailed err)))
                     | Inr t2 \<Rightarrow> Some (z\<lparr>sz_stubZones := (sz_stubZones z)(v \<mapsto> t2)\<rparr>, Returns None None))))"

datatype stub_cmd = AddStubZone view string "string list" | DeleteStubZone view string | UpdateStubZone view string "string list"

fun stub_cmd_String :: "stub_cmd \<Rightarrow> string" where
  "stub_cmd_String (AddStubZone v n ms) =
     ''name: add stub zone and params: {name:'' @ n @ '', view:'' @ v @ '', masters:['' @ strings_Join ms '','' @ ''}''"
| "stub_cmd_String (DeleteStubZone v n) = ''name: delete stub zone and params: {name:'' @ n @ '', view:'' @ v @ ''}''"
| "stub_cmd_String (UpdateStubZone v n ms) =
     ''name: update stub zone and params: {name:'' @ n @ '', view:'' @ v @ '', masters:['' @ strings_Join ms '','' @ ''}''"

fun stub_HandleCmd ::
  "'n g53 \<Rightarrow> ('t, 'n, string list) domaintree \<Rightarrow> 't StubZoneManager \<Rightarrow> stub_cmd \<Rightarrow> ('t StubZoneManager \<times> unit cmd_outcome) option" where
  "stub_HandleCmd G D z (AddStubZone v n ms) = addStubZone G D v n ms z"
| "stub_HandleCmd G D z (DeleteStubZone v n) = deleteStubZone G D v n z"
| "stub_HandleCmd G D z (UpdateStubZone v n ms) = updateStubZone G D v n ms z"

section \<open>What happens to a manager\<close>

text \<open>Commands, reloads and queries, which leave a new sender; a call that waits or panics in a reload changes nothing.\<close>

datatype stub_event = StubCmd stub_cmd | StubReload "view list" "StubZoneInView list" | StubSender SafeUDPSender

fun stub_event_run ::
  "'n g53 \<Rightarrow> ('t, 'n, string list) domaintree \<Rightarrow> stub_event \<Rightarrow> 't StubZoneManager \<Rightarrow> 't StubZoneManager" where
  "stub_event_run G D (StubCmd c) z = (case stub_HandleCmd G D z c of None \<Rightarrow> z | Some (z', out) \<Rightarrow> z')"
| "stub_event_run G D (StubReload views confs) z = (case stub_ReloadConfig G D views confs z of None \<Rightarrow> z | Some z' \<Rightarrow> z')"
| "stub_event_run G D (StubSender sender) z = z\<lparr>sz_sender := Some sender\<rparr>"

lemma cmd_keeps_lock: "sz_locked z \<Longrightarrow> stub_HandleCmd G D z c = Some (z', out) \<Longrightarrow> sz_locked z'"
  by (cases c) (auto simp: addStubZone_def deleteStubZone_def updateStubZone_def split: sum.splits option.splits)

lemma event_keeps_lock: "sz_locked z \<Longrightarrow> sz_locked (stub_event_run G D e z)"
  by (cases e) (auto simp: stub_ReloadConfig_def split: option.splits dest: cmd_keeps_lock)

lemma events_keep_lock: "sz_locked z \<Longrightarrow> sz_locked (fold (stub_event_run G D) es z)"
  by (induction es arbitrary: z) (simp_all add: event_keeps_lock)

text \<open>The commands that come to the lock: their zone has a name, and the view of an addition is known.\<close>

fun takes_lock :: "'n g53 \<Rightarrow> 't StubZoneManager \<Rightarrow> stub_cmd \<Rightarrow> bool" where
  "takes_lock G z (AddStubZone v n ms) \<longleftrightarrow> \<not> isl (NameFromString G n) \<and> sz_stubZones z v \<noteq> None"
| "takes_lock G z (DeleteStubZone v n) \<longleftrightarrow> \<not> isl (NameFromString G n)"
| "takes_lock G z (UpdateStubZone v n ms) \<longleftrightarrow> \<not> isl (NameFromString G n)"

lemma locked_waits: "sz_locked z \<Longrightarrow> takes_lock G z c \<Longrightarrow> stub_HandleCmd G D z c = None"
  by (cases c) (auto simp: addStubZone_def deleteStubZone_def updateStubZone_def split: sum.splits)

section \<open>Properties\<close>

text \<open>
  C33. Deleting a zone of an unknown view stops the stub zones for good: the command panics while it
  holds the lock, and the panic is recovered by the command service. After any further commands,
  reloads and queries, a query of any view that comes to the stub zones (its sender can be made and there
  is no referral yet) does not return, and neither does any command that takes the lock: every deletion
  and update of a zone with a readable name, and every addition of one to a known view.
\<close>

theorem stub_delete_unknown_view_blocks:
  assumes "NameFromString G name = Inr origin" "sz_stubZones z v = None" "\<not> sz_locked z"
    and put: "\<And>s w. get (put s w) = s"
  shows "\<exists>z0 p. stub_HandleCmd G D z (DeleteStubZone v name) = Some (z0, Panics p) \<and>
    (\<forall>es z'. z' = fold (stub_event_run G D) es z0 \<longrightarrow>
       (\<forall>w client sender. get w = z' \<longrightarrow>
          NewSafeUDPSender Resolve (GetQuerySource (qs w) (c_View client)) stub_sendTimeout = Inr sender \<longrightarrow>
          (case c_Response client of None \<Rightarrow> Some EMPTY | Some r \<Rightarrow> ClassifyResponse G r) \<noteq> Some REFERRAL \<longrightarrow>
          stub_Resolve G Resolve D E arrivals qs get put nxt w client = None) \<and>
       (\<forall>c. takes_lock G z' c \<longrightarrow> stub_HandleCmd G D z' c = None))"
proof -
  let ?z = "z\<lparr>sz_locked := True\<rparr>"
  have run: "stub_HandleCmd G D z (DeleteStubZone v name) = Some (?z, Panics ''nil pointer dereference'')"
    using assms(1-3) by (simp add: deleteStubZone_def)
  have locked: "sz_locked (fold (stub_event_run G D) es ?z)" for es by (rule events_keep_lock) simp
  have query: "stub_Resolve G Resolve D E arrivals qs get put nxt w client = None"
    if "sz_locked (get w)" "NewSafeUDPSender Resolve (GetQuerySource (qs w) (c_View client)) stub_sendTimeout = Inr sender"
      "(case c_Response client of None \<Rightarrow> Some EMPTY | Some r \<Rightarrow> ClassifyResponse G r) \<noteq> Some REFERRAL" for w client sender
    using that put by (auto simp: stub_Resolve_def getMasters_def Let_def split: Option.bind_splits)
  show ?thesis
    by (rule exI [of _ ?z], rule exI [of _ "''nil pointer dereference''"], intro conjI allI impI)
      (simp_all add: run query locked locked_waits del: stub_HandleCmd.simps)
qed

definition demo_stub :: "(string list \<times> string list) list StubZoneManager" where
  "demo_stub = \<lparr>sz_stubZones = [''default'' \<mapsto> []], sz_sender = None, sz_locked = False\<rparr>"

text \<open>Also after another command and a reload.\<close>

theorem stub_delete_unknown_view_blocks_witness:
  "\<exists>z0 p z'. stub_HandleCmd ref_g53 list_domaintree demo_stub (DeleteStubZone ''v1'' ''a.com'') = Some (z0, Panics p) \<and>
    z' = fold (stub_event_run ref_g53 list_domaintree) [StubCmd (AddStubZone ''default'' ''b.com'' []), StubReload [''default''] []] z0 \<and>
    stub_HandleCmd ref_g53 list_domaintree z' (UpdateStubZone ''default'' ''b.com'' []) = None \<and>
    stub_Resolve ref_g53 Inr list_domaintree
      \<lparr>sr_exchange = \<lambda>src addr m w. (w, Inl ''i/o timeout'', 0), sr_GenMessageId = \<lambda>w. 1, sr_Unix = \<lambda>w. 100\<rparr>
      (\<lambda>_. []) (\<lambda>_. Map.empty) (\<lambda>w. w) (\<lambda>s w. s) None z'
      (client_reset 0 (UDPAddr [] 0) (UDPAddr [] 0) False (MakeQuery ref_g53 [''b'', ''com''] RR_A)) = None"
proof -
  let ?E = "\<lparr>sr_exchange = \<lambda>src addr m w. (w, Inl ''i/o timeout'', 0), sr_GenMessageId = \<lambda>w. 1, sr_Unix = \<lambda>w. 100\<rparr>"
  have n: "NameFromString ref_g53 ''a.com'' = Inr [''a'', ''com'']" by code_simp
  have "sz_stubZones demo_stub ''v1'' = None" "\<not> sz_locked demo_stub" by (simp_all add: demo_stub_def)
  note B = stub_delete_unknown_view_blocks [where get = "\<lambda>w. w" and put = "\<lambda>s w. s" and Resolve = Inr and E = ?E and arrivals = "\<lambda>_. []"
      and qs = "\<lambda>_. Map.empty" and nxt = None and D = list_domaintree, OF n this refl]
  let ?c = "client_reset 0 (UDPAddr [] 0) (UDPAddr [] 0) False (MakeQuery ref_g53 [''b'', ''com''] RR_A)"
  have c: "c_Response ?c = None" by (simp add: client_reset_def)
  have s: "NewSafeUDPSender Inr (GetQuerySource Map.empty (c_View ?c)) stub_sendTimeout =
      Inr \<lparr>ss_sender = \<lparr>us_LocalAddr = None, us_timeout = stub_sendTimeout\<rparr>, ss_renders = [], ss_created = 0\<rparr>"
    by (simp add: NewSafeUDPSender_def NewUDPSender_def setQuerySource_def GetQuerySource_def)
  have t: "\<not> isl (NameFromString ref_g53 ''b.com'')" by code_simp
  have r: "(case c_Response ?c of None \<Rightarrow> Some EMPTY | Some r \<Rightarrow> ClassifyResponse ref_g53 r) \<noteq> Some REFERRAL" by (simp add: c)
  have u: "takes_lock ref_g53 z (UpdateStubZone ''default'' ''b.com'' [])" for z :: "(string list \<times> string list) list StubZoneManager" using t by simp
  show ?thesis using B
  proof (elim exE conjE, goal_cases)
    case (1 z0 p)
    note after = 1(2) [rule_format, OF refl]
    show ?case
      by (intro exI conjI, rule 1(1), rule refl, rule conjunct2 [OF after, rule_format, OF u],
          rule conjunct1 [OF after, rule_format, OF refl s r])
  qed
qed

end
