(* ===== verification/Server.thy ===== *)
theory Server
  imports Core Util
begin

text \<open>
  The server, \<open>server/\<close>: the transport with its count of TCP connections and its pool of UDP buffers
  (\<open>transport.go\<close>), the workers that decode a query, run the chain of handlers and send the response
  (\<open>server.go\<close>), and the commands (\<open>cmdhandler.go\<close>). Sockets are reduced to what arrives on them and
  what is sent. The steps of the server interleave in any order. The lemmas show that the count is the
  number of connections that were not released, and that connections without a response never are.
\<close>

section \<open>Transport\<close>

definition maxConcurrentTCPConn :: int where "maxConcurrentTCPConn = 512"
definition maxQueryLen :: nat where "maxQueryLen = 512"
definition defaultHandlerCount :: nat where "defaultHandlerCount = 1024"

text \<open>A message keeps its whole buffer and the number of bytes that were read into it.\<close>

record srv_message =
  sm_usingTCP :: bool
  sm_addr :: net_addr
  sm_destAddr :: net_addr
  sm_conn :: nat
  sm_buf :: "u8 list"
  sm_len :: nat

record Transport =
  tp_tcpConnCount :: int
  tp_udpBufPool :: BytePool

definition newTransport :: "nat \<Rightarrow> Transport" where
  "newTransport handlerCount = \<lparr>tp_tcpConnCount = 0, tp_udpBufPool = NewBytePool handlerCount maxQueryLen\<rparr>"

text \<open>A connection that is accepted is counted if there are not too many, and closed otherwise.\<close>

definition tcp_accept :: "Transport \<Rightarrow> bool \<times> Transport" where
  "tcp_accept t =
     (if tp_tcpConnCount t < maxConcurrentTCPConn then (True, t\<lparr>tp_tcpConnCount := tp_tcpConnCount t + 1\<rparr>) else (False, t))"

definition releaseConn :: "Transport \<Rightarrow> Transport" where
  "releaseConn t = t\<lparr>tp_tcpConnCount := tp_tcpConnCount t - 1\<rparr>"

definition udp_put :: "u8 list \<Rightarrow> Transport \<Rightarrow> Transport" where
  "udp_put buf t = t\<lparr>tp_udpBufPool := bp_Put (take maxQueryLen buf) (tp_udpBufPool t)\<rparr>"

text \<open>
  A read of a UDP socket: the datagram, cut to the buffer, or an error. A message that does not fit
  into the channel of \<open>cap\<close> messages is dropped.
\<close>

definition udp_receive ::
  "nat \<Rightarrow> net_addr \<Rightarrow> net_addr \<Rightarrow> nat \<Rightarrow> u8 list option \<Rightarrow> srv_message list \<Rightarrow> Transport \<Rightarrow> srv_message list \<times> Transport" where
  "udp_receive cap addr dest conn datagram chan t =
     (case bp_Get (tp_udpBufPool t) of
        (buf, pool) \<Rightarrow>
          (let t1 = t\<lparr>tp_udpBufPool := pool\<rparr> in
           case datagram of
             None \<Rightarrow> (chan, udp_put buf t1)
           | Some d \<Rightarrow>
               (let n = min (length d) (length buf); buf' = take n d @ drop n buf in
                if 0 < n \<and> n < maxQueryLen then
                  (if length chan < cap
                   then (chan @ [\<lparr>sm_usingTCP = False, sm_addr = addr, sm_destAddr = dest, sm_conn = conn, sm_buf = buf', sm_len = n\<rparr>], t1)
                   else (chan, udp_put buf' t1))
                else (chan, udp_put buf' t1))))"

definition FinishQuery :: "srv_message \<Rightarrow> Transport \<Rightarrow> Transport" where
  "FinishQuery q t = (if sm_usingTCP q then t else udp_put (sm_buf q) t)"

text \<open>The response goes to the address of the query; a TCP connection is closed after it.\<close>

definition SendResponse :: "srv_message \<Rightarrow> Transport \<Rightarrow> Transport" where
  "SendResponse q t = (if sm_usingTCP q then releaseConn t else t)"

section \<open>Workers\<close>

text \<open>
  The decoder is part of the wire format. A request that cannot be decoded or has another opcode gets
  no response; \<open>None\<close> is a panic, after which the worker is replaced by a new one.
  What a handler did to the state before it panics is not tracked: the state of the modules is then
  left as it was. The counters of the metrics are not modelled.
\<close>

definition handle_message ::
  "'n g53 \<Rightarrow> 'n wire_lib \<Rightarrow> ('w, 'n) query_fun \<Rightarrow> ('w, 'n) query_fun option \<Rightarrow> instant \<Rightarrow> srv_message \<Rightarrow> 'w
   \<Rightarrow> ('w \<times> 'n Message option) may_panic" where
  "handle_message G W queryHandler xfrHandler now q w =
     (case f_MessageFromWire W (take (sm_len q) (sm_buf q)) of
        Inl err \<Rightarrow> Some (w, None)
      | Inr request \<Rightarrow>
          (let client = client_reset now (sm_addr q) (sm_destAddr q) (sm_usingTCP q) request in
           map_option (\<lambda>(w', client'). (w', map_option (Message_RecalculateSectionRRCount G) (c_Response client')))
             (case (h_Opcode (m_Header request), xfrHandler) of
                (OP_QUERY, _) \<Rightarrow> queryHandler w client
              | (OP_NOTIFY, Some h) \<Rightarrow> h w client
              | _ \<Rightarrow> Some (w, client))))"

definition serve_message ::
  "'n g53 \<Rightarrow> 'n wire_lib \<Rightarrow> ('w, 'n) query_fun \<Rightarrow> ('w, 'n) query_fun option \<Rightarrow> instant \<Rightarrow> srv_message \<Rightarrow> 'w \<Rightarrow> Transport
   \<Rightarrow> 'n Message option \<times> Transport \<times> 'w" where
  "serve_message G W queryHandler xfrHandler now q w t =
     (case handle_message G W queryHandler xfrHandler now q w of
        None \<Rightarrow> (None, t, w)
      | Some (w', None) \<Rightarrow> (None, FinishQuery q t, w')
      | Some (w', Some r) \<Rightarrow> (Some r, FinishQuery q (SendResponse q t), w'))"

section \<open>The server\<close>

text \<open>
  Besides the channel and the transport, the state has the connections whose query is being read and,
  as a record of the run, the connections whose query ended without a response.
\<close>

record 'w Server =
  sv_transport :: Transport
  sv_messageChan :: "srv_message list"
  sv_world :: 'w
  sv_reading :: "nat list"
  sv_unanswered :: "nat list"

definition NewServer :: "nat \<Rightarrow> 'w \<Rightarrow> 'w Server" where
  "NewServer handlerCount w =
     \<lparr>sv_transport = newTransport (if handlerCount = 0 then defaultHandlerCount else handlerCount), sv_messageChan = [],
      sv_world = w, sv_reading = [], sv_unanswered = []\<rparr>"

definition tcp_chan :: "srv_message list \<Rightarrow> nat list" where
  "tcp_chan chan = map sm_conn (filter sm_usingTCP chan)"

inductive server_step ::
  "'n g53 \<Rightarrow> 'n wire_lib \<Rightarrow> ('w, 'n) query_fun \<Rightarrow> ('w, 'n) query_fun option \<Rightarrow> nat \<Rightarrow> 'w Server \<Rightarrow> 'w Server \<Rightarrow> bool"
  for G W qh xh cap where
  accept: "tcp_accept (sv_transport s) = (True, t) \<Longrightarrow>
     server_step G W qh xh cap s (s\<lparr>sv_transport := t, sv_reading := conn # sv_reading s\<rparr>)"
| refuse: "tcp_accept (sv_transport s) = (False, t) \<Longrightarrow> server_step G W qh xh cap s (s\<lparr>sv_transport := t\<rparr>)"
| tcp_read: "sv_reading s = as @ conn # bs \<Longrightarrow> length (sv_messageChan s) < cap \<Longrightarrow>
     server_step G W qh xh cap s
       (s\<lparr>sv_reading := as @ bs,
          sv_messageChan := sv_messageChan s @
            [\<lparr>sm_usingTCP = True, sm_addr = a, sm_destAddr = d, sm_conn = conn, sm_buf = buf, sm_len = length buf\<rparr>]\<rparr>)"
| tcp_error: "sv_reading s = as @ conn # bs \<Longrightarrow>
     server_step G W qh xh cap s (s\<lparr>sv_transport := releaseConn (sv_transport s), sv_reading := as @ bs\<rparr>)"
| udp: "udp_receive cap a d conn datagram (sv_messageChan s) (sv_transport s) = (chan, t) \<Longrightarrow>
     server_step G W qh xh cap s (s\<lparr>sv_messageChan := chan, sv_transport := t\<rparr>)"
| work: "sv_messageChan s = q # chan \<Longrightarrow> serve_message G W qh xh now q (sv_world s) (sv_transport s) = (reply, t, w) \<Longrightarrow>
     server_step G W qh xh cap s
       (s\<lparr>sv_messageChan := chan, sv_transport := t, sv_world := w,
          sv_unanswered := (if sm_usingTCP q \<and> reply = None then [sm_conn q] else []) @ sv_unanswered s\<rparr>)"

section \<open>Commands\<close>

datatype server_cmd = Reconfig | Stop | Ping

fun server_cmd_String :: "server_cmd \<Rightarrow> string" where
  "server_cmd_String Reconfig = ''reconfig''"
| "server_cmd_String Ping = ''ping''"
| "server_cmd_String Stop = ''stop''"

record 'w Control =
  co_workers :: nat
  co_world :: 'w

definition server_stop :: "'w Control \<Rightarrow> 'w Control" where
  "server_stop s = s\<lparr>co_workers := 0\<rparr>"

definition startHandlerRoutine :: "nat \<Rightarrow> 'w Control \<Rightarrow> 'w Control" where
  "startHandlerRoutine handlerCount s = s\<lparr>co_workers := co_workers s + handlerCount\<rparr>"

text \<open>
  The chain is reloaded handler by handler, those that own a configuration; a reload that panics ends
  the command with the state that the earlier ones left.
\<close>

fun reload_chain :: "('w \<Rightarrow> 'w may_panic) option list \<Rightarrow> 'w \<Rightarrow> 'w \<times> bool" where
  "reload_chain [] w = (w, True)"
| "reload_chain (None # hs) w = reload_chain hs w"
| "reload_chain (Some reload # hs) w = (case reload w of None \<Rightarrow> (w, False) | Some w' \<Rightarrow> reload_chain hs w')"

text \<open>\<open>aclReload\<close> is the reload of the access control lists, the first of all.\<close>

fun server_HandleCmd ::
  "nat \<Rightarrow> ('w \<Rightarrow> 'w may_panic) \<Rightarrow> ('w \<Rightarrow> 'w may_panic) option list \<Rightarrow> 'w Control \<Rightarrow> server_cmd \<Rightarrow> 'w Control \<times> unit cmd_outcome" where
  "server_HandleCmd handlerCount aclReload hs s Reconfig =
     (let s1 = server_stop s in
      case reload_chain (Some aclReload # hs) (co_world s1) of
        (w, False) \<Rightarrow> (s1\<lparr>co_world := w\<rparr>, Panics ''reload failed'')
      | (w, True) \<Rightarrow> (startHandlerRoutine handlerCount (s1\<lparr>co_world := w\<rparr>), Returns None None))"
| "server_HandleCmd handlerCount aclReload hs s Stop = (server_stop s, Returns None None)"
| "server_HandleCmd handlerCount aclReload hs s Ping = (s, Returns None None)"

section \<open>Lemmas\<close>

definition conns_counted :: "'w Server \<Rightarrow> bool" where
  "conns_counted s \<longleftrightarrow>
     tp_tcpConnCount (sv_transport s) = int (length (sv_reading s) + length (tcp_chan (sv_messageChan s)) + length (sv_unanswered s))"

lemma udp_put_count [simp]: "tp_tcpConnCount (udp_put buf t) = tp_tcpConnCount t"
  by (simp add: udp_put_def)

lemma udp_receive_conns:
  assumes "udp_receive cap a d conn datagram chan t = (chan', t')"
  shows "tp_tcpConnCount t' = tp_tcpConnCount t \<and> tcp_chan chan' = tcp_chan chan"
  using assms by (auto simp: udp_receive_def tcp_chan_def Let_def split: prod.splits option.splits if_splits)

lemma serve_conns:
  assumes "serve_message G W qh xh now q w t = (reply, t', w')"
  shows "tp_tcpConnCount t' = tp_tcpConnCount t - (if sm_usingTCP q \<and> reply \<noteq> None then 1 else 0)"
  using assms
  by (auto simp: serve_message_def FinishQuery_def SendResponse_def releaseConn_def split: option.splits prod.splits if_splits)

lemma step_counted:
  assumes "server_step G W qh xh cap s s'" "conns_counted s"
  shows "conns_counted s' \<and> length (sv_unanswered s) \<le> length (sv_unanswered s')"
  using assms
proof (induction rule: server_step.induct)
  case (udp a d conn datagram s chan t)
  then show ?case using udp_receive_conns [OF udp.hyps] by (simp add: conns_counted_def)
next
  case (work s q chan now reply t w)
  then show ?case using serve_conns [OF work.hyps(2)] by (auto simp: conns_counted_def tcp_chan_def)
qed (auto simp: conns_counted_def tcp_accept_def releaseConn_def tcp_chan_def split: if_splits)

lemma steps_counted:
  assumes "(server_step G W qh xh cap)\<^sup>*\<^sup>* s s'" "conns_counted s"
  shows "conns_counted s' \<and> length (sv_unanswered s) \<le> length (sv_unanswered s')"
  using assms by (induction rule: rtranclp_induct) (auto dest: step_counted)

lemma NewServer_counted: "conns_counted (NewServer n w)"
  by (simp add: conns_counted_def NewServer_def newTransport_def tcp_chan_def)

section \<open>Properties\<close>

text \<open>
  C28. Connections whose query got no response use up the TCP service: in every run of the server, the
  count of connections is the number of those being read, waiting in the channel, or ended without a
  response (a query that cannot be decoded, has no answer, or makes its worker panic). The last ones
  never leave the count, so that after 512 of them every later connection is refused.
\<close>

theorem tcp_slots_leak:
  assumes "(server_step G W qh xh cap)\<^sup>*\<^sup>* (NewServer n w) s"
  shows "tp_tcpConnCount (sv_transport s) =
      int (length (sv_reading s) + length (tcp_chan (sv_messageChan s)) + length (sv_unanswered s)) \<and>
    (512 \<le> length (sv_unanswered s) \<longrightarrow>
       (\<forall>s'. (server_step G W qh xh cap)\<^sup>*\<^sup>* s s' \<longrightarrow> fst (tcp_accept (sv_transport s')) = False))"
proof -
  have s: "conns_counted s" using steps_counted [OF assms NewServer_counted] by blast
  moreover have "\<not> fst (tcp_accept (sv_transport s'))" if "(server_step G W qh xh cap)\<^sup>*\<^sup>* s s'" "512 \<le> length (sv_unanswered s)" for s'
    using steps_counted [OF that(1) s] that(2) by (simp add: conns_counted_def tcp_accept_def maxConcurrentTCPConn_def)
  ultimately show ?thesis by (simp add: conns_counted_def)
qed

lemma leak_reachable:
  assumes "\<And>b. f_MessageFromWire W b = Inl err" "0 < cap" "n \<le> 512"
  shows "\<exists>s. (server_step G W qh xh cap)\<^sup>*\<^sup>* (NewServer k w) s \<and> sv_reading s = [] \<and> sv_messageChan s = [] \<and> length (sv_unanswered s) = n"
  using assms(3)
proof (induction n)
  case 0
  show ?case by (intro exI [of _ "NewServer k w"]) (simp add: NewServer_def)
next
  case (Suc n)
  then obtain s where s: "(server_step G W qh xh cap)\<^sup>*\<^sup>* (NewServer k w) s" "sv_reading s = []" "sv_messageChan s = []" "length (sv_unanswered s) = n"
    by auto
  let ?t = "(sv_transport s)\<lparr>tp_tcpConnCount := tp_tcpConnCount (sv_transport s) + 1\<rparr>"
  let ?s1 = "s\<lparr>sv_transport := ?t, sv_reading := 0 # sv_reading s\<rparr>"
  let ?q = "\<lparr>sm_usingTCP = True, sm_addr = TCPAddr [] 0, sm_destAddr = TCPAddr [] 0, sm_conn = 0, sm_buf = [], sm_len = length ([] :: u8 list)\<rparr>"
  let ?s2 = "?s1\<lparr>sv_reading := [] @ [], sv_messageChan := sv_messageChan ?s1 @ [?q]\<rparr>"
  let ?s3 = "?s2\<lparr>sv_messageChan := [], sv_transport := ?t, sv_world := sv_world s, sv_unanswered := [0] @ sv_unanswered s\<rparr>"
  have "conns_counted s" using steps_counted [OF s(1) NewServer_counted] by blast
  then have "tcp_accept (sv_transport s) = (True, ?t)"
    using Suc.prems s by (simp add: tcp_accept_def conns_counted_def tcp_chan_def maxConcurrentTCPConn_def)
  then have 1: "server_step G W qh xh cap s ?s1" by (rule accept)
  have 2: "server_step G W qh xh cap ?s1 ?s2" by (rule tcp_read) (use s assms(2) in simp_all)
  have "serve_message G W qh xh 0 ?q (sv_world ?s2) (sv_transport ?s2) = (None, ?t, sv_world s)"
    by (simp add: serve_message_def handle_message_def assms(1) FinishQuery_def)
  then have 3: "server_step G W qh xh cap ?s2 ?s3"
    using work [where s = ?s2 and q = ?q and chan = "[]" and now = 0 and reply = None and t = ?t and w = "sv_world s"
        and G = G and W = W and qh = qh and xh = xh and cap = cap] s(3) by simp
  have "(server_step G W qh xh cap)\<^sup>*\<^sup>* (NewServer k w) ?s3"
    using s(1) 1 2 3 by (meson rtranclp.rtrancl_into_rtrancl)
  then show ?case using s by (intro exI [of _ ?s3]) simp
qed

theorem tcp_slots_leak_witness:
  "\<exists>s. (server_step ref_g53 \<lparr>f_MessageFromWire = \<lambda>b. Inl ''short message'', f_Question_Equals = (=)\<rparr> (\<lambda>w c. None) None 8)\<^sup>*\<^sup>* (NewServer 8 ()) s \<and>
    (\<forall>s'. (server_step ref_g53 \<lparr>f_MessageFromWire = \<lambda>b. Inl ''short message'', f_Question_Equals = (=)\<rparr> (\<lambda>w c. None) None 8)\<^sup>*\<^sup>* s s' \<longrightarrow>
       fst (tcp_accept (sv_transport s')) = False)"
proof -
  let ?W = "\<lparr>f_MessageFromWire = \<lambda>b. Inl ''short message'', f_Question_Equals = (=)\<rparr> :: string list wire_lib"
  obtain s :: "unit Server" where s: "(server_step ref_g53 ?W (\<lambda>w c. None) None 8)\<^sup>*\<^sup>* (NewServer 8 ()) s" "length (sv_unanswered s) = 512"
    using leak_reachable [of ?W "''short message''" 8 512 ref_g53 "\<lambda>w c. None" None 8 "()"] by auto
  then show ?thesis using tcp_slots_leak [OF s(1)] by (intro exI [of _ s]) simp
qed

text \<open>
  A failed reconfiguration stops the service: when the reload of the lists or of any handler
  panics, the command reports the panic, the workers that were stopped before the reload are not
  started again, and only a later reconfiguration that succeeds starts them.
\<close>

theorem bad_reconfig_stops_service:
  assumes "reload_chain (Some aclReload # hs) (co_world s) = (w, False)" "\<forall>c\<in>set cmds. c \<noteq> Reconfig"
  shows "\<exists>p s'. server_HandleCmd n aclReload hs s Reconfig = (s', Panics p) \<and>
    co_workers (fold (\<lambda>c s. fst (server_HandleCmd n aclReload hs s c)) cmds s') = 0"
proof -
  have "co_workers (fold (\<lambda>c s. fst (server_HandleCmd n aclReload hs s c)) cmds s') = 0"
    if "co_workers s' = 0" "\<forall>c\<in>set cmds. c \<noteq> Reconfig" for s' cmds
    using that
  proof (induction cmds arbitrary: s')
    case (Cons c cmds)
    then show ?case by (cases c) (simp_all add: server_stop_def)
  qed simp
  moreover have "server_HandleCmd n aclReload hs s Reconfig = (s\<lparr>co_workers := 0, co_world := w\<rparr>, Panics ''reload failed'')"
    using assms(1) by (simp add: server_stop_def Let_def del: reload_chain.simps)
  ultimately show ?thesis using assms(2) by simp
qed

theorem bad_reconfig_stops_service_witness:
  "\<exists>p s'. server_HandleCmd 8 Some [None, Some (\<lambda>w. None)] \<lparr>co_workers = 8, co_world = ()\<rparr> Reconfig = (s', Panics p) \<and>
    co_workers (fold (\<lambda>c s. fst (server_HandleCmd 8 Some [None, Some (\<lambda>w. None)] s c)) [Ping, Stop, Ping] s') = 0"
  using bad_reconfig_stops_service [of Some "[None, Some (\<lambda>w. None)]" "\<lparr>co_workers = 8, co_world = ()\<rparr>" "()" "[Ping, Stop, Ping]" 8]
  by (simp del: server_HandleCmd.simps)

end
