(* ===== verification/Nsas.thy ===== *)
theory Nsas
  imports Domain_Tree Go_List Go_Time "HOL-Library.Signed_Division"
begin

text \<open>
  The name servers a recursor knows, \<open>resolver/recursor/\<close>: the addresses of a server with their round
  trips (\<open>addressentry.go\<close>, \<open>nameserver.go\<close>), the servers of a zone (\<open>zoneentry.go\<close>), what is learned
  from a response (\<open>dnshelper.go\<close>) and the cache of zones (\<open>nsascache.go\<close>). The cache is a tree of the
  elements of a list in the order of use. Round trips are 64-bit integers. The lemmas show that the
  smoothed round trip stays between the measured ones unless it overflows, which zones a response is
  trusted for, and how many zones the cache keeps.
\<close>

section \<open>Addresses\<close>

text \<open>Arithmetic on 64-bit signed integers wraps; division truncates.\<close>

definition wrap64 :: "int \<Rightarrow> int" where
  "wrap64 x = signed_take_bit 63 x"

definition MaxInt64 :: int where "MaxInt64 = 2 ^ 63 - 1"

record AddressEntry =
  ae_addr :: string
  ae_rtt :: int

definition newAddressEntry :: "string \<Rightarrow> duration \<Rightarrow> AddressEntry" where
  "newAddressEntry addr rtt = \<lparr>ae_addr = addr, ae_rtt = rtt\<rparr>"

definition ae_updateRtt :: "duration \<Rightarrow> AddressEntry \<Rightarrow> AddressEntry" where
  "ae_updateRtt rtt ae = ae\<lparr>ae_rtt := wrap64 (wrap64 (ae_rtt ae * 7) + wrap64 (rtt * 3)) sdiv 10\<rparr>"

definition setUnreachable :: "AddressEntry \<Rightarrow> AddressEntry" where
  "setUnreachable ae = ae_updateRtt MaxInt64 ae"

section \<open>Name servers\<close>

datatype TrustLevel = OutOfZone | FromReferal | FromAuth

fun trust :: "TrustLevel \<Rightarrow> nat" where
  "trust OutOfZone = 0" | "trust FromReferal = 1" | "trust FromAuth = 2"

record 'n NameServer =
  ns_zone :: 'n
  ns_name :: 'n
  ns_addr :: string
  ns_rtt :: duration

record 'n NameServerEntry =
  ne_name :: 'n
  ne_addrEntrys :: "AddressEntry list"
  ne_expireTime :: instant
  ne_trustLevel :: TrustLevel

text \<open>\<open>rnd\<close> gives the random first round trip of an address.\<close>

definition newNameServerEntry ::
  "(string \<Rightarrow> duration) \<Rightarrow> instant \<Rightarrow> 'n \<Rightarrow> duration \<Rightarrow> string list \<Rightarrow> TrustLevel \<Rightarrow> 'n NameServerEntry may_panic" where
  "newNameServerEntry rnd now name ttl addrs trustLevel =
     (if addrs = [] then None
      else Some \<lparr>ne_name = name, ne_addrEntrys = map (\<lambda>a. newAddressEntry a (rnd a)) addrs,
                 ne_expireTime = now + ttl, ne_trustLevel = trustLevel\<rparr>)"

definition ne_isExpired :: "instant \<Rightarrow> 'n NameServerEntry \<Rightarrow> bool" where
  "ne_isExpired now e \<longleftrightarrow> ne_expireTime e < now"

fun least_rtt :: "AddressEntry \<Rightarrow> AddressEntry list \<Rightarrow> AddressEntry" where
  "least_rtt best [] = best"
| "least_rtt best (a # as) = least_rtt (if ae_rtt a < ae_rtt best then a else best) as"

text \<open>An entry without addresses is not made; reading its first address would be a panic.\<close>

definition ne_selectNameServer :: "'n \<Rightarrow> 'n NameServerEntry \<Rightarrow> 'n NameServer may_panic" where
  "ne_selectNameServer zone e =
     (case ne_addrEntrys e of
        [] \<Rightarrow> None
      | a # as \<Rightarrow> (let b = least_rtt a as in
                   Some \<lparr>ns_zone = zone, ns_name = ne_name e, ns_addr = ae_addr b, ns_rtt = ae_rtt b\<rparr>))"

fun update_addr :: "string \<Rightarrow> duration \<Rightarrow> AddressEntry list \<Rightarrow> AddressEntry list" where
  "update_addr addr rtt [] = []"
| "update_addr addr rtt (a # as) =
     (if ae_addr a = addr then ae_updateRtt rtt a # as else a # update_addr addr rtt as)"

definition ne_updateRtt :: "'n NameServer \<Rightarrow> duration \<Rightarrow> 'n NameServerEntry \<Rightarrow> 'n NameServerEntry" where
  "ne_updateRtt server rtt e = e\<lparr>ne_addrEntrys := update_addr (ns_addr server) rtt (ne_addrEntrys e)\<rparr>"

text \<open>The entries are kept by the hashes of their names.\<close>

type_synonym 'n NameServerManager = "u32 \<rightharpoonup> 'n NameServerEntry"

definition nm_addNameServer ::
  "'n g53 \<Rightarrow> (string \<Rightarrow> duration) \<Rightarrow> instant \<Rightarrow> 'n \<Rightarrow> duration \<Rightarrow> string list \<Rightarrow> TrustLevel \<Rightarrow> 'n NameServerManager \<Rightarrow> 'n NameServerManager may_panic" where
  "nm_addNameServer G rnd now name ttl addrs trustLevel m =
     (case newNameServerEntry rnd now name ttl addrs trustLevel of
        None \<Rightarrow> None
      | Some e \<Rightarrow>
          Some (case m (Name_Hash G name) of
                  Some old \<Rightarrow>
                    if \<not> ne_isExpired now old \<and> trust (ne_trustLevel old) \<ge> trust trustLevel then m
                    else m(Name_Hash G name \<mapsto> e)
                | None \<Rightarrow> m(Name_Hash G name \<mapsto> e)))"

definition nm_getNameServer :: "'n g53 \<Rightarrow> 'n \<Rightarrow> 'n NameServerManager \<Rightarrow> 'n NameServerEntry option" where
  "nm_getNameServer G name m =
     (case m (Name_Hash G name) of
        Some e \<Rightarrow> if Name_Equals G (ne_name e) name then Some e else None
      | None \<Rightarrow> None)"

definition errUnknownNameServer :: string where "errUnknownNameServer = ''name server is unknown''"

text \<open>That the address is not one of the server's is not reported.\<close>

definition nm_updateRtt ::
  "'n g53 \<Rightarrow> 'n NameServer \<Rightarrow> duration \<Rightarrow> 'n NameServerManager \<Rightarrow> 'n NameServerManager \<times> string option" where
  "nm_updateRtt G server rtt m =
     (case nm_getNameServer G (ns_name server) m of
        None \<Rightarrow> (m, Some errUnknownNameServer)
      | Some e \<Rightarrow> (m(Name_Hash G (ns_name server) \<mapsto> ne_updateRtt server rtt e), None))"

definition deleteNameServers :: "'n g53 \<Rightarrow> 'n list \<Rightarrow> 'n NameServerManager \<Rightarrow> 'n NameServerManager" where
  "deleteNameServers G names m = fold (\<lambda>n m. m(Name_Hash G n := None)) names m"

section \<open>Zones\<close>

record 'n ZoneEntry =
  ze_zone :: 'n
  ze_nameServers :: "'n list"
  ze_expireTime :: instant
  ze_trustLevel :: TrustLevel

definition ze_isExpired :: "instant \<Rightarrow> 'n ZoneEntry \<Rightarrow> bool" where
  "ze_isExpired now z \<longleftrightarrow> ze_expireTime z < now"

fun select_servers :: "'n g53 \<Rightarrow> instant \<Rightarrow> 'n \<Rightarrow> 'n NameServerManager \<Rightarrow> 'n list \<Rightarrow> 'n NameServer list may_panic" where
  "select_servers G now zone m [] = Some []"
| "select_servers G now zone m (name # names) =
     (case nm_getNameServer G name m of
        None \<Rightarrow> select_servers G now zone m names
      | Some e \<Rightarrow>
          if ne_isExpired now e then select_servers G now zone m names
          else Option.bind (ne_selectNameServer zone e) (\<lambda>s. map_option ((#) s) (select_servers G now zone m names)))"

definition ze_selectNameServer :: "'n g53 \<Rightarrow> instant \<Rightarrow> 'n NameServerManager \<Rightarrow> 'n ZoneEntry \<Rightarrow> 'n NameServer list may_panic" where
  "ze_selectNameServer G now m z = select_servers G now (ze_zone z) m (ze_nameServers z)"

section \<open>Responses\<close>

definition errAuthSectionIsNotValid :: string where
  "errAuthSectionIsNotValid = ''auth section should has one ns rrset''"

text \<open>The addresses that the additional section has for a server, with the TTL of the last set.\<close>

definition valid_glue :: "'n g53 \<Rightarrow> 'n RRset list \<Rightarrow> 'n \<Rightarrow> 'n RRset" where
  "valid_glue G glues name =
     fold (\<lambda>glue r. if rr_Type glue = RR_A \<and> Name_Equals G (rr_Name glue) name
                    then r\<lparr>rr_Rdatas := rr_Rdatas r @ rr_Rdatas glue, rr_Ttl := rr_Ttl glue\<rparr> else r)
       glues \<lparr>rr_Name = name, rr_Type = RR_A, rr_Class = CLASS_IN, rr_Ttl = 0, rr_Rdatas = []\<rparr>"

definition ns_target :: "'n Rdata \<Rightarrow> 'n may_panic" where
  "ns_target d = (case d of RdNS n \<Rightarrow> Some n | _ \<Rightarrow> None)"

text \<open>The zone is not looked at. A message without a question is a panic.\<close>

definition getAuthAndGlues :: "'n g53 \<Rightarrow> 'n \<Rightarrow> 'n Message \<Rightarrow> (string + 'n RRset \<times> 'n RRset list) may_panic" where
  "getAuthAndGlues G zone msg =
     Option.bind (m_Question msg) (\<lambda>q.
       let auth = (if q_Type q = RR_NS \<and> length (m_Answer msg) = 1 then m_Answer msg else m_Auth msg) in
       case auth of
         [nsRRset] \<Rightarrow>
           if rr_Type nsRRset \<noteq> RR_NS then Some (Inl errAuthSectionIsNotValid)
           else map_option (\<lambda>names. Inr (nsRRset, filter (\<lambda>r. rr_Rdatas r \<noteq> []) (map (valid_glue G (m_Additional msg)) names)))
                  (mapM ns_target (rr_Rdatas nsRRset))
       | _ \<Rightarrow> Some (Inl errAuthSectionIsNotValid))"

definition isValidResponse :: "'n Message \<Rightarrow> bool" where
  "isValidResponse msg \<longleftrightarrow> h_Rcode (m_Header msg) = R_NOERROR \<or> h_Rcode (m_Header msg) = R_NXDOMAIN"

definition getARRsetFromAnswer :: "'n g53 \<Rightarrow> 'n Message \<Rightarrow> 'n RRset option" where
  "getARRsetFromAnswer G msg =
     (case (m_Answer msg, m_Question msg) of
        ([r], Some q) \<Rightarrow> if rr_Type r = RR_A \<and> Name_Equals G (rr_Name r) (q_Name q) then Some r else None
      | _ \<Rightarrow> None)"

section \<open>The cache\<close>

definition DefaultMaxCacheSize :: nat where "DefaultMaxCacheSize = 4096"
definition ExpiredZoneCheckBatch :: nat where "ExpiredZoneCheckBatch = 100"

record ('t, 'n) NsasCache =
  nc_zones :: 't
  nc_visitedZone :: "'n ZoneEntry golist"
  nc_nameServers :: "'n NameServerManager"
  nc_maxCacheSize :: nat

definition NewNsasCache :: "('t, 'n, nat) domaintree \<Rightarrow> int \<Rightarrow> ('t, 'n) NsasCache" where
  "NewNsasCache D maxCacheSize =
     \<lparr>nc_zones = NewDomainTree D, nc_visitedZone = list_New, nc_nameServers = Map.empty,
      nc_maxCacheSize = (if maxCacheSize \<le> 0 then DefaultMaxCacheSize else nat maxCacheSize)\<rparr>"

definition seconds_of_ttl :: "u32 \<Rightarrow> duration" where
  "seconds_of_ttl ttl = uint ttl * Second"

definition nc_addNameServer ::
  "'n g53 \<Rightarrow> (string \<Rightarrow> duration) \<Rightarrow> instant \<Rightarrow> 'n RRset \<Rightarrow> TrustLevel \<Rightarrow> ('t, 'n) NsasCache \<Rightarrow> ('t, 'n) NsasCache may_panic" where
  "nc_addNameServer G rnd now glue trustLevel nc =
     map_option (\<lambda>m. nc\<lparr>nc_nameServers := m\<rparr>)
       (nm_addNameServer G rnd now (rr_Name glue) (seconds_of_ttl (rr_Ttl glue))
          (map (\<lambda>d. Rdata_String G d @ '':53'') (rr_Rdatas glue)) trustLevel (nc_nameServers nc))"

definition missing_server :: "'n g53 \<Rightarrow> instant \<Rightarrow> 'n NameServerManager \<Rightarrow> 'n \<Rightarrow> bool" where
  "missing_server G now m name =
     (case nm_getNameServer G name m of None \<Rightarrow> True | Some e \<Rightarrow> ne_isExpired now e \<or> ne_trustLevel e = OutOfZone)"

definition known_server :: "'n g53 \<Rightarrow> instant \<Rightarrow> 'n NameServerManager \<Rightarrow> 'n \<Rightarrow> bool" where
  "known_server G now m name =
     (case nm_getNameServer G name m of None \<Rightarrow> False | Some e \<Rightarrow> \<not> ne_isExpired now e)"

text \<open>
  The first list has the servers to ask for, the second those that can be used. The result of
  \<open>Insert\<close> is not looked at: when the tree refuses the name, it stays as it was.
\<close>

definition add_entry ::
  "('t, 'n, nat) domaintree \<Rightarrow> 'n ZoneEntry \<Rightarrow> ('t, 'n) NsasCache \<Rightarrow> ('t, 'n) NsasCache" where
  "add_entry D z nc =
     (case list_PushFront z (nc_visitedZone nc) of
        (e, l) \<Rightarrow> nc\<lparr>nc_visitedZone := l,
                     nc_zones := (case dt_Insert D (nc_zones nc) (ze_zone z) e of Inl err \<Rightarrow> nc_zones nc | Inr t \<Rightarrow> t)\<rparr>)"

text \<open>The data of an exact match are the element of the zone in the list.\<close>

definition addZone ::
  "'n g53 \<Rightarrow> ('t, 'n, nat) domaintree \<Rightarrow> instant \<Rightarrow> 'n RRset \<Rightarrow> TrustLevel \<Rightarrow> ('t, 'n) NsasCache
   \<Rightarrow> (('n list \<times> 'n list) \<times> ('t, 'n) NsasCache) may_panic" where
  "addZone G D now nsRRset trustLevel nc =
     Option.bind (mapM ns_target (rr_Rdatas nsRRset)) (\<lambda>names.
       let m = nc_nameServers nc;
           z = \<lparr>ze_zone = rr_Name nsRRset, ze_nameServers = names,
                ze_expireTime = now + seconds_of_ttl (rr_Ttl nsRRset), ze_trustLevel = trustLevel\<rparr>;
           added = ((filter (missing_server G now m) names, filter (known_server G now m) names), add_entry D z nc)
       in case dt_Search D (nc_zones nc) (rr_Name nsRRset) of
            (d, ExactMatch) \<Rightarrow>
              Option.bind d (\<lambda>e. Option.bind (elem_value e (nc_visitedZone nc)) (\<lambda>old.
                if \<not> ze_isExpired now old \<and> trust (ze_trustLevel old) > trust trustLevel
                then Some (([], []), nc\<lparr>nc_visitedZone := list_MoveToFront e (nc_visitedZone nc)\<rparr>)
                else Some added))
          | _ \<Rightarrow> Some added)"

fun add_glues ::
  "'n g53 \<Rightarrow> (string \<Rightarrow> duration) \<Rightarrow> instant \<Rightarrow> 'n \<Rightarrow> 'n RRset list \<Rightarrow> ('t, 'n) NsasCache \<Rightarrow> ('t, 'n) NsasCache may_panic" where
  "add_glues G rnd now zone [] nc = Some nc"
| "add_glues G rnd now zone (glue # glues) nc =
     Option.bind (nc_addNameServer G rnd now glue (if Name_IsSubDomain G (rr_Name glue) zone then FromAuth else OutOfZone) nc)
       (add_glues G rnd now zone glues)"

definition AddZoneNameServer ::
  "'n g53 \<Rightarrow> ('t, 'n, nat) domaintree \<Rightarrow> (string \<Rightarrow> duration) \<Rightarrow> instant \<Rightarrow> 'n \<Rightarrow> 'n Message \<Rightarrow> ('t, 'n) NsasCache
   \<Rightarrow> (('n list \<times> 'n list) \<times> ('t, 'n) NsasCache) may_panic" where
  "AddZoneNameServer G D rnd now zone msg nc =
     Option.bind (getAuthAndGlues G zone msg) (\<lambda>r.
       case r of
         Inl err \<Rightarrow> Some (([], []), nc)
       | Inr (nsRRset, glues) \<Rightarrow>
           Option.bind (add_glues G rnd now zone glues nc) (\<lambda>nc1.
             addZone G D now nsRRset (if Header_GetFlag G (m_Header msg) FLAG_AA then FromAuth else FromReferal) nc1))"

text \<open>
  An element is removed only together with the node of its name, so that the elements in the tree are
  in the list; one that is not is a panic in the model.
\<close>

definition removeZone :: "'n g53 \<Rightarrow> ('t, 'n, nat) domaintree \<Rightarrow> nat \<Rightarrow> 'n ZoneEntry \<Rightarrow> ('t, 'n) NsasCache \<Rightarrow> ('t, 'n) NsasCache" where
  "removeZone G D e z nc =
     nc\<lparr>nc_zones := dt_Delete D (nc_zones nc) (ze_zone z), nc_visitedZone := list_Remove e (nc_visitedZone nc),
        nc_nameServers := deleteNameServers G (ze_nameServers z) (nc_nameServers nc)\<rparr>"

lemma list_Len_Remove_less: "elem_value e l = Some z \<Longrightarrow> list_Len (list_Remove e l) < list_Len l"
  by (auto simp: list_defs intro!: length_filter_less dest!: map_of_SomeD)

text \<open>No servers is Go's nil: the caller then uses the root servers.\<close>

function selectNameServers ::
  "'n g53 \<Rightarrow> ('t, 'n, nat) domaintree \<Rightarrow> instant \<Rightarrow> 'n \<Rightarrow> ('t, 'n) NsasCache \<Rightarrow> ('n NameServer list \<times> ('t, 'n) NsasCache) may_panic" where
  "selectNameServers G D now zone nc =
     (case dt_Search D (nc_zones nc) zone of
        (_, NotFound) \<Rightarrow> Some ([], nc)
      | (None, _) \<Rightarrow> None
      | (Some e, _) \<Rightarrow>
          (case elem_value e (nc_visitedZone nc) of
             None \<Rightarrow> None
           | Some z \<Rightarrow>
               if ze_isExpired now z then selectNameServers G D now zone (removeZone G D e z nc)
               else
                 (case ze_selectNameServer G now (nc_nameServers nc) z of
                    None \<Rightarrow> None
                  | Some [] \<Rightarrow> selectNameServers G D now zone (removeZone G D e z nc)
                  | Some (s # ss) \<Rightarrow> Some (s # ss, nc\<lparr>nc_visitedZone := list_MoveToFront e (nc_visitedZone nc)\<rparr>))))"
  by pat_completeness auto
termination selectNameServers
  by (relation "measure (\<lambda>(G, D, now, zone, nc). list_Len (nc_visitedZone nc))")
    (auto simp: removeZone_def list_Len_Remove_less)

declare selectNameServers.simps [simp del]

definition nc_UpdateRtt :: "'n g53 \<Rightarrow> 'n NameServer \<Rightarrow> duration \<Rightarrow> ('t, 'n) NsasCache \<Rightarrow> ('t, 'n) NsasCache \<times> string option" where
  "nc_UpdateRtt G server rtt nc =
     (case nm_updateRtt G server rtt (nc_nameServers nc) of (m, err) \<Rightarrow> (nc\<lparr>nc_nameServers := m\<rparr>, err))"

text \<open>The expired zones among the last ones, from the back; then the last ones, whatever they are.\<close>

fun drop_expired ::
  "'n g53 \<Rightarrow> ('t, 'n, nat) domaintree \<Rightarrow> instant \<Rightarrow> nat \<Rightarrow> nat option \<Rightarrow> ('t, 'n) NsasCache \<Rightarrow> ('t, 'n) NsasCache may_panic" where
  "drop_expired G D now 0 elem nc = Some nc"
| "drop_expired G D now (Suc n) None nc = Some nc"
| "drop_expired G D now (Suc n) (Some e) nc =
     (case elem_value e (nc_visitedZone nc) of
        None \<Rightarrow> None
      | Some z \<Rightarrow>
          (let prev = elem_Prev e (nc_visitedZone nc) in
           drop_expired G D now n prev (if ze_isExpired now z then removeZone G D e z nc else nc)))"

text \<open>The last element of an empty list is nil, whose value cannot be read.\<close>

fun drop_last :: "'n g53 \<Rightarrow> ('t, 'n, nat) domaintree \<Rightarrow> nat \<Rightarrow> ('t, 'n) NsasCache \<Rightarrow> ('t, 'n) NsasCache may_panic" where
  "drop_last G D 0 nc = Some nc"
| "drop_last G D (Suc n) nc =
     Option.bind (list_Back (nc_visitedZone nc)) (\<lambda>e.
     Option.bind (elem_value e (nc_visitedZone nc)) (\<lambda>z. drop_last G D n (removeZone G D e z nc)))"

definition EnforceMemoryLimit ::
  "'n g53 \<Rightarrow> ('t, 'n, nat) domaintree \<Rightarrow> instant \<Rightarrow> ('t, 'n) NsasCache \<Rightarrow> ('t, 'n) NsasCache may_panic" where
  "EnforceMemoryLimit G D now nc =
     (let zoneCount = list_Len (nc_visitedZone nc) in
      if zoneCount \<le> nc_maxCacheSize nc then Some nc
      else Option.bind (drop_expired G D now ExpiredZoneCheckBatch (list_Back (nc_visitedZone nc)) nc)
             (drop_last G D (zoneCount - nc_maxCacheSize nc)))"

section \<open>Lemmas\<close>

lemma wrap64_mod: "wrap64 x = (x + 2 ^ 63) mod 2 ^ 64 - 2 ^ 63"
  by (simp add: wrap64_def signed_take_bit_eq_take_bit_shift take_bit_eq_mod)

lemma wrap64_id: "- (2 ^ 63) \<le> x \<Longrightarrow> x < 2 ^ 63 \<Longrightarrow> wrap64 x = x"
  by (simp add: wrap64_mod)

lemma wrap64_over:
  assumes "2 ^ 63 \<le> x" "x < 2 ^ 64 + 2 ^ 63"
  shows "wrap64 x = x - 2 ^ 64"
proof -
  have "(x + 2 ^ 63) mod 2 ^ 64 = (x + 2 ^ 63 - 2 ^ 64) mod 2 ^ 64" by (rule minus_mod_self2 [symmetric])
  also have "\<dots> = x + 2 ^ 63 - 2 ^ 64" using assms by (intro mod_pos_pos_trivial) simp_all
  finally show ?thesis by (simp add: wrap64_mod)
qed

lemma sdiv10_nonneg: "0 \<le> x \<Longrightarrow> x sdiv 10 = x div (10 :: int)"
  by (simp add: signed_divide_int_def sgn_if)

lemma sdiv10_neg: "x \<le> - 10 \<Longrightarrow> x sdiv (10 :: int) < 0"
  by (simp add: signed_divide_int_def sgn_if)

lemma updateRtt_exact:
  assumes "0 \<le> ae_rtt ae" "ae_rtt ae \<le> 2 ^ 59" "0 \<le> rtt" "rtt \<le> 2 ^ 59"
  shows "ae_rtt (ae_updateRtt rtt ae) = (ae_rtt ae * 7 + rtt * 3) div 10"
proof -
  have "wrap64 (ae_rtt ae * 7) = ae_rtt ae * 7" "wrap64 (rtt * 3) = rtt * 3"
    "wrap64 (ae_rtt ae * 7 + rtt * 3) = ae_rtt ae * 7 + rtt * 3"
    using assms by (simp_all add: wrap64_id)
  then show ?thesis using assms by (simp add: ae_updateRtt_def sdiv10_nonneg)
qed

lemma updateRtt_between:
  assumes "0 \<le> lo" "hi \<le> 2 ^ 59" "lo \<le> ae_rtt ae" "ae_rtt ae \<le> hi" "lo \<le> rtt" "rtt \<le> hi"
  shows "lo \<le> ae_rtt (ae_updateRtt rtt ae) \<and> ae_rtt (ae_updateRtt rtt ae) \<le> hi"
proof -
  have "ae_rtt (ae_updateRtt rtt ae) = (ae_rtt ae * 7 + rtt * 3) div 10"
    using assms by (intro updateRtt_exact) simp_all
  then show ?thesis using assms by linarith
qed

lemma updateRtt_fold:
  assumes "0 \<le> lo" "hi \<le> 2 ^ 59" "lo \<le> ae_rtt ae" "ae_rtt ae \<le> hi" "\<forall>r\<in>set rtts. lo \<le> r \<and> r \<le> hi"
  shows "lo \<le> ae_rtt (fold ae_updateRtt rtts ae) \<and> ae_rtt (fold ae_updateRtt rtts ae) \<le> hi"
  using assms
proof (induction rtts arbitrary: ae)
  case (Cons r rtts)
  then show ?case using updateRtt_between [of lo hi ae r] by simp
qed simp

lemma setUnreachable_negative:
  assumes "1 \<le> ae_rtt ae" "ae_rtt ae \<le> 2 ^ 59"
  shows "ae_rtt (setUnreachable ae) < 0"
proof -
  have "wrap64 (ae_rtt ae * 7) = ae_rtt ae * 7" using assms by (simp add: wrap64_id)
  moreover have "wrap64 (MaxInt64 * 3) = 2 ^ 63 - 3" by (simp add: MaxInt64_def wrap64_mod)
  moreover have "wrap64 (ae_rtt ae * 7 + (2 ^ 63 - 3)) = ae_rtt ae * 7 + (2 ^ 63 - 3) - 2 ^ 64"
    using assms by (intro wrap64_over) simp_all
  ultimately have "ae_rtt (setUnreachable ae) = (ae_rtt ae * 7 + (2 ^ 63 - 3) - 2 ^ 64) sdiv 10"
    by (simp add: setUnreachable_def ae_updateRtt_def)
  also have "\<dots> < 0" using assms by (intro sdiv10_neg) simp
  finally show ?thesis .
qed

text \<open>The cache under its limit.\<close>

lemma prev_addr_in:
  "distinct (map fst xs) \<Longrightarrow> prev_addr e xs = Some p \<Longrightarrow> p \<in> set (map fst xs) \<and> p \<noteq> e"
  by (induction e xs rule: prev_addr.induct) (auto split: if_splits)

lemma elem_Prev_value:
  assumes "list_wf l" "elem_Prev e l = Some p"
  shows "\<exists>v. elem_value p l = Some v" "p \<noteq> e"
proof -
  have "p \<in> set (map fst (elems l)) \<and> p \<noteq> e" using assms by (intro prev_addr_in) (simp_all add: list_wf_def elem_Prev_def)
  then show "\<exists>v. elem_value p l = Some v" "p \<noteq> e" using assms(1) by (auto simp: elem_value_iff)
qed

lemma removeZone_list [simp]:
  "nc_visitedZone (removeZone G D e z nc) = list_Remove e (nc_visitedZone nc)"
  "nc_maxCacheSize (removeZone G D e z nc) = nc_maxCacheSize nc"
  by (simp_all add: removeZone_def)

lemma drop_expired_count:
  assumes "list_wf (nc_visitedZone nc)" "\<And>e. elem = Some e \<Longrightarrow> \<exists>z. elem_value e (nc_visitedZone nc) = Some z"
  shows "\<exists>nc' k. drop_expired G D now n elem nc = Some nc' \<and> k \<le> n \<and> list_wf (nc_visitedZone nc') \<and>
    list_Len (nc_visitedZone nc') + k = list_Len (nc_visitedZone nc)"
  using assms
proof (induction G D now n elem nc rule: drop_expired.induct)
  case (3 G D now n e nc)
  then obtain z where z: "elem_value e (nc_visitedZone nc) = Some z" by blast
  let ?nc = "if ze_isExpired now z then removeZone G D e z nc else nc"
  let ?prev = "elem_Prev e (nc_visitedZone nc)"
  have "list_wf (nc_visitedZone ?nc)" using 3(2) by (simp add: list_wf_Remove)
  moreover have "\<exists>v. elem_value p (nc_visitedZone ?nc) = Some v" if "?prev = Some p" for p
    using elem_Prev_value [OF 3(2) that] by (simp add: elem_value_Remove)
  ultimately obtain nc' k where nc': "drop_expired G D now n ?prev ?nc = Some nc'" "k \<le> n" "list_wf (nc_visitedZone nc')"
    "list_Len (nc_visitedZone nc') + k = list_Len (nc_visitedZone ?nc)"
    using 3(1) [OF z refl] by blast
  have "list_Len (list_Remove e (nc_visitedZone nc)) + 1 = list_Len (nc_visitedZone nc)"
    using list_Len_Remove [OF 3(2) z] by simp
  then have "list_Len (nc_visitedZone nc') + (if ze_isExpired now z then Suc k else k) = list_Len (nc_visitedZone nc)"
    using nc'(4) by (simp split: if_splits)
  moreover have "drop_expired G D now (Suc n) (Some e) nc = Some nc'" using z nc'(1) by (simp add: Let_def)
  ultimately show ?case using nc'(2,3) by (intro exI [of _ nc'] exI [of _ "if ze_isExpired now z then Suc k else k"]) simp
qed auto

lemma drop_last_count:
  assumes "list_wf (nc_visitedZone nc)" "n \<le> list_Len (nc_visitedZone nc)"
  shows "\<exists>nc'. drop_last G D n nc = Some nc' \<and> list_Len (nc_visitedZone nc') + n = list_Len (nc_visitedZone nc)"
  using assms
proof (induction n arbitrary: nc)
  case (Suc n)
  then obtain e where e: "list_Back (nc_visitedZone nc) = Some e"
    by (cases "list_Back (nc_visitedZone nc)") (auto simp: list_Back_None)
  then obtain z where z: "elem_value e (nc_visitedZone nc) = Some z" using list_Back_Some [OF Suc.prems(1)] by blast
  let ?nc = "removeZone G D e z nc"
  have len: "list_Len (nc_visitedZone ?nc) + 1 = list_Len (nc_visitedZone nc)"
    using list_Len_Remove [OF Suc.prems(1) z] by simp
  then obtain nc' where "drop_last G D n ?nc = Some nc'" "list_Len (nc_visitedZone nc') + n = list_Len (nc_visitedZone ?nc)"
    using Suc.IH [of ?nc] Suc.prems by (auto simp: list_wf_Remove)
  then show ?case using e z len by (intro exI [of _ nc']) simp
qed simp

lemma search_new_zone:
  assumes laws: "domaintree_laws G D ct" "search_agrees D" and t': "ct t' = insert (y, e) (ct t)"
    and name: "Name_IsSubDomain G name y" "\<forall>p\<in>ct t. \<not> Name_Equals G (fst p) name \<and> \<not> Name_IsSubDomain G name (fst p)"
  shows "\<exists>r. dt_Search D t' name = (Some e, r) \<and> r \<noteq> NotFound"
proof (cases "Name_Equals G y name")
  case True
  have "\<exists>rest. dt_SearchParents D t' name = (Some e # rest, ExactMatch)"
    using True by (intro tree_Exact [OF laws(1), of y]) (simp_all add: t')
  then show ?thesis using laws(2) unfolding search_agrees_def
    by (metis SearchResult.distinct fst_conv list.sel(1) prod.collapse snd_conv)
next
  case False
  then have abs: "absent G (ct t') name" using name(2) by (simp add: absent_def t')
  have "\<exists>p\<in>ct t'. Name_IsSubDomain G name (fst p)" using name(1) by (simp add: t')
  from tree_Closest [OF laws(1) abs this] obtain ps where
    ps: "dt_SearchParents D t' name = (map (Some \<circ> snd) ps, ClosestEncloser)" "set ps = {p \<in> ct t'. Name_IsSubDomain G name (fst p)}"
    by blast
  have "set ps = {(y, e)}" using ps(2) name by (auto simp: t')
  then obtain qs where "ps = (y, e) # qs" by (cases ps) auto
  then show ?thesis using laws(2) ps(1) unfolding search_agrees_def
    by (metis SearchResult.distinct comp_apply fst_conv list.sel(1) list.simps(9) prod.collapse snd_conv)
qed

lemma getAuthAndGlues_single:
  assumes "name_laws G" "m_Question msg = Some q" "q_Type q \<noteq> RR_NS" "m_Auth msg = [auth]" "rr_Type auth = RR_NS"
    "rr_Rdatas auth = [RdNS ns]" "m_Additional msg = [glue]" "rr_Type glue = RR_A" "rr_Name glue = ns" "rr_Rdatas glue = [d]"
  shows "getAuthAndGlues G zone msg =
    Some (Inr (auth, [\<lparr>rr_Name = ns, rr_Type = RR_A, rr_Class = CLASS_IN, rr_Ttl = rr_Ttl glue, rr_Rdatas = [d]\<rparr>]))"
  using assms by (simp add: getAuthAndGlues_def valid_glue_def ns_target_def Name_Equals_refl)

lemma selectNameServers_found:
  assumes "dt_Search D (nc_zones nc) name = (Some e, r)" "r \<noteq> NotFound" "elem_value e (nc_visitedZone nc) = Some z"
    "\<not> ze_isExpired now z" "ze_selectNameServer G now (nc_nameServers nc) z = Some (s # ss)"
  shows "\<exists>nc'. selectNameServers G D now name nc = Some (s # ss, nc')"
  using assms by (cases r) (simp_all add: selectNameServers.simps [of G D now name nc])

section \<open>Properties\<close>

text \<open>
  C34. A server is believed about zones it has nothing to do with: whatever zone the asked servers
  belong to, a response whose authority section names one server for a zone that the cache does not
  have, with an address for it, makes the cache send every later query at or below that zone, until
  the records expire, to that address, if no zone above the queried name is cached.
\<close>

theorem foreign_zone_accepted:
  assumes laws: "name_laws G" "domaintree_laws G D ct" "search_agrees D"
    and msg: "m_Question msg = Some q" "q_Type q \<noteq> RR_NS" "m_Auth msg = [auth]" "rr_Type auth = RR_NS"
      "rr_Rdatas auth = [RdNS ns]" "m_Additional msg = [glue]" "rr_Type glue = RR_A" "rr_Name glue = ns" "rr_Rdatas glue = [d]"
    and nc: "absent G (ct (nc_zones nc)) (rr_Name auth)" "nc_nameServers nc (Name_Hash G ns) = None"
    and name: "Name_IsSubDomain G name (rr_Name auth)"
      "\<forall>p\<in>ct (nc_zones nc). \<not> Name_Equals G (fst p) name \<and> \<not> Name_IsSubDomain G name (fst p)"
    and later: "later \<le> now + seconds_of_ttl (rr_Ttl auth)" "later \<le> now + seconds_of_ttl (rr_Ttl glue)"
  shows "\<exists>found nc1 server nc2. AddZoneNameServer G D rnd now zone msg nc = Some (found, nc1) \<and>
    selectNameServers G D later name nc1 = Some ([server], nc2) \<and>
    ns_addr server = Rdata_String G d @ '':53'' \<and> ns_zone server = rr_Name auth"
proof -
  let ?addr = "Rdata_String G d @ '':53''"
  let ?tl = "if Name_IsSubDomain G ns zone then FromAuth else OutOfZone"
  let ?e = "\<lparr>ne_name = ns, ne_addrEntrys = [newAddressEntry ?addr (rnd ?addr)],
    ne_expireTime = now + seconds_of_ttl (rr_Ttl glue), ne_trustLevel = ?tl\<rparr>"
  let ?m = "(nc_nameServers nc)(Name_Hash G ns \<mapsto> ?e)"
  let ?nc = "nc\<lparr>nc_nameServers := ?m\<rparr>"
  let ?z = "\<lparr>ze_zone = rr_Name auth, ze_nameServers = [ns], ze_expireTime = now + seconds_of_ttl (rr_Ttl auth),
    ze_trustLevel = (if Header_GetFlag G (m_Header msg) FLAG_AA then FromAuth else FromReferal)\<rparr>"
  let ?nc1 = "add_entry D ?z ?nc"
  let ?server = "\<lparr>ns_zone = rr_Name auth, ns_name = ns, ns_addr = ?addr, ns_rtt = rnd ?addr\<rparr>"
  let ?f = "fresh (nc_visitedZone nc)"
  have "snd (dt_Search D (nc_zones nc) (rr_Name auth)) \<noteq> ExactMatch"
    using tree_not_exact [OF laws(2) nc(1)] laws(3) by (simp add: search_agrees_def)
  then obtain found where add: "AddZoneNameServer G D rnd now zone msg nc = Some (found, ?nc1)"
    using nc(2) msg(5)
    by (cases "dt_Search D (nc_zones nc) (rr_Name auth)"; cases "snd (dt_Search D (nc_zones nc) (rr_Name auth))")
      (simp_all add: AddZoneNameServer_def getAuthAndGlues_single [OF laws(1) msg] nc_addNameServer_def nm_addNameServer_def
        newNameServerEntry_def addZone_def ns_target_def Let_def)
  obtain t' where t': "dt_Insert D (nc_zones nc) (rr_Name auth) ?f = Inr t'" "ct t' = insert (rr_Name auth, ?f) (ct (nc_zones nc))"
    using tree_Insert [OF laws(2) nc(1)] by blast
  have nc1: "nc_zones ?nc1 = t'" "elem_value ?f (nc_visitedZone ?nc1) = Some ?z" "nc_nameServers ?nc1 = ?m"
    by (simp_all add: add_entry_def list_PushFront_def elem_value_def t'(1))
  obtain r where r: "dt_Search D (nc_zones ?nc1) name = (Some ?f, r)" "r \<noteq> NotFound"
    using search_new_zone [OF laws(2,3) t'(2) name] by (auto simp: nc1(1))
  have "ze_selectNameServer G later ?m ?z = Some [?server]"
    using later(2) by (simp add: ze_selectNameServer_def nm_getNameServer_def Name_Equals_refl [OF laws(1)] ne_isExpired_def
        ne_selectNameServer_def newAddressEntry_def)
  then have "ze_selectNameServer G later (nc_nameServers ?nc1) ?z = Some [?server]" unfolding nc1(3) .
  moreover have "\<not> ze_isExpired later ?z" using later(1) by (simp add: ze_isExpired_def)
  ultimately obtain nc2 where sel: "selectNameServers G D later name ?nc1 = Some ([?server], nc2)"
    using selectNameServers_found [OF r nc1(2)] by blast
  show ?thesis by (intro exI conjI, rule add, rule sel) simp_all
qed

definition evil_response :: "string list Message" where
  "evil_response = (MakeQuery ref_g53 [''www'', ''evil'', ''org''] RR_A)
     \<lparr>m_Answer := [\<lparr>rr_Name = [''www'', ''evil'', ''org''], rr_Type = RR_A, rr_Class = CLASS_IN, rr_Ttl = 60, rr_Rdatas = [RdA [6, 6, 6, 6]]\<rparr>],
      m_Auth := [\<lparr>rr_Name = [''bank'', ''com''], rr_Type = RR_NS, rr_Class = CLASS_IN, rr_Ttl = 60, rr_Rdatas = [RdNS [''ns'', ''evil'', ''org'']]\<rparr>],
      m_Additional := [\<lparr>rr_Name = [''ns'', ''evil'', ''org''], rr_Type = RR_A, rr_Class = CLASS_IN, rr_Ttl = 60, rr_Rdatas = [RdA [6, 6, 6, 6]]\<rparr>]\<rparr>"

theorem foreign_zone_accepted_witness:
  "\<exists>found nc1 server nc2. AddZoneNameServer ref_g53 list_domaintree (\<lambda>_. 3) 0 [''evil'', ''org''] evil_response (NewNsasCache list_domaintree 0) = Some (found, nc1) \<and>
    selectNameServers ref_g53 list_domaintree Second [''www'', ''bank'', ''com''] nc1 = Some ([server], nc2) \<and>
    ns_addr server = Rdata_String ref_g53 (RdA [6, 6, 6, 6]) @ '':53'' \<and> ns_zone server = [''bank'', ''com'']"
proof -
  let ?D = "list_domaintree :: ((string list \<times> nat) list, string list, nat) domaintree"
  let ?nc = "NewNsasCache ?D 0"
  have q: "m_Question evil_response = Some \<lparr>q_Name = [''www'', ''evil'', ''org''], q_Type = RR_A, q_Class = CLASS_IN\<rparr>"
    by (simp add: evil_response_def ref_g53_simps)
  have "Name_IsSubDomain ref_g53 [''www'', ''bank'', ''com''] [''bank'', ''com'']" by code_simp
  then show ?thesis
    using foreign_zone_accepted [OF ref_name_laws list_domaintree_laws list_search_agrees q, where zone = "[''evil'', ''org'']"
      and nc = ?nc and name = "[''www'', ''bank'', ''com'']" and later = Second and now = 0 and rnd = "\<lambda>_. 3"
      and auth = "hd (m_Auth evil_response)" and glue = "hd (m_Additional evil_response)" and d = "RdA [6, 6, 6, 6]"]
    by (simp add: tree_New [OF list_domaintree_laws] absent_def evil_response_def rr_types NewNsasCache_def seconds_of_ttl_def Second_def)
qed

text \<open>
  C29. The limit of the cache is kept, and more than kept: when the cache has more zones than its limit,
  of at least the 100 that one check looks at, the check ends without a panic and leaves as many zones
  as the limit less the expired ones it found, since it counts the zones before it removes those;
  otherwise it changes nothing.
\<close>

theorem nsas_limit_enforced:
  assumes "list_wf (nc_visitedZone nc)" "100 \<le> nc_maxCacheSize nc"
  shows "\<exists>nc'. EnforceMemoryLimit G D now nc = Some nc' \<and>
    (if list_Len (nc_visitedZone nc) \<le> nc_maxCacheSize nc then nc' = nc
     else \<exists>nc1 expired. drop_expired G D now 100 (list_Back (nc_visitedZone nc)) nc = Some nc1 \<and>
            expired = list_Len (nc_visitedZone nc) - list_Len (nc_visitedZone nc1) \<and> expired \<le> 100 \<and>
            list_Len (nc_visitedZone nc') = nc_maxCacheSize nc - expired)"
proof (cases "list_Len (nc_visitedZone nc) \<le> nc_maxCacheSize nc")
  case False
  let ?n = "list_Len (nc_visitedZone nc) - nc_maxCacheSize nc"
  obtain nc1 k where nc1: "drop_expired G D now 100 (list_Back (nc_visitedZone nc)) nc = Some nc1" "k \<le> 100"
    "list_wf (nc_visitedZone nc1)" "list_Len (nc_visitedZone nc1) + k = list_Len (nc_visitedZone nc)"
    using drop_expired_count [OF assms(1) list_Back_Some [OF assms(1)]] by blast
  then have "?n \<le> list_Len (nc_visitedZone nc1)" using assms(2) False by linarith
  then obtain nc' where "drop_last G D ?n nc1 = Some nc'" "list_Len (nc_visitedZone nc') + ?n = list_Len (nc_visitedZone nc1)"
    using drop_last_count [OF nc1(3)] by blast
  then show ?thesis using nc1 False assms(2)
    by (intro exI [of _ nc']) (auto simp: EnforceMemoryLimit_def ExpiredZoneCheckBatch_def Let_def)
qed (simp add: EnforceMemoryLimit_def)

definition demo_zone :: "nat \<Rightarrow> string list ZoneEntry" where
  "demo_zone n = \<lparr>ze_zone = replicate n ''a'', ze_nameServers = [], ze_expireTime = 10, ze_trustLevel = FromAuth\<rparr>"

definition demo_cache :: "((string list \<times> nat) list, string list) NsasCache" where
  "demo_cache = (NewNsasCache list_domaintree 100)\<lparr>nc_visitedZone := \<lparr>elems = map (\<lambda>n. (n, demo_zone n)) [0..<101], fresh = 101\<rparr>\<rparr>"

theorem nsas_limit_enforced_witness:
  "\<exists>nc'. EnforceMemoryLimit ref_g53 list_domaintree 20 demo_cache = Some nc' \<and> list_Len (nc_visitedZone nc') \<le> 100"
proof -
  have "list_wf (nc_visitedZone demo_cache)" by (auto simp: demo_cache_def list_wf_def comp_def)
  moreover have "100 \<le> nc_maxCacheSize demo_cache" by (simp add: demo_cache_def NewNsasCache_def)
  moreover have "nc_maxCacheSize demo_cache = 100" "list_Len (nc_visitedZone demo_cache) = 101"
    by (simp_all add: demo_cache_def NewNsasCache_def list_Len_def)
  ultimately show ?thesis using nsas_limit_enforced [of demo_cache ref_g53 list_domaintree 20] by auto
qed

text \<open>
  Round trips are smoothed without overflow: after any sequence of measurements between two bounds,
  of which the upper one is at most 2^59 nanoseconds, the round trip of an address lies between the
  bounds if it did at the start. Marking the address as unreachable, however, overflows and gives a
  negative round trip, the most preferred of all.
\<close>

theorem rtt_between_measurements:
  assumes "1 \<le> lo" "hi \<le> 2 ^ 59" "lo \<le> ae_rtt ae" "ae_rtt ae \<le> hi" "\<forall>r\<in>set rtts. lo \<le> r \<and> r \<le> hi"
  shows "lo \<le> ae_rtt (fold ae_updateRtt rtts ae) \<and> ae_rtt (fold ae_updateRtt rtts ae) \<le> hi \<and>
    ae_rtt (setUnreachable (fold ae_updateRtt rtts ae)) < 0"
proof -
  have "lo \<le> ae_rtt (fold ae_updateRtt rtts ae) \<and> ae_rtt (fold ae_updateRtt rtts ae) \<le> hi"
    using assms by (intro updateRtt_fold) simp_all
  then show ?thesis using assms by (auto intro!: setUnreachable_negative)
qed

theorem rtt_between_measurements_witness:
  "1 \<le> ae_rtt (fold ae_updateRtt [2000000, 15000000000] (newAddressEntry ''192.0.2.1:53'' 7)) \<and>
   ae_rtt (setUnreachable (fold ae_updateRtt [2000000, 15000000000] (newAddressEntry ''192.0.2.1:53'' 7))) < 0"
  using rtt_between_measurements [of 1 15000000000 "newAddressEntry ''192.0.2.1:53'' 7" "[2000000, 15000000000]"]
  by (simp add: newAddressEntry_def)

end
