(* ===== verification/Recursor.thy ===== *)
theory Recursor
  imports Nsas Forwarder_Group Upstream
begin

text \<open>
  The recursor, \<open>resolver/recursor/\<close>: the contexts of running queries (\<open>context.go\<close>), the root servers
  (\<open>roothint.go\<close>) and the iteration from the root to the answer (\<open>recursor.go\<close>). Queries that run at once
  are run one after the other in the model: those for the addresses of missing servers end before the
  query that needs them goes on, and of the parallel queries to several servers the argument
  \<open>arrivals\<close> says which arrive in time and in which order. The options of EDNS are not part of the
  messages: the operations of the library that set and drop them are arguments. The lemmas show that
  the recursion ends and what it returns.
\<close>

section \<open>Contexts\<close>

definition maxQueryDep :: nat where "maxQueryDep = 20"
definition maxInflightQuery :: nat where "maxInflightQuery = 100"
definition singleQueryTimeout :: duration where "singleQueryTimeout = 3 * Second"
definition queryTimeout :: duration where "queryTimeout = 15 * Second"
definition batchQueryCount :: nat where "batchQueryCount = 3"

definition errTooDepQuery :: string where "errTooDepQuery = ''query exceed depth limit''"
definition errInvalidResponse :: string where "errInvalidResponse = ''response is invalid''"
definition errQueryTimeout :: string where "errQueryTimeout = ''query time out''"
definition errDumbNameServer :: string where "errDumbNameServer = ''auth name server is dumb''"

record 'n RecursorCtx =
  cx_sender :: "SafeUDPSender option"
  cx_question :: "'n Question"
  cx_clientAddress :: string
  cx_depth :: nat
  cx_startTime :: instant
  cx_nameServers :: "'n NameServer list"

text \<open>The sender of a context is kept when the source of the queries is the same.\<close>

definition ctx_init ::
  "(string \<Rightarrow> string + string) \<Rightarrow> instant \<Rightarrow> string \<Rightarrow> string \<Rightarrow> 'n Question \<Rightarrow> 'n NameServer list \<Rightarrow> SafeUDPSender option \<Rightarrow> 'n RecursorCtx" where
  "ctx_init Resolve now querySource clientAddress question nameServers sender =
     \<lparr>cx_sender =
        (case sender of
           Some s \<Rightarrow>
             if us_GetQuerySource (ss_sender s) = querySource then Some s
             else (case NewSafeUDPSender Resolve querySource singleQueryTimeout of Inl err \<Rightarrow> None | Inr s' \<Rightarrow> Some s')
         | None \<Rightarrow> (case NewSafeUDPSender Resolve querySource singleQueryTimeout of Inl err \<Rightarrow> None | Inr s' \<Rightarrow> Some s')),
      cx_question = question, cx_clientAddress = clientAddress, cx_depth = 0, cx_startTime = now, cx_nameServers = nameServers\<rparr>"

lemma cx_question_init [simp]: "cx_question (ctx_init Resolve now src addr question servers sender) = question"
  by (simp add: ctx_init_def)

text \<open>
  The pool has a slot per context, empty while the context is in use. All fields of a context but the
  sender are set again when it is taken, so that the sender is what a slot holds.
\<close>

type_synonym RecursorCtxPool = "SafeUDPSender option option list"

definition newRecursorCtxPool :: "nat \<Rightarrow> RecursorCtxPool" where
  "newRecursorCtxPool n = replicate n (Some None)"

fun getCtx :: "RecursorCtxPool \<Rightarrow> (SafeUDPSender option \<times> RecursorCtxPool) option" where
  "getCtx [] = None"
| "getCtx (Some c # p) = Some (c, None # p)"
| "getCtx (None # p) = map_option (\<lambda>(c, p'). (c, None # p')) (getCtx p)"

fun putCtx :: "SafeUDPSender option \<Rightarrow> RecursorCtxPool \<Rightarrow> RecursorCtxPool" where
  "putCtx c [] = []"
| "putCtx c (None # p) = Some c # p"
| "putCtx c (Some x # p) = Some x # putCtx c p"

section \<open>Root servers\<close>

definition errInvalidRootHintZoneName :: string where
  "errInvalidRootHintZoneName = ''root hint zone name should be root''"
definition errUnsupportRRType :: string where
  "errUnsupportRRType = ''only ns and a is supported in root hint''"

text \<open>\<open>parse\<close> is \<open>RRsetFromString\<close>. The first data of an address set are read unchecked.\<close>

fun load_lines :: "'n g53 \<Rightarrow> (string \<Rightarrow> string + 'n RRset) \<Rightarrow> string list \<Rightarrow> (string + 'n NameServer list) may_panic" where
  "load_lines G parse [] = Some (Inr [])"
| "load_lines G parse (l # ls) =
     (let line = TrimRight l [CHR 0x0D, CHR 0x0A, CHR '' ''] in
      if line = [] then load_lines G parse ls
      else (case parse line of
              Inl err \<Rightarrow> Some (Inl (''invalid rr '' @ err))
            | Inr rrset \<Rightarrow>
                if rr_Type rrset = RR_NS then
                  (if Name_Equals G (rr_Name rrset) (Name_Root G) then load_lines G parse ls
                   else Some (Inl errInvalidRootHintZoneName))
                else if rr_Type rrset = RR_A then
                  (case rr_Rdatas rrset of
                     [] \<Rightarrow> None
                   | d # _ \<Rightarrow>
                       map_option (map_sum id ((#) \<lparr>ns_zone = Name_Root G, ns_name = rr_Name rrset,
                           ns_addr = Rdata_String G d @ '':53'', ns_rtt = seconds_of_ttl (rr_Ttl rrset)\<rparr>))
                         (load_lines G parse ls))
                else Some (Inl errUnsupportRRType)))"

definition loadRootServer :: "'n g53 \<Rightarrow> (string \<Rightarrow> string + 'n RRset) \<Rightarrow> string \<Rightarrow> (string + 'n NameServer list) may_panic" where
  "loadRootServer G parse content = load_lines G parse (split_char CHR 0x0A content)"

definition rootServers :: "(string \<times> string) list" where
  "rootServers =
     [(''a.root-servers.net.'', ''198.41.0.4:53''), (''b.root-servers.net.'', ''192.228.79.201:53''),
      (''c.root-servers.net.'', ''192.33.4.12:53''), (''d.root-servers.net.'', ''199.7.91.13:53''),
      (''e.root-servers.net.'', ''192.203.230.10:53''), (''f.root-servers.net.'', ''192.5.5.241:53''),
      (''g.root-servers.net.'', ''192.112.36.4:53''), (''h.root-servers.net.'', ''198.97.190.53:53''),
      (''i.root-servers.net.'', ''192.36.148.17:53''), (''j.root-servers.net.'', ''192.58.128.30:53''),
      (''k.root-servers.net.'', ''193.0.14.129:53''), (''l.root-servers.net.'', ''199.7.83.42:53''),
      (''m.root-servers.net.'', ''202.12.27.33:53'')]"

text \<open>\<open>order\<close> is the order in which the map is visited. The names are well formed.\<close>

definition getDefaultRootServers :: "'n g53 \<Rightarrow> (string \<times> string) list \<Rightarrow> 'n NameServer list may_panic" where
  "getDefaultRootServers G order =
     mapM (\<lambda>(name, addr). case NameFromString G name of
             Inl err \<Rightarrow> None
           | Inr n \<Rightarrow> Some \<lparr>ns_zone = Name_Root G, ns_name = n, ns_addr = addr, ns_rtt = 0\<rparr>) order"

definition cloneNameServers :: "'n NameServer list \<Rightarrow> 'n NameServer list may_panic" where
  "cloneNameServers src = (if src = [] then None else Some src)"

section \<open>Queries to name servers\<close>

text \<open>What is outside the recursor, with what the goroutines depend on.\<close>

record ('w, 'n) rec_env =
  re_net :: "('w, 'n) surroundings"
  re_arrivals :: "'w \<Rightarrow> nat list"
  re_now :: "'w \<Rightarrow> instant"
  re_rnd :: "string \<Rightarrow> duration"
  re_sort :: "('n NameServer \<Rightarrow> int) \<Rightarrow> 'n NameServer list \<Rightarrow> 'n NameServer list"
  re_Resolve :: "string \<Rightarrow> string + string"
  re_AddSubnetV4 :: "string \<Rightarrow> 'n Message \<Rightarrow> 'n Message"
  re_WithoutEdns :: "'n Message \<Rightarrow> 'n Message"

record ('t, 'w, 'n) rec_state =
  rs_cache :: "('t, 'n) NsasCache"
  rs_pool :: RecursorCtxPool
  rs_world :: 'w

definition measured :: "'n g53 \<Rightarrow> 'n NameServer \<Rightarrow> duration \<Rightarrow> 'w \<Rightarrow> ('t, 'w, 'n) rec_state \<Rightarrow> ('t, 'w, 'n) rec_state" where
  "measured G server rtt w s = s\<lparr>rs_cache := fst (nc_UpdateRtt G server rtt (rs_cache s)), rs_world := w\<rparr>"

definition doSingleQuery ::
  "'n g53 \<Rightarrow> ('w, 'n) rec_env \<Rightarrow> SafeUDPSender \<Rightarrow> 'n Message \<Rightarrow> 'n NameServer \<Rightarrow> ('t, 'w, 'n) rec_state
   \<Rightarrow> ('t, 'w, 'n) rec_state \<times> (string + 'n Message)" where
  "doSingleQuery G E sender request server s =
     (let src = us_GetQuerySource (ss_sender sender) in
      case sr_exchange (re_net E) src (ns_addr server) request (rs_world s) of
        (w1, Inl err, rtt) \<Rightarrow> (measured G server rtt w1 s, Inl err)
      | (w1, Inr response, rtt) \<Rightarrow>
          if h_Rcode (m_Header response) = R_FORMERR then
            (case sr_exchange (re_net E) src (ns_addr server)
                    (Message_RecalculateSectionRRCount G (re_WithoutEdns E request)) w1 of
               (w2, res, rtt2) \<Rightarrow> (measured G server rtt2 w2 s, res))
          else if \<not> isValidResponse response then (measured G server queryTimeout w1 s, Inl errDumbNameServer)
          else (measured G server rtt w1 s, Inr response))"

fun do_queries ::
  "'n g53 \<Rightarrow> ('w, 'n) rec_env \<Rightarrow> SafeUDPSender \<Rightarrow> 'n Message \<Rightarrow> 'n NameServer list \<Rightarrow> ('t, 'w, 'n) rec_state
   \<Rightarrow> ('t, 'w, 'n) rec_state \<times> (string + 'n Message) list" where
  "do_queries G E sender request [] s = (s, [])"
| "do_queries G E sender request (server # servers) s =
     (case doSingleQuery G E sender request server s of
        (s1, r) \<Rightarrow> (case do_queries G E sender request servers s1 of (s2, rs) \<Rightarrow> (s2, r # rs)))"

text \<open>More than three servers are sorted in place; the caller sees them in the new order.\<close>

definition by_rtt :: "('w, 'n) rec_env \<Rightarrow> 'n NameServer list \<Rightarrow> 'n NameServer list" where
  "by_rtt E servers = (if length servers > batchQueryCount then re_sort E ns_rtt servers else servers)"

definition doQuery ::
  "'n g53 \<Rightarrow> ('w, 'n) rec_env \<Rightarrow> SafeUDPSender \<Rightarrow> 'n NameServer list \<Rightarrow> 'n Message \<Rightarrow> ('t, 'w, 'n) rec_state
   \<Rightarrow> ('t, 'w, 'n) rec_state \<times> (string + 'n Message)" where
  "doQuery G E sender servers request s =
     (case servers of
        [server] \<Rightarrow> doSingleQuery G E sender request server s
      | _ \<Rightarrow>
          (case do_queries G E sender request (take batchQueryCount (by_rtt E servers)) s of
             (s', rs) \<Rightarrow>
               (s', case find (\<lambda>i. i < length rs \<and> \<not> isl (rs ! i)) (re_arrivals E (rs_world s')) of
                      Some i \<Rightarrow> rs ! i
                    | None \<Rightarrow> Inl errQueryTimeout)))"

section \<open>The iteration\<close>

text \<open>
  The functions that continue with \<open>handleQuery\<close> have it as an argument, \<open>hq\<close>; a result is the state
  and the error or response, or a panic.
\<close>

type_synonym ('t, 'w, 'n) query_run =
  "'n RecursorCtx \<Rightarrow> ('t, 'w, 'n) rec_state \<Rightarrow> (('t, 'w, 'n) rec_state \<times> (string + 'n Message)) may_panic"

definition missing_run ::
  "'n g53 \<Rightarrow> ('w, 'n) rec_env \<Rightarrow> ('t, 'w, 'n) query_run \<Rightarrow> 'n RecursorCtx \<Rightarrow> ('t, 'w, 'n) rec_state \<Rightarrow> ('t, 'w, 'n) rec_state may_panic" where
  "missing_run G E hq ctx s =
     Option.bind (hq ctx s) (\<lambda>(s1, r).
       map_option (\<lambda>s2. s2\<lparr>rs_pool := putCtx (cx_sender ctx) (rs_pool s2)\<rparr>)
         (case r of
            Inl err \<Rightarrow> Some s1
          | Inr response \<Rightarrow>
              (case getARRsetFromAnswer G response of
                 None \<Rightarrow> Some s1
               | Some glue \<Rightarrow>
                   map_option (\<lambda>nc. s1\<lparr>rs_cache := nc\<rparr>)
                     (nc_addNameServer G (re_rnd E) (re_now E (rs_world s1)) glue FromAuth (rs_cache s1)))))"

fun getMissingNameServer ::
  "'n g53 \<Rightarrow> ('w, 'n) rec_env \<Rightarrow> ('t, 'w, 'n) query_run \<Rightarrow> 'n RecursorCtx \<Rightarrow> 'n list \<Rightarrow> ('t, 'w, 'n) rec_state \<Rightarrow> ('t, 'w, 'n) rec_state may_panic" where
  "getMissingNameServer G E hq ctx [] s = Some s"
| "getMissingNameServer G E hq ctx (name # names) s =
     (case getCtx (rs_pool s) of
        None \<Rightarrow> getMissingNameServer G E hq ctx names s
      | Some (c, pool) \<Rightarrow>
          Option.bind (cx_sender ctx) (\<lambda>sender.
          Option.bind (cloneNameServers (cx_nameServers ctx)) (\<lambda>roots.
          Option.bind
            (missing_run G E hq
               ((ctx_init (re_Resolve E) (re_now E (rs_world s)) (us_GetQuerySource (ss_sender sender)) (cx_clientAddress ctx)
                   \<lparr>q_Name = name, q_Type = RR_A, q_Class = CLASS_IN\<rparr> roots c)\<lparr>cx_depth := cx_depth ctx\<rparr>)
               (s\<lparr>rs_pool := pool\<rparr>))
            (getMissingNameServer G E hq ctx names))))"

definition rec_handleReferal ::
  "'n g53 \<Rightarrow> ('t, 'n, nat) domaintree \<Rightarrow> ('w, 'n) rec_env \<Rightarrow> ('t, 'w, 'n) query_run \<Rightarrow> 'n RecursorCtx \<Rightarrow> 'n \<Rightarrow> 'n Message
   \<Rightarrow> ('t, 'w, 'n) rec_state \<Rightarrow> (('t, 'w, 'n) rec_state \<times> (string + 'n Message)) may_panic" where
  "rec_handleReferal G D E hq ctx zone response s =
     Option.bind (AddZoneNameServer G D (re_rnd E) (re_now E (rs_world s)) zone response (rs_cache s)) (\<lambda>((missing, known), nc).
     Option.bind (getMissingNameServer G E hq ctx missing (s\<lparr>rs_cache := nc\<rparr>)) (hq ctx))"

definition handleFinalAnswer ::
  "'n g53 \<Rightarrow> ('t, 'n, nat) domaintree \<Rightarrow> ('w, 'n) rec_env \<Rightarrow> 'n RecursorCtx \<Rightarrow> 'n \<Rightarrow> 'n Message
   \<Rightarrow> ('t, 'w, 'n) rec_state \<Rightarrow> (('t, 'w, 'n) rec_state \<times> (string + 'n Message)) may_panic" where
  "handleFinalAnswer G D E ctx zone response s =
     map_option (\<lambda>(found, nc). (s\<lparr>rs_cache := nc\<rparr>, Inr (response\<lparr>m_Question := Some (cx_question ctx)\<rparr>)))
       (AddZoneNameServer G D (re_rnd E) (re_now E (rs_world s)) zone response (rs_cache s))"

definition rec_handleResponse ::
  "'n g53 \<Rightarrow> ('t, 'n, nat) domaintree \<Rightarrow> ('w, 'n) rec_env \<Rightarrow> ('t, 'w, 'n) query_run \<Rightarrow> 'n RecursorCtx \<Rightarrow> 'n \<Rightarrow> 'n Message
   \<Rightarrow> ('t, 'w, 'n) rec_state \<Rightarrow> (('t, 'w, 'n) rec_state \<times> (string + 'n Message)) may_panic" where
  "rec_handleResponse G D E hq ctx zone response s =
     Option.bind (ClassifyResponse G response) (\<lambda>kind.
       if kind = ANSWER \<or> kind = NXDOMAIN \<or> kind = NXRRSET then handleFinalAnswer G D E ctx zone response s
       else if kind = REFERRAL then rec_handleReferal G D E hq ctx zone response s
       else Some (s, Inl errInvalidResponse))"

text \<open>
  The continuation is used only on contexts of the same depth, which is why the recursion ends: the
  depth is counted up to its limit.
\<close>

lemma missing_cong:
  assumes "\<And>c s. cx_depth c = cx_depth ctx \<Longrightarrow> hq c s = hq' c s"
  shows "getMissingNameServer G E hq ctx names s = getMissingNameServer G E hq' ctx names s"
proof (induction names arbitrary: s)
  case (Cons name names)
  have "missing_run G E hq c s = missing_run G E hq' c s" if "cx_depth c = cx_depth ctx" for c s
    by (simp add: missing_run_def assms [OF that])
  moreover have "getMissingNameServer G E hq ctx names = getMissingNameServer G E hq' ctx names" by (rule ext) (rule Cons.IH)
  ultimately show ?case by (simp split: option.split prod.split)
qed simp

lemma handleResponse_cong [fundef_cong]:
  assumes "G = G'" "D = D'" "E = E'" "ctx = ctx'" "zone = zone'" "response = response'" "s = s'"
    and "\<And>c s. cx_depth c = cx_depth ctx' \<Longrightarrow> hq c s = hq' c s"
  shows "rec_handleResponse G D E hq ctx zone response s = rec_handleResponse G' D' E' hq' ctx' zone' response' s'"
proof -
  have "hq ctx' = hq' ctx'" by (rule ext) (simp add: assms(8))
  moreover have "getMissingNameServer G' E' hq ctx' = getMissingNameServer G' E' hq' ctx'"
    by (intro ext missing_cong assms(8))
  ultimately have "rec_handleReferal G' D' E' hq ctx' zone' response' s' = rec_handleReferal G' D' E' hq' ctx' zone' response' s'"
    by (simp add: rec_handleReferal_def)
  then show ?thesis unfolding assms(1-7) rec_handleResponse_def by (rule arg_cong)
qed

definition rec_request :: "'n g53 \<Rightarrow> ('w, 'n) rec_env \<Rightarrow> 'n RecursorCtx \<Rightarrow> 'n Message" where
  "rec_request G E ctx =
     (let m = re_AddSubnetV4 E (cx_clientAddress ctx) (MakeQuery G (q_Name (cx_question ctx)) (q_Type (cx_question ctx))) in
      Message_RecalculateSectionRRCount G (m\<lparr>m_Header := Header_SetFlag G FLAG_RD False (m_Header m)\<rparr>))"

text \<open>
  A sender that could not be made is nil, which is a panic. The servers of the context are sorted in
  place when they are the ones asked. The zone of the first server stands for all of them; there is
  one when a response came.
\<close>

function rec_handleQuery ::
  "'n g53 \<Rightarrow> ('t, 'n, nat) domaintree \<Rightarrow> ('w, 'n) rec_env \<Rightarrow> ('t, 'w, 'n) query_run" where
  "rec_handleQuery G D E ctx0 s =
     (let ctx = ctx0\<lparr>cx_depth := cx_depth ctx0 + 1\<rparr>; now = re_now E (rs_world s) in
      if cx_depth ctx0 + 1 \<ge> maxQueryDep \<or> (cx_depth ctx0 + 1 > 1 \<and> time_Sub now (cx_startTime ctx0) > queryTimeout)
      then Some (s, Inl errTooDepQuery)
      else
        (case selectNameServers G D now (q_Name (cx_question ctx0)) (rs_cache s) of
           None \<Rightarrow> None
         | Some (found, nc) \<Rightarrow>
             (case cx_sender ctx0 of
                None \<Rightarrow> None
              | Some sender \<Rightarrow>
                  (let servers = (if found = [] then cx_nameServers ctx0 else found);
                       ctx1 = (if found = [] then ctx\<lparr>cx_nameServers := by_rtt E servers\<rparr> else ctx)
                   in case doQuery G E sender servers (rec_request G E ctx0) (s\<lparr>rs_cache := nc\<rparr>) of
                        (s1, Inl err) \<Rightarrow> rec_handleQuery G D E ctx1 s1
                      | (s1, Inr response) \<Rightarrow>
                          (case by_rtt E servers of
                             [] \<Rightarrow> None
                           | server # _ \<Rightarrow>
                               rec_handleResponse G D E (rec_handleQuery G D E) ctx1 (ns_zone server) response s1)))))"
  by pat_completeness auto
termination rec_handleQuery
  by (relation "measure (\<lambda>(G, D, E, ctx, s). maxQueryDep - cx_depth ctx)") (auto simp: maxQueryDep_def)

declare rec_handleQuery.simps [simp del]

section \<open>The resolver\<close>

record ('t, 'n) Recursor =
  rc_nsasCache :: "('t, 'n) NsasCache"
  rc_ednsSubnetEnable :: "view \<rightharpoonup> bool"
  rc_resolverEnable :: "view \<rightharpoonup> bool"
  rc_rootForView :: "view \<rightharpoonup> 'n NameServer list"
  rc_ctxPool :: RecursorCtxPool

record RecursorInView =
  rv_Enable :: bool
  rv_View :: view
  rv_RootHintFile :: string
  rv_EdnsSubnetEnable :: bool

text \<open>\<open>read\<close> is the content of a file; a file that cannot be read or parsed is a panic.\<close>

fun load_hints ::
  "'n g53 \<Rightarrow> (string \<Rightarrow> string + 'n RRset) \<Rightarrow> (string \<Rightarrow> string option) \<Rightarrow> RecursorInView list
   \<Rightarrow> (view \<rightharpoonup> 'n NameServer list) \<Rightarrow> (view \<rightharpoonup> 'n NameServer list) may_panic" where
  "load_hints G parse read [] roots = Some roots"
| "load_hints G parse read (c # cs) roots =
     (if rv_RootHintFile c = [] then load_hints G parse read cs roots
      else Option.bind (read (rv_RootHintFile c)) (\<lambda>content.
           Option.bind (loadRootServer G parse content) (\<lambda>r.
             case r of Inl err \<Rightarrow> None | Inr servers \<Rightarrow> load_hints G parse read cs (roots(rv_View c \<mapsto> servers)))))"

definition rec_ReloadConfig ::
  "'n g53 \<Rightarrow> ('t, 'n, nat) domaintree \<Rightarrow> (string \<Rightarrow> string + 'n RRset) \<Rightarrow> (string \<Rightarrow> string option) \<Rightarrow> (string \<times> string) list
   \<Rightarrow> view list \<Rightarrow> RecursorInView list \<Rightarrow> ('t, 'n) Recursor \<Rightarrow> ('t, 'n) Recursor may_panic" where
  "rec_ReloadConfig G D parse read order views confs r =
     Option.bind (load_hints G parse read confs Map.empty) (\<lambda>roots.
     Option.bind (getDefaultRootServers G order) (\<lambda>dflt.
       Some (r\<lparr>rc_ednsSubnetEnable := map_of (rev (map (\<lambda>c. (rv_View c, rv_EdnsSubnetEnable c)) confs)),
               rc_rootForView := (\<lambda>v. if roots v = None \<and> v \<in> set views then Some dflt else roots v),
               rc_resolverEnable := map_of (rev (map (\<lambda>c. (rv_View c, rv_Enable c)) confs)),
               rc_nsasCache := NewNsasCache D 0\<rparr>)))"

definition NewRecursor ::
  "'n g53 \<Rightarrow> ('t, 'n, nat) domaintree \<Rightarrow> (string \<Rightarrow> string + 'n RRset) \<Rightarrow> (string \<Rightarrow> string option) \<Rightarrow> (string \<times> string) list
   \<Rightarrow> view list \<Rightarrow> RecursorInView list \<Rightarrow> ('t, 'n) Recursor may_panic" where
  "NewRecursor G D parse read order views confs =
     rec_ReloadConfig G D parse read order views confs
       \<lparr>rc_nsasCache = NewNsasCache D 0, rc_ednsSubnetEnable = Map.empty, rc_resolverEnable = Map.empty, rc_rootForView = Map.empty,
        rc_ctxPool = newRecursorCtxPool maxInflightQuery\<rparr>"

text \<open>A view that is not known, and one whose hint file has no address, are panics.\<close>

definition getRootServers :: "view \<Rightarrow> ('t, 'n) Recursor \<Rightarrow> 'n NameServer list may_panic" where
  "getRootServers v r = Option.bind (rc_rootForView r v) cloneNameServers"

definition host_port :: "ip \<Rightarrow> int \<Rightarrow> string" where
  "host_port a p =
     (if a = [] then [] else if To4 a = None then ''['' @ ip_String a @ '']'' else ip_String a) @ '':'' @ Itoa_nat (nat p)"

fun addr_String :: "net_addr \<Rightarrow> string" where
  "addr_String (TCPAddr a p) = host_port a p"
| "addr_String (UDPAddr a p) = host_port a p"

definition run_query ::
  "'n g53 \<Rightarrow> ('t, 'n, nat) domaintree \<Rightarrow> ('w, 'n) rec_env \<Rightarrow> 'n Client \<Rightarrow> ('t, 'w, 'n) query_run" where
  "run_query G D E client ctx s =
     (case c_Response client of
        None \<Rightarrow> rec_handleQuery G D E ctx s
      | Some resp \<Rightarrow>
          Option.bind (ClassifyResponse G resp) (\<lambda>kind.
            if kind = REFERRAL then rec_handleReferal G D E (rec_handleQuery G D E) ctx (Name_Root G) resp s
            else rec_handleQuery G D E ctx s))"

text \<open>Without a free context the query is left as it is.\<close>

definition rec_resolver ::
  "'n g53 \<Rightarrow> ('t, 'n, nat) domaintree \<Rightarrow> ('w, 'n) rec_env \<Rightarrow> ('w \<Rightarrow> QuerySourceManager) \<Rightarrow> ('w \<Rightarrow> ('t, 'n) Recursor)
   \<Rightarrow> (('t, 'n) Recursor \<Rightarrow> 'w \<Rightarrow> 'w) \<Rightarrow> ('w, 'n) query_fun" where
  "rec_resolver G D E qs get put w client =
     (let r = get w in
      case getCtx (rc_ctxPool r) of
        None \<Rightarrow> Some (w, client)
      | Some (c, pool) \<Rightarrow>
          Option.bind (m_Question (c_Request client)) (\<lambda>q.
          Option.bind (getRootServers (c_View client) r) (\<lambda>roots.
            let clientAddress = (if rc_ednsSubnetEnable r (c_View client) = Some True then addr_String (c_Addr client) else []);
                ctx = ctx_init (re_Resolve E) (re_now E w) (GetQuerySource (qs w) (c_View client)) clientAddress q roots c
            in map_option
                 (\<lambda>(s, res).
                    (put (r\<lparr>rc_nsasCache := rs_cache s, rc_ctxPool := putCtx (cx_sender ctx) (rs_pool s)\<rparr>) (rs_world s),
                     case res of
                       Inl err \<Rightarrow> client
                     | Inr m \<Rightarrow> client\<lparr>c_Response := Some (with_id (h_Id (m_Header (c_Request client))) m)\<rparr>))
                 (run_query G D E client ctx \<lparr>rs_cache = rc_nsasCache r, rs_pool = pool, rs_world = w\<rparr>))))"

definition set_RA :: "'n g53 \<Rightarrow> 'n Client \<Rightarrow> 'n Client" where
  "set_RA G client =
     client\<lparr>c_Response := map_option (\<lambda>m. m\<lparr>m_Header := Header_SetFlag G FLAG_RA True (m_Header m)\<rparr>) (c_Response client)\<rparr>"

definition rec_Resolve ::
  "'n g53 \<Rightarrow> ('t, 'n, nat) domaintree \<Rightarrow> ('w, 'n) rec_env \<Rightarrow> ('w \<Rightarrow> QuerySourceManager) \<Rightarrow> ('w \<Rightarrow> ('t, 'n) Recursor)
   \<Rightarrow> (('t, 'n) Recursor \<Rightarrow> 'w \<Rightarrow> 'w) \<Rightarrow> ('w, 'n) handler" where
  "rec_Resolve G D E qs get put nxt w client =
     Option.bind
       (if rc_resolverEnable (get w) (c_View client) = Some True
        then map_option (\<lambda>(w', c). (w', set_RA G c)) (rec_resolver G D E qs get put w client) else Some (w, client))
       (\<lambda>(w', c). if c_Response c = None then PassToNext nxt w' c else Some (w', c))"

section \<open>Lemmas\<close>

text \<open>What comes from a server: a message that an exchange returned.\<close>

definition received :: "('w, 'n) rec_env \<Rightarrow> 'n Message \<Rightarrow> bool" where
  "received E m \<longleftrightarrow> (\<exists>src addr req w w' rtt. sr_exchange (re_net E) src addr req w = (w', Inr m, rtt))"

definition final_answer :: "'n g53 \<Rightarrow> ('w, 'n) rec_env \<Rightarrow> 'n Question \<Rightarrow> 'n Message \<Rightarrow> bool" where
  "final_answer G E q r \<longleftrightarrow>
     (\<exists>r0. received E r0 \<and> ClassifyResponse G r0 \<in> {Some ANSWER, Some NXDOMAIN, Some NXRRSET} \<and> r = r0\<lparr>m_Question := Some q\<rparr>)"

lemma receivedI: "sr_exchange (re_net E) src addr req w = (w', Inr m, rtt) \<Longrightarrow> received E m"
  unfolding received_def by blast

lemma doSingleQuery_received: "doSingleQuery G E sender request server s = (s', Inr r) \<Longrightarrow> received E r"
  unfolding doSingleQuery_def by (auto simp: Let_def split: prod.splits sum.splits if_splits intro: receivedI)

lemma do_queries_received: "do_queries G E sender request servers s = (s', rs) \<Longrightarrow> Inr r \<in> set rs \<Longrightarrow> received E r"
proof (induction servers arbitrary: s s' rs)
  case (Cons server servers)
  then show ?case by (auto split: prod.splits intro: doSingleQuery_received)
qed simp

lemma doQuery_received:
  assumes "doQuery G E sender servers request s = (s', Inr r)"
  shows "received E r"
proof (cases "\<exists>server. servers = [server]")
  case True
  then show ?thesis using assms by (auto simp: doQuery_def intro: doSingleQuery_received)
next
  case False
  let ?asked = "take batchQueryCount (by_rtt E servers)"
  obtain s1 rs where q: "do_queries G E sender request ?asked s = (s1, rs)" by fastforce
  have "doQuery G E sender servers request s =
      (s1, case find (\<lambda>i. i < length rs \<and> \<not> isl (rs ! i)) (re_arrivals E (rs_world s1)) of Some i \<Rightarrow> rs ! i | None \<Rightarrow> Inl errQueryTimeout)"
    using False q by (auto simp: doQuery_def split: list.split)
  then obtain i where "i < length rs" "rs ! i = Inr r"
    using assms by (auto simp: find_Some_iff split: option.splits)
  then show ?thesis using do_queries_received [OF q] nth_mem by metis
qed

lemma handleResponse_final:
  assumes "rec_handleResponse G D E hq ctx zone response s = Some (s', Inr r)" "received E response"
    and "\<And>s0. hq ctx s0 = Some (s', Inr r) \<Longrightarrow> final_answer G E (cx_question ctx) r"
  shows "final_answer G E (cx_question ctx) r"
  using assms unfolding rec_handleResponse_def
  by (auto simp: option_bind_Some_iff handleFinalAnswer_def rec_handleReferal_def final_answer_def split: if_splits)

lemma handleQuery_final:
  "rec_handleQuery G D E ctx s = Some (s', Inr r) \<Longrightarrow> final_answer G E (cx_question ctx) r"
proof (induction "maxQueryDep - cx_depth ctx" arbitrary: ctx s rule: less_induct)
  case less
  have IH: "final_answer G E (cx_question ctx) r"
    if "cx_depth c = Suc (cx_depth ctx)" "cx_question c = cx_question ctx" "Suc (cx_depth ctx) < maxQueryDep"
      "rec_handleQuery G D E c s0 = Some (s', Inr r)" for c s0
    using less.hyps [OF _ that(4)] that(1-3) by simp
  have step: "final_answer G E (cx_question ctx) r"
    if "cx_depth c = Suc (cx_depth ctx)" "cx_question c = cx_question ctx" "Suc (cx_depth ctx) < maxQueryDep"
      "received E m" "rec_handleResponse G D E (rec_handleQuery G D E) c zone m s0 = Some (s', Inr r)" for c zone m s0
    using handleResponse_final [OF that(5,4)] IH [OF that(1-3)] that(2) by simp
  show ?case
    using less.prems unfolding rec_handleQuery.simps [of G D E ctx s] Let_def
    by (auto split: if_splits option.splits prod.splits sum.splits list.splits
        elim!: IH [rotated 3] step [rotated 4] intro: doQuery_received)
qed

text \<open>The slots of the pool that hold a context, with the size of the pool.\<close>

definition free_ctxs :: "RecursorCtxPool \<Rightarrow> nat \<times> nat" where
  "free_ctxs p = (length (filter (\<lambda>c. c \<noteq> None) p), length p)"

lemma getCtx_free:
  "getCtx p = Some (c, p') \<Longrightarrow> free_ctxs p = (Suc (fst (free_ctxs p')), snd (free_ctxs p')) \<and> fst (free_ctxs p') < snd (free_ctxs p')"
proof (induction p arbitrary: p' rule: getCtx.induct)
  case (2 c0 p)
  then show ?case by (auto simp: free_ctxs_def less_Suc_eq_le)
next
  case (3 p)
  then show ?case by (auto simp: free_ctxs_def)
qed simp

lemma putCtx_free:
  "fst (free_ctxs p) < snd (free_ctxs p) \<Longrightarrow> free_ctxs (putCtx c p) = (Suc (fst (free_ctxs p)), snd (free_ctxs p))"
  by (induction c p rule: putCtx.induct) (auto simp: free_ctxs_def)

lemma get_put_free:
  assumes "getCtx p = Some (c, p')" "free_ctxs p1 = free_ctxs p'"
  shows "free_ctxs (putCtx c' p1) = free_ctxs p"
  using getCtx_free [OF assms(1)] putCtx_free [of p1 c'] assms(2) by simp

lemma doSingleQuery_pool: "doSingleQuery G E sender request server s = (s', r) \<Longrightarrow> rs_pool s' = rs_pool s"
  unfolding doSingleQuery_def measured_def by (auto simp: Let_def split: prod.splits sum.splits if_splits)

lemma do_queries_pool: "do_queries G E sender request servers s = (s', rs) \<Longrightarrow> rs_pool s' = rs_pool s"
  by (induction servers arbitrary: s s' rs) (auto split: prod.splits dest!: doSingleQuery_pool)

lemma doQuery_pool: "doQuery G E sender servers request s = (s', r) \<Longrightarrow> rs_pool s' = rs_pool s"
  unfolding doQuery_def by (auto split: list.splits prod.splits dest: doSingleQuery_pool do_queries_pool)

definition keeps_pool :: "('t, 'w, 'n) query_run \<Rightarrow> nat \<Rightarrow> bool" where
  "keeps_pool hq d \<longleftrightarrow>
     (\<forall>c s s' r. cx_depth c = d \<longrightarrow> hq c s = Some (s', r) \<longrightarrow> free_ctxs (rs_pool s') = free_ctxs (rs_pool s))"

lemma keeps_poolD:
  "keeps_pool hq d \<Longrightarrow> cx_depth c = d \<Longrightarrow> hq c s = Some (s', r) \<Longrightarrow> free_ctxs (rs_pool s') = free_ctxs (rs_pool s)"
  unfolding keeps_pool_def by blast

lemma missing_run_pool:
  assumes "keeps_pool hq d" "cx_depth c = d" "missing_run G E hq c s = Some s'" "getCtx p = Some (c0, rs_pool s)"
  shows "free_ctxs (rs_pool s') = free_ctxs p"
proof -
  obtain s1 r where s1: "hq c s = Some (s1, r)" using assms(3) by (auto simp: missing_run_def option_bind_Some_iff)
  have "rs_pool s' = putCtx (cx_sender c) (rs_pool s1)"
    using assms(3) by (auto simp: missing_run_def s1 split: sum.splits option.splits)
  then show ?thesis using get_put_free [OF assms(4)] keeps_poolD [OF assms(1,2) s1] by simp
qed

lemma getMissing_pool:
  assumes "keeps_pool hq (cx_depth ctx)"
  shows "getMissingNameServer G E hq ctx names s = Some s' \<Longrightarrow> free_ctxs (rs_pool s') = free_ctxs (rs_pool s)"
proof (induction names arbitrary: s)
  case (Cons name names)
  show ?case
  proof (cases "getCtx (rs_pool s)")
    case None
    then show ?thesis using Cons by simp
  next
    case (Some cp)
    then obtain c0 pool where cp: "getCtx (rs_pool s) = Some (c0, pool)" by (cases cp) simp
    then obtain c s1 where s1: "missing_run G E hq c (s\<lparr>rs_pool := pool\<rparr>) = Some s1" "cx_depth c = cx_depth ctx"
      "getMissingNameServer G E hq ctx names s1 = Some s'"
      using Cons.prems by (auto simp: option_bind_Some_iff)
    then show ?thesis using missing_run_pool [OF assms s1(2,1)] cp Cons.IH by simp
  qed
qed simp

lemma handleReferal_pool:
  assumes "keeps_pool hq (cx_depth ctx)" "rec_handleReferal G D E hq ctx zone response s = Some (s', r)"
  shows "free_ctxs (rs_pool s') = free_ctxs (rs_pool s)"
proof -
  obtain nc missing s1 where "getMissingNameServer G E hq ctx missing (s\<lparr>rs_cache := nc\<rparr>) = Some s1" "hq ctx s1 = Some (s', r)"
    using assms(2) unfolding rec_handleReferal_def by (auto simp: option_bind_Some_iff)
  then show ?thesis using getMissing_pool [OF assms(1)] keeps_poolD [OF assms(1) refl] by fastforce
qed

lemma handleResponse_pool:
  assumes "keeps_pool hq (cx_depth ctx)" "rec_handleResponse G D E hq ctx zone response s = Some (s', r)"
  shows "free_ctxs (rs_pool s') = free_ctxs (rs_pool s)"
  using assms(2) handleReferal_pool [OF assms(1)] unfolding rec_handleResponse_def
  by (auto simp: option_bind_Some_iff handleFinalAnswer_def split: if_splits)

lemma handleQuery_pool: "rec_handleQuery G D E ctx s = Some (s', r) \<Longrightarrow> free_ctxs (rs_pool s') = free_ctxs (rs_pool s)"
proof (induction "maxQueryDep - cx_depth ctx" arbitrary: ctx s s' r rule: less_induct)
  case less
  have IH: "free_ctxs (rs_pool s1') = free_ctxs (rs_pool s0)"
    if "rec_handleQuery G D E c s0 = Some (s1', r')" "cx_depth c = Suc (cx_depth ctx)" "Suc (cx_depth ctx) < maxQueryDep" for c s0 s1' r'
    using less.hyps [OF _ that(1)] that(2,3) by simp
  then have K: "keeps_pool (rec_handleQuery G D E) (Suc (cx_depth ctx))" if "Suc (cx_depth ctx) < maxQueryDep"
    using that unfolding keeps_pool_def by blast
  have step: "free_ctxs (rs_pool s1') = free_ctxs (rs_pool s0)"
    if "rec_handleResponse G D E (rec_handleQuery G D E) c zone m s0 = Some (s1', r')" "cx_depth c = Suc (cx_depth ctx)"
      "Suc (cx_depth ctx) < maxQueryDep" for c zone m s0 s1' r'
    using handleResponse_pool [OF _ that(1)] K [OF that(3)] that(2) by simp
  show ?case
    using less.prems unfolding rec_handleQuery.simps [of G D E ctx s] Let_def
    by (auto split: if_splits option.splits prod.splits sum.splits list.splits dest!: doQuery_pool IH step)
qed

lemma run_query_pool:
  "run_query G D E client ctx s = Some (s', r) \<Longrightarrow> free_ctxs (rs_pool s') = free_ctxs (rs_pool s)"
proof -
  have "keeps_pool (rec_handleQuery G D E) d" for d unfolding keeps_pool_def using handleQuery_pool by blast
  then show "run_query G D E client ctx s = Some (s', r) \<Longrightarrow> free_ctxs (rs_pool s') = free_ctxs (rs_pool s)"
    unfolding run_query_def
    by (auto simp: option_bind_Some_iff split: option.splits if_splits dest: handleQuery_pool handleReferal_pool)
qed

lemma resolver_pool:
  assumes "rec_resolver G D E qs get put w client = Some (w', c')" "\<And>r w. get (put r w) = r"
  shows "free_ctxs (rc_ctxPool (get w')) = free_ctxs (rc_ctxPool (get w))"
proof (cases "getCtx (rc_ctxPool (get w))")
  case None
  then show ?thesis using assms(1) by (simp add: rec_resolver_def)
next
  case (Some cp)
  then obtain c pool where cp: "getCtx (rc_ctxPool (get w)) = Some (c, pool)" by (cases cp) simp
  then obtain ctx s r where run: "run_query G D E client ctx \<lparr>rs_cache = rc_nsasCache (get w), rs_pool = pool, rs_world = w\<rparr> = Some (s, r)"
    and w': "w' = put ((get w)\<lparr>rc_nsasCache := rs_cache s, rc_ctxPool := putCtx (cx_sender ctx) (rs_pool s)\<rparr>) (rs_world s)"
    using assms(1) by (auto simp: rec_resolver_def Let_def option_bind_Some_iff)
  show ?thesis using get_put_free [OF cp] run_query_pool [OF run] by (simp add: w' assms(2))
qed

lemma resolver_final:
  assumes "rec_resolver G D E qs get put w client = Some (w', c')" "c_Response client = None" "c_Response c' = Some r"
    "m_Question (c_Request client) = Some q"
  shows "\<exists>m. final_answer G E q m \<and> r = with_id (h_Id (m_Header (c_Request client))) m"
proof (cases "getCtx (rc_ctxPool (get w))")
  case None
  then show ?thesis using assms by (simp add: rec_resolver_def)
next
  case (Some cp)
  then obtain c pool where cp: "getCtx (rc_ctxPool (get w)) = Some (c, pool)" by (cases cp) simp
  then obtain ctx s0 s res where ctx: "cx_question ctx = q" and run: "rec_handleQuery G D E ctx s0 = Some (s, res)"
    and c': "c' = (case res of Inl err \<Rightarrow> client | Inr m \<Rightarrow> client\<lparr>c_Response := Some (with_id (h_Id (m_Header (c_Request client))) m)\<rparr>)"
    using assms(1,2,4) by (auto simp: rec_resolver_def run_query_def Let_def option_bind_Some_iff intro: that [OF cx_question_init])
  show ?thesis
  proof (cases res)
    case (Inl err)
    then show ?thesis using c' assms(2,3) by simp
  next
    case (Inr m)
    then show ?thesis using c' assms(3) handleQuery_final [OF run [unfolded Inr]] ctx by auto
  qed
qed

section \<open>Properties\<close>

text \<open>
  C30. What the recursor answers is what a server answered: when it sets the response of a query, the
  response has the sections of a message that an exchange with a server returned and that is an
  answer or a denial (never a referral or a failure); it carries the question and the identifier of
  the query and the flag that recursion is available.
\<close>

theorem recursor_answers_are_final:
  assumes "flag_laws G" "rec_Resolve G D E qs get put None w client = Some (w', c')"
    and "c_Response client = None" "c_Response c' = Some r" "m_Question (c_Request client) = Some q"
  shows "m_Question r = Some q \<and> h_Id (m_Header r) = h_Id (m_Header (c_Request client)) \<and>
    Header_GetFlag G (m_Header r) FLAG_RA \<and>
    (\<exists>r0. received E r0 \<and> ClassifyResponse G r0 \<in> {Some ANSWER, Some NXDOMAIN, Some NXRRSET} \<and>
       m_Answer r = m_Answer r0 \<and> m_Auth r = m_Auth r0 \<and> m_Additional r = m_Additional r0)"
proof -
  have "rc_resolverEnable (get w) (c_View client) = Some True"
    using assms(2-4) by (auto simp: rec_Resolve_def PassToNext_def split: if_splits)
  then obtain w1 c1 where c1: "rec_resolver G D E qs get put w client = Some (w1, c1)" "c' = set_RA G c1"
    using assms(2) by (auto simp: rec_Resolve_def PassToNext_def option_bind_Some_iff split: if_splits)
  then obtain m0 where m0: "c_Response c1 = Some m0" "r = m0\<lparr>m_Header := Header_SetFlag G FLAG_RA True (m_Header m0)\<rparr>"
    using assms(4) by (auto simp: set_RA_def)
  obtain m where m: "final_answer G E q m" "m0 = with_id (h_Id (m_Header (c_Request client))) m"
    using resolver_final [OF c1(1) assms(3) m0(1) assms(5)] by blast
  then show ?thesis using assms(1) m0(2)
    by (auto simp: final_answer_def with_id_def Header_GetFlag_SetFlag Header_SetFlag_fields)
qed

definition demo_root :: "string list NameServer" where
  "demo_root = \<lparr>ns_zone = [], ns_name = [''a''], ns_addr = ''198.41.0.4:53'', ns_rtt = 0\<rparr>"

definition demo_denial :: "string list Message" where
  "demo_denial = (let m = MakeQuery ref_g53 [''b'', ''com''] RR_A in m\<lparr>m_Header := (m_Header m)\<lparr>h_Rcode := R_NXDOMAIN\<rparr>\<rparr>)"

definition demo_env :: "('w, string list) rec_env" where
  "demo_env = \<lparr>re_net = \<lparr>sr_exchange = \<lambda>src addr m w. (w, Inr demo_denial, 5), sr_GenMessageId = \<lambda>w. 1, sr_Unix = \<lambda>w. 100\<rparr>,
     re_arrivals = \<lambda>_. [], re_now = \<lambda>_. 0, re_rnd = \<lambda>_. 0, re_sort = (\<lambda>k. sort_key k), re_Resolve = Inr,
     re_AddSubnetV4 = \<lambda>_ m. m, re_WithoutEdns = \<lambda>m. m\<rparr>"

definition demo_recursor :: "((string list \<times> nat) list, string list) Recursor" where
  "demo_recursor = \<lparr>rc_nsasCache = NewNsasCache list_domaintree 0, rc_ednsSubnetEnable = Map.empty, rc_resolverEnable = [''default'' \<mapsto> True],
     rc_rootForView = [''default'' \<mapsto> [demo_root]], rc_ctxPool = newRecursorCtxPool 2\<rparr>"

definition demo_client :: "string list Client" where
  "demo_client = client_reset 0 (UDPAddr [] 0) (UDPAddr [] 0) False (with_id 7 (MakeQuery ref_g53 [''b'', ''com''] RR_A))"

lemma rec_demo_run:
  "\<exists>w' c' r. rec_Resolve ref_g53 list_domaintree demo_env (\<lambda>_. Map.empty) (\<lambda>w. w) (\<lambda>r w. r) None demo_recursor demo_client = Some (w', c') \<and>
    c_Response c' = Some r"
  by (simp add: rec_Resolve_def demo_recursor_def demo_client_def client_reset_def rec_resolver_def newRecursorCtxPool_def numeral_2_eq_2
      with_id_def ref_g53_simps getRootServers_def cloneNameServers_def run_query_def rec_handleQuery.simps maxQueryDep_def ctx_init_def
      GetQuerySource_def NewSafeUDPSender_def NewUDPSender_def setQuerySource_def selectNameServers.simps list_domaintree_def
      enclosers_def NewNsasCache_def doQuery_def doSingleQuery_def demo_env_def demo_denial_def isValidResponse_def by_rtt_def batchQueryCount_def
      demo_root_def rec_handleResponse_def ClassifyResponse_def handleFinalAnswer_def AddZoneNameServer_def getAuthAndGlues_def
      set_RA_def empty_header_def Let_def rr_types us_GetQuerySource_def)

theorem recursor_answers_are_final_witness:
  "\<exists>w' c' r. rec_Resolve ref_g53 list_domaintree demo_env (\<lambda>_. Map.empty) (\<lambda>w. w) (\<lambda>r w. r) None demo_recursor demo_client = Some (w', c') \<and>
    c_Response c' = Some r \<and> h_Id (m_Header r) = 7 \<and> Header_GetFlag ref_g53 (m_Header r) FLAG_RA"
proof -
  obtain w' c' r where run: "rec_Resolve ref_g53 list_domaintree demo_env (\<lambda>_. Map.empty) (\<lambda>w. w) (\<lambda>r w. r) None demo_recursor demo_client = Some (w', c')"
    "c_Response c' = Some r" using rec_demo_run by blast
  have c: "c_Response demo_client = None" "m_Question (c_Request demo_client) = Some \<lparr>q_Name = [''b'', ''com''], q_Type = RR_A, q_Class = CLASS_IN\<rparr>"
    "h_Id (m_Header (c_Request demo_client)) = 7"
    by (simp_all add: demo_client_def client_reset_def with_id_def ref_g53_simps)
  show ?thesis using recursor_answers_are_final [OF ref_flag_laws run(1) c(1) run(2) c(2)] run c(3)
    by (intro exI [of _ w'] exI [of _ c'] exI [of _ r]) simp
qed

text \<open>
  C31. Contexts are not lost: a query that the recursor handles, with all the queries for missing
  servers it starts, leaves as many free contexts in the pool as it found, so that the limit of 100
  queries in flight does not shrink.
\<close>

theorem recursor_returns_contexts:
  assumes "\<And>r w. get (put r w) = r" "rec_Resolve G D E qs get put None w client = Some (w', c')"
  shows "free_ctxs (rc_ctxPool (get w')) = free_ctxs (rc_ctxPool (get w))"
proof (cases "rc_resolverEnable (get w) (c_View client) = Some True")
  case True
  then obtain c1 where "rec_resolver G D E qs get put w client = Some (w', c1)"
    using assms(2) by (auto simp: rec_Resolve_def PassToNext_def option_bind_Some_iff split: if_splits)
  then show ?thesis using resolver_pool assms(1) by metis
next
  case False
  then show ?thesis using assms(2) by (auto simp: rec_Resolve_def PassToNext_def split: if_splits)
qed

theorem recursor_returns_contexts_witness:
  "\<exists>w' c'. rec_Resolve ref_g53 list_domaintree demo_env (\<lambda>_. Map.empty) (\<lambda>w. w) (\<lambda>r w. r) None demo_recursor demo_client = Some (w', c') \<and>
    free_ctxs (rc_ctxPool w') = free_ctxs (rc_ctxPool demo_recursor)"
proof -
  obtain w' c' where run: "rec_Resolve ref_g53 list_domaintree demo_env (\<lambda>_. Map.empty) (\<lambda>w. w) (\<lambda>r w. r) None demo_recursor demo_client = Some (w', c')"
    using rec_demo_run by blast
  show ?thesis using recursor_returns_contexts [OF refl run] run by (intro exI [of _ w'] exI [of _ c']) simp
qed

end
