(* ===== verification/Memory_Zone.thy ===== *)
theory Memory_Zone
  imports Local_Data "HOL-Library.AList"
begin

text \<open>
  The data of an authoritative zone, \<open>resolver/auth/zone/memoryzone/memoryzone.go\<close> with the results and
  errors of \<open>resolver/auth/zone/zone.go\<close>. A node of the zone is a map from types to RRsets; since the
  copy of a zone shares its RRsets with the zone, these are addresses in a heap. The tree of names
  with its flags and its search is part of the DNS library: the operations used of it are the fields
  of \<open>zone_nodes\<close> and \<open>zone_search\<close>. The node of the zone itself, which the code keeps a pointer to, is
  found by its name; the two differ only if an update removes that node and makes it again. The
  data of an RRset are a value: rotating the copy that is made for a wildcard does not reach the
  RRset of the zone.
\<close>

section \<open>Results and errors\<close>

datatype zone_error =
    ErrOutOfZone | ErrCNAMECoExistsWithOtherRR | ErrShortOfSOA | ErrShortOfNS | ErrUnknownRRset
  | ErrNoEffectiveUpdate | ErrServFail | ErrAbortLoad | ErrDuplicateRdata | ErrNoAuthUpdate | TreeError string

datatype ResultType = FRSuccess | FRDelegation | FRNXDomain | FRNXRRset | FRCname | FRServFail

datatype FindOption = DefaultFind | GlueOkFind

section \<open>Heap, nodes and tree\<close>

text \<open>The address of no RRset is Go's nil: to read it is a panic.\<close>

definition nil :: nat where "nil = 0"

record 'n rr_heap =
  hp_at :: "nat \<rightharpoonup> 'n RRset"
  hp_next :: nat

definition empty_heap :: "'n rr_heap" where
  "empty_heap = \<lparr>hp_at = Map.empty, hp_next = Suc nil\<rparr>"

definition new_rrset :: "'n RRset \<Rightarrow> 'n rr_heap \<Rightarrow> nat \<times> 'n rr_heap" where
  "new_rrset r h = (hp_next h, h\<lparr>hp_at := (hp_at h)(hp_next h \<mapsto> r), hp_next := Suc (hp_next h)\<rparr>)"

type_synonym NameNode = "(u16 \<times> nat) list"

datatype NodeFlag = NF_CALLBACK | wildcardMark

text \<open>
  Nodes are named by their domain names. \<open>zt_Insert\<close> makes a node or finds the one there is (the error
  \<open>ErrAlreadyExist\<close> is not an error for the callers). \<open>zt_Data\<close> is the data of a node, none if it is
  empty or missing.
\<close>

record ('t, 'n) zone_nodes =
  zt_New :: 't
  zt_Insert :: "'t \<Rightarrow> 'n \<Rightarrow> string + 't"
  zt_Exact :: "'t \<Rightarrow> 'n \<Rightarrow> bool"
  zt_Data :: "'t \<Rightarrow> 'n \<Rightarrow> NameNode option"
  zt_SetData :: "'t \<Rightarrow> 'n \<Rightarrow> NameNode \<Rightarrow> 't"
  zt_Flag :: "'t \<Rightarrow> 'n \<Rightarrow> NodeFlag \<Rightarrow> bool"
  zt_SetFlag :: "'t \<Rightarrow> 'n \<Rightarrow> NodeFlag \<Rightarrow> bool \<Rightarrow> 't"
  zt_Remove :: "'t \<Rightarrow> 'n \<Rightarrow> 't"
  zt_Clone :: "'t \<Rightarrow> (NameNode \<Rightarrow> NameNode) \<Rightarrow> 't"

text \<open>
  \<open>SearchExt\<close> calls its callback at every node on the way that has the flag for it, until one call
  returns true, which ends the search with a partial match. \<open>zs_Cuts\<close> are these nodes from the top,
  \<open>zs_SearchExt\<close> is the result of a search that is not ended. \<open>sx_super\<close> says that the last comparison
  found a name below the one searched.
\<close>

datatype zone_match = ZExact | ZPartial | ZNotFound

record 'n search_ext =
  sx_match :: zone_match
  sx_node :: 'n
  sx_super :: bool
  sx_absolute :: 'n

record ('t, 'n) zone_search =
  zs_Cuts :: "'t \<Rightarrow> 'n \<Rightarrow> 'n list"
  zs_SearchExt :: "'t \<Rightarrow> 'n \<Rightarrow> 'n search_ext"
  zs_IsNodeNonTerminal :: "'t \<Rightarrow> 'n \<Rightarrow> bool"
  zs_Wildcard :: "'n \<Rightarrow> 'n"

section \<open>Zones\<close>

record ('t, 'n) MemoryZone =
  mz_origin :: 'n
  mz_domains :: 't

definition newWithDomains :: "('t, 'n) zone_nodes \<Rightarrow> 'n \<Rightarrow> 't \<Rightarrow> ('t, 'n) MemoryZone" where
  "newWithDomains Z origin domains =
     \<lparr>mz_origin = origin, mz_domains = (case zt_Insert Z domains origin of Inl err \<Rightarrow> domains | Inr t \<Rightarrow> t)\<rparr>"

definition newMemoryZone :: "('t, 'n) zone_nodes \<Rightarrow> 'n \<Rightarrow> ('t, 'n) MemoryZone" where
  "newMemoryZone Z origin = newWithDomains Z origin (zt_New Z)"

text \<open>The copy of a node has the same RRsets: only the map is copied, which is a value here.\<close>

definition node_clone :: "NameNode \<Rightarrow> NameNode" where
  "node_clone n = map (\<lambda>(t, rrset). (t, rrset)) n"

definition mz_clone :: "('t, 'n) zone_nodes \<Rightarrow> ('t, 'n) MemoryZone \<Rightarrow> ('t, 'n) MemoryZone" where
  "mz_clone Z z = newWithDomains Z (mz_origin z) (zt_Clone Z (mz_domains z) node_clone)"

definition origin_data :: "('t, 'n) zone_nodes \<Rightarrow> ('t, 'n) MemoryZone \<Rightarrow> NameNode option" where
  "origin_data Z z = zt_Data Z (mz_domains z) (mz_origin z)"

definition mz_isEmpty :: "('t, 'n) zone_nodes \<Rightarrow> ('t, 'n) MemoryZone \<Rightarrow> bool" where
  "mz_isEmpty Z z \<longleftrightarrow> origin_data Z z = None"

definition mz_validate :: "('t, 'n) zone_nodes \<Rightarrow> ('t, 'n) MemoryZone \<Rightarrow> zone_error option" where
  "mz_validate Z z =
     (case origin_data Z z of
        None \<Rightarrow> Some ErrShortOfSOA
      | Some node \<Rightarrow>
          if map_of node RR_SOA = None then Some ErrShortOfSOA
          else if map_of node RR_NS = None then Some ErrShortOfNS
          else None)"

section \<open>Adding\<close>

definition checkRRsetValid :: "'n g53 \<Rightarrow> ('t, 'n) MemoryZone \<Rightarrow> 'n RRset \<Rightarrow> zone_error option" where
  "checkRRsetValid G z rrset =
     (if rr_Type rrset = RR_NS \<and> Name_IsWildCard G (rr_Name rrset) then Some ErrNoEffectiveUpdate
      else if \<not> Name_IsSubDomain G (rr_Name rrset) (mz_origin z) then Some ErrOutOfZone
      else None)"

definition checkRRsetCouldBeAdded :: "NameNode \<Rightarrow> 'n RRset \<Rightarrow> zone_error option" where
  "checkRRsetCouldBeAdded nodeData rrset =
     (if rr_Type rrset \<noteq> RR_CNAME then
        (if map_of nodeData RR_CNAME \<noteq> None then Some ErrCNAMECoExistsWithOtherRR else None)
      else if length nodeData > 1 then Some ErrCNAMECoExistsWithOtherRR
      else if map_of nodeData RR_CNAME = None then Some ErrCNAMECoExistsWithOtherRR
      else None)"

definition soa_serial :: "'n RRset \<Rightarrow> u32 may_panic" where
  "soa_serial r = (case rr_Rdatas r of RdSOA n serial minimum # _ \<Rightarrow> Some serial | _ \<Rightarrow> None)"

text \<open>Every data that is not there yet is added; the flag says that none was.\<close>

definition add_new :: "'n rrset_lib \<Rightarrow> 'n Rdata list \<Rightarrow> 'n RRset \<Rightarrow> 'n RRset \<times> bool" where
  "add_new R ds old =
     fold (\<lambda>d (r, dup). case f_RRset_AddRdata R d r of Inl err \<Rightarrow> (r, dup) | Inr r' \<Rightarrow> (r', False)) ds (old, True)"

text \<open>
  What adding does to a node: it is refused, it is ignored (an SOA that is not newer), or the node
  has new data. A data set that is replaced is a new object; the old one is not changed.
\<close>

datatype 'n add_result = Refused zone_error | Ignored | Stored "'n rr_heap" NameNode

definition merge_rrset :: "'n rrset_lib \<Rightarrow> 'n RRset \<Rightarrow> 'n RRset \<Rightarrow> NameNode \<Rightarrow> 'n rr_heap \<Rightarrow> 'n add_result" where
  "merge_rrset R old rrset nodeData h =
     (case add_new R (rr_Rdatas rrset) old of
        (new, allDuplicate) \<Rightarrow>
          if allDuplicate \<and> rr_Ttl rrset = rr_Ttl new then Refused ErrDuplicateRdata
          else (case new_rrset (new\<lparr>rr_Ttl := rr_Ttl rrset\<rparr>) h of
                  (a, h') \<Rightarrow> Stored h' (AList.update (rr_Type rrset) a nodeData)))"

definition add_to_node :: "'n rrset_lib \<Rightarrow> nat \<Rightarrow> 'n RRset \<Rightarrow> NameNode option \<Rightarrow> 'n rr_heap \<Rightarrow> 'n add_result may_panic" where
  "add_to_node R p rrset node h =
     (case node of
        None \<Rightarrow> Some (Stored h [(rr_Type rrset, p)])
      | Some nodeData \<Rightarrow>
          (let put = Some (Stored h (AList.update (rr_Type rrset) p nodeData)) in
           case checkRRsetCouldBeAdded nodeData rrset of
             Some err \<Rightarrow> Some (Refused err)
           | None \<Rightarrow>
               (case map_of nodeData (rr_Type rrset) of
                  None \<Rightarrow> put
                | Some a \<Rightarrow>
                    if rr_Type rrset = RR_CNAME \<or> (rr_Type rrset = RR_SOA \<and> a = nil) then put
                    else
                      Option.bind (hp_at h a) (\<lambda>old.
                        if rr_Type rrset = RR_SOA then
                          Option.bind (soa_serial old) (\<lambda>oldSerial. Option.bind (soa_serial rrset) (\<lambda>serial.
                            if oldSerial \<ge> serial then Some Ignored else put))
                        else Some (merge_rrset R old rrset nodeData h)))))"

definition markWildcardParent :: "'n g53 \<Rightarrow> ('t, 'n) zone_nodes \<Rightarrow> 'n \<Rightarrow> 't \<Rightarrow> string + 't" where
  "markWildcardParent G Z name t =
     (let parent = Name_Parent G name in
      case zt_Insert Z t parent of Inl err \<Rightarrow> Inl err | Inr t' \<Rightarrow> Inr (zt_SetFlag Z t' parent wildcardMark True))"

text \<open>The state of an operation is the heap and the zone; with it comes the error, if any.\<close>

type_synonym ('t, 'n) zone_run = "('n rr_heap \<times> ('t, 'n) MemoryZone) \<times> zone_error option"

definition set_marks ::
  "'n g53 \<Rightarrow> ('t, 'n) zone_nodes \<Rightarrow> 'n RRset \<Rightarrow> 'n rr_heap \<Rightarrow> ('t, 'n) MemoryZone \<Rightarrow> ('t, 'n) zone_run" where
  "set_marks G Z rrset h z =
     (let t = (if rr_Type rrset = RR_NS \<and> \<not> Name_Equals G (rr_Name rrset) (mz_origin z)
               then zt_SetFlag Z (mz_domains z) (rr_Name rrset) NF_CALLBACK True else mz_domains z)
      in if Name_IsWildCard G (rr_Name rrset) then
           (case markWildcardParent G Z (rr_Name rrset) t of
              Inl err \<Rightarrow> ((h, z\<lparr>mz_domains := t\<rparr>), Some (TreeError err))
            | Inr t' \<Rightarrow> ((h, z\<lparr>mz_domains := t'\<rparr>), None))
         else ((h, z\<lparr>mz_domains := t\<rparr>), None))"

definition mz_addRRset ::
  "'n g53 \<Rightarrow> 'n rrset_lib \<Rightarrow> ('t, 'n) zone_nodes \<Rightarrow> nat \<Rightarrow> 'n rr_heap \<times> ('t, 'n) MemoryZone \<Rightarrow> ('t, 'n) zone_run may_panic" where
  "mz_addRRset G R Z p s =
     (case s of (h, z) \<Rightarrow>
        Option.bind (hp_at h p) (\<lambda>rrset.
          case checkRRsetValid G z rrset of
            Some err \<Rightarrow> Some ((h, z), Some err)
          | None \<Rightarrow>
              (case zt_Insert Z (mz_domains z) (rr_Name rrset) of
                 Inl err \<Rightarrow> Some ((h, z), Some (TreeError err))
               | Inr t \<Rightarrow>
                   map_option
                     (\<lambda>r. case r of
                        Refused err \<Rightarrow> ((h, z\<lparr>mz_domains := t\<rparr>), Some err)
                      | Ignored \<Rightarrow> ((h, z\<lparr>mz_domains := t\<rparr>), None)
                      | Stored h' nodeData \<Rightarrow> set_marks G Z rrset h' (z\<lparr>mz_domains := zt_SetData Z t (rr_Name rrset) nodeData\<rparr>))
                     (add_to_node R p rrset (zt_Data Z t (rr_Name rrset)) h))))"

section \<open>Deleting\<close>

definition rdatasDiff :: "'n g53 \<Rightarrow> 'n Rdata list \<Rightarrow> 'n Rdata list \<Rightarrow> 'n Rdata list" where
  "rdatasDiff G first second = filter (\<lambda>src. \<not> (\<exists>target\<in>set second. Rdata_Compare G src target = 0)) first"

text \<open>The name servers of the zone itself are read unchecked.\<close>

definition checkRRsetCouldBeDeleted ::
  "'n g53 \<Rightarrow> ('t, 'n) zone_nodes \<Rightarrow> 'n rr_heap \<Rightarrow> ('t, 'n) MemoryZone \<Rightarrow> 'n RRset \<Rightarrow> zone_error option may_panic" where
  "checkRRsetCouldBeDeleted G Z h z rrset =
     (if \<not> Name_IsSubDomain G (rr_Name rrset) (mz_origin z) then Some (Some ErrOutOfZone)
      else if Name_Equals G (rr_Name rrset) (mz_origin z) then
        (if rr_Type rrset = RR_SOA then Some (Some ErrShortOfSOA)
         else if rr_Type rrset = RR_NS then
           Option.bind (origin_data Z z) (\<lambda>data. Option.bind (map_of data RR_NS) (\<lambda>a. Option.bind (hp_at h a) (\<lambda>ns.
             if rdatasDiff G (rr_Rdatas ns) (rr_Rdatas rrset) = [] then Some (Some ErrShortOfNS) else Some None)))
         else Some None)
      else Some None)"

definition getNode :: "('t, 'n) zone_nodes \<Rightarrow> ('t, 'n) MemoryZone \<Rightarrow> 'n \<Rightarrow> zone_error + NameNode" where
  "getNode Z z name =
     (if \<not> zt_Exact Z (mz_domains z) name then Inl ErrUnknownRRset
      else case zt_Data Z (mz_domains z) name of None \<Rightarrow> Inl ErrUnknownRRset | Some d \<Rightarrow> Inr d)"

definition unmarkWildcardParent :: "'n g53 \<Rightarrow> ('t, 'n) zone_nodes \<Rightarrow> 'n \<Rightarrow> 't \<Rightarrow> 't" where
  "unmarkWildcardParent G Z name t =
     (let parent = Name_Parent G name in if zt_Exact Z t parent then zt_SetFlag Z t parent wildcardMark False else t)"

definition deleteNode :: "'n g53 \<Rightarrow> ('t, 'n) zone_nodes \<Rightarrow> 'n \<Rightarrow> ('t, 'n) MemoryZone \<Rightarrow> ('t, 'n) MemoryZone" where
  "deleteNode G Z name z =
     (let t = zt_Remove Z (mz_domains z) name in
      z\<lparr>mz_domains := (if Name_IsWildCard G name then unmarkWildcardParent G Z name t else t)\<rparr>)"

text \<open>The map of a node is changed in place; a node without data is removed. No flag is taken back.\<close>

definition put_node :: "'n g53 \<Rightarrow> ('t, 'n) zone_nodes \<Rightarrow> 'n \<Rightarrow> NameNode \<Rightarrow> ('t, 'n) MemoryZone \<Rightarrow> ('t, 'n) MemoryZone" where
  "put_node G Z name nodeData z =
     (if nodeData = [] then deleteNode G Z name z else z\<lparr>mz_domains := zt_SetData Z (mz_domains z) name nodeData\<rparr>)"

definition mz_deleteRRset ::
  "'n g53 \<Rightarrow> ('t, 'n) zone_nodes \<Rightarrow> 'n RRset \<Rightarrow> 'n rr_heap \<times> ('t, 'n) MemoryZone \<Rightarrow> ('t, 'n) zone_run may_panic" where
  "mz_deleteRRset G Z rrset s =
     (case s of (h, z) \<Rightarrow>
        Option.bind (checkRRsetCouldBeDeleted G Z h z rrset) (\<lambda>chk.
          case chk of
            Some err \<Rightarrow> Some ((h, z), Some err)
          | None \<Rightarrow>
              (case getNode Z z (rr_Name rrset) of
                 Inl err \<Rightarrow> Some ((h, z), Some err)
               | Inr nodeData \<Rightarrow>
                   if map_of nodeData (rr_Type rrset) = None then Some ((h, z), Some ErrUnknownRRset)
                   else Some ((h, put_node G Z (rr_Name rrset) (AList.delete (rr_Type rrset) nodeData) z), None))))"

text \<open>At the zone's own name the SOA and the name servers stay; a missing one is stored as nil.\<close>

definition mz_deleteDomain ::
  "'n g53 \<Rightarrow> ('t, 'n) zone_nodes \<Rightarrow> 'n \<Rightarrow> 'n rr_heap \<times> ('t, 'n) MemoryZone \<Rightarrow> ('t, 'n) zone_run may_panic" where
  "mz_deleteDomain G Z name s =
     (case s of (h, z) \<Rightarrow>
        if \<not> Name_IsSubDomain G name (mz_origin z) then Some ((h, z), Some ErrOutOfZone)
        else case getNode Z z name of
               Inl err \<Rightarrow> Some ((h, z), Some err)
             | Inr oldData \<Rightarrow>
                 if Name_Equals G name (mz_origin z) then
                   (let entry = \<lambda>typ. (typ, case map_of oldData typ of None \<Rightarrow> nil | Some a \<Rightarrow> a) in
                    Some ((h, z\<lparr>mz_domains := zt_SetData Z (mz_domains z) name [entry RR_SOA, entry RR_NS]\<rparr>), None))
                 else Some ((h, deleteNode G Z name z), None))"

definition mz_deleteRr ::
  "'n g53 \<Rightarrow> ('t, 'n) zone_nodes \<Rightarrow> 'n RRset \<Rightarrow> 'n rr_heap \<times> ('t, 'n) MemoryZone \<Rightarrow> ('t, 'n) zone_run may_panic" where
  "mz_deleteRr G Z rrset s =
     (case s of (h, z) \<Rightarrow>
        Option.bind (checkRRsetCouldBeDeleted G Z h z rrset) (\<lambda>chk.
          case chk of
            Some err \<Rightarrow> Some ((h, z), Some err)
          | None \<Rightarrow>
              (case getNode Z z (rr_Name rrset) of
                 Inl err \<Rightarrow> Some ((h, z), Some err)
               | Inr nodeData \<Rightarrow>
                   (case map_of nodeData (rr_Type rrset) of
                      None \<Rightarrow> Some ((h, z), Some ErrUnknownRRset)
                    | Some a \<Rightarrow>
                        Option.bind (hp_at h a) (\<lambda>old.
                          let left = rdatasDiff G (rr_Rdatas old) (rr_Rdatas rrset) in
                          if left = [] then Some ((h, put_node G Z (rr_Name rrset) (AList.delete (rr_Type rrset) nodeData) z), None)
                          else (case new_rrset (old\<lparr>rr_Rdatas := left\<rparr>) h of
                                  (b, h') \<Rightarrow> Some ((h', put_node G Z (rr_Name rrset) (AList.update (rr_Type rrset) b nodeData) z), None)))))))"

text \<open>The serial number is increased in the object that all copies of the zone share; it wraps.\<close>

fun next_serial :: "'n Rdata list \<Rightarrow> 'n Rdata list may_panic" where
  "next_serial [RdSOA n serial minimum] = Some [RdSOA n (serial + 1) minimum]"
| "next_serial _ = None"

definition mz_increaseSerialNumber ::
  "('t, 'n) zone_nodes \<Rightarrow> 'n rr_heap \<times> ('t, 'n) MemoryZone \<Rightarrow> ('n rr_heap \<times> ('t, 'n) MemoryZone) may_panic" where
  "mz_increaseSerialNumber Z s =
     (case s of (h, z) \<Rightarrow>
        Option.bind (origin_data Z z) (\<lambda>data. Option.bind (map_of data RR_SOA) (\<lambda>a. Option.bind (hp_at h a) (\<lambda>soa.
          map_option (\<lambda>ds. (h\<lparr>hp_at := (hp_at h)(a \<mapsto> soa\<lparr>rr_Rdatas := ds\<rparr>)\<rparr>, z)) (next_serial (rr_Rdatas soa))))))"

section \<open>Finding\<close>

record find_ctx =
  fc_type :: ResultType
  fc_rrset :: nat
  fc_node :: NameNode

definition found :: "ResultType \<Rightarrow> nat \<Rightarrow> NameNode \<Rightarrow> find_ctx" where
  "found typ a node = \<lparr>fc_type = typ, fc_rrset = a, fc_node = node\<rparr>"

text \<open>
  The callback at the nodes on the way: a node without name servers is a panic; the topmost node is
  the cut; unless glue is wanted it ends the search.
\<close>

fun zoneCuts ::
  "('t, 'n) zone_nodes \<Rightarrow> 't \<Rightarrow> FindOption \<Rightarrow> 'n list \<Rightarrow> (NameNode \<times> nat) option \<Rightarrow> ((NameNode \<times> nat) option \<times> bool) may_panic" where
  "zoneCuts Z t opt [] hit = Some (hit, False)"
| "zoneCuts Z t opt (n # names) hit =
     Option.bind (zt_Data Z t n) (\<lambda>nameNode. Option.bind (map_of nameNode RR_NS) (\<lambda>ns.
       case hit of
         Some c \<Rightarrow> zoneCuts Z t opt names (Some c)
       | None \<Rightarrow> if opt \<noteq> GlueOkFind then Some (Some (nameNode, ns), True) else zoneCuts Z t opt names (Some (nameNode, ns))))"

text \<open>The RRset of a wildcard is copied and gets the name that was asked for.\<close>

definition synthesize :: "'n \<Rightarrow> ResultType \<Rightarrow> nat \<Rightarrow> 'n rr_heap \<Rightarrow> ('n rr_heap \<times> find_ctx) may_panic" where
  "synthesize name typ a h =
     map_option (\<lambda>r. case new_rrset (r\<lparr>rr_Name := name\<rparr>) h of (b, h') \<Rightarrow> (h', found typ b [])) (hp_at h a)"

definition find_wildcard ::
  "('t, 'n) zone_nodes \<Rightarrow> ('t, 'n) zone_search \<Rightarrow> 'n \<Rightarrow> u16 \<Rightarrow> 'n \<Rightarrow> ('t, 'n) MemoryZone \<Rightarrow> 'n rr_heap \<Rightarrow> ('n rr_heap \<times> find_ctx) may_panic" where
  "find_wildcard Z S name typ encl z h =
     (let wildcardName = zs_Wildcard S encl in
      if \<not> zt_Exact Z (mz_domains z) wildcardName then None
      else Option.bind (zt_Data Z (mz_domains z) wildcardName) (\<lambda>nameNode.
             case map_of nameNode typ of
               Some a \<Rightarrow> synthesize name FRSuccess a h
             | None \<Rightarrow>
                 (case map_of nameNode RR_CNAME of
                    Some a \<Rightarrow> synthesize name FRCname a h
                  | None \<Rightarrow> Some (h, found FRNXRRset nil []))))"

definition find_node :: "'n g53 \<Rightarrow> ('t, 'n) zone_nodes \<Rightarrow> ('t, 'n) zone_search \<Rightarrow> u16 \<Rightarrow> 'n \<Rightarrow> ('t, 'n) MemoryZone \<Rightarrow> find_ctx" where
  "find_node G Z S typ node z =
     (case zt_Data Z (mz_domains z) node of
        None \<Rightarrow> if zs_IsNodeNonTerminal S (mz_domains z) node then found FRNXRRset nil [] else found FRNXDomain nil []
      | Some nameNode \<Rightarrow>
          (case (if zt_Flag Z (mz_domains z) node NF_CALLBACK \<and> \<not> Name_Equals G node (mz_origin z) then map_of nameNode RR_NS else None) of
             Some ns \<Rightarrow> found FRDelegation ns nameNode
           | None \<Rightarrow>
               (case map_of nameNode typ of
                  Some a \<Rightarrow> found FRSuccess a nameNode
                | None \<Rightarrow>
                    (case map_of nameNode RR_CNAME of
                       Some a \<Rightarrow> found FRCname a nameNode
                     | None \<Rightarrow> found FRNXRRset nil nameNode))))"

definition mz_find ::
  "'n g53 \<Rightarrow> ('t, 'n) zone_nodes \<Rightarrow> ('t, 'n) zone_search \<Rightarrow> 'n \<Rightarrow> u16 \<Rightarrow> FindOption \<Rightarrow> ('t, 'n) MemoryZone \<Rightarrow> 'n rr_heap
   \<Rightarrow> ('n rr_heap \<times> find_ctx) may_panic" where
  "mz_find G Z S name typ opt z h =
     Option.bind (zoneCuts Z (mz_domains z) opt (zs_Cuts S (mz_domains z) name) None) (\<lambda>(cut, stopped).
       let sx = zs_SearchExt S (mz_domains z) name in
       case (if stopped then ZPartial else sx_match sx) of
         ZPartial \<Rightarrow>
           (case cut of
              Some (nameNode, ns) \<Rightarrow> Some (h, found FRDelegation ns nameNode)
            | None \<Rightarrow>
                if sx_super sx then Some (h, found FRNXRRset nil [])
                else if zt_Flag Z (mz_domains z) (sx_node sx) wildcardMark then find_wildcard Z S name typ (sx_absolute sx) z h
                else Some (h, found FRNXDomain nil []))
       | ZNotFound \<Rightarrow> Some (h, found FRNXDomain nil [])
       | ZExact \<Rightarrow> Some (h, find_node G Z S typ (sx_node sx) z))"

definition getAdditioanlAddrs ::
  "'n g53 \<Rightarrow> ('t, 'n) zone_nodes \<Rightarrow> ('t, 'n) zone_search \<Rightarrow> ('t, 'n) MemoryZone \<Rightarrow> 'n \<Rightarrow> 'n rr_heap \<Rightarrow> ('n rr_heap \<times> nat list) may_panic" where
  "getAdditioanlAddrs G Z S z name h =
     map_option
       (\<lambda>(h', ctx).
          (h', (if fc_type ctx = FRSuccess then [fc_rrset ctx] else []) @
               (if fc_type ctx = FRSuccess \<or> fc_type ctx = FRNXRRset
                then (case map_of (fc_node ctx) RR_AAAA of None \<Rightarrow> [] | Some a \<Rightarrow> [a]) else [])))
       (mz_find G Z S name RR_A GlueOkFind z h)"

text \<open>The name whose addresses go with a data of an RRset; another kind of data is a panic.\<close>

definition additional_name :: "u16 \<Rightarrow> 'n Rdata \<Rightarrow> 'n option may_panic" where
  "additional_name typ d =
     (if typ = RR_NS then (case d of RdNS n \<Rightarrow> Some (Some n) | _ \<Rightarrow> None)
      else if typ = RR_MX then (case d of RdMX pref n \<Rightarrow> Some (Some n) | _ \<Rightarrow> None)
      else if typ = RR_SRV then (case d of RdSRV x y port n \<Rightarrow> Some (Some n) | _ \<Rightarrow> None)
      else Some None)"

fun additional_loop ::
  "'n g53 \<Rightarrow> ('t, 'n) zone_nodes \<Rightarrow> ('t, 'n) zone_search \<Rightarrow> ('t, 'n) MemoryZone \<Rightarrow> u16 \<Rightarrow> 'n Rdata list \<Rightarrow> 'n rr_heap \<Rightarrow> ('n rr_heap \<times> nat list) may_panic" where
  "additional_loop G Z S z typ [] h = Some (h, [])"
| "additional_loop G Z S z typ (d # ds) h =
     Option.bind (additional_name typ d) (\<lambda>name.
     Option.bind (case name of None \<Rightarrow> Some (h, []) | Some n \<Rightarrow> getAdditioanlAddrs G Z S z n h) (\<lambda>(h1, as).
     map_option (\<lambda>(h2, bs). (h2, as @ bs)) (additional_loop G Z S z typ ds h1)))"

definition mz_GetAdditional ::
  "'n g53 \<Rightarrow> ('t, 'n) zone_nodes \<Rightarrow> ('t, 'n) zone_search \<Rightarrow> ('t, 'n) MemoryZone \<Rightarrow> find_ctx \<Rightarrow> 'n rr_heap \<Rightarrow> ('n rr_heap \<times> nat list) may_panic" where
  "mz_GetAdditional G Z S z ctx h =
     (if fc_rrset ctx = nil then Some (h, [])
      else Option.bind (hp_at h (fc_rrset ctx)) (\<lambda>r. additional_loop G Z S z (rr_Type r) (rr_Rdatas r) h))"

end
