(* ===== verification/Dynamic_Zone.thy ===== *)
theory Dynamic_Zone
  imports Memory_Zone
begin

text \<open>
  A zone that can be changed while it is served, \<open>resolver/auth/zone/memoryzone/dynamiczone.go\<close>, with
  the updates of \<open>resolver/auth/update.go\<close> and the loading of \<open>resolver/auth/zoneloader.go\<close>. An update works
  on a copy of the zone that replaces it in the end. The lock of the zone is part of the state, since
  a panic leaves it locked: an operation ends, panics or waits for good, and in each case says in
  which state the zone is. Operations do not interleave otherwise, and the cleaning of a replaced
  zone, which runs beside the others, is left out.
\<close>

section \<open>Locks\<close>

text \<open>
  \<open>Leaked\<close> is a lock of a reader that is not released, \<open>Taken\<close> one of a writer or of a writer that
  waits behind a reader; a reader waits for the latter.
\<close>

datatype zone_lock = Free | Leaked | Taken

record ('t, 'n) DynamicZone =
  dz_zone :: "('t, 'n) MemoryZone"
  dz_heap :: "'n rr_heap"
  dz_lock :: zone_lock
  dz_masters :: "string list"
  dz_acls :: "string list"

datatype ('s, 'a) zres = ZDone 's 'a | ZPanic 's | ZBlocked 's

fun bindZ :: "('s, 'a) zres \<Rightarrow> ('s \<Rightarrow> 'a \<Rightarrow> ('s, 'b) zres) \<Rightarrow> ('s, 'b) zres" where
  "bindZ (ZDone s a) f = f s a"
| "bindZ (ZPanic s) f = ZPanic s"
| "bindZ (ZBlocked s) f = ZBlocked s"

definition with_RLock :: "(('t, 'n) DynamicZone \<Rightarrow> ('n rr_heap \<times> 'a) may_panic) \<Rightarrow> ('t, 'n) DynamicZone \<Rightarrow> (('t, 'n) DynamicZone, 'a) zres" where
  "with_RLock f dz =
     (if dz_lock dz = Taken then ZBlocked dz
      else case f dz of None \<Rightarrow> ZPanic (dz\<lparr>dz_lock := Leaked\<rparr>) | Some (h, a) \<Rightarrow> ZDone (dz\<lparr>dz_heap := h\<rparr>) a)"

definition Lock :: "('t, 'n) DynamicZone \<Rightarrow> (('t, 'n) DynamicZone, unit) zres" where
  "Lock dz = (if dz_lock dz = Free then ZDone (dz\<lparr>dz_lock := Taken\<rparr>) () else ZBlocked (dz\<lparr>dz_lock := Taken\<rparr>))"

definition Unlock :: "('t, 'n) DynamicZone \<Rightarrow> ('t, 'n) DynamicZone" where
  "Unlock dz = dz\<lparr>dz_lock := Free\<rparr>"

section \<open>Zones\<close>

definition NewDynamicZone :: "('t, 'n) zone_nodes \<Rightarrow> 'n \<Rightarrow> ('t, 'n) DynamicZone" where
  "NewDynamicZone Z origin =
     \<lparr>dz_zone = newMemoryZone Z origin, dz_heap = empty_heap, dz_lock = Free, dz_masters = [], dz_acls = []\<rparr>"

definition IsMaster :: "('t, 'n) DynamicZone \<Rightarrow> bool" where
  "IsMaster dz \<longleftrightarrow> dz_masters dz = []"

definition Masters :: "('t, 'n) DynamicZone \<Rightarrow> string list" where
  "Masters dz = (if IsMaster dz then [] else dz_masters dz)"

definition SetMasters :: "string list \<Rightarrow> ('t, 'n) DynamicZone \<Rightarrow> (('t, 'n) DynamicZone, unit) zres" where
  "SetMasters masters dz = bindZ (Lock dz) (\<lambda>dz1 _. ZDone (Unlock (dz1\<lparr>dz_masters := masters\<rparr>)) ())"

definition SetAcls :: "string list \<Rightarrow> ('t, 'n) DynamicZone \<Rightarrow> (('t, 'n) DynamicZone, unit) zres" where
  "SetAcls names dz = bindZ (Lock dz) (\<lambda>dz1 _. ZDone (Unlock (dz1\<lparr>dz_acls := names\<rparr>)) ())"

text \<open>
  The readers of the masters and of the lists wait for a writer like every reader; here they are
  the values that are read. \<open>find_acl\<close> is the look-up in the access control lists; no address is
  an update by a command.
\<close>

definition GetUpdator :: "(string \<Rightarrow> ip \<Rightarrow> bool) \<Rightarrow> ip option \<Rightarrow> bool \<Rightarrow> ('t, 'n) DynamicZone \<Rightarrow> bool" where
  "GetUpdator find_acl addr force dz =
     (if force then True
      else if dz_masters dz \<noteq> [] then False
      else case addr of
             None \<Rightarrow> True
           | Some a \<Rightarrow> dz_acls dz = [] \<or> (\<exists>name\<in>set (dz_acls dz). find_acl name a))"

section \<open>Finding\<close>

text \<open>What is found is rotated in place, under the lock of a writer.\<close>

definition rotate_at :: "'n g53 \<Rightarrow> nat \<Rightarrow> 'n rr_heap \<Rightarrow> 'n rr_heap" where
  "rotate_at G a h = h\<lparr>hp_at := (hp_at h)(a := map_option (RRset_RotateRdata G) (hp_at h a))\<rparr>"

definition rotate_all :: "'n g53 \<Rightarrow> nat list \<Rightarrow> ('t, 'n) DynamicZone \<Rightarrow> (('t, 'n) DynamicZone, unit) zres" where
  "rotate_all G as dz =
     (if as = [] then ZDone dz ()
      else bindZ (Lock dz) (\<lambda>dz1 _. ZDone (Unlock (dz1\<lparr>dz_heap := fold (rotate_at G) as (dz_heap dz1)\<rparr>)) ()))"

definition dz_Find ::
  "'n g53 \<Rightarrow> ('t, 'n) zone_nodes \<Rightarrow> ('t, 'n) zone_search \<Rightarrow> 'n \<Rightarrow> u16 \<Rightarrow> FindOption \<Rightarrow> ('t, 'n) DynamicZone \<Rightarrow> (('t, 'n) DynamicZone, find_ctx) zres" where
  "dz_Find G Z S name typ opt dz =
     (if mz_isEmpty Z (dz_zone dz) then ZDone dz (found FRServFail nil [])
      else
        bindZ (with_RLock (\<lambda>d. mz_find G Z S name typ opt (dz_zone d) (dz_heap d)) dz) (\<lambda>dz1 ctx.
        bindZ (rotate_all G (if fc_rrset ctx = nil then [] else [fc_rrset ctx]) dz1) (\<lambda>dz2 _. ZDone dz2 ctx)))"

definition dz_GetAdditional ::
  "'n g53 \<Rightarrow> ('t, 'n) zone_nodes \<Rightarrow> ('t, 'n) zone_search \<Rightarrow> find_ctx \<Rightarrow> ('t, 'n) DynamicZone \<Rightarrow> (('t, 'n) DynamicZone, nat list) zres" where
  "dz_GetAdditional G Z S ctx dz =
     (if fc_type ctx = FRServFail then ZDone dz []
      else
        bindZ (with_RLock (\<lambda>d. mz_GetAdditional G Z S (dz_zone d) ctx (dz_heap d)) dz) (\<lambda>dz1 as.
        bindZ (rotate_all G as dz1) (\<lambda>dz2 _. ZDone dz2 as)))"

section \<open>Transactions\<close>

text \<open>A transaction is the copy that is worked on; the zone is locked while there is one.\<close>

definition Begin :: "('t, 'n) zone_nodes \<Rightarrow> ('t, 'n) DynamicZone \<Rightarrow> (('t, 'n) DynamicZone, ('t, 'n) MemoryZone) zres" where
  "Begin Z dz = bindZ (Lock dz) (\<lambda>dz1 _. ZDone dz1 (mz_clone Z (dz_zone dz1)))"

definition Commit :: "('t, 'n) zone_nodes \<Rightarrow> ('t, 'n) MemoryZone \<Rightarrow> ('t, 'n) DynamicZone \<Rightarrow> ('t, 'n) DynamicZone \<times> zone_error option" where
  "Commit Z tmp dz =
     (case mz_validate Z tmp of
        Some err \<Rightarrow> (Unlock dz, Some err)
      | None \<Rightarrow> (Unlock (dz\<lparr>dz_zone := tmp\<rparr>), None))"

definition RollBack :: "('t, 'n) DynamicZone \<Rightarrow> ('t, 'n) DynamicZone" where
  "RollBack dz = Unlock dz"

section \<open>Updates\<close>

text \<open>One record of an update. A record to add is a new object.\<close>

definition apply_update ::
  "'n g53 \<Rightarrow> 'n rrset_lib \<Rightarrow> ('t, 'n) zone_nodes \<Rightarrow> 'n RRset \<Rightarrow> 'n rr_heap \<times> ('t, 'n) MemoryZone \<Rightarrow> ('t, 'n) zone_run may_panic" where
  "apply_update G R Z rrset s =
     (if rr_Class rrset = CLASS_IN then
        (case new_rrset rrset (fst s) of (p, h) \<Rightarrow> mz_addRRset G R Z p (h, snd s))
      else if rr_Type rrset = RR_ANY then mz_deleteDomain G Z (rr_Name rrset) s
      else if rr_Class rrset = CLASS_ANY then mz_deleteRRset G Z rrset s
      else mz_deleteRr G Z rrset s)"

text \<open>The flags: an SOA was given, and something was changed. An update without effect is passed over.\<close>

fun apply_updates ::
  "'n g53 \<Rightarrow> 'n rrset_lib \<Rightarrow> ('t, 'n) zone_nodes \<Rightarrow> 'n RRset list \<Rightarrow> bool \<times> bool \<Rightarrow> 'n rr_heap \<times> ('t, 'n) MemoryZone
   \<Rightarrow> (('n rr_heap \<times> ('t, 'n) MemoryZone) \<times> (zone_error + bool \<times> bool)) may_panic" where
  "apply_updates G R Z [] flags s = Some (s, Inr flags)"
| "apply_updates G R Z (rrset # rrsets) flags s =
     (case apply_update G R Z rrset s of
        None \<Rightarrow> None
      | Some (s', None) \<Rightarrow> apply_updates G R Z rrsets (fst flags \<or> rr_Type rrset = RR_SOA, True) s'
      | Some (s', Some err) \<Rightarrow>
          if err = ErrNoEffectiveUpdate then apply_updates G R Z rrsets flags s' else Some (s', Inl err))"

text \<open>A panic while the copy is worked on leaves the zone locked; objects made before it are unreachable.\<close>

definition dz_update ::
  "'n g53 \<Rightarrow> 'n rrset_lib \<Rightarrow> ('t, 'n) zone_nodes \<Rightarrow> 'n RRset list \<Rightarrow> ('t, 'n) DynamicZone \<Rightarrow> (('t, 'n) DynamicZone, zone_error option) zres" where
  "dz_update G R Z rrsets dz =
     bindZ (Begin Z dz) (\<lambda>dz1 tmp.
       case apply_updates G R Z rrsets (False, False) (dz_heap dz1, tmp) of
         None \<Rightarrow> ZPanic dz1
       | Some ((h, tmp'), Inl err) \<Rightarrow> ZDone (RollBack (dz1\<lparr>dz_heap := h\<rparr>)) (Some err)
       | Some ((h, tmp'), Inr (explicitUpdateSOA, hasRRModified)) \<Rightarrow>
           if \<not> hasRRModified then ZDone (RollBack (dz1\<lparr>dz_heap := h\<rparr>)) None
           else (case (if explicitUpdateSOA then Some (h, tmp') else mz_increaseSerialNumber Z (h, tmp')) of
                   None \<Rightarrow> ZPanic dz1
                 | Some (h', tmp'') \<Rightarrow>
                     (case Commit Z tmp'' (dz1\<lparr>dz_heap := h'\<rparr>) of (dz2, err) \<Rightarrow> ZDone dz2 err)))"

section \<open>Loading\<close>

fun load_rrsets ::
  "'n g53 \<Rightarrow> 'n rrset_lib \<Rightarrow> ('t, 'n) zone_nodes \<Rightarrow> 'n RRset list \<Rightarrow> 'n rr_heap \<times> ('t, 'n) MemoryZone
   \<Rightarrow> (('n rr_heap \<times> ('t, 'n) MemoryZone) \<times> zone_error option) may_panic" where
  "load_rrsets G R Z [] s = Some (s, None)"
| "load_rrsets G R Z (rrset # rrsets) s =
     (case new_rrset rrset (fst s) of (p, h) \<Rightarrow>
        (case mz_addRRset G R Z p (h, snd s) of
           None \<Rightarrow> None
         | Some (s', None) \<Rightarrow> load_rrsets G R Z rrsets s'
         | Some (s', Some err) \<Rightarrow>
             if err = ErrNoEffectiveUpdate then load_rrsets G R Z rrsets s' else Some (s', Some err)))"

text \<open>
  \<open>rrsets\<close> are what is sent until the channel is closed, or until the sender gives up (\<open>aborted\<close>). The
  lock is taken only to put the new zone in place.
\<close>

definition dz_Load ::
  "'n g53 \<Rightarrow> 'n rrset_lib \<Rightarrow> ('t, 'n) zone_nodes \<Rightarrow> 'n RRset list \<Rightarrow> bool \<Rightarrow> ('t, 'n) DynamicZone \<Rightarrow> (('t, 'n) DynamicZone, zone_error option) zres" where
  "dz_Load G R Z rrsets aborted dz =
     (case load_rrsets G R Z rrsets (dz_heap dz, newMemoryZone Z (mz_origin (dz_zone dz))) of
        None \<Rightarrow> ZPanic dz
      | Some (s, Some err) \<Rightarrow> ZDone dz (Some err)
      | Some ((h, z), None) \<Rightarrow>
          if aborted then ZDone dz (Some ErrAbortLoad)
          else (case mz_validate Z z of
                  Some err \<Rightarrow> ZDone dz (Some err)
                | None \<Rightarrow> bindZ (Lock dz) (\<lambda>dz1 _. ZDone (Unlock (dz1\<lparr>dz_zone := z, dz_heap := h\<rparr>)) None)))"

text \<open>\<open>parse\<close> is \<open>RRsetFromString\<close>; lines that cannot be read and types that are not served are skipped.\<close>

definition parseZoneContent :: "(string \<Rightarrow> string + 'n RRset) \<Rightarrow> string \<Rightarrow> 'n RRset list" where
  "parseZoneContent parse content =
     concat (map (\<lambda>l. let line = TrimRight l [CHR 0x0D, CHR 0x0A, CHR '' ''] in
                    if line = [] then []
                    else case parse line of
                           Inl err \<Rightarrow> []
                         | Inr rrset \<Rightarrow> if IsRRsetTypeSupport (rr_Type rrset) then [rrset] else [])
             (split_char CHR 0x0A content))"

definition loadZone ::
  "'n g53 \<Rightarrow> 'n rrset_lib \<Rightarrow> ('t, 'n) zone_nodes \<Rightarrow> (string \<Rightarrow> string + 'n RRset) \<Rightarrow> 'n \<Rightarrow> string \<Rightarrow> ('t, 'n) DynamicZone may_panic" where
  "loadZone G R Z parse origin content =
     (case dz_Load G R Z (parseZoneContent parse content) False (NewDynamicZone Z origin) of
        ZDone dz err \<Rightarrow> Some dz
      | _ \<Rightarrow> None)"

text \<open>
  The answers of a transfer as they are read: each is an error or a message. What is sent on is the
  data without the last SOA; the result says whether the transfer failed. Reading on after the last
  message is the error of a closed connection.
\<close>

fun axfr_loop :: "bool \<Rightarrow> (string + 'n Message) list \<Rightarrow> 'n RRset list \<times> bool" where
  "axfr_loop firstValid [] = ([], True)"
| "axfr_loop firstValid (Inl err # ms) = ([], True)"
| "axfr_loop firstValid (Inr m # ms) =
     (case m_Answer m of
        [] \<Rightarrow> ([], True)
      | r # rs \<Rightarrow>
          if \<not> firstValid \<and> rr_Type r \<noteq> RR_SOA then ([], True)
          else if rr_Type (last (r # rs)) = RR_SOA then (butlast (r # rs), False)
          else (case axfr_loop True ms of (out, failed) \<Rightarrow> ((r # rs) @ out, failed)))"

definition doAXFR :: "(string + (string + 'n Message) list) \<Rightarrow> 'n RRset list \<times> bool" where
  "doAXFR conn = (case conn of Inl err \<Rightarrow> ([], True) | Inr ms \<Rightarrow> axfr_loop False ms)"

text \<open>\<open>dial\<close> is the connection to a master with what is read from it.\<close>

fun load_masters ::
  "'n g53 \<Rightarrow> 'n rrset_lib \<Rightarrow> ('t, 'n) zone_nodes \<Rightarrow> (string \<Rightarrow> string + (string + 'n Message) list) \<Rightarrow> string list \<Rightarrow> ('t, 'n) DynamicZone
   \<Rightarrow> ('t, 'n) DynamicZone may_panic" where
  "load_masters G R Z dial [] dz = Some dz"
| "load_masters G R Z dial (master # masters) dz =
     (case doAXFR (dial master) of (rrsets, failed) \<Rightarrow>
        (case dz_Load G R Z rrsets failed dz of
           ZDone dz' None \<Rightarrow> Some dz'
         | ZDone dz' (Some err) \<Rightarrow> load_masters G R Z dial masters dz'
         | _ \<Rightarrow> None))"

definition loadZoneFromMaster ::
  "'n g53 \<Rightarrow> 'n rrset_lib \<Rightarrow> ('t, 'n) zone_nodes \<Rightarrow> (string \<Rightarrow> string + (string + 'n Message) list) \<Rightarrow> 'n \<Rightarrow> string list \<Rightarrow> ('t, 'n) DynamicZone may_panic" where
  "loadZoneFromMaster G R Z dial origin masters =
     load_masters G R Z dial masters ((NewDynamicZone Z origin)\<lparr>dz_masters := masters\<rparr>)"

section \<open>The tree\<close>

text \<open>
  What is relied on of the tree: a node is found under every spelling of its name; an operation on a
  node changes nothing at other names; a removed node has no data; a copy has the same nodes.
\<close>

definition zone_tree_laws :: "'n g53 \<Rightarrow> ('t, 'n) zone_nodes \<Rightarrow> bool" where
  "zone_tree_laws G Z \<longleftrightarrow>
     (\<forall>n. zt_Data Z (zt_New Z) n = None) \<and>
     (\<forall>t m n. Name_Equals G m n \<longrightarrow> zt_Data Z t m = zt_Data Z t n) \<and>
     (\<forall>t n t'. zt_Insert Z t n = Inr t' \<longrightarrow>
        zt_Exact Z t' n \<and> (\<forall>m f. zt_Data Z t' m = zt_Data Z t m \<and> zt_Flag Z t' m f = zt_Flag Z t m f)) \<and>
     (\<forall>t n d. zt_Exact Z t n \<longrightarrow>
        (\<forall>m f. zt_Data Z (zt_SetData Z t n d) m = (if Name_Equals G m n then Some d else zt_Data Z t m) \<and>
               zt_Flag Z (zt_SetData Z t n d) m f = zt_Flag Z t m f \<and> zt_Exact Z (zt_SetData Z t n d) m = zt_Exact Z t m)) \<and>
     (\<forall>t n g b m. zt_Data Z (zt_SetFlag Z t n g b) m = zt_Data Z t m \<and> zt_Exact Z (zt_SetFlag Z t n g b) m = zt_Exact Z t m) \<and>
     (\<forall>t n m. zt_Data Z (zt_Remove Z t n) m = (if Name_Equals G m n then None else zt_Data Z t m)) \<and>
     (\<forall>t f m g. zt_Data Z (zt_Clone Z t f) m = map_option f (zt_Data Z t m) \<and>
        zt_Flag Z (zt_Clone Z t f) m g = zt_Flag Z t m g \<and> zt_Exact Z (zt_Clone Z t f) m = zt_Exact Z t m)"

lemma zone_treeD:
  assumes "zone_tree_laws G Z"
  shows "zt_Data Z (zt_New Z) n = None"
    and "Name_Equals G m n \<Longrightarrow> zt_Data Z t m = zt_Data Z t n"
    and "zt_Insert Z t n = Inr t' \<Longrightarrow> zt_Exact Z t' n"
    and "zt_Insert Z t n = Inr t' \<Longrightarrow> zt_Data Z t' m = zt_Data Z t m"
    and "zt_Insert Z t n = Inr t' \<Longrightarrow> zt_Flag Z t' m f = zt_Flag Z t m f"
    and "zt_Exact Z t n \<Longrightarrow> zt_Data Z (zt_SetData Z t n d) m = (if Name_Equals G m n then Some d else zt_Data Z t m)"
    and "zt_Exact Z t n \<Longrightarrow> zt_Flag Z (zt_SetData Z t n d) m f = zt_Flag Z t m f"
    and "zt_Exact Z t n \<Longrightarrow> zt_Exact Z (zt_SetData Z t n d) m = zt_Exact Z t m"
    and "zt_Data Z (zt_SetFlag Z t n g b) m = zt_Data Z t m"
    and "zt_Exact Z (zt_SetFlag Z t n g b) m = zt_Exact Z t m"
    and "zt_Data Z (zt_Remove Z t n) m = (if Name_Equals G m n then None else zt_Data Z t m)"
    and "zt_Data Z (zt_Clone Z t c) m = map_option c (zt_Data Z t m)"
    and "zt_Flag Z (zt_Clone Z t c) m g' = zt_Flag Z t m g'"
    and "zt_Exact Z (zt_Clone Z t c) m = zt_Exact Z t m"
  using assms unfolding zone_tree_laws_def by (blast | presburger)+

section \<open>Aliases are alone\<close>

definition node_ok :: "NameNode \<Rightarrow> bool" where
  "node_ok d \<longleftrightarrow> distinct (map fst d) \<and> (map_of d RR_CNAME \<noteq> None \<longrightarrow> length d = 1)"

definition zone_ok :: "('t, 'n) zone_nodes \<Rightarrow> ('t, 'n) MemoryZone \<Rightarrow> bool" where
  "zone_ok Z z \<longleftrightarrow> (\<forall>n d. zt_Data Z (mz_domains z) n = Some d \<longrightarrow> node_ok d)"

lemma node_ok_single: "node_ok [(t, p)]"
  by (simp add: node_ok_def)

lemma length_update: "distinct (map fst d) \<Longrightarrow> length (AList.update k v d) = (if k \<in> fst ` set d then length d else Suc (length d))"
  by (induction d) auto

lemma node_ok_add:
  assumes "node_ok d" "checkRRsetCouldBeAdded d r = None"
  shows "node_ok (AList.update (rr_Type r) a d)"
proof (cases "rr_Type r = RR_CNAME")
  case True
  then have "length d \<le> 1" "RR_CNAME \<in> fst ` set d"
    using assms(2) by (auto simp: checkRRsetCouldBeAdded_def map_of_eq_None_iff split: if_splits)
  then have "length d = 1" by (cases d) auto
  then show ?thesis using assms(1) True \<open>RR_CNAME \<in> fst ` set d\<close>
    by (simp add: node_ok_def distinct_update length_update)
next
  case False
  then show ?thesis using assms by (auto simp: node_ok_def checkRRsetCouldBeAdded_def distinct_update update_conv' split: if_splits)
qed

lemma node_ok_update_same:
  "node_ok d \<Longrightarrow> map_of d t = Some b \<Longrightarrow> node_ok (AList.update t a d)"
  by (auto simp: node_ok_def distinct_update length_update update_conv' dest: map_of_SomeD intro: rev_image_eqI)

lemma node_ok_delete: "node_ok d \<Longrightarrow> AList.delete t d \<noteq> [] \<Longrightarrow> node_ok (AList.delete t d)"
  using length_delete_le [of t d]
  by (auto simp: node_ok_def distinct_delete delete_conv' le_Suc_eq split: if_splits)

lemma node_clone_id [simp]: "node_clone = (\<lambda>n. n)"
  by (rule ext) (simp add: node_clone_def)

text \<open>A step keeps the rule if every node is an old one or obeys it.\<close>

lemma zone_ok_step:
  "zone_ok Z z \<Longrightarrow> (\<And>n d. zt_Data Z (mz_domains z') n = Some d \<Longrightarrow> zt_Data Z (mz_domains z) n = Some d \<or> node_ok d) \<Longrightarrow> zone_ok Z z'"
  unfolding zone_ok_def by blast

lemma newWithDomains_data:
  "zone_tree_laws G Z \<Longrightarrow> zt_Data Z (mz_domains (newWithDomains Z origin t)) n = zt_Data Z t n"
  by (auto simp: newWithDomains_def zone_treeD(4) split: sum.split)

lemma zone_ok_new: "zone_tree_laws G Z \<Longrightarrow> zone_ok Z (newMemoryZone Z origin)"
  by (simp add: zone_ok_def newMemoryZone_def newWithDomains_data zone_treeD(1))

lemma clone_data: "zone_tree_laws G Z \<Longrightarrow> zt_Data Z (mz_domains (mz_clone Z z)) n = zt_Data Z (mz_domains z) n"
  by (simp add: mz_clone_def newWithDomains_data zone_treeD(12) option.map_ident)

lemma clone_origin [simp]: "mz_origin (mz_clone Z z) = mz_origin z"
  by (simp add: mz_clone_def newWithDomains_def)

lemma markWildcardParent_data:
  "zone_tree_laws G Z \<Longrightarrow> markWildcardParent G Z name t = Inr t' \<Longrightarrow> zt_Data Z t' n = zt_Data Z t n"
  by (auto simp: markWildcardParent_def Let_def zone_treeD(4,9) split: sum.splits)

lemma set_marks_data:
  assumes "zone_tree_laws G Z" "set_marks G Z rrset h z = ((h', z'), err)"
  shows "zt_Data Z (mz_domains z') n = zt_Data Z (mz_domains z) n" "mz_origin z' = mz_origin z" "h' = h"
  using assms(2) markWildcardParent_data [OF assms(1)]
  by (auto simp: set_marks_def Let_def zone_treeD(9) [OF assms(1)] split: if_splits sum.splits)

text \<open>Objects are made, but those there are stay as they are.\<close>

definition extends :: "'n rr_heap \<Rightarrow> 'n rr_heap \<Rightarrow> bool" where
  "extends h h' \<longleftrightarrow> hp_next h \<le> hp_next h' \<and> (\<forall>a < hp_next h. hp_at h' a = hp_at h a)"

lemma extends_refl [simp]: "extends h h"
  by (simp add: extends_def)

lemma extends_trans: "extends h h1 \<Longrightarrow> extends h1 h2 \<Longrightarrow> extends h h2"
  by (auto simp: extends_def)

lemma extends_new: "new_rrset r h = (a, h') \<Longrightarrow> extends h h'"
  by (auto simp: new_rrset_def extends_def)

lemma merge_rrset_Stored:
  "merge_rrset R old rrset d0 h = Stored h' d \<Longrightarrow> extends h h' \<and> (\<exists>a. d = AList.update (rr_Type rrset) a d0)"
  by (auto simp: merge_rrset_def split: prod.splits if_splits dest: extends_new)

lemma add_to_node_Stored:
  assumes "add_to_node R p rrset node h = Some (Stored h' d)"
  shows "extends h h' \<and> (node = None \<and> d = [(rr_Type rrset, p)] \<or>
    (\<exists>d0 a. node = Some d0 \<and> checkRRsetCouldBeAdded d0 rrset = None \<and> d = AList.update (rr_Type rrset) a d0))"
  using assms
  by (auto simp: add_to_node_def Let_def option_bind_Some_iff split: option.splits if_splits dest: merge_rrset_Stored)

lemma zone_ok_SetData:
  assumes "zone_tree_laws G Z" "zt_Exact Z t name" "\<And>n. zt_Data Z t n = zt_Data Z (mz_domains z) n" "zone_ok Z z" "node_ok d"
    "\<And>n. zt_Data Z (mz_domains z') n = zt_Data Z (zt_SetData Z t name d) n"
  shows "zone_ok Z z'"
  using assms(4) by (rule zone_ok_step) (use assms in \<open>auto simp: zone_treeD(6) split: if_splits\<close>)

lemma addRRset_ok:
  assumes laws: "zone_tree_laws G Z" and run: "mz_addRRset G R Z p (h, z) = Some ((h', z'), err)" and ok: "zone_ok Z z"
  shows "zone_ok Z z' \<and> mz_origin z' = mz_origin z \<and> extends h h'"
proof -
  obtain rrset where r: "hp_at h p = Some rrset" using run by (auto simp: mz_addRRset_def option_bind_Some_iff)
  show ?thesis
  proof (cases "checkRRsetValid G z rrset = None \<and> \<not> isl (zt_Insert Z (mz_domains z) (rr_Name rrset))")
    case False
    then show ?thesis using run r ok by (auto simp: mz_addRRset_def split: option.splits sum.splits)
  next
    case True
    then obtain t where t: "zt_Insert Z (mz_domains z) (rr_Name rrset) = Inr t" by (cases "zt_Insert Z (mz_domains z) (rr_Name rrset)") auto
    note D = zone_treeD(4) [OF laws t]
    obtain res where res: "add_to_node R p rrset (zt_Data Z t (rr_Name rrset)) h = Some res"
      and out: "(case res of Refused e \<Rightarrow> ((h, z\<lparr>mz_domains := t\<rparr>), Some e) | Ignored \<Rightarrow> ((h, z\<lparr>mz_domains := t\<rparr>), None)
        | Stored h1 d \<Rightarrow> set_marks G Z rrset h1 (z\<lparr>mz_domains := zt_SetData Z t (rr_Name rrset) d\<rparr>)) = ((h', z'), err)"
      using run r t True by (auto simp: mz_addRRset_def)
    show ?thesis
    proof (cases res)
      case (Stored h1 d)
      have S: "extends h h1 \<and> (zt_Data Z t (rr_Name rrset) = None \<and> d = [(rr_Type rrset, p)] \<or>
        (\<exists>d0 a. zt_Data Z t (rr_Name rrset) = Some d0 \<and> checkRRsetCouldBeAdded d0 rrset = None \<and> d = AList.update (rr_Type rrset) a d0))"
        using add_to_node_Stored res Stored by blast
      have "node_ok d" using S ok by (auto simp: D zone_ok_def node_ok_single intro: node_ok_add)
      moreover note M = set_marks_data [OF laws, of rrset h1 "z\<lparr>mz_domains := zt_SetData Z t (rr_Name rrset) d\<rparr>" h' z' err]
      ultimately show ?thesis
        using out Stored S zone_ok_SetData [OF laws zone_treeD(3) [OF laws t] D ok] by simp
    qed (use out ok in \<open>auto simp: zone_ok_def D\<close>)
  qed
qed

lemma deleteNode_data:
  assumes "zone_tree_laws G Z"
  shows "zt_Data Z (mz_domains (deleteNode G Z name z)) n = (if Name_Equals G n name then None else zt_Data Z (mz_domains z) n)"
  by (simp add: deleteNode_def unmarkWildcardParent_def Let_def zone_treeD(9,11) [OF assms])

lemma put_node_ok:
  assumes laws: "zone_tree_laws G Z" and "zone_ok Z z" "zt_Exact Z (mz_domains z) name" "d \<noteq> [] \<Longrightarrow> node_ok d"
  shows "zone_ok Z (put_node G Z name d z)"
  using assms(2)
  by (rule zone_ok_step)
    (use assms(3,4) in \<open>auto simp: put_node_def deleteNode_data [OF laws] zone_treeD(6) [OF laws] split: if_splits\<close>)

lemma put_node_origin [simp]: "mz_origin (put_node G Z name d z) = mz_origin z"
  by (simp add: put_node_def deleteNode_def Let_def)

lemma deleteNode_origin [simp]: "mz_origin (deleteNode G Z name z) = mz_origin z"
  by (simp add: deleteNode_def Let_def)

lemma getNode_Inr: "getNode Z z name = Inr d \<Longrightarrow> zt_Exact Z (mz_domains z) name \<and> zt_Data Z (mz_domains z) name = Some d"
  by (auto simp: getNode_def split: if_splits option.splits)

lemma zone_okD: "zone_ok Z z \<Longrightarrow> zt_Data Z (mz_domains z) n = Some d \<Longrightarrow> node_ok d"
  unfolding zone_ok_def by blast

lemma deleteRRset_ok:
  assumes "zone_tree_laws G Z" "mz_deleteRRset G Z rrset (h, z) = Some ((h', z'), err)" "zone_ok Z z"
  shows "zone_ok Z z' \<and> mz_origin z' = mz_origin z \<and> h' = h"
  using assms(2,3)
  by (auto simp: mz_deleteRRset_def option_bind_Some_iff split: option.splits sum.splits if_splits
      dest!: getNode_Inr intro!: put_node_ok [OF assms(1)] node_ok_delete intro: zone_okD)

lemma deleteRr_cases:
  assumes "mz_deleteRr G Z rrset (h, z) = Some ((h', z'), err)"
  shows "h' = h \<and> z' = z \<or>
    (\<exists>d a. getNode Z z (rr_Name rrset) = Inr d \<and> map_of d (rr_Type rrset) = Some a \<and>
       (h' = h \<and> z' = put_node G Z (rr_Name rrset) (AList.delete (rr_Type rrset) d) z \<or>
        (\<exists>r b. new_rrset r h = (b, h') \<and> z' = put_node G Z (rr_Name rrset) (AList.update (rr_Type rrset) b d) z)))"
proof -
  obtain chk where chk: "checkRRsetCouldBeDeleted G Z h z rrset = Some chk"
    using assms by (auto simp: mz_deleteRr_def option_bind_Some_iff)
  show ?thesis
  proof (cases "chk = None \<and> (\<exists>d a. getNode Z z (rr_Name rrset) = Inr d \<and> map_of d (rr_Type rrset) = Some a)")
    case True
    then obtain d a where d: "getNode Z z (rr_Name rrset) = Inr d" "map_of d (rr_Type rrset) = Some a" by blast
    then obtain old where old: "hp_at h a = Some old"
      using assms chk True by (cases "hp_at h a") (simp_all add: mz_deleteRr_def)
    let ?left = "rdatasDiff G (rr_Rdatas old) (rr_Rdatas rrset)"
    obtain b h1 where b: "new_rrset (old\<lparr>rr_Rdatas := ?left\<rparr>) h = (b, h1)" by fastforce
    have "(h', z') = (if ?left = [] then (h, put_node G Z (rr_Name rrset) (AList.delete (rr_Type rrset) d) z)
        else (h1, put_node G Z (rr_Name rrset) (AList.update (rr_Type rrset) b d) z))"
      using assms chk True d old b by (simp add: mz_deleteRr_def Let_def split: if_splits)
    then show ?thesis using d b by (auto split: if_splits)
  next
    case False
    then show ?thesis using assms chk by (auto simp: mz_deleteRr_def split: option.splits sum.splits)
  qed
qed

lemma deleteRr_ok:
  assumes "zone_tree_laws G Z" "mz_deleteRr G Z rrset (h, z) = Some ((h', z'), err)" "zone_ok Z z"
  shows "zone_ok Z z' \<and> mz_origin z' = mz_origin z \<and> extends h h'"
  using deleteRr_cases [OF assms(2)] assms(3)
  by (auto dest!: getNode_Inr intro!: put_node_ok [OF assms(1)] node_ok_delete intro: zone_okD node_ok_update_same extends_new)

lemma deleteDomain_ok:
  assumes "zone_tree_laws G Z" "mz_deleteDomain G Z name (h, z) = Some ((h', z'), err)" "zone_ok Z z"
  shows "zone_ok Z z' \<and> mz_origin z' = mz_origin z \<and> h' = h"
proof -
  have "zone_ok Z (z\<lparr>mz_domains := zt_SetData Z (mz_domains z) name [(RR_SOA, a), (RR_NS, b)]\<rparr>)"
    if "zt_Exact Z (mz_domains z) name" for a b
    by (rule zone_ok_SetData [OF assms(1) that refl assms(3)]) (simp_all add: node_ok_def rr_types)
  moreover have "zone_ok Z (deleteNode G Z name z)"
    using assms(3) by (rule zone_ok_step) (simp add: deleteNode_data [OF assms(1)] split: if_splits)
  ultimately show ?thesis
    using assms(2,3) by (auto simp: mz_deleteDomain_def Let_def split: if_splits sum.splits dest!: getNode_Inr)
qed

lemma apply_update_ok:
  assumes "zone_tree_laws G Z" "apply_update G R Z rrset (h, z) = Some ((h', z'), err)" "zone_ok Z z"
  shows "zone_ok Z z' \<and> mz_origin z' = mz_origin z \<and> extends h h'"
proof (cases "rr_Class rrset = CLASS_IN")
  case True
  obtain p h1 where n: "new_rrset rrset h = (p, h1)" by fastforce
  then have "mz_addRRset G R Z p (h1, z) = Some ((h', z'), err)" using assms(2) True by (simp add: apply_update_def)
  from addRRset_ok [OF assms(1) this assms(3)] show ?thesis using extends_trans [OF extends_new [OF n]] by blast
next
  case False
  then show ?thesis
    using assms(2)
    by (auto simp: apply_update_def split: if_splits
        dest!: deleteRRset_ok [OF assms(1) _ assms(3)] deleteRr_ok [OF assms(1) _ assms(3)] deleteDomain_ok [OF assms(1) _ assms(3)])
qed

lemma apply_updates_ok:
  assumes laws: "zone_tree_laws G Z"
  shows "apply_updates G R Z rrsets flags (h, z) = Some ((h', z'), res) \<Longrightarrow> zone_ok Z z \<Longrightarrow>
    zone_ok Z z' \<and> mz_origin z' = mz_origin z \<and> extends h h'"
proof (induction rrsets arbitrary: flags h z)
  case (Cons rrset rrsets)
  obtain h1 z1 err where s1: "apply_update G R Z rrset (h, z) = Some ((h1, z1), err)"
    using Cons.prems(1) by (auto split: option.splits)
  note ok = apply_update_ok [OF laws s1 Cons.prems(2)]
  have "(h1, z1) = (h', z') \<or> apply_updates G R Z rrsets flags (h1, z1) = Some ((h', z'), res) \<or>
      apply_updates G R Z rrsets (fst flags \<or> rr_Type rrset = RR_SOA, True) (h1, z1) = Some ((h', z'), res)"
    using Cons.prems(1) s1 by (auto split: option.splits if_splits)
  then show ?case
    using ok Cons.IH [of flags h1 z1] Cons.IH [of "(fst flags \<or> rr_Type rrset = RR_SOA, True)" h1 z1] extends_trans [of h h1 h'] by auto
qed simp

lemma load_rrsets_ok:
  assumes laws: "zone_tree_laws G Z"
  shows "load_rrsets G R Z rrsets (h, z) = Some ((h', z'), res) \<Longrightarrow> zone_ok Z z \<Longrightarrow>
    zone_ok Z z' \<and> mz_origin z' = mz_origin z \<and> extends h h'"
proof (induction rrsets arbitrary: h z)
  case (Cons rrset rrsets)
  obtain p h0 where n: "new_rrset rrset h = (p, h0)" by fastforce
  obtain h1 z1 err where s1: "mz_addRRset G R Z p (h0, z) = Some ((h1, z1), err)"
    using Cons.prems(1) n by (auto split: option.splits)
  note ok = addRRset_ok [OF laws s1 Cons.prems(2)]
  have "(h1, z1) = (h', z') \<or> load_rrsets G R Z rrsets (h1, z1) = Some ((h', z'), res)"
    using Cons.prems(1) n s1 by (auto split: option.splits if_splits)
  moreover have "extends h h1" using extends_trans [OF extends_new [OF n]] ok by blast
  ultimately show ?case using ok Cons.IH [of h1 z1] extends_trans [of h h1 h'] by auto
qed simp

section \<open>Served zones\<close>

fun state_of :: "('s, 'a) zres \<Rightarrow> 's" where
  "state_of (ZDone s a) = s" | "state_of (ZPanic s) = s" | "state_of (ZBlocked s) = s"

datatype 'n zone_op = OpUpdate "'n RRset list" | OpLoad "'n RRset list" bool | OpFind 'n u16 FindOption | OpAdditional find_ctx

fun zone_op_run ::
  "'n g53 \<Rightarrow> 'n rrset_lib \<Rightarrow> ('t, 'n) zone_nodes \<Rightarrow> ('t, 'n) zone_search \<Rightarrow> 'n zone_op \<Rightarrow> ('t, 'n) DynamicZone \<Rightarrow> ('t, 'n) DynamicZone" where
  "zone_op_run G R Z S (OpUpdate rrsets) dz = state_of (dz_update G R Z rrsets dz)"
| "zone_op_run G R Z S (OpLoad rrsets aborted) dz = state_of (dz_Load G R Z rrsets aborted dz)"
| "zone_op_run G R Z S (OpFind name typ opt) dz = state_of (dz_Find G Z S name typ opt dz)"
| "zone_op_run G R Z S (OpAdditional ctx) dz = state_of (dz_GetAdditional G Z S ctx dz)"

definition served :: "('t, 'n) zone_nodes \<Rightarrow> 'n \<Rightarrow> ('t, 'n) DynamicZone \<Rightarrow> bool" where
  "served Z origin dz \<longleftrightarrow>
     zone_ok Z (dz_zone dz) \<and> mz_origin (dz_zone dz) = origin \<and>
     (mz_validate Z (dz_zone dz) = None \<or> dz_zone dz = newMemoryZone Z origin)"

lemma Lock_zone: "dz_zone (state_of (Lock dz)) = dz_zone dz"
  by (simp add: Lock_def)

lemma rotate_all_zone: "dz_zone (state_of (rotate_all G as dz)) = dz_zone dz"
  by (simp add: rotate_all_def Lock_def Unlock_def)

lemma with_RLock_zone: "dz_zone (state_of (with_RLock f dz)) = dz_zone dz"
  by (simp add: with_RLock_def split: option.split prod.split)

lemma state_of_bindZ:
  assumes "\<And>s a. m = ZDone s a \<Longrightarrow> dz_zone (state_of (f s a)) = dz_zone s"
  shows "dz_zone (state_of (bindZ m f)) = dz_zone (state_of m)"
  using assms by (cases m) auto

lemma Find_zone: "dz_zone (state_of (dz_Find G Z S name typ opt dz)) = dz_zone dz"
  by (simp add: dz_Find_def state_of_bindZ rotate_all_zone with_RLock_zone)

lemma GetAdditional_zone: "dz_zone (state_of (dz_GetAdditional G Z S ctx dz)) = dz_zone dz"
  by (simp add: dz_GetAdditional_def state_of_bindZ rotate_all_zone with_RLock_zone)

lemma zone_ok_clone: "zone_tree_laws G Z \<Longrightarrow> zone_ok Z z \<Longrightarrow> zone_ok Z (mz_clone Z z)"
  by (simp add: zone_ok_def clone_data)

lemma update_zone:
  assumes laws: "zone_tree_laws G Z" and ok: "zone_ok Z (dz_zone dz)"
  shows "dz_zone (state_of (dz_update G R Z rrsets dz)) = dz_zone dz \<or>
    (zone_ok Z (dz_zone (state_of (dz_update G R Z rrsets dz))) \<and>
     mz_origin (dz_zone (state_of (dz_update G R Z rrsets dz))) = mz_origin (dz_zone dz) \<and>
     mz_validate Z (dz_zone (state_of (dz_update G R Z rrsets dz))) = None)"
proof (cases "dz_lock dz = Free")
  case False
  then show ?thesis by (simp add: dz_update_def Begin_def Lock_def)
next
  case True
  let ?c = "mz_clone Z (dz_zone dz)"
  note U = apply_updates_ok [OF laws _ zone_ok_clone [OF laws ok]]
  show ?thesis
  proof (cases "apply_updates G R Z rrsets (False, False) (dz_heap dz, ?c)")
    case None
    then show ?thesis using True by (simp add: dz_update_def Begin_def Lock_def)
  next
    case (Some r)
    then obtain h z res where r: "apply_updates G R Z rrsets (False, False) (dz_heap dz, ?c) = Some ((h, z), res)" by (cases r) auto
    have z: "zone_ok Z z" "mz_origin z = mz_origin (dz_zone dz)" using U [OF r] by simp_all
    have "z2 = z" if "mz_increaseSerialNumber Z (h, z) = Some (h2, z2)" for h2 z2
      using that by (auto simp: mz_increaseSerialNumber_def option_bind_Some_iff)
    then show ?thesis using True r z
      by (auto simp: dz_update_def Begin_def Lock_def RollBack_def Unlock_def Commit_def split: sum.split option.split prod.split)
  qed
qed

lemma load_zone:
  assumes laws: "zone_tree_laws G Z"
  shows "dz_zone (state_of (dz_Load G R Z rrsets aborted dz)) = dz_zone dz \<or>
    (zone_ok Z (dz_zone (state_of (dz_Load G R Z rrsets aborted dz))) \<and>
     mz_origin (dz_zone (state_of (dz_Load G R Z rrsets aborted dz))) = mz_origin (dz_zone dz) \<and>
     mz_validate Z (dz_zone (state_of (dz_Load G R Z rrsets aborted dz))) = None)"
proof -
  let ?new = "newMemoryZone Z (mz_origin (dz_zone dz))"
  have o: "mz_origin ?new = mz_origin (dz_zone dz)" by (simp add: newMemoryZone_def newWithDomains_def)
  note L = load_rrsets_ok [OF laws _ zone_ok_new [OF laws]]
  show ?thesis
    by (auto simp: dz_Load_def Lock_def Unlock_def o split: option.split prod.split dest!: L)
qed

lemma served_step:
  assumes "zone_tree_laws G Z" "served Z origin dz"
  shows "served Z origin (zone_op_run G R Z S op dz)"
proof (cases op)
  case (OpUpdate rrsets)
  then show ?thesis using update_zone [OF assms(1), of dz R rrsets] assms(2) by (auto simp: served_def)
next
  case (OpLoad rrsets aborted)
  then show ?thesis using load_zone [OF assms(1), of R rrsets aborted dz] assms(2) by (auto simp: served_def)
qed (use assms(2) in \<open>simp_all add: served_def Find_zone GetAdditional_zone\<close>)

end
