(* ===== verification/Zone_Service.thy ===== *)
theory Zone_Service
  imports Dynamic_Zone
begin

text \<open>
  What the zones of \<open>resolver/auth/\<close> promise to the clients and to those who update them: which data a
  served zone has, that what an update adds is found, what a failed update leaves behind, and two ways
  in which a zone stops to answer or to be updated. The search of the tree is specified first, and a
  reference tree at the end shows that the assumptions on the library can be met.
\<close>

section \<open>The search\<close>

text \<open>The callback is called at the flagged nodes above the name; a node of the name is found.\<close>

definition zone_search_laws :: "'n g53 \<Rightarrow> ('t, 'n) zone_nodes \<Rightarrow> ('t, 'n) zone_search \<Rightarrow> bool" where
  "zone_search_laws G Z S \<longleftrightarrow>
     (\<forall>t n c. zt_Flag Z t c NF_CALLBACK \<longrightarrow> Name_IsSubDomain G n c \<longrightarrow> \<not> Name_Equals G n c \<longrightarrow>
        (\<exists>c'\<in>set (zs_Cuts S t n). Name_Equals G c' c)) \<and>
     (\<forall>t n c. c \<in> set (zs_Cuts S t n) \<longrightarrow> zt_Flag Z t c NF_CALLBACK \<and> Name_IsSubDomain G n c) \<and>
     (\<forall>t n. zt_Exact Z t n \<longrightarrow> sx_match (zs_SearchExt S t n) = ZExact \<and> Name_Equals G (sx_node (zs_SearchExt S t n)) n)"

lemma zone_searchD:
  assumes "zone_search_laws G Z S"
  shows "zt_Flag Z t c NF_CALLBACK \<Longrightarrow> Name_IsSubDomain G n c \<Longrightarrow> \<not> Name_Equals G n c \<Longrightarrow> \<exists>c'\<in>set (zs_Cuts S t n). Name_Equals G c' c"
    and "c \<in> set (zs_Cuts S t n) \<Longrightarrow> zt_Flag Z t c NF_CALLBACK"
    and "c \<in> set (zs_Cuts S t n) \<Longrightarrow> Name_IsSubDomain G n c"
    and "zt_Exact Z t n \<Longrightarrow> sx_match (zs_SearchExt S t n) = ZExact"
    and "zt_Exact Z t n \<Longrightarrow> Name_Equals G (sx_node (zs_SearchExt S t n)) n"
  using assms unfolding zone_search_laws_def by blast+

section \<open>Updates of one record\<close>

text \<open>A zone that is served, is not locked, and has an SOA whose serial number can be increased.\<close>

definition updatable :: "('t, 'n) zone_nodes \<Rightarrow> ('t, 'n) DynamicZone \<Rightarrow> nat \<Rightarrow> 'n RRset \<Rightarrow> 'n Rdata list \<Rightarrow> bool" where
  "updatable Z dz a soa ds \<longleftrightarrow>
     dz_lock dz = Free \<and>
     (\<exists>d. origin_data Z (dz_zone dz) = Some d \<and> node_ok d \<and> map_of d RR_SOA = Some a \<and> map_of d RR_NS \<noteq> None) \<and>
     a < hp_next (dz_heap dz) \<and> hp_at (dz_heap dz) a = Some soa \<and> next_serial (rr_Rdatas soa) = Some ds"

definition bumped :: "nat \<Rightarrow> 'n RRset \<Rightarrow> 'n Rdata list \<Rightarrow> 'n rr_heap \<Rightarrow> 'n rr_heap" where
  "bumped a soa ds h = h\<lparr>hp_at := (hp_at h)(a \<mapsto> soa\<lparr>rr_Rdatas := ds\<rparr>)\<rparr>"

lemma single_update:
  assumes "updatable Z dz a soa ds" "rr_Type rrset \<noteq> RR_SOA"
    and run: "apply_update G R Z rrset (dz_heap dz, mz_clone Z (dz_zone dz)) = Some ((h, z), None)"
    and "extends (dz_heap dz) h" "origin_data Z z = Some d" "map_of d RR_SOA = Some a"
  shows "dz_update G R Z [rrset] dz =
    (if map_of d RR_NS = None then ZDone (dz\<lparr>dz_heap := bumped a soa ds h\<rparr>) (Some ErrShortOfNS)
     else ZDone (dz\<lparr>dz_heap := bumped a soa ds h, dz_zone := z\<rparr>) None)"
proof -
  have lock: "dz_lock dz = Free" and a: "hp_at h a = Some soa" "next_serial (rr_Rdatas soa) = Some ds"
    using assms(1,4) by (auto simp: updatable_def extends_def)
  have "mz_increaseSerialNumber Z (h, z) = Some (bumped a soa ds h, z)"
    using a assms(5,6) by (simp add: mz_increaseSerialNumber_def bumped_def)
  moreover have "mz_validate Z z = (if map_of d RR_NS = None then Some ErrShortOfNS else None)"
    using assms(5,6) by (simp add: mz_validate_def)
  moreover have "dz\<lparr>dz_lock := Free\<rparr> = dz" using lock by simp
  ultimately show ?thesis
    using run assms(2) lock by (simp add: dz_update_def Begin_def Lock_def Commit_def Unlock_def)
qed

lemma clone_origin_data: "zone_tree_laws G Z \<Longrightarrow> origin_data Z (mz_clone Z z) = origin_data Z z"
  by (simp add: origin_data_def clone_data)

lemma node_ok_map_of_delete: "map_of (AList.delete t d) t' = (if t' = t then None else map_of d t')"
  by (simp add: delete_conv')

section \<open>Properties\<close>

text \<open>
  A served zone is complete and consistent: whatever updates, loads and queries there are, in any
  order and also when they fail or panic, the zone is either the empty one it was made as, or it has
  entries for an SOA and for name servers at its own name; and a name with an alias has no other data.
\<close>

theorem served_zone_complete:
  assumes "zone_tree_laws G Z" "dz = fold (zone_op_run G R Z S) ops (NewDynamicZone Z origin)"
  shows "(dz_zone dz = newMemoryZone Z origin \<or>
      (\<exists>d. origin_data Z (dz_zone dz) = Some d \<and> map_of d RR_SOA \<noteq> None \<and> map_of d RR_NS \<noteq> None)) \<and>
    (\<forall>n d. zt_Data Z (mz_domains (dz_zone dz)) n = Some d \<longrightarrow> map_of d RR_CNAME \<noteq> None \<longrightarrow> length d = 1)"
proof -
  have "served Z origin (NewDynamicZone Z origin)"
    using zone_ok_new [OF assms(1)] by (simp add: served_def NewDynamicZone_def newMemoryZone_def newWithDomains_def)
  then have "served Z origin dz" unfolding assms(2)
    by (induction ops rule: rev_induct) (simp_all add: served_step [OF assms(1)])
  then show ?thesis
    by (auto simp: served_def zone_ok_def node_ok_def mz_validate_def split: option.splits if_splits)
qed

text \<open>
  An update that fails changes the zone: deleting all name servers of the zone itself is refused
  when the update is committed, the zone keeps its data, and yet its serial number is increased,
  because the copy that was given up shares the SOA with the zone.
\<close>

theorem failed_update_bumps_serial:
  assumes laws: "zone_tree_laws G Z" "name_laws G" "Name_IsSubDomain G origin origin"
    and dz: "updatable Z dz a soa ds" "mz_origin (dz_zone dz) = origin" "zt_Exact Z (mz_domains (mz_clone Z (dz_zone dz))) origin"
    and ns: "origin_data Z (dz_zone dz) = Some d" "map_of d RR_NS = Some b" "hp_at (dz_heap dz) b = Some ns" "rr_Rdatas ns \<noteq> []"
  shows "dz_update G R Z [\<lparr>rr_Name = origin, rr_Type = RR_NS, rr_Class = CLASS_ANY, rr_Ttl = 0, rr_Rdatas = []\<rparr>] dz =
    ZDone (dz\<lparr>dz_heap := (dz_heap dz)\<lparr>hp_at := (hp_at (dz_heap dz))(a \<mapsto> soa\<lparr>rr_Rdatas := ds\<rparr>)\<rparr>\<rparr>) (Some ErrShortOfNS)"
proof -
  let ?u = "\<lparr>rr_Name = origin, rr_Type = RR_NS, rr_Class = CLASS_ANY, rr_Ttl = 0, rr_Rdatas = []\<rparr>"
  let ?c = "mz_clone Z (dz_zone dz)"
  let ?z = "put_node G Z origin (AList.delete RR_NS d) ?c"
  have eq: "Name_Equals G origin origin" by (rule Name_Equals_refl [OF laws(2)])
  have soa: "map_of d RR_SOA = Some a" using dz(1) ns(1) by (auto simp: updatable_def)
  then have "map_of (AList.delete RR_NS d) RR_SOA = Some a" by (simp add: node_ok_map_of_delete rr_types)
  then have ne: "AList.delete RR_NS d \<noteq> []" by auto
  have od: "origin_data Z ?c = Some d" using ns(1) by (simp add: clone_origin_data [OF laws(1)])
  have "checkRRsetCouldBeDeleted G Z (dz_heap dz) ?c ?u = Some None"
    using od ns eq laws(3) by (simp add: checkRRsetCouldBeDeleted_def dz(2) rr_types rdatasDiff_def)
  moreover have "getNode Z ?c origin = Inr d" using od dz(2,3) by (simp add: getNode_def origin_data_def)
  ultimately have run: "apply_update G R Z ?u (dz_heap dz, ?c) = Some ((dz_heap dz, ?z), None)"
    using ns(2) by (simp add: apply_update_def mz_deleteRRset_def rr_types rr_classes)
  have "origin_data Z ?z = Some (AList.delete RR_NS d)"
    using ne eq dz(2,3) by (simp add: origin_data_def put_node_def zone_treeD(6) [OF laws(1)])
  from single_update [OF dz(1) _ run extends_refl this] show ?thesis
    using soa by (simp add: node_ok_map_of_delete rr_types bumped_def)
qed

lemma clone_flag: "zone_tree_laws G Z \<Longrightarrow> zt_Flag Z (mz_domains (mz_clone Z z)) n f = zt_Flag Z (mz_domains z) n f"
  by (auto simp: mz_clone_def newWithDomains_def zone_treeD(5,13) split: sum.split)

lemma cuts_panic:
  assumes "zs_Cuts S t name = c # cs" "zt_Data Z t c = Some d" "map_of d RR_NS = None"
  shows "zoneCuts Z t opt (zs_Cuts S t name) None = None"
  using assms by simp

text \<open>
  C35. Deleting the name servers of a delegation can stop the whole zone: if the name has other data,
  its node stays, with the mark of a delegation. The update succeeds. The next query for a name below
  panics while it holds the lock of a reader. From then on every query that finds a record, at any
  name of the zone, waits for good, and so does every update.
\<close>

theorem stale_delegation_stops_zone:
  assumes laws: "zone_tree_laws G Z" "name_laws G" "zone_search_laws G Z S"
    and dz: "updatable Z dz a soa ds" "\<not> Name_Equals G c (mz_origin (dz_zone dz))" "\<not> Name_Equals G (mz_origin (dz_zone dz)) c"
      "Name_IsSubDomain G c (mz_origin (dz_zone dz))" "zt_Exact Z (mz_domains (mz_clone Z (dz_zone dz))) c"
    and cut: "zt_Data Z (mz_domains (dz_zone dz)) c = Some d" "map_of d RR_NS \<noteq> None" "AList.delete RR_NS d \<noteq> []"
      "zt_Flag Z (mz_domains (dz_zone dz)) c NF_CALLBACK"
    and name: "Name_IsSubDomain G name c" "\<not> Name_Equals G name c"
      "\<And>c'. zt_Flag Z (mz_domains (dz_zone dz)) c' NF_CALLBACK \<Longrightarrow> Name_IsSubDomain G name c' \<Longrightarrow> Name_Equals G c' c"
  shows "\<exists>dz1 dz2. dz_update G R Z [\<lparr>rr_Name = c, rr_Type = RR_NS, rr_Class = CLASS_ANY, rr_Ttl = 0, rr_Rdatas = []\<rparr>] dz = ZDone dz1 None \<and>
    dz_Find G Z S name typ opt dz1 = ZPanic dz2 \<and>
    (\<forall>rrsets. \<exists>s. dz_update G R Z rrsets dz2 = ZBlocked s) \<and>
    (\<forall>n t o' h ctx. mz_find G Z S n t o' (dz_zone dz2) (dz_heap dz2) = Some (h, ctx) \<longrightarrow> fc_rrset ctx \<noteq> nil \<longrightarrow>
       (\<exists>s. dz_Find G Z S n t o' dz2 = ZBlocked s))"
proof -
  let ?u = "\<lparr>rr_Name = c, rr_Type = RR_NS, rr_Class = CLASS_ANY, rr_Ttl = 0, rr_Rdatas = []\<rparr>"
  let ?c = "mz_clone Z (dz_zone dz)"
  let ?d = "AList.delete RR_NS d"
  let ?z = "put_node G Z c ?d ?c"
  let ?dz1 = "dz\<lparr>dz_heap := bumped a soa ds (dz_heap dz), dz_zone := ?z\<rparr>"
  let ?dz2 = "?dz1\<lparr>dz_lock := Leaked\<rparr>"
  obtain d0 where d0: "origin_data Z (dz_zone dz) = Some d0" "map_of d0 RR_SOA = Some a" "map_of d0 RR_NS \<noteq> None"
    and lock: "dz_lock dz = Free" using dz(1) by (auto simp: updatable_def)
  have "getNode Z ?c c = Inr d" using cut(1) dz(4,5) by (simp add: getNode_def clone_data [OF laws(1)])
  then have run: "apply_update G R Z ?u (dz_heap dz, ?c) = Some ((dz_heap dz, ?z), None)"
    using cut(2) dz(2,4) by (simp add: apply_update_def mz_deleteRRset_def checkRRsetCouldBeDeleted_def rr_types rr_classes)
  have z: "mz_domains ?z = zt_SetData Z (mz_domains ?c) c ?d" using cut(3) by (simp add: put_node_def)
  have od: "origin_data Z ?z = Some d0"
    using d0(1) dz(3,5) by (simp add: origin_data_def z zone_treeD(6) [OF laws(1)] clone_data [OF laws(1)])
  have upd: "dz_update G R Z [?u] dz = ZDone ?dz1 None"
    using single_update [OF dz(1) _ run extends_refl od d0(2)] d0(3) by (simp add: rr_types)
  have flag: "zt_Flag Z (mz_domains ?z) n f = zt_Flag Z (mz_domains (dz_zone dz)) n f" for n f
    using dz(5) by (simp add: z zone_treeD(7) [OF laws(1)] clone_flag [OF laws(1)])
  have "\<exists>c'\<in>set (zs_Cuts S (mz_domains ?z) name). Name_Equals G c' c"
    using zone_searchD(1) [OF laws(3), where t = "mz_domains ?z"] cut(4) name(1,2) by (simp add: flag)
  then obtain c1 cs where cs: "zs_Cuts S (mz_domains ?z) name = c1 # cs" by (cases "zs_Cuts S (mz_domains ?z) name") auto
  then have "Name_Equals G c1 c"
    using name(3) zone_searchD(2,3) [OF laws(3), of c1 "mz_domains ?z" name] by (simp add: flag)
  then have "zt_Data Z (mz_domains ?z) c1 = Some ?d" using dz(5) by (simp add: z zone_treeD(6) [OF laws(1)])
  then have "mz_find G Z S name typ opt ?z h = None" for h
    using cuts_panic [OF cs] by (simp add: mz_find_def node_ok_map_of_delete)
  moreover have ne: "\<not> mz_isEmpty Z ?z" by (simp add: mz_isEmpty_def od)
  ultimately have panic: "dz_Find G Z S name typ opt ?dz1 = ZPanic ?dz2"
    using lock by (simp add: dz_Find_def with_RLock_def)
  have updates: "\<exists>s. dz_update G R Z rrsets ?dz2 = ZBlocked s" for rrsets
    by (simp add: dz_update_def Begin_def Lock_def)
  have finds: "\<exists>s. dz_Find G Z S n t o' ?dz2 = ZBlocked s"
    if "mz_find G Z S n t o' (dz_zone ?dz2) (dz_heap ?dz2) = Some (h, ctx)" "fc_rrset ctx \<noteq> nil" for n t o' h ctx
    using that ne by (simp add: dz_Find_def with_RLock_def rotate_all_def Lock_def)
  show ?thesis
    by (rule exI [of _ ?dz1], rule exI [of _ ?dz2], intro conjI allI impI, rule upd, rule panic, rule updates, rule finds)
qed

lemma empty_zone_update_panics:
  assumes laws: "zone_tree_laws G Z"
    and rrset: "rr_Class rrset = CLASS_IN" "rr_Type rrset \<noteq> RR_SOA" "\<not> Name_IsWildCard G (rr_Name rrset)" "Name_IsSubDomain G (rr_Name rrset) origin"
    and ins: "zt_Insert Z (mz_domains (mz_clone Z (newMemoryZone Z origin))) (rr_Name rrset) = Inr t"
  shows "dz_update G R Z [rrset] (NewDynamicZone Z origin) = ZPanic ((NewDynamicZone Z origin)\<lparr>dz_lock := Taken\<rparr>)"
proof -
  let ?c = "mz_clone Z (newMemoryZone Z origin)"
  let ?n = "rr_Name rrset"
  obtain p h where p: "new_rrset rrset empty_heap = (p, h)" by fastforce
  then have hp: "hp_at h p = Some rrset" by (auto simp: new_rrset_def)
  have o: "mz_origin (newMemoryZone Z origin) = origin" by (simp add: newMemoryZone_def newWithDomains_def)
  have none: "zt_Data Z (mz_domains ?c) m = None" for m
    by (simp add: clone_data [OF laws] newMemoryZone_def newWithDomains_data [OF laws] zone_treeD(1) [OF laws])
  let ?z = "snd (fst (set_marks G Z rrset h (?c\<lparr>mz_domains := zt_SetData Z t ?n [(rr_Type rrset, p)]\<rparr>)))"
  have mk: "set_marks G Z rrset h (?c\<lparr>mz_domains := zt_SetData Z t ?n [(rr_Type rrset, p)]\<rparr>) = ((h, ?z), None)"
    using rrset(3) by (simp add: set_marks_def Let_def)
  have "checkRRsetValid G ?c rrset = None" using rrset by (simp add: checkRRsetValid_def o)
  then have run: "apply_update G R Z rrset (empty_heap, ?c) = Some ((h, ?z), None)"
    using rrset(1) p hp ins mk
    by (simp add: apply_update_def mz_addRRset_def zone_treeD(4) [OF laws ins] none add_to_node_def del: split_paired_Ex)
  have D: "zt_Data Z (mz_domains ?z) m = (if Name_Equals G m ?n then Some [(rr_Type rrset, p)] else None)" for m
    using set_marks_data(1) [OF laws mk] by (simp add: zone_treeD(6) [OF laws zone_treeD(3) [OF laws ins]] zone_treeD(4) [OF laws ins] none)
  have "mz_increaseSerialNumber Z (h, ?z) = None"
    using rrset(2) by (simp add: mz_increaseSerialNumber_def origin_data_def D)
  then show ?thesis using run rrset(2) by (simp add: dz_update_def Begin_def Lock_def NewDynamicZone_def)
qed

text \<open>
  An update of a zone that could not be loaded locks it for good: adding a record that is not an
  SOA panics when the serial number is increased, with the lock taken, and every later update waits.
\<close>

theorem update_of_empty_zone_locks:
  assumes laws: "zone_tree_laws G Z"
    and rrset: "rr_Class rrset = CLASS_IN" "rr_Type rrset \<noteq> RR_SOA" "\<not> Name_IsWildCard G (rr_Name rrset)" "Name_IsSubDomain G (rr_Name rrset) origin"
    and ins: "zt_Insert Z (mz_domains (mz_clone Z (newMemoryZone Z origin))) (rr_Name rrset) = Inr t"
  shows "\<exists>dz1. dz_update G R Z [rrset] (NewDynamicZone Z origin) = ZPanic dz1 \<and>
    (\<forall>rrsets. \<exists>s. dz_update G R Z rrsets dz1 = ZBlocked s)"
  using empty_zone_update_panics [OF assms] by (simp add: dz_update_def Begin_def Lock_def)

text \<open>
  C32. What an update adds is found: adding a record set at a new name that is not below a delegation
  succeeds, increases the serial number, and a query for the name and the type is then answered with
  exactly the data that were added.
\<close>

theorem added_record_is_found:
  assumes laws: "zone_tree_laws G Z" "name_laws G" "zone_search_laws G Z S" "message_laws G"
    and dz: "updatable Z dz a soa ds" "nil < hp_next (dz_heap dz)"
    and rrset: "rr_Class rrset = CLASS_IN" "rr_Type rrset \<noteq> RR_SOA" "rr_Type rrset \<noteq> RR_NS" "\<not> Name_IsWildCard G (rr_Name rrset)"
      "Name_IsSubDomain G (rr_Name rrset) (mz_origin (dz_zone dz))"
    and name: "zt_Data Z (mz_domains (dz_zone dz)) (rr_Name rrset) = None"
      "\<And>c. zt_Flag Z (mz_domains (dz_zone dz)) c NF_CALLBACK \<Longrightarrow> \<not> Name_IsSubDomain G (rr_Name rrset) c \<and> \<not> Name_Equals G c (rr_Name rrset)"
    and ins: "zt_Insert Z (mz_domains (mz_clone Z (dz_zone dz))) (rr_Name rrset) = Inr t"
  shows "\<exists>dz1 dz2 ctx r. dz_update G R Z [rrset] dz = ZDone dz1 None \<and>
    hp_at (dz_heap dz1) a = Some (soa\<lparr>rr_Rdatas := ds\<rparr>) \<and>
    dz_Find G Z S (rr_Name rrset) (rr_Type rrset) DefaultFind dz1 = ZDone dz2 ctx \<and> fc_type ctx = FRSuccess \<and>
    hp_at (dz_heap dz2) (fc_rrset ctx) = Some r \<and> mset (rr_Rdatas r) = mset (rr_Rdatas rrset) \<and> rr_Ttl r = rr_Ttl rrset"
proof -
  let ?n = "rr_Name rrset"
  let ?c = "mz_clone Z (dz_zone dz)"
  let ?p = "hp_next (dz_heap dz)"
  let ?h = "(dz_heap dz)\<lparr>hp_at := (hp_at (dz_heap dz))(?p \<mapsto> rrset), hp_next := Suc ?p\<rparr>"
  let ?t = "zt_SetData Z t ?n [(rr_Type rrset, ?p)]"
  let ?z = "?c\<lparr>mz_domains := ?t\<rparr>"
  let ?dz1 = "dz\<lparr>dz_heap := bumped a soa ds ?h, dz_zone := ?z\<rparr>"
  let ?h2 = "rotate_at G ?p (bumped a soa ds ?h)"
  obtain d0 where d0: "origin_data Z (dz_zone dz) = Some d0" "map_of d0 RR_SOA = Some a" "map_of d0 RR_NS \<noteq> None"
    and lock: "dz_lock dz = Free" and a: "a < ?p" using dz(1) by (auto simp: updatable_def)
  note exact = zone_treeD(3) [OF laws(1) ins]
  have D: "zt_Data Z t m = zt_Data Z (mz_domains (dz_zone dz)) m" for m by (simp add: zone_treeD(4) [OF laws(1) ins] clone_data [OF laws(1)])
  have D': "zt_Data Z ?t m = (if Name_Equals G m ?n then Some [(rr_Type rrset, ?p)] else zt_Data Z (mz_domains (dz_zone dz)) m)" for m
    by (simp add: zone_treeD(6) [OF laws(1) exact] D)
  have F: "zt_Flag Z ?t m f = zt_Flag Z (mz_domains (dz_zone dz)) m f" for m f
    by (simp add: zone_treeD(7) [OF laws(1) exact] zone_treeD(5) [OF laws(1) ins] clone_flag [OF laws(1)])
  have "\<not> Name_Equals G (mz_origin (dz_zone dz)) ?n" using d0(1) name(1) zone_treeD(2) [OF laws(1)] by (fastforce simp: origin_data_def)
  then have od: "origin_data Z ?z = Some d0" using d0(1) by (simp add: origin_data_def D')
  have "checkRRsetValid G ?c rrset = None" using rrset by (simp add: checkRRsetValid_def)
  then have "mz_addRRset G R Z ?p (?h, ?c) = Some ((?h, ?z), None)"
    using rrset(3,4) ins by (simp add: mz_addRRset_def add_to_node_def D name(1) set_marks_def)
  then have run: "apply_update G R Z rrset (dz_heap dz, ?c) = Some ((?h, ?z), None)"
    using rrset(1) by (simp add: apply_update_def new_rrset_def)
  have upd: "dz_update G R Z [rrset] dz = ZDone ?dz1 None"
    using single_update [OF dz(1) rrset(2) run _ od d0(2)] d0(3) by (simp add: extends_def)
  have cuts: "zs_Cuts S ?t ?n = []"
    using zone_searchD(2,3) [OF laws(3), where t = ?t and n = ?n] name(2) by (cases "zs_Cuts S ?t ?n") (auto simp: F)
  let ?sx = "zs_SearchExt S ?t ?n"
  have "zt_Exact Z ?t ?n" using exact by (simp add: zone_treeD(8) [OF laws(1) exact])
  note sx = zone_searchD(4,5) [OF laws(3) this]
  have "\<not> zt_Flag Z ?t (sx_node ?sx) NF_CALLBACK" using name(2) sx(2) by (auto simp: F)
  then have "find_node G Z S (rr_Type rrset) (sx_node ?sx) ?z = found FRSuccess ?p [(rr_Type rrset, ?p)]"
    using sx(2) by (simp add: find_node_def D')
  then have "mz_find G Z S ?n (rr_Type rrset) DefaultFind ?z h = Some (h, found FRSuccess ?p [(rr_Type rrset, ?p)])" for h
    using cuts sx(1) by (simp add: mz_find_def)
  moreover have "\<not> mz_isEmpty Z ?z" by (simp add: mz_isEmpty_def od)
  ultimately have find: "dz_Find G Z S ?n (rr_Type rrset) DefaultFind ?dz1 =
      ZDone (?dz1\<lparr>dz_heap := ?h2\<rparr>) (found FRSuccess ?p [(rr_Type rrset, ?p)])"
    using lock dz(2) by (simp add: dz_Find_def with_RLock_def rotate_all_def Lock_def Unlock_def found_def)
  have soa: "hp_at (dz_heap ?dz1) a = Some (soa\<lparr>rr_Rdatas := ds\<rparr>)" by (simp add: bumped_def)
  have r: "hp_at (dz_heap (?dz1\<lparr>dz_heap := ?h2\<rparr>)) (fc_rrset (found FRSuccess ?p [(rr_Type rrset, ?p)])) = Some (RRset_RotateRdata G rrset)"
    using a by (simp add: found_def rotate_at_def bumped_def)
  have ft: "fc_type (found FRSuccess ?p [(rr_Type rrset, ?p)]) = FRSuccess" by (simp add: found_def)
  show ?thesis
    by (intro exI conjI, rule upd, rule soa, rule find, rule ft, rule r) (simp_all add: RotateRdata_fields [OF laws(4)])
qed

section \<open>A reference tree\<close>

text \<open>An association list from names in small letters to nodes.\<close>

record ref_node =
  rn_data :: "NameNode option"
  rn_callback :: bool
  rn_wildcard :: bool

type_synonym ref_tree = "(string list \<times> ref_node) list"

definition name_key :: "string list \<Rightarrow> string list" where
  "name_key n = map ToLower n"

definition ref_flag :: "ref_tree \<Rightarrow> string list \<Rightarrow> NodeFlag \<Rightarrow> bool" where
  "ref_flag t n f =
     (case map_of t (name_key n) of
        None \<Rightarrow> False
      | Some x \<Rightarrow> (case f of NF_CALLBACK \<Rightarrow> rn_callback x | wildcardMark \<Rightarrow> rn_wildcard x))"

definition set_ref_flag :: "NodeFlag \<Rightarrow> bool \<Rightarrow> ref_node \<Rightarrow> ref_node" where
  "set_ref_flag f b x = (case f of NF_CALLBACK \<Rightarrow> x\<lparr>rn_callback := b\<rparr> | wildcardMark \<Rightarrow> x\<lparr>rn_wildcard := b\<rparr>)"

definition ref_insert :: "ref_tree \<Rightarrow> string list \<Rightarrow> ref_tree" where
  "ref_insert t n =
     (if map_of t (name_key n) = None then (name_key n, \<lparr>rn_data = None, rn_callback = False, rn_wildcard = False\<rparr>) # t else t)"

definition ref_nodes :: "(ref_tree, string list) zone_nodes" where
  "ref_nodes = \<lparr>
     zt_New = [],
     zt_Insert = (\<lambda>t n. Inr (ref_insert t n)),
     zt_Exact = (\<lambda>t n. map_of t (name_key n) \<noteq> None),
     zt_Data = (\<lambda>t n. Option.bind (map_of t (name_key n)) rn_data),
     zt_SetData = (\<lambda>t n d. AList.map_entry (name_key n) (\<lambda>x. x\<lparr>rn_data := Some d\<rparr>) t),
     zt_Flag = ref_flag,
     zt_SetFlag = (\<lambda>t n f b. AList.map_entry (name_key n) (set_ref_flag f b) t),
     zt_Remove = (\<lambda>t n. AList.delete (name_key n) t),
     zt_Clone = (\<lambda>t c. map (\<lambda>(k, x). (k, x\<lparr>rn_data := map_option c (rn_data x)\<rparr>)) t)\<rparr>"

definition names_above :: "string list \<Rightarrow> string list list" where
  "names_above n = map (\<lambda>k. drop k n) (rev [1..<Suc (length n)])"

definition ref_search :: "(ref_tree, string list) zone_search" where
  "ref_search = \<lparr>
     zs_Cuts = (\<lambda>t n. filter (\<lambda>c. ref_flag t c NF_CALLBACK) (names_above n)),
     zs_SearchExt = (\<lambda>t n.
        if map_of t (name_key n) \<noteq> None then \<lparr>sx_match = ZExact, sx_node = n, sx_super = False, sx_absolute = n\<rparr>
        else case rev (filter (\<lambda>c. map_of t (name_key c) \<noteq> None) (names_above n)) of
               [] \<Rightarrow> \<lparr>sx_match = ZNotFound, sx_node = [], sx_super = False, sx_absolute = []\<rparr>
             | c # _ \<Rightarrow> \<lparr>sx_match = ZPartial, sx_node = c,
                          sx_super = (\<exists>k\<in>set (map fst t). name_key n \<in> set (names_above k)), sx_absolute = c\<rparr>),
     zs_IsNodeNonTerminal = (\<lambda>t n. \<exists>k\<in>set (map fst t). name_key n \<in> set (names_above k)),
     zs_Wildcard = (\<lambda>n. ''*'' # n)\<rparr>"

lemma ref_Equals_key: "Name_Equals ref_g53 m n \<longleftrightarrow> name_key m = name_key n"
  by (simp add: name_key_def ref_Equals)

lemma map_of_map_entry: "map_of (AList.map_entry k f t) k' = (if k' = k then map_option f (map_of t k) else map_of t k')"
  by (induction t) auto

lemma map_of_clone:
  "map_of (map (\<lambda>(k, x). (k, x\<lparr>rn_data := map_option c (rn_data x)\<rparr>)) t) k = map_option (\<lambda>x. x\<lparr>rn_data := map_option c (rn_data x)\<rparr>) (map_of t k)"
  by (induction t) auto

lemma map_of_ref_insert:
  "map_of (ref_insert t n) k =
     (if k = name_key n \<and> map_of t k = None then Some \<lparr>rn_data = None, rn_callback = False, rn_wildcard = False\<rparr> else map_of t k)"
  by (auto simp: ref_insert_def)

definition ref_data :: "ref_tree \<Rightarrow> string list \<Rightarrow> NameNode option" where
  "ref_data t n = Option.bind (map_of t (name_key n)) rn_data"

lemma ref_nodes_simps:
  "zt_New ref_nodes = []" "zt_Insert ref_nodes t n = Inr (ref_insert t n)" "zt_Exact ref_nodes t n \<longleftrightarrow> map_of t (name_key n) \<noteq> None"
  "zt_Data ref_nodes t n = ref_data t n" "zt_Flag ref_nodes = ref_flag"
  "zt_SetData ref_nodes t n d = AList.map_entry (name_key n) (\<lambda>x. x\<lparr>rn_data := Some d\<rparr>) t"
  "zt_SetFlag ref_nodes t n f b = AList.map_entry (name_key n) (set_ref_flag f b) t"
  "zt_Remove ref_nodes t n = AList.delete (name_key n) t"
  "zt_Clone ref_nodes t c = map (\<lambda>(k, x). (k, x\<lparr>rn_data := map_option c (rn_data x)\<rparr>)) t"
  by (simp_all add: ref_nodes_def ref_data_def)

lemma set_ref_flag_data [simp]: "rn_data (set_ref_flag f b x) = rn_data x"
  by (cases f) (simp_all add: set_ref_flag_def)

lemma ref_data_cong: "map_of t (name_key n) = map_of t' (name_key n) \<Longrightarrow> ref_data t n = ref_data t' n"
  by (simp add: ref_data_def)

lemma ref_tree_laws: "zone_tree_laws ref_g53 ref_nodes"
proof -
  have 1: "ref_data (ref_insert t n) m = ref_data t m" "ref_flag (ref_insert t n) m f = ref_flag t m f" for t n m f
    by (cases f; auto simp: ref_data_def ref_flag_def map_of_ref_insert split: option.splits)+
  have 2: "ref_data (AList.map_entry (name_key n) (\<lambda>x. x\<lparr>rn_data := Some d\<rparr>) t) m = (if name_key m = name_key n then Some d else ref_data t m)"
    if "map_of t (name_key n) \<noteq> None" for t n d m
    using that by (auto simp: ref_data_def map_of_map_entry)
  have 3: "ref_flag (AList.map_entry (name_key n) (\<lambda>x. x\<lparr>rn_data := Some d\<rparr>) t) m f = ref_flag t m f" for t n d m f
    by (cases f; auto simp: ref_flag_def map_of_map_entry split: option.splits)
  have 4: "ref_data (AList.map_entry (name_key n) (set_ref_flag g b) t) m = ref_data t m" for t n g b m
    by (cases "map_of t (name_key n)") (auto simp: ref_data_def map_of_map_entry)
  have 5: "ref_data (map (\<lambda>(k, x). (k, x\<lparr>rn_data := map_option c (rn_data x)\<rparr>)) t) m = map_option c (ref_data t m)"
    "ref_flag (map (\<lambda>(k, x). (k, x\<lparr>rn_data := map_option c (rn_data x)\<rparr>)) t) m f = ref_flag t m f" for t c m f
    by (cases "map_of t (name_key m)"; cases f; simp add: ref_data_def ref_flag_def map_of_clone)+
  show ?thesis unfolding zone_tree_laws_def ref_Equals_key ref_nodes_simps
    by (auto simp: 1 2 3 4 5 map_of_map_entry map_of_clone map_of_ref_insert) (auto simp: ref_data_def delete_conv')
qed

lemma ref_flag_key: "name_key m = name_key n \<Longrightarrow> ref_flag t m f = ref_flag t n f"
  by (simp add: ref_flag_def)

lemma set_names_above: "c \<in> set (names_above n) \<longleftrightarrow> (\<exists>k. 1 \<le> k \<and> k \<le> length n \<and> c = drop k n)"
  unfolding names_above_def set_map set_rev set_upt by (auto simp: less_Suc_eq_le)

lemma names_above_key:
  assumes "Name_IsSubDomain ref_g53 n c" "name_key n \<noteq> name_key c"
  shows "\<exists>c'\<in>set (names_above n). name_key c' = name_key c"
proof -
  obtain k where k: "k \<le> length n" "name_key (drop k n) = name_key c" using assms(1) by (auto simp: ref_IsSubDomain name_key_def)
  then have "1 \<le> k" using assms(2) by (cases k) simp_all
  then show ?thesis using k by (intro bexI [of _ "drop k n"]) (auto simp: set_names_above)
qed

lemma ref_search_laws: "zone_search_laws ref_g53 ref_nodes ref_search"
proof -
  have "\<exists>c'\<in>set (zs_Cuts ref_search t n). name_key c' = name_key c"
    if "ref_flag t c NF_CALLBACK" "Name_IsSubDomain ref_g53 n c" "name_key n \<noteq> name_key c" for t n c
  proof -
    from names_above_key [OF that(2,3)] obtain c' where "c' \<in> set (names_above n)" "name_key c' = name_key c" by blast
    then show ?thesis using that(1) ref_flag_key [of c' c] by (intro bexI [of _ c']) (simp_all add: ref_search_def)
  qed
  moreover have "Name_IsSubDomain ref_g53 n c" if "c \<in> set (names_above n)" for n c
    using that by (auto simp: set_names_above ref_IsSubDomain)
  moreover have "c \<in> set (names_above n)" "ref_flag t c NF_CALLBACK" if "c \<in> set (zs_Cuts ref_search t n)" for t n c
    using that by (simp_all add: ref_search_def)
  moreover have "sx_match (zs_SearchExt ref_search t n) = ZExact" "sx_node (zs_SearchExt ref_search t n) = n"
    if "map_of t (name_key n) \<noteq> None" for t n using that by (simp_all add: ref_search_def)
  ultimately show ?thesis unfolding zone_search_laws_def ref_Equals_key ref_nodes_simps by simp
qed

section \<open>Examples\<close>

definition demo_set :: "string list \<Rightarrow> u16 \<Rightarrow> string list Rdata \<Rightarrow> string list RRset" where
  "demo_set n typ d = \<lparr>rr_Name = n, rr_Type = typ, rr_Class = CLASS_IN, rr_Ttl = 60, rr_Rdatas = [d]\<rparr>"

definition demo_tree :: ref_tree where
  "demo_tree =
     [([''a'', ''com''], \<lparr>rn_data = Some [(RR_SOA, 1), (RR_NS, 2)], rn_callback = False, rn_wildcard = False\<rparr>),
      ([''c'', ''a'', ''com''], \<lparr>rn_data = Some [(RR_NS, 3), (RR_A, 4)], rn_callback = True, rn_wildcard = False\<rparr>)]"

definition demo_soa :: "u32 \<Rightarrow> string list RRset" where
  "demo_soa serial = demo_set [''a'', ''com''] RR_SOA (RdSOA [''ns'', ''a'', ''com''] serial 60)"

definition demo_dz :: "(ref_tree, string list) DynamicZone" where
  "demo_dz = \<lparr>dz_zone = \<lparr>mz_origin = [''a'', ''com''], mz_domains = demo_tree\<rparr>,
     dz_heap = \<lparr>hp_at = [1 \<mapsto> demo_soa 7, 2 \<mapsto> demo_set [''a'', ''com''] RR_NS (RdNS [''ns'', ''a'', ''com'']),
                 3 \<mapsto> demo_set [''c'', ''a'', ''com''] RR_NS (RdNS [''ns'', ''c'', ''a'', ''com'']),
                 4 \<mapsto> demo_set [''c'', ''a'', ''com''] RR_A (RdA [192, 0, 2, 1])], hp_next = 5\<rparr>,
     dz_lock = Free, dz_masters = [], dz_acls = []\<rparr>"

lemma demo_keys: "name_key [''a'', ''com''] = [''a'', ''com'']" "name_key [''c'', ''a'', ''com''] = [''c'', ''a'', ''com'']"
  "name_key [''x'', ''c'', ''a'', ''com''] = [''x'', ''c'', ''a'', ''com'']" "name_key [''w'', ''a'', ''com''] = [''w'', ''a'', ''com'']"
  by code_simp+

lemma demo_clone: "mz_clone ref_nodes (dz_zone demo_dz) = dz_zone demo_dz"
  by (simp add: mz_clone_def newWithDomains_def ref_nodes_simps demo_dz_def demo_tree_def ref_insert_def demo_keys)

lemma demo_updatable: "updatable ref_nodes demo_dz 1 (demo_soa 7) (rr_Rdatas (demo_soa 8))"
  by (simp add: updatable_def demo_dz_def origin_data_def ref_nodes_simps ref_data_def demo_keys demo_tree_def node_ok_def rr_types
      demo_soa_def demo_set_def)

lemma demo_names:
  "Name_IsSubDomain ref_g53 [''a'', ''com''] [''a'', ''com'']" "Name_IsSubDomain ref_g53 [''c'', ''a'', ''com''] [''a'', ''com'']"
  "Name_IsSubDomain ref_g53 [''x'', ''c'', ''a'', ''com''] [''c'', ''a'', ''com'']" "Name_IsSubDomain ref_g53 [''w'', ''a'', ''com''] [''a'', ''com'']"
  "\<not> Name_IsSubDomain ref_g53 [''w'', ''a'', ''com''] [''c'', ''a'', ''com'']" "\<not> Name_IsWildCard ref_g53 [''w'', ''a'', ''com'']"
  by code_simp+

lemma demo_flag: "ref_flag demo_tree c NF_CALLBACK \<longleftrightarrow> name_key c = [''c'', ''a'', ''com'']"
  by (auto simp: ref_flag_def demo_tree_def)

theorem failed_update_bumps_serial_witness:
  "\<exists>dz'. dz_update ref_g53 ref_rrset ref_nodes [\<lparr>rr_Name = [''a'', ''com''], rr_Type = RR_NS, rr_Class = CLASS_ANY, rr_Ttl = 0, rr_Rdatas = []\<rparr>] demo_dz =
     ZDone dz' (Some ErrShortOfNS) \<and> dz_zone dz' = dz_zone demo_dz \<and> hp_at (dz_heap dz') 1 = Some (demo_soa 8)"
proof -
  have "origin_data ref_nodes (dz_zone demo_dz) = Some [(RR_SOA, 1), (RR_NS, 2)]" "mz_origin (dz_zone demo_dz) = [''a'', ''com'']"
    "zt_Exact ref_nodes (mz_domains (mz_clone ref_nodes (dz_zone demo_dz))) [''a'', ''com'']"
    by (simp_all add: demo_clone, simp_all add: demo_dz_def origin_data_def ref_nodes_simps ref_data_def demo_keys demo_tree_def)
  moreover have "map_of [(RR_SOA, 1), (RR_NS, 2 :: nat)] RR_NS = Some 2" by (simp add: rr_types)
  moreover have "hp_at (dz_heap demo_dz) 2 = Some (demo_set [''a'', ''com''] RR_NS (RdNS [''ns'', ''a'', ''com'']))" by (simp add: demo_dz_def)
  ultimately show ?thesis
    using failed_update_bumps_serial [OF ref_tree_laws ref_name_laws demo_names(1) demo_updatable, of "[(RR_SOA, 1), (RR_NS, 2)]" 2]
    by (simp add: demo_set_def demo_soa_def)
qed

definition demo_ops :: "string list zone_op list" where
  "demo_ops = [OpUpdate [demo_set [''a'', ''com''] RR_NS (RdNS [''ns'']), demo_soa 7], OpFind [''w'', ''a'', ''com''] RR_A DefaultFind]"

lemma demo_served:
  "mz_isEmpty ref_nodes (dz_zone (fold (zone_op_run ref_g53 ref_rrset ref_nodes ref_search) demo_ops (NewDynamicZone ref_nodes [''a'', ''com'']))) = False"
  by code_simp

theorem served_zone_complete_witness:
  "\<exists>d. origin_data ref_nodes (dz_zone (fold (zone_op_run ref_g53 ref_rrset ref_nodes ref_search) demo_ops (NewDynamicZone ref_nodes [''a'', ''com'']))) = Some d \<and>
    map_of d RR_SOA \<noteq> None \<and> map_of d RR_NS \<noteq> None"
proof -
  have "mz_isEmpty ref_nodes (newMemoryZone ref_nodes [''a'', ''com''])" by code_simp
  then show ?thesis using served_zone_complete [OF ref_tree_laws refl, of ref_rrset ref_search demo_ops "[''a'', ''com'']"] demo_served by metis
qed

theorem stale_delegation_stops_zone_witness:
  "\<exists>dz1 dz2. dz_update ref_g53 ref_rrset ref_nodes
      [\<lparr>rr_Name = [''c'', ''a'', ''com''], rr_Type = RR_NS, rr_Class = CLASS_ANY, rr_Ttl = 0, rr_Rdatas = []\<rparr>] demo_dz = ZDone dz1 None \<and>
    dz_Find ref_g53 ref_nodes ref_search [''x'', ''c'', ''a'', ''com''] RR_A DefaultFind dz1 = ZPanic dz2 \<and>
    (\<forall>rrsets. \<exists>s. dz_update ref_g53 ref_rrset ref_nodes rrsets dz2 = ZBlocked s)"
proof -
  let ?c = "[''c'', ''a'', ''com'']"
  have o: "mz_origin (dz_zone demo_dz) = [''a'', ''com'']" "mz_domains (dz_zone demo_dz) = demo_tree" by (simp_all add: demo_dz_def)
  have 1: "zt_Exact ref_nodes (mz_domains (mz_clone ref_nodes (dz_zone demo_dz))) ?c"
    "zt_Data ref_nodes (mz_domains (dz_zone demo_dz)) ?c = Some [(RR_NS, 3), (RR_A, 4)]"
    unfolding demo_clone o by (simp_all add: ref_nodes_simps ref_data_def demo_keys demo_tree_def)
  have 2: "map_of [(RR_NS, 3), (RR_A, 4 :: nat)] RR_NS \<noteq> None" "AList.delete RR_NS [(RR_NS, 3), (RR_A, 4 :: nat)] \<noteq> []"
    by (simp_all add: rr_types)
  have 3: "\<not> Name_Equals ref_g53 ?c (mz_origin (dz_zone demo_dz))" "\<not> Name_Equals ref_g53 (mz_origin (dz_zone demo_dz)) ?c"
    "\<not> Name_Equals ref_g53 [''x'', ''c'', ''a'', ''com''] ?c" "Name_IsSubDomain ref_g53 ?c (mz_origin (dz_zone demo_dz))"
    unfolding o ref_Equals_key demo_keys by (simp_all add: demo_names)
  have 4: "zt_Flag ref_nodes (mz_domains (dz_zone demo_dz)) c NF_CALLBACK \<longleftrightarrow> Name_Equals ref_g53 c ?c" for c
    unfolding o ref_nodes_simps ref_Equals_key demo_keys by (rule demo_flag)
  have 5: "zt_Flag ref_nodes (mz_domains (dz_zone demo_dz)) ?c NF_CALLBACK" unfolding 4 by (rule Name_Equals_refl [OF ref_name_laws])
  have "\<exists>dz1 dz2. dz_update ref_g53 ref_rrset ref_nodes [\<lparr>rr_Name = ?c, rr_Type = RR_NS, rr_Class = CLASS_ANY, rr_Ttl = 0, rr_Rdatas = []\<rparr>] demo_dz = ZDone dz1 None \<and>
    dz_Find ref_g53 ref_nodes ref_search [''x'', ''c'', ''a'', ''com''] RR_A DefaultFind dz1 = ZPanic dz2 \<and>
    (\<forall>rrsets. \<exists>s. dz_update ref_g53 ref_rrset ref_nodes rrsets dz2 = ZBlocked s) \<and>
    (\<forall>n t o' h ctx. mz_find ref_g53 ref_nodes ref_search n t o' (dz_zone dz2) (dz_heap dz2) = Some (h, ctx) \<longrightarrow> fc_rrset ctx \<noteq> nil \<longrightarrow>
       (\<exists>s. dz_Find ref_g53 ref_nodes ref_search n t o' dz2 = ZBlocked s))"
    by (rule stale_delegation_stops_zone [OF ref_tree_laws ref_name_laws ref_search_laws demo_updatable 3(1,2,4) 1 2 5 demo_names(3) 3(3)])
      (simp add: 4)
  then show ?thesis by (elim exE conjE) (intro exI conjI)
qed

theorem update_of_empty_zone_locks_witness:
  "\<exists>dz1. dz_update ref_g53 ref_rrset ref_nodes [demo_set [''w'', ''a'', ''com''] RR_A (RdA [192, 0, 2, 9])] (NewDynamicZone ref_nodes [''a'', ''com'']) = ZPanic dz1 \<and>
    (\<forall>rrsets. \<exists>s. dz_update ref_g53 ref_rrset ref_nodes rrsets dz1 = ZBlocked s)"
  by (rule update_of_empty_zone_locks [OF ref_tree_laws])
    (simp_all add: demo_set_def demo_names rr_types ref_nodes_simps)

theorem added_record_is_found_witness:
  "\<exists>dz1 dz2 ctx r. dz_update ref_g53 ref_rrset ref_nodes [demo_set [''w'', ''a'', ''com''] RR_A (RdA [192, 0, 2, 9])] demo_dz = ZDone dz1 None \<and>
    hp_at (dz_heap dz1) 1 = Some (demo_soa 8) \<and>
    dz_Find ref_g53 ref_nodes ref_search [''w'', ''a'', ''com''] RR_A DefaultFind dz1 = ZDone dz2 ctx \<and>
    hp_at (dz_heap dz2) (fc_rrset ctx) = Some r \<and> mset (rr_Rdatas r) = {#RdA [192, 0, 2, 9]#}"
proof -
  let ?r = "demo_set [''w'', ''a'', ''com''] RR_A (RdA [192, 0, 2, 9])"
  have o: "mz_origin (dz_zone demo_dz) = [''a'', ''com'']" "mz_domains (dz_zone demo_dz) = demo_tree" by (simp_all add: demo_dz_def)
  have r: "rr_Name ?r = [''w'', ''a'', ''com'']" "rr_Class ?r = CLASS_IN" "rr_Type ?r = RR_A" "rr_Rdatas ?r = [RdA [192, 0, 2, 9]]"
    by (simp_all add: demo_set_def)
  have n: "nil < hp_next (dz_heap demo_dz)" by (simp add: demo_dz_def nil_def)
  have d: "zt_Data ref_nodes (mz_domains (dz_zone demo_dz)) [''w'', ''a'', ''com''] = None"
    unfolding o by (simp add: ref_nodes_simps ref_data_def demo_keys demo_tree_def)
  have s: "demo_soa 8 = (demo_soa 7)\<lparr>rr_Rdatas := rr_Rdatas (demo_soa 8)\<rparr>" by (simp add: demo_soa_def demo_set_def)
  have f: "\<not> Name_IsSubDomain ref_g53 [''w'', ''a'', ''com''] c \<and> \<not> Name_Equals ref_g53 c [''w'', ''a'', ''com'']"
    if "zt_Flag ref_nodes (mz_domains (dz_zone demo_dz)) c NF_CALLBACK" for c
  proof -
    have c: "name_key c = [''c'', ''a'', ''com'']" using that unfolding o ref_nodes_simps by (simp add: demo_flag)
    then have "Name_IsSubDomain ref_g53 [''w'', ''a'', ''com''] c \<longleftrightarrow> Name_IsSubDomain ref_g53 [''w'', ''a'', ''com''] [''c'', ''a'', ''com'']"
      using demo_keys(2) by (simp add: ref_IsSubDomain name_key_def)
    then show ?thesis using c by (simp add: demo_names ref_Equals_key demo_keys)
  qed
  note T = added_record_is_found [OF ref_tree_laws ref_name_laws ref_search_laws ref_message_laws demo_updatable n, where rrset = ?r and R = ref_rrset,
      unfolded r, OF refl _ _ demo_names(6) _ d f ref_nodes_simps(2)]
  show ?thesis using T by (simp add: rr_types o demo_names s [symmetric]) blast
qed

end
