(* ===== verification/Auth.thy ===== *)
theory Auth
  imports Zone_Service Httpcmd
begin

text \<open>
  The authoritative resolver, \<open>resolver/auth/\<close>: the zones of the views (\<open>auth.go\<close>), the composition of
  an answer (\<open>query.go\<close>), updates of a zone (\<open>update.go\<close>) and the commands (\<open>cmdhandler.go\<close>). A zone is an
  object that the tree of its view points to: the trees hold addresses, the zones are in a heap. An
  operation ends, panics or waits for the lock of a zone. A message has the values of the RRsets it
  points to at the time it is composed. The lock of the resolver itself is never held over a panic
  or a wait and is left out.
\<close>

section \<open>State\<close>

record ('t, 'z, 'n) AuthDataSource =
  ad_viewZones :: "view \<rightharpoonup> 't"
  ad_zones :: "nat \<rightharpoonup> ('z, 'n) DynamicZone"
  ad_next :: nat

text \<open>
  What the resolver uses of the DNS library, the network, the file system and the access control
  lists. \<open>ae_dial\<close> is the connection to a master with what is read from it.
\<close>

record 'n auth_env =
  ae_RRsetFromString :: "string \<Rightarrow> string + 'n RRset"
  ae_TTLFromString :: "string \<Rightarrow> string + u32"
  ae_dial :: "string \<Rightarrow> string + (string + 'n Message) list"
  ae_ReadFile :: "string \<Rightarrow> string + string"
  ae_find_acl :: "string \<Rightarrow> ip \<Rightarrow> bool"
  ae_ErrDuplicateRdata :: string

text \<open>The libraries a zone is made with.\<close>

record ('t, 'z, 'n) auth_libs =
  al_g53 :: "'n g53"
  al_rrset :: "'n rrset_lib"
  al_zones :: "('t, 'n, nat) domaintree"
  al_nodes :: "('z, 'n) zone_nodes"
  al_search :: "('z, 'n) zone_search"
  al_env :: "'n auth_env"

definition new_zone :: "('z, 'n) DynamicZone \<Rightarrow> ('t, 'z, 'n) AuthDataSource \<Rightarrow> nat \<times> ('t, 'z, 'n) AuthDataSource" where
  "new_zone dz ds = (ad_next ds, ds\<lparr>ad_zones := (ad_zones ds)(ad_next ds \<mapsto> dz), ad_next := Suc (ad_next ds)\<rparr>)"

text \<open>An operation of the zone at an address.\<close>

definition at_zone ::
  "nat \<Rightarrow> (('z, 'n) DynamicZone \<Rightarrow> (('z, 'n) DynamicZone, 'a) zres) \<Rightarrow> ('t, 'z, 'n) AuthDataSource \<Rightarrow> (('t, 'z, 'n) AuthDataSource, 'a) zres" where
  "at_zone a f ds =
     (case ad_zones ds a of
        None \<Rightarrow> ZPanic ds
      | Some dz \<Rightarrow>
          (let put = \<lambda>dz'. ds\<lparr>ad_zones := (ad_zones ds)(a \<mapsto> dz')\<rparr> in
           case f dz of
             ZDone dz' x \<Rightarrow> ZDone (put dz') x
           | ZPanic dz' \<Rightarrow> ZPanic (put dz')
           | ZBlocked dz' \<Rightarrow> ZBlocked (put dz')))"

text \<open>A node that is found has a zone; nil instead of one is a panic.\<close>

definition auth_GetZone ::
  "('t, 'n, nat) domaintree \<Rightarrow> view \<Rightarrow> 'n \<Rightarrow> ('t, 'z, 'n) AuthDataSource \<Rightarrow> (nat \<times> SearchResult) option may_panic" where
  "auth_GetZone D v name ds =
     (case ad_viewZones ds v of
        None \<Rightarrow> Some None
      | Some zones \<Rightarrow>
          (case dt_Search D zones name of
             (z, NotFound) \<Rightarrow> Some None
           | (z, result) \<Rightarrow> map_option (\<lambda>a. Some (a, result)) z))"

section \<open>Answers\<close>

text \<open>
  The sections of an answer are collected as addresses and filled in at the end. \<open>q_sections\<close> are the
  answers, the authorities and the additional data.
\<close>

type_synonym q_sections = "nat list \<times> nat list \<times> nat list"

definition add_all :: "'n g53 \<Rightarrow> SectionType \<Rightarrow> 'n RRset list \<Rightarrow> 'n Message \<Rightarrow> 'n Message" where
  "add_all G s = fold (Message_AddRRset G s)"

definition fill_response :: "'n g53 \<Rightarrow> q_sections \<Rightarrow> 'n Message \<Rightarrow> ('z, 'n) DynamicZone \<Rightarrow> (('z, 'n) DynamicZone, 'n Message) zres" where
  "fill_response G sections response dz =
     (case sections of (answers, authorities, additionals) \<Rightarrow>
        let read = mapM (hp_at (dz_heap dz)) in
        case (read answers, read authorities, read additionals) of
          (Some ans, Some auth, Some add) \<Rightarrow>
            ZDone dz (Message_RecalculateSectionRRCount G
              (add_all G AdditionalSection add (add_all G AuthSection auth (add_all G AnswerSection ans response))))
        | _ \<Rightarrow> ZPanic dz)"

definition addAuthAdditional ::
  "'n g53 \<Rightarrow> ('z, 'n) zone_nodes \<Rightarrow> ('z, 'n) zone_search \<Rightarrow> ('z, 'n) DynamicZone \<Rightarrow> (('z, 'n) DynamicZone, nat list \<times> nat list) zres" where
  "addAuthAdditional G Z S dz =
     bindZ (dz_Find G Z S (mz_origin (dz_zone dz)) RR_NS DefaultFind dz) (\<lambda>dz1 ctx.
       if fc_type ctx \<noteq> FRSuccess then ZPanic dz1
       else bindZ (dz_GetAdditional G Z S ctx dz1) (\<lambda>dz2 adds. ZDone dz2 ([fc_rrset ctx], adds)))"

definition addSOA ::
  "'n g53 \<Rightarrow> ('z, 'n) zone_nodes \<Rightarrow> ('z, 'n) zone_search \<Rightarrow> ('z, 'n) DynamicZone \<Rightarrow> (('z, 'n) DynamicZone, nat list) zres" where
  "addSOA G Z S dz =
     bindZ (dz_Find G Z S (mz_origin (dz_zone dz)) RR_SOA DefaultFind dz) (\<lambda>dz1 ctx.
       if fc_type ctx \<noteq> FRSuccess then ZPanic dz1 else ZDone dz1 [fc_rrset ctx])"

definition set_AA :: "'n g53 \<Rightarrow> bool \<Rightarrow> 'n Message \<Rightarrow> 'n Message" where
  "set_AA G b m = m\<lparr>m_Header := Header_SetFlag G FLAG_AA b (m_Header m)\<rparr>"

definition NewQuery :: "'n g53 \<Rightarrow> 'n Message \<Rightarrow> 'n Message" where
  "NewQuery G request = Message_MakeResponse G request"

definition query_Process ::
  "'n g53 \<Rightarrow> ('z, 'n) zone_nodes \<Rightarrow> ('z, 'n) zone_search \<Rightarrow> SearchResult \<Rightarrow> 'n Message \<Rightarrow> ('z, 'n) DynamicZone
   \<Rightarrow> (('z, 'n) DynamicZone, 'n Message) zres" where
  "query_Process G Z S matchType request dz =
     (let response = with_rcode R_NOERROR (set_AA G True (NewQuery G request)) in
      case m_Question request of
        None \<Rightarrow> ZPanic dz
      | Some question \<Rightarrow>
          bindZ (dz_Find G Z S (q_Name question) (q_Type question) DefaultFind dz) (\<lambda>dz1 ctx.
            case fc_type ctx of
              FRCname \<Rightarrow> fill_response G ([fc_rrset ctx], [], []) response dz1
            | FRSuccess \<Rightarrow>
                bindZ (dz_GetAdditional G Z S ctx dz1) (\<lambda>dz2 adds.
                  if matchType \<noteq> ExactMatch \<or> q_Type question \<noteq> RR_NS
                  then bindZ (addAuthAdditional G Z S dz2) (\<lambda>dz3 (auths, adds').
                         fill_response G ([fc_rrset ctx], auths, adds @ adds') response dz3)
                  else fill_response G ([fc_rrset ctx], [], adds) response dz2)
            | FRDelegation \<Rightarrow>
                bindZ (dz_GetAdditional G Z S ctx dz1) (\<lambda>dz2 adds.
                  fill_response G ([], [fc_rrset ctx], adds) (set_AA G False response) dz2)
            | FRNXDomain \<Rightarrow>
                bindZ (addSOA G Z S dz1) (\<lambda>dz2 soa. fill_response G ([], soa, []) (with_rcode R_NXDOMAIN response) dz2)
            | FRNXRRset \<Rightarrow> bindZ (addSOA G Z S dz1) (\<lambda>dz2 soa. fill_response G ([], soa, []) response dz2)
            | FRServFail \<Rightarrow> fill_response G ([], [], []) (with_rcode R_SERVFAIL response) dz1))"

text \<open>A referral is left for the resolvers behind; everything else is final and is not cached.\<close>

definition auth_Resolve ::
  "('t, 'z, 'n) auth_libs \<Rightarrow> ('w \<Rightarrow> ('t, 'z, 'n) AuthDataSource) \<Rightarrow> (('t, 'z, 'n) AuthDataSource \<Rightarrow> 'w \<Rightarrow> 'w) \<Rightarrow> ('w, 'n) handler" where
  "auth_Resolve L get put nxt w client =
     (let G = al_g53 L in
      Option.bind (m_Question (c_Request client)) (\<lambda>q.
      Option.bind (auth_GetZone (al_zones L) (c_View client) (q_Name q) (get w)) (\<lambda>z.
        case z of
          None \<Rightarrow> PassToNext nxt w client
        | Some (finder, matchType) \<Rightarrow>
            (case at_zone finder (query_Process G (al_nodes L) (al_search L) matchType (c_Request client)) (get w) of
               ZDone ds response \<Rightarrow>
                 (let w1 = put ds w; client1 = client\<lparr>c_Response := Some response\<rparr> in
                  Option.bind (ClassifyResponse G response) (\<lambda>kind.
                    if kind = REFERRAL then PassToNext nxt w1 client1
                    else Some (w1, client1\<lparr>c_CacheAnswer := False\<rparr>)))
             | _ \<Rightarrow> None))))"

section \<open>Updates\<close>

fun zone_error_Error :: "string \<Rightarrow> zone_error \<Rightarrow> string" where
  "zone_error_Error dup ErrOutOfZone = ''rrset isn't contained in zone''"
| "zone_error_Error dup ErrCNAMECoExistsWithOtherRR = ''cname and other type of RR don't coexist for same name''"
| "zone_error_Error dup ErrShortOfSOA = ''zone has no soa''"
| "zone_error_Error dup ErrShortOfNS = ''zone has no ns''"
| "zone_error_Error dup ErrUnknownRRset = ''unknown rrset''"
| "zone_error_Error dup ErrNoEffectiveUpdate = ''update has no impact''"
| "zone_error_Error dup ErrServFail = ''empty zone must servfail''"
| "zone_error_Error dup ErrAbortLoad = ''data invalid and abandon''"
| "zone_error_Error dup ErrDuplicateRdata = dup"
| "zone_error_Error dup ErrNoAuthUpdate = ''No Auth to update zone''"
| "zone_error_Error dup (TreeError err) = err"

text \<open>The check of the masters and of the lists waits for a writer of the zone.\<close>

definition getUpdator ::
  "('t, 'z, 'n) auth_libs \<Rightarrow> view \<Rightarrow> 'n \<Rightarrow> ip option \<Rightarrow> ('t, 'z, 'n) AuthDataSource \<Rightarrow> (('t, 'z, 'n) AuthDataSource, nat option) zres" where
  "getUpdator L v origin clientIP ds =
     (case auth_GetZone (al_zones L) v origin ds of
        None \<Rightarrow> ZPanic ds
      | Some (Some (a, ExactMatch)) \<Rightarrow>
          at_zone a (\<lambda>dz. if dz_lock dz = Taken then ZBlocked dz
                        else ZDone dz (if GetUpdator (ae_find_acl (al_env L)) clientIP False dz then Some a else None)) ds
      | Some _ \<Rightarrow> ZDone ds None)"

definition handleDynamicRRsets ::
  "('t, 'z, 'n) auth_libs \<Rightarrow> view \<Rightarrow> 'n \<Rightarrow> ip option \<Rightarrow> 'n RRset list \<Rightarrow> ('t, 'z, 'n) AuthDataSource
   \<Rightarrow> (('t, 'z, 'n) AuthDataSource, zone_error option) zres" where
  "handleDynamicRRsets L v zoneName clientIP rrsets ds =
     bindZ (getUpdator L v zoneName clientIP ds) (\<lambda>ds1 updator.
       case updator of
         None \<Rightarrow> ZDone ds1 (Some ErrNoAuthUpdate)
       | Some a \<Rightarrow> at_zone a (dz_update (al_g53 L) (al_rrset L) (al_nodes L) rrsets) ds1)"

definition auth_handleUpdate ::
  "('t, 'z, 'n) auth_libs \<Rightarrow> 'n Client \<Rightarrow> ('t, 'z, 'n) AuthDataSource \<Rightarrow> (('t, 'z, 'n) AuthDataSource, zone_error option) zres" where
  "auth_handleUpdate L client ds =
     (case (m_Question (c_Request client), client_IP client) of
        (Some q, Some addr) \<Rightarrow> handleDynamicRRsets L (c_View client) (q_Name q) (Some addr) (m_Auth (c_Request client)) ds
      | _ \<Rightarrow> ZPanic ds)"

text \<open>The response is there before; without one an error is a panic.\<close>

definition auth_HandleUpdate ::
  "('t, 'z, 'n) auth_libs \<Rightarrow> 'n Client \<Rightarrow> ('t, 'z, 'n) AuthDataSource \<Rightarrow> (('t, 'z, 'n) AuthDataSource, 'n Client) zres" where
  "auth_HandleUpdate L client ds =
     bindZ (auth_handleUpdate L client ds) (\<lambda>ds1 err.
       case err of
         None \<Rightarrow> ZDone ds1 client
       | Some e \<Rightarrow>
           (case c_Response client of
              None \<Rightarrow> ZPanic ds1
            | Some r \<Rightarrow> ZDone ds1 (client\<lparr>c_Response := Some (with_rcode (if e = ErrServFail then R_SERVFAIL else R_NOTAUTH) r)\<rparr>)))"

section \<open>Configuration\<close>

record AuthZoneConf =
  azc_Name :: string
  azc_File :: string
  azc_Masters :: "string list"

record AuthZoneInView =
  azv_View :: view
  azv_Zones :: "AuthZoneConf list"

text \<open>The data of a configured zone; a file that cannot be read is a panic.\<close>

definition conf_zone :: "('t, 'z, 'n) auth_libs \<Rightarrow> 'n \<Rightarrow> AuthZoneConf \<Rightarrow> ('z, 'n) DynamicZone may_panic" where
  "conf_zone L origin z =
     (if azc_Masters z \<noteq> [] then
        map_option (\<lambda>dz. dz\<lparr>dz_masters := azc_Masters z\<rparr>)
          (loadZoneFromMaster (al_g53 L) (al_rrset L) (al_nodes L) (ae_dial (al_env L)) origin (azc_Masters z))
      else
        (case ae_ReadFile (al_env L) (azc_File z) of
           Inl err \<Rightarrow> None
         | Inr content \<Rightarrow> loadZone (al_g53 L) (al_rrset L) (al_nodes L) (ae_RRsetFromString (al_env L)) origin content))"

text \<open>A view that is not known has no tree, a refused zone is a panic.\<close>

fun auth_load ::
  "('t, 'z, 'n) auth_libs \<Rightarrow> (view \<times> AuthZoneConf) list \<Rightarrow> ('t, 'z, 'n) AuthDataSource \<Rightarrow> ('t, 'z, 'n) AuthDataSource may_panic" where
  "auth_load L [] ds = Some ds"
| "auth_load L ((v, z) # zs) ds =
     (case NameFromString (al_g53 L) (azc_Name z) of
        Inl err \<Rightarrow> None
      | Inr origin \<Rightarrow>
          Option.bind (conf_zone L origin z) (\<lambda>dz.
          Option.bind (ad_viewZones ds v) (\<lambda>tree.
            case new_zone dz ds of (a, ds1) \<Rightarrow>
              (case dt_Insert (al_zones L) tree origin a of
                 Inl err \<Rightarrow> None
               | Inr tree' \<Rightarrow> auth_load L zs (ds1\<lparr>ad_viewZones := (ad_viewZones ds1)(v \<mapsto> tree')\<rparr>)))))"

definition auth_ReloadConfig ::
  "('t, 'z, 'n) auth_libs \<Rightarrow> view list \<Rightarrow> AuthZoneInView list \<Rightarrow> ('t, 'z, 'n) AuthDataSource \<Rightarrow> ('t, 'z, 'n) AuthDataSource may_panic" where
  "auth_ReloadConfig L views confs ds =
     auth_load L (concat (map (\<lambda>c. map (Pair (azv_View c)) (azv_Zones c)) confs))
       (ds\<lparr>ad_viewZones := (\<lambda>v. if v \<in> set views then Some (NewDomainTree (al_zones L)) else None)\<rparr>)"

definition NewAuth :: "('t, 'z, 'n) auth_libs \<Rightarrow> view list \<Rightarrow> AuthZoneInView list \<Rightarrow> ('t, 'z, 'n) AuthDataSource may_panic" where
  "NewAuth L views confs =
     auth_ReloadConfig L views confs \<lparr>ad_viewZones = Map.empty, ad_zones = Map.empty, ad_next = 0\<rparr>"

section \<open>Commands\<close>

definition ErrGetZoneFail :: cmd_error where
  "ErrGetZoneFail = NewError (AuthErrCodeStart + 1) ''get zone from backend server failed''"
definition ErrZoneUpdateFailed :: cmd_error where
  "ErrZoneUpdateFailed = NewError (AuthErrCodeStart + 7) ''update zone failed''"
definition ErrInvalidZoneName :: cmd_error where
  "ErrInvalidZoneName = NewError (AuthErrCodeStart + 21) ''zone name isn't valid''"
definition ErrInvalidZoneData :: cmd_error where
  "ErrInvalidZoneData = NewError (AuthErrCodeStart + 24) ''invalid zone data''"
definition auth_ErrInvalidRR :: cmd_error where
  "auth_ErrInvalidRR = NewError (AuthErrCodeStart + 25) ''rr data isn't valid''"
definition ErrUpdateZoneFailed :: cmd_error where
  "ErrUpdateZoneFailed = NewError (AuthErrCodeStart + 27) ''update auth zone failed''"

record AuthRR =
  arr_View :: view
  arr_Zone :: string
  arr_Name :: string
  arr_Ttl :: string
  arr_Type :: string
  arr_Rdata :: string

datatype auth_cmd =
    AddAuthZone view string "string list" string
  | DeleteAuthZone view string
  | UpdateAuthZone view string "string list"
  | AddAuthRrs "AuthRR list"
  | DeleteAuthRrs "AuthRR list"
  | UpdateAuthRrs "AuthRR list" "AuthRR list"

definition stringFromRRs :: "AuthRR list \<Rightarrow> string" where
  "stringFromRRs rrs =
     concat (map (\<lambda>rr. ''view:'' @ arr_View rr @ '', zone:'' @ arr_Zone rr @ '', name:'' @ arr_Name rr @ '', ttl:'' @ arr_Ttl rr @
                      '', type:'' @ arr_Type rr @ '', rdata:'' @ arr_Rdata rr @ [CHR 0x0A]) rrs)"

fun auth_cmd_String :: "auth_cmd \<Rightarrow> string" where
  "auth_cmd_String (AddAuthZone v n ms content) =
     ''name: add authzone and params: {zone:'' @ n @ '', view:'' @ v @ '', masters:'' @ strings_Join ms '','' @ '', zone_content:'' @ content @ '']}''"
| "auth_cmd_String (DeleteAuthZone v n) = ''name: delete authzone and params: {zone:'' @ n @ '', view:'' @ v @ ''}''"
| "auth_cmd_String (UpdateAuthZone v n ms) =
     ''name: update authzone and params: {zone:'' @ n @ '', view:'' @ v @ '', masters:'' @ strings_Join ms '','' @ '']}''"
| "auth_cmd_String (AddAuthRrs rrs) = ''name: add auth rrs and params: {'' @ [CHR 0x0A] @ stringFromRRs rrs @ ''}''"
| "auth_cmd_String (DeleteAuthRrs rrs) = ''name: delete auth rrs and params: {'' @ [CHR 0x0A] @ stringFromRRs rrs @ ''}''"
| "auth_cmd_String (UpdateAuthRrs olds news) =
     ''name: update auth rr ttl or rdata and params: {rrs for delete:'' @ [CHR 0x0A] @ stringFromRRs olds @
     '', rrs for add:'' @ [CHR 0x0A] @ stringFromRRs news @ ''}''"

definition genBasicZoneContent :: "string \<Rightarrow> string" where
  "genBasicZoneContent origin =
     origin @ '' 3600 IN SOA ns.'' @ origin @ '' mail.'' @ origin @ '' 1 28800 3600 604800 1800'' @ [CHR 0x0A] @
     origin @ '' 3600 IN NS ns.'' @ origin @ [CHR 0x0A] @
     ''ns.'' @ origin @ '' 3600 IN A 127.0.0.1'' @ [CHR 0x0A]"

text \<open>A zone that cannot be loaded is inserted all the same, without data. The result is the text of the error.\<close>

definition loadZoneData ::
  "('t, 'z, 'n) auth_libs \<Rightarrow> 'n \<Rightarrow> view \<Rightarrow> string \<Rightarrow> string list \<Rightarrow> ('t, 'z, 'n) AuthDataSource
   \<Rightarrow> (('t, 'z, 'n) AuthDataSource, string option) zres" where
  "loadZoneData L origin v content masters ds =
     (case ad_viewZones ds v of
        None \<Rightarrow> ZDone ds (Some (Info (AddDetail ErrUnknownView v)))
      | Some tree \<Rightarrow>
          (case (if masters \<noteq> [] then loadZoneFromMaster (al_g53 L) (al_rrset L) (al_nodes L) (ae_dial (al_env L)) origin masters
                 else loadZone (al_g53 L) (al_rrset L) (al_nodes L) (ae_RRsetFromString (al_env L)) origin
                        (if content = [] then genBasicZoneContent (Name_String (al_g53 L) origin) else content)) of
             None \<Rightarrow> ZPanic ds
           | Some dz \<Rightarrow>
               (case new_zone dz ds of (a, ds1) \<Rightarrow>
                  (case dt_Insert (al_zones L) tree origin a of
                     Inl err \<Rightarrow> ZDone ds1 (Some err)
                   | Inr tree' \<Rightarrow> ZDone (ds1\<lparr>ad_viewZones := (ad_viewZones ds1)(v \<mapsto> tree')\<rparr>) None))))"

text \<open>The names of the zone commands are parsed with a panic for a bad name (\<open>NameFromStringUnsafe\<close>).\<close>

definition with_name ::
  "('t, 'z, 'n) auth_libs \<Rightarrow> string \<Rightarrow> ('t, 'z, 'n) AuthDataSource \<Rightarrow> ('n \<Rightarrow> (('t, 'z, 'n) AuthDataSource, 'a) zres) \<Rightarrow> (('t, 'z, 'n) AuthDataSource, 'a) zres" where
  "with_name L name ds f = (case NameFromString (al_g53 L) name of Inl err \<Rightarrow> ZPanic ds | Inr n \<Rightarrow> f n)"

definition addAuthZone ::
  "('t, 'z, 'n) auth_libs \<Rightarrow> view \<Rightarrow> string \<Rightarrow> string \<Rightarrow> string list \<Rightarrow> ('t, 'z, 'n) AuthDataSource
   \<Rightarrow> (('t, 'z, 'n) AuthDataSource, cmd_error option) zres" where
  "addAuthZone L v name content masters ds =
     with_name L name ds (\<lambda>origin.
       bindZ (loadZoneData L origin v content masters ds) (\<lambda>ds1 err. ZDone ds1 (map_option (AddDetail ErrInvalidZoneData) err)))"

text \<open>The tree of a view in which a zone was found is there.\<close>

definition deleteAuthZone ::
  "('t, 'z, 'n) auth_libs \<Rightarrow> view \<Rightarrow> string \<Rightarrow> ('t, 'z, 'n) AuthDataSource \<Rightarrow> (('t, 'z, 'n) AuthDataSource, cmd_error option) zres" where
  "deleteAuthZone L v name ds =
     with_name L name ds (\<lambda>origin.
       case auth_GetZone (al_zones L) v origin ds of
         None \<Rightarrow> ZPanic ds
       | Some (Some (a, ExactMatch)) \<Rightarrow>
           ZDone (ds\<lparr>ad_viewZones := (ad_viewZones ds)(v := map_option (\<lambda>t. dt_Delete (al_zones L) t origin) (ad_viewZones ds v))\<rparr>) None
       | Some _ \<Rightarrow> ZDone ds (Some ErrGetZoneFail))"

definition updateAuthZone ::
  "('t, 'z, 'n) auth_libs \<Rightarrow> view \<Rightarrow> string \<Rightarrow> string list \<Rightarrow> ('t, 'z, 'n) AuthDataSource \<Rightarrow> (('t, 'z, 'n) AuthDataSource, cmd_error option) zres" where
  "updateAuthZone L v name masters ds =
     with_name L name ds (\<lambda>origin.
       case auth_GetZone (al_zones L) v origin ds of
         None \<Rightarrow> ZPanic ds
       | Some (Some (a, ExactMatch)) \<Rightarrow>
           bindZ (at_zone a (SetMasters masters) ds) (\<lambda>ds1 _.
             case (if masters = [] then Some (a, ds1)
                   else map_option (\<lambda>dz. new_zone dz ds1)
                          (loadZoneFromMaster (al_g53 L) (al_rrset L) (al_nodes L) (ae_dial (al_env L)) origin masters)) of
               None \<Rightarrow> ZPanic ds1
             | Some (b, ds2) \<Rightarrow>
                 (case ad_viewZones ds2 v of
                    None \<Rightarrow> ZPanic ds2
                  | Some tree \<Rightarrow>
                      (let tree1 = dt_Delete (al_zones L) tree origin in
                       case dt_Insert (al_zones L) tree1 origin b of
                         Inl err \<Rightarrow> ZDone (ds2\<lparr>ad_viewZones := (ad_viewZones ds2)(v \<mapsto> tree1)\<rparr>) (Some (AddDetail ErrUpdateZoneFailed err))
                       | Inr tree2 \<Rightarrow> ZDone (ds2\<lparr>ad_viewZones := (ad_viewZones ds2)(v \<mapsto> tree2)\<rparr>) None)))
       | Some _ \<Rightarrow> ZDone ds (Some ErrGetZoneFail))"

definition auth_newRRset ::
  "('t, 'z, 'n) auth_libs \<Rightarrow> string \<Rightarrow> string \<Rightarrow> string \<Rightarrow> string \<Rightarrow> u16 \<Rightarrow> string + 'n RRset" where
  "auth_newRRset L name ttl typ rdata cls =
     bindE (NameFromString (al_g53 L) name) (\<lambda>rrName.
     bindE (if ttl = [] then Inr 0 else ae_TTLFromString (al_env L) ttl) (\<lambda>rrTtl.
     bindE (TypeFromString (al_g53 L) typ) (\<lambda>rrType.
     bindE (f_RdataFromString (al_rrset L) rrType rdata) (\<lambda>rrData.
       Inr \<lparr>rr_Name = rrName, rr_Type = rrType, rr_Class = cls, rr_Ttl = rrTtl, rr_Rdatas = [rrData]\<rparr>))))"

text \<open>
  All records of a command must be of one view and one zone. As long as the view is the empty text the
  next record sets view and zone, which are always set together.
\<close>

fun collect_rrs ::
  "('t, 'z, 'n) auth_libs \<Rightarrow> string \<Rightarrow> u16 \<Rightarrow> AuthRR list \<Rightarrow> view \<Rightarrow> 'n option \<Rightarrow> cmd_error + view \<times> 'n option \<times> 'n RRset list" where
  "collect_rrs L verb cls [] targetView targetZone = Inr (targetView, targetZone, [])"
| "collect_rrs L verb cls (rr # rrs) targetView targetZone =
     (case NameFromString (al_g53 L) (arr_Zone rr) of
        Inl err \<Rightarrow> Inl (AddDetail ErrInvalidZoneName err)
      | Inr origin \<Rightarrow>
          (case auth_newRRset L (arr_Name rr) (arr_Ttl rr) (arr_Type rr) (arr_Rdata rr) cls of
             Inl err \<Rightarrow> Inl (AddDetail auth_ErrInvalidRR err)
           | Inr rrset \<Rightarrow>
               (let rest = \<lambda>v z. map_sum id (\<lambda>(v', z', rs). (v', z', rrset # rs)) (collect_rrs L verb cls rrs v z) in
                if targetView = [] then rest (arr_View rr) (Some origin)
                else if targetView \<noteq> arr_View rr then Inl (AddDetail ErrZoneUpdateFailed (verb @ '' rr in different view in one request''))
                else case targetZone of
                       None \<Rightarrow> rest targetView targetZone
                     | Some z \<Rightarrow>
                         if \<not> Name_Equals (al_g53 L) z origin
                         then Inl (AddDetail ErrZoneUpdateFailed (verb @ '' rr in different zone in one request''))
                         else rest targetView targetZone)))"

text \<open>Without a record there is no zone name: nil is searched for in the tree of the view named by the empty text, if there is one.\<close>

definition change_rrs ::
  "('t, 'z, 'n) auth_libs \<Rightarrow> string \<Rightarrow> u16 \<Rightarrow> AuthRR list \<Rightarrow> ('t, 'z, 'n) AuthDataSource \<Rightarrow> (('t, 'z, 'n) AuthDataSource, cmd_error option) zres" where
  "change_rrs L verb cls rrs ds =
     (case collect_rrs L verb cls rrs [] None of
        Inl err \<Rightarrow> ZDone ds (Some err)
      | Inr (v, zone, rrsets) \<Rightarrow>
          bindZ (case zone of
                   Some z \<Rightarrow> handleDynamicRRsets L v z None rrsets ds
                 | None \<Rightarrow> if ad_viewZones ds v = None then ZDone ds (Some ErrNoAuthUpdate) else ZPanic ds)
            (\<lambda>ds1 err. ZDone ds1 (map_option (\<lambda>e. AddDetail ErrZoneUpdateFailed (zone_error_Error (ae_ErrDuplicateRdata (al_env L)) e)) err)))"

definition addAuthRrs ::
  "('t, 'z, 'n) auth_libs \<Rightarrow> AuthRR list \<Rightarrow> ('t, 'z, 'n) AuthDataSource \<Rightarrow> (('t, 'z, 'n) AuthDataSource, cmd_error option) zres" where
  "addAuthRrs L rrs ds = change_rrs L ''add'' CLASS_IN rrs ds"

definition deleteAuthRrs ::
  "('t, 'z, 'n) auth_libs \<Rightarrow> AuthRR list \<Rightarrow> ('t, 'z, 'n) AuthDataSource \<Rightarrow> (('t, 'z, 'n) AuthDataSource, cmd_error option) zres" where
  "deleteAuthRrs L rrs ds = change_rrs L ''delete'' CLASS_NONE rrs ds"

definition updateAuthRrs ::
  "('t, 'z, 'n) auth_libs \<Rightarrow> AuthRR list \<Rightarrow> AuthRR list \<Rightarrow> ('t, 'z, 'n) AuthDataSource \<Rightarrow> (('t, 'z, 'n) AuthDataSource, cmd_error option) zres" where
  "updateAuthRrs L oldRrs newRrs ds =
     bindZ (case oldRrs of
              [] \<Rightarrow> ZDone ds None
            | rr # _ \<Rightarrow>
                if arr_Type rr \<noteq> Type_String (al_g53 L) RR_SOA \<and> arr_Type rr \<noteq> Type_String (al_g53 L) RR_CNAME
                then deleteAuthRrs L oldRrs ds else ZDone ds None)
       (\<lambda>ds1 err. case err of Some e \<Rightarrow> ZDone ds1 (Some e) | None \<Rightarrow> addAuthRrs L newRrs ds1)"

fun auth_HandleCmd ::
  "('t, 'z, 'n) auth_libs \<Rightarrow> ('t, 'z, 'n) AuthDataSource \<Rightarrow> auth_cmd \<Rightarrow> (('t, 'z, 'n) AuthDataSource, cmd_error option) zres" where
  "auth_HandleCmd L ds (AddAuthZone v n ms content) = addAuthZone L v n content ms ds"
| "auth_HandleCmd L ds (DeleteAuthZone v n) = deleteAuthZone L v n ds"
| "auth_HandleCmd L ds (UpdateAuthZone v n ms) = updateAuthZone L v n ms ds"
| "auth_HandleCmd L ds (AddAuthRrs rrs) = addAuthRrs L rrs ds"
| "auth_HandleCmd L ds (DeleteAuthRrs rrs) = deleteAuthRrs L rrs ds"
| "auth_HandleCmd L ds (UpdateAuthRrs olds news) = updateAuthRrs L olds news ds"

end
