(* ===== verification/Xfr.thy ===== *)
theory Xfr
  imports Auth View_Selector
begin

text \<open>
  Zone transfers, \<open>xfr/\<close>: the state machines that read an incremental or a full transfer (\<open>fsm.go\<close>), the
  notifications and the transfers they start (\<open>runner.go\<close>) and the handler (\<open>xfr.go\<close>). The engine of the
  state machines is a library: \<open>fsm_laws\<close> says what is relied on of it. A transfer works on a copy of
  the zone like an update. A panic of a transfer ends the process, since nothing recovers it.
\<close>

section \<open>State machines\<close>

text \<open>
  A machine has a table of events with their source and target states and two callbacks for every
  event. The callback before an event may cancel it with an error; a callback may panic. The data the
  callbacks work on are passed through. An event that leads to the state it starts from is reported
  as no transition.
\<close>

datatype fsm_result = FsmOk | FsmNoTransition | FsmError string

type_synonym fsm_table = "(string \<times> string list \<times> string) list"

record ('a, 's) fsm_callbacks =
  cb_before :: "string \<Rightarrow> string \<Rightarrow> 'a \<Rightarrow> 's \<Rightarrow> ('s \<times> string option) may_panic"
  cb_after :: "string \<Rightarrow> string \<Rightarrow> 'a \<Rightarrow> 's \<Rightarrow> 's may_panic"

type_synonym ('a, 's) fsm_engine =
  "fsm_table \<Rightarrow> ('a, 's) fsm_callbacks \<Rightarrow> string \<Rightarrow> 'a \<Rightarrow> string \<times> 's \<Rightarrow> ((string \<times> 's) \<times> fsm_result) may_panic"

definition fsm_target :: "fsm_table \<Rightarrow> string \<Rightarrow> string \<Rightarrow> string option" where
  "fsm_target tab ev src = map_option (\<lambda>(e, srcs, dst). dst) (find (\<lambda>(e, srcs, dst). e = ev \<and> src \<in> set srcs) tab)"

definition fsm_laws :: "('a, 's) fsm_engine \<Rightarrow> bool" where
  "fsm_laws Ev \<longleftrightarrow>
     (\<forall>tab cb ev arg src s. fsm_target tab ev src = None \<longrightarrow> (\<exists>err. Ev tab cb ev arg (src, s) = Some ((src, s), FsmError err))) \<and>
     (\<forall>tab cb ev arg src s dst. fsm_target tab ev src = Some dst \<longrightarrow> cb_before cb ev src arg s = None \<longrightarrow> Ev tab cb ev arg (src, s) = None) \<and>
     (\<forall>tab cb ev arg src s dst s1 c. fsm_target tab ev src = Some dst \<longrightarrow> cb_before cb ev src arg s = Some (s1, Some c) \<longrightarrow>
        (\<exists>err. Ev tab cb ev arg (src, s) = Some ((src, s1), FsmError err))) \<and>
     (\<forall>tab cb ev arg src s dst s1. fsm_target tab ev src = Some dst \<longrightarrow> cb_before cb ev src arg s = Some (s1, None) \<longrightarrow>
        Ev tab cb ev arg (src, s) = map_option (\<lambda>s2. ((dst, s2), if dst = src then FsmNoTransition else FsmOk)) (cb_after cb ev src arg s1))"

section \<open>The machines of a transfer\<close>

datatype xfrType = AXFR | IXFR

text \<open>The generator: the two serial numbers and the copy of the zone the transfer works on, with the heap.\<close>

record ('z, 'n) XFRSMGenertor =
  xg_latestSerial :: u32
  xg_currentSerial :: u32
  xg_tx :: "'n rr_heap \<times> ('z, 'n) MemoryZone"

datatype 'n xfr_arg = ArgSerial u32 | ArgRRset "'n RRset"

definition errSerialNumberIsWrong :: string where "errSerialNumberIsWrong = ''serial number should in sequence''"
definition errWrapperSOAIsNotInPair :: string where "errWrapperSOAIsNotInPair = ''serial number of wrapper soa should in pair''"
definition errSOAShouldHasOneRR :: string where "errSOAShouldHasOneRR = ''soa rrset in axfr should has one rr''"
definition errIXFRDataSectionFormatError :: string where "errIXFRDataSectionFormatError = ''ixfr data section format isn't valid''"

definition newFSMGenerator :: "u32 \<Rightarrow> u32 \<Rightarrow> 'n rr_heap \<times> ('z, 'n) MemoryZone \<Rightarrow> ('z, 'n) XFRSMGenertor" where
  "newFSMGenerator currentSerial latestSerial tx = \<lparr>xg_latestSerial = latestSerial, xg_currentSerial = currentSerial, xg_tx = tx\<rparr>"

text \<open>The machine does not look at the errors of the zone; a record to add is a new object.\<close>

definition tx_Add ::
  "'n g53 \<Rightarrow> 'n rrset_lib \<Rightarrow> ('z, 'n) zone_nodes \<Rightarrow> 'n RRset \<Rightarrow> ('z, 'n) XFRSMGenertor \<Rightarrow> ('z, 'n) XFRSMGenertor may_panic" where
  "tx_Add G R Z rrset g =
     (case new_rrset rrset (fst (xg_tx g)) of (p, h) \<Rightarrow>
        map_option (\<lambda>(tx, err). g\<lparr>xg_tx := tx\<rparr>) (mz_addRRset G R Z p (h, snd (xg_tx g))))"

definition tx_DeleteRRset ::
  "'n g53 \<Rightarrow> ('z, 'n) zone_nodes \<Rightarrow> 'n RRset \<Rightarrow> ('z, 'n) XFRSMGenertor \<Rightarrow> ('z, 'n) XFRSMGenertor may_panic" where
  "tx_DeleteRRset G Z rrset g = map_option (\<lambda>(tx, err). g\<lparr>xg_tx := tx\<rparr>) (mz_deleteRRset G Z rrset (xg_tx g))"

definition tx_IncreaseSerialNumber :: "('z, 'n) zone_nodes \<Rightarrow> ('z, 'n) XFRSMGenertor \<Rightarrow> ('z, 'n) XFRSMGenertor may_panic" where
  "tx_IncreaseSerialNumber Z g = map_option (\<lambda>tx. g\<lparr>xg_tx := tx\<rparr>) (mz_increaseSerialNumber Z (xg_tx g))"

definition ixfr_table :: fsm_table where
  "ixfr_table =
     [(''get_wrapper_soa'', [''init''], ''start''),
      (''get_mid_soa'', [''start''], ''delete_section''),
      (''get_mid_soa'', [''delete_section''], ''add_section''),
      (''get_mid_soa'', [''add_section''], ''delete_section''),
      (''get_wrapper_soa'', [''add_section''], ''done''),
      (''get_none_soa'', [''delete_section''], ''delete_section''),
      (''get_none_soa'', [''add_section''], ''add_section'')]"

definition ixfr_before ::
  "('z, 'n) zone_nodes \<Rightarrow> string \<Rightarrow> string \<Rightarrow> 'n xfr_arg \<Rightarrow> ('z, 'n) XFRSMGenertor \<Rightarrow> (('z, 'n) XFRSMGenertor \<times> string option) may_panic" where
  "ixfr_before Z ev src arg g =
     (if ev = ''get_wrapper_soa'' then
        (case arg of
           ArgRRset r \<Rightarrow> None
         | ArgSerial serial \<Rightarrow>
             if src = ''init'' then Some (g\<lparr>xg_latestSerial := serial\<rparr>, None)
             else Some (g, if xg_latestSerial g \<noteq> serial then Some errWrapperSOAIsNotInPair else None))
      else if ev = ''get_mid_soa'' then
        (case arg of
           ArgRRset r \<Rightarrow> None
         | ArgSerial serial \<Rightarrow>
             if src = ''start'' \<or> src = ''add_section'' then
               Some (g, if serial \<noteq> xg_currentSerial g then Some errSerialNumberIsWrong else None)
             else if serial \<noteq> xg_currentSerial g + 1 then Some (g, Some errSerialNumberIsWrong)
             else map_option (\<lambda>g'. (g'\<lparr>xg_currentSerial := xg_currentSerial g + 1\<rparr>, None)) (tx_IncreaseSerialNumber Z g))
      else Some (g, None))"

definition ixfr_after ::
  "'n g53 \<Rightarrow> 'n rrset_lib \<Rightarrow> ('z, 'n) zone_nodes \<Rightarrow> string \<Rightarrow> string \<Rightarrow> 'n xfr_arg \<Rightarrow> ('z, 'n) XFRSMGenertor \<Rightarrow> ('z, 'n) XFRSMGenertor may_panic" where
  "ixfr_after G R Z ev src arg g =
     (if ev = ''get_none_soa'' then
        (case arg of
           ArgSerial serial \<Rightarrow> None
         | ArgRRset rrset \<Rightarrow> if src = ''delete_section'' then tx_DeleteRRset G Z rrset g else tx_Add G R Z rrset g)
      else Some g)"

definition axfr_table :: fsm_table where
  "axfr_table =
     [(''get_wrapper_soa'', [''init''], ''start''),
      (''get_none_soa'', [''start''], ''add_section''),
      (''get_none_soa'', [''add_section''], ''add_section''),
      (''get_wrapper_soa'', [''add_section''], ''done'')]"

definition axfr_before ::
  "'n g53 \<Rightarrow> 'n rrset_lib \<Rightarrow> ('z, 'n) zone_nodes \<Rightarrow> string \<Rightarrow> string \<Rightarrow> 'n xfr_arg \<Rightarrow> ('z, 'n) XFRSMGenertor
   \<Rightarrow> (('z, 'n) XFRSMGenertor \<times> string option) may_panic" where
  "axfr_before G R Z ev src arg g =
     (if ev = ''get_wrapper_soa'' then
        (case arg of
           ArgSerial serial \<Rightarrow> None
         | ArgRRset soa \<Rightarrow>
             Option.bind (soa_serial soa) (\<lambda>serial.
               if serial \<noteq> xg_latestSerial g then Some (g, Some errSerialNumberIsWrong)
               else if src = ''init'' then map_option (\<lambda>g'. (g', None)) (tx_Add G R Z soa g)
               else Some (g, None)))
      else Some (g, None))"

definition axfr_after ::
  "'n g53 \<Rightarrow> 'n rrset_lib \<Rightarrow> ('z, 'n) zone_nodes \<Rightarrow> string \<Rightarrow> string \<Rightarrow> 'n xfr_arg \<Rightarrow> ('z, 'n) XFRSMGenertor \<Rightarrow> ('z, 'n) XFRSMGenertor may_panic" where
  "axfr_after G R Z ev src arg g =
     (if ev = ''get_none_soa'' then (case arg of ArgSerial serial \<Rightarrow> None | ArgRRset rrset \<Rightarrow> tx_Add G R Z rrset g) else Some g)"

text \<open>A machine: the table, the callbacks, and the state with the generator.\<close>

type_synonym ('z, 'n) xfr_sm = "string \<times> ('z, 'n) XFRSMGenertor"
type_synonym ('z, 'n) xfr_engine = "('n xfr_arg, ('z, 'n) XFRSMGenertor) fsm_engine"

definition ixfr_Event ::
  "('z, 'n) xfr_engine \<Rightarrow> 'n g53 \<Rightarrow> 'n rrset_lib \<Rightarrow> ('z, 'n) zone_nodes \<Rightarrow> string \<Rightarrow> 'n xfr_arg \<Rightarrow> ('z, 'n) xfr_sm \<Rightarrow> (('z, 'n) xfr_sm \<times> fsm_result) may_panic" where
  "ixfr_Event Ev G R Z = Ev ixfr_table \<lparr>cb_before = ixfr_before Z, cb_after = ixfr_after G R Z\<rparr>"

definition axfr_Event ::
  "('z, 'n) xfr_engine \<Rightarrow> 'n g53 \<Rightarrow> 'n rrset_lib \<Rightarrow> ('z, 'n) zone_nodes \<Rightarrow> string \<Rightarrow> 'n xfr_arg \<Rightarrow> ('z, 'n) xfr_sm \<Rightarrow> (('z, 'n) xfr_sm \<times> fsm_result) may_panic" where
  "axfr_Event Ev G R Z = Ev axfr_table \<lparr>cb_before = axfr_before G R Z, cb_after = axfr_after G R Z\<rparr>"

section \<open>Reading a transfer\<close>

text \<open>The result of a run: the machine and the error, if any.\<close>

type_synonym ('z, 'n) sm_run = "(('z, 'n) xfr_sm \<times> string option) may_panic"

text \<open>
  The data of an SOA set number \<open>i\<close> of \<open>rrsetCount\<close>, from number \<open>j\<close> of \<open>rdataCount\<close> on: the very first and the very
  last one wrap the transfer. Every error, also no transition, ends the run.
\<close>

fun run_soas ::
  "(string \<Rightarrow> 'n xfr_arg \<Rightarrow> ('z, 'n) xfr_sm \<Rightarrow> (('z, 'n) xfr_sm \<times> fsm_result) may_panic) \<Rightarrow> nat \<Rightarrow> nat \<Rightarrow> nat \<Rightarrow> nat \<Rightarrow> 'n Rdata list \<Rightarrow> ('z, 'n) xfr_sm
   \<Rightarrow> ('z, 'n) sm_run" where
  "run_soas E i rrsetCount rdataCount j [] sm = Some (sm, None)"
| "run_soas E i rrsetCount rdataCount j (d # ds) sm =
     (case d of
        RdSOA mname serial minimum \<Rightarrow>
          (let wrapper = (i = 0 \<and> j = 0) \<or> (Suc i = rrsetCount \<and> Suc j = rdataCount) in
           case E (if wrapper then ''get_wrapper_soa'' else ''get_mid_soa'') (ArgSerial serial) sm of
             None \<Rightarrow> None
           | Some (sm', FsmOk) \<Rightarrow> run_soas E i rrsetCount rdataCount (Suc j) ds sm'
           | Some (sm', FsmNoTransition) \<Rightarrow> Some (sm', Some ''no transition'')
           | Some (sm', FsmError err) \<Rightarrow> Some (sm', Some err))
      | _ \<Rightarrow> None)"

text \<open>Data are only read in a section, which is no transition; a transition here would have no error to report.\<close>

fun runIXFRFSM ::
  "(string \<Rightarrow> 'n xfr_arg \<Rightarrow> ('z, 'n) xfr_sm \<Rightarrow> (('z, 'n) xfr_sm \<times> fsm_result) may_panic) \<Rightarrow> 'n rrset_lib \<Rightarrow> nat \<Rightarrow> nat \<Rightarrow> 'n RRset list \<Rightarrow> ('z, 'n) xfr_sm
   \<Rightarrow> ('z, 'n) sm_run" where
  "runIXFRFSM E R rrsetCount i [] sm = Some (sm, None)"
| "runIXFRFSM E R rrsetCount i (rrset # rrsets) sm =
     (if rr_Type rrset = RR_SOA then
        (case run_soas E i rrsetCount (f_RRset_RRCount R rrset) 0 (rr_Rdatas rrset) sm of
           None \<Rightarrow> None
         | Some (sm', None) \<Rightarrow> runIXFRFSM E R rrsetCount (Suc i) rrsets sm'
         | Some (sm', Some err) \<Rightarrow> Some (sm', Some err))
      else
        (case E ''get_none_soa'' (ArgRRset rrset) sm of
           None \<Rightarrow> None
         | Some (sm', FsmNoTransition) \<Rightarrow> runIXFRFSM E R rrsetCount (Suc i) rrsets sm'
         | Some (sm', FsmOk) \<Rightarrow> None
         | Some (sm', FsmError err) \<Rightarrow> Some (sm', Some errIXFRDataSectionFormatError)))"

fun runAXFRFSM ::
  "(string \<Rightarrow> 'n xfr_arg \<Rightarrow> ('z, 'n) xfr_sm \<Rightarrow> (('z, 'n) xfr_sm \<times> fsm_result) may_panic) \<Rightarrow> 'n rrset_lib \<Rightarrow> nat \<Rightarrow> nat \<Rightarrow> 'n RRset list \<Rightarrow> ('z, 'n) xfr_sm
   \<Rightarrow> ('z, 'n) sm_run" where
  "runAXFRFSM E R rrsetCount i [] sm = Some (sm, None)"
| "runAXFRFSM E R rrsetCount i (rrset # rrsets) sm =
     (if rr_Type rrset = RR_SOA \<and> f_RRset_RRCount R rrset \<noteq> 1 then Some (sm, Some errSOAShouldHasOneRR)
      else
        (case (if rr_Type rrset = RR_SOA then
                 (if i = 0 \<or> Suc i = rrsetCount then E ''get_wrapper_soa'' (ArgRRset rrset) sm else Some (sm, FsmOk))
               else E ''get_none_soa'' (ArgRRset rrset) sm) of
           None \<Rightarrow> None
         | Some (sm', FsmError err) \<Rightarrow> Some (sm', Some err)
         | Some (sm', _) \<Rightarrow> runAXFRFSM E R rrsetCount (Suc i) rrsets sm'))"

definition sm_Run ::
  "('z, 'n) xfr_engine \<Rightarrow> 'n g53 \<Rightarrow> 'n rrset_lib \<Rightarrow> ('z, 'n) zone_nodes \<Rightarrow> xfrType \<Rightarrow> 'n RRset list \<Rightarrow> ('z, 'n) XFRSMGenertor \<Rightarrow> ('z, 'n) sm_run" where
  "sm_Run Ev G R Z typ answers g =
     (case typ of
        IXFR \<Rightarrow> runIXFRFSM (ixfr_Event Ev G R Z) R (length answers) 0 answers (''init'', g)
      | AXFR \<Rightarrow> runAXFRFSM (axfr_Event Ev G R Z) R (length answers) 0 answers (''init'', g))"

section \<open>Transfers\<close>

text \<open>One attempt: whether it failed, and the zone. The result of the commit is not looked at.\<close>

definition xfr_attempt ::
  "('z, 'n) xfr_engine \<Rightarrow> 'n g53 \<Rightarrow> 'n rrset_lib \<Rightarrow> ('z, 'n) zone_nodes \<Rightarrow> xfrType \<Rightarrow> u32 \<Rightarrow> u32 \<Rightarrow> 'n RRset list \<Rightarrow> ('z, 'n) DynamicZone
   \<Rightarrow> (('z, 'n) DynamicZone, bool) zres" where
  "xfr_attempt Ev G R Z typ currentSerial latestSerial answers dz =
     bindZ (Dynamic_Zone.Begin Z dz) (\<lambda>dz1 tmp.
       case sm_Run Ev G R Z typ answers (newFSMGenerator currentSerial latestSerial (dz_heap dz1, tmp)) of
         None \<Rightarrow> ZPanic dz1
       | Some ((state, g), None) \<Rightarrow> ZDone (fst (Commit Z (snd (xg_tx g)) (dz1\<lparr>dz_heap := fst (xg_tx g)\<rparr>))) False
       | Some ((state, g), Some err) \<Rightarrow> ZDone (RollBack (dz1\<lparr>dz_heap := fst (xg_tx g)\<rparr>)) True)"

definition updateZoneUseXFR ::
  "('z, 'n) xfr_engine \<Rightarrow> 'n g53 \<Rightarrow> 'n rrset_lib \<Rightarrow> ('z, 'n) zone_nodes \<Rightarrow> xfrType \<Rightarrow> u32 \<Rightarrow> u32 \<Rightarrow> 'n RRset list \<Rightarrow> ('z, 'n) DynamicZone
   \<Rightarrow> (('z, 'n) DynamicZone, bool) zres" where
  "updateZoneUseXFR Ev G R Z typ currentSerial latestSerial answers dz =
     bindZ (xfr_attempt Ev G R Z typ currentSerial latestSerial answers dz) (\<lambda>dz1 failed.
       if failed \<and> typ = IXFR then xfr_attempt Ev G R Z AXFR currentSerial latestSerial answers dz1 else ZDone dz1 failed)"

text \<open>
  The DNS library and the network. \<open>xe_exchange\<close> sends a request to a master and reads one message; it
  fails, or has a message that may be nil if it could not be decoded.
\<close>

record 'n xfr_env =
  xe_CompareSerial :: "u32 \<Rightarrow> u32 \<Rightarrow> int"
  xe_MakeAXFR :: "'n \<Rightarrow> 'n Message"
  xe_MakeIXFR :: "'n \<Rightarrow> 'n RRset \<Rightarrow> 'n Message"
  xe_exchange :: "string \<Rightarrow> 'n Message \<Rightarrow> string + 'n Message option"

text \<open>The sections of the message are read before the error is checked. An SOA that is found nowhere asks for a full transfer.\<close>

definition fetch_and_update ::
  "'n xfr_env \<Rightarrow> ('z, 'n) xfr_engine \<Rightarrow> 'n g53 \<Rightarrow> 'n rrset_lib \<Rightarrow> ('z, 'n) zone_nodes \<Rightarrow> string \<Rightarrow> 'n Message \<Rightarrow> xfrType \<Rightarrow> u32 \<Rightarrow> u32
   \<Rightarrow> ('z, 'n) DynamicZone \<Rightarrow> (('z, 'n) DynamicZone, bool) zres" where
  "fetch_and_update X Ev G R Z master request typ currentSerial latestSerial dz =
     (case xe_exchange X master request of
        Inl err \<Rightarrow> ZDone dz True
      | Inr None \<Rightarrow> ZPanic dz
      | Inr (Some resp) \<Rightarrow> updateZoneUseXFR Ev G R Z typ currentSerial latestSerial (m_Answer resp) dz)"

definition doXFR ::
  "'n xfr_env \<Rightarrow> ('z, 'n) xfr_engine \<Rightarrow> 'n g53 \<Rightarrow> 'n rrset_lib \<Rightarrow> ('z, 'n) zone_nodes \<Rightarrow> ('z, 'n) zone_search \<Rightarrow> u32 \<Rightarrow> string
   \<Rightarrow> ('z, 'n) DynamicZone \<Rightarrow> (('z, 'n) DynamicZone, bool) zres" where
  "doXFR X Ev G R Z S latestSerial master dz =
     (let name = mz_origin (dz_zone dz) in
      bindZ (dz_Find G Z S name RR_SOA DefaultFind dz) (\<lambda>dz1 ctx.
        if fc_rrset ctx = nil then fetch_and_update X Ev G R Z master (xe_MakeAXFR X name) AXFR 0 latestSerial dz1
        else
          (case hp_at (dz_heap dz1) (fc_rrset ctx) of
             None \<Rightarrow> ZPanic dz1
           | Some soa \<Rightarrow>
               (case soa_serial soa of
                  None \<Rightarrow> ZPanic dz1
                | Some currentSerial \<Rightarrow>
                    if xe_CompareSerial X currentSerial latestSerial \<noteq> -1 then ZDone dz1 True
                    else fetch_and_update X Ev G R Z master (xe_MakeIXFR X name soa) IXFR currentSerial latestSerial dz1))))"

section \<open>Notifications\<close>

text \<open>The zones under transfer, per view. A transfer that was started knows the zone with its name.\<close>

record 'n XFRRunner =
  xr_inFlightIXFR :: "view \<Rightarrow> 'n list"

definition newXFRRunner :: "'n XFRRunner" where
  "newXFRRunner = \<lparr>xr_inFlightIXFR = (\<lambda>_. [])\<rparr>"

record 'n transfer =
  tr_view :: view
  tr_zone :: nat
  tr_name :: 'n
  tr_latestSerial :: u32
  tr_master :: string

definition addZoneToTransfer :: "'n g53 \<Rightarrow> view \<Rightarrow> 'n \<Rightarrow> 'n XFRRunner \<Rightarrow> 'n XFRRunner \<times> bool" where
  "addZoneToTransfer G v zone xr =
     (let zones = xr_inFlightIXFR xr v in
      if \<exists>z\<in>set zones. Name_Equals G z zone then (xr, False)
      else (xr\<lparr>xr_inFlightIXFR := (xr_inFlightIXFR xr)(v := zones @ [zone])\<rparr>, True))"

fun remove_first :: "('a \<Rightarrow> bool) \<Rightarrow> 'a list \<Rightarrow> 'a list" where
  "remove_first P [] = []"
| "remove_first P (x # xs) = (if P x then xs else x # remove_first P xs)"

definition removeZoneFromTransfer :: "'n g53 \<Rightarrow> view \<Rightarrow> 'n \<Rightarrow> 'n XFRRunner \<Rightarrow> 'n XFRRunner" where
  "removeZoneFromTransfer G v zone xr =
     xr\<lparr>xr_inFlightIXFR := (xr_inFlightIXFR xr)(v := remove_first (\<lambda>z. Name_Equals G z zone) (xr_inFlightIXFR xr v))\<rparr>"

text \<open>
  The zone is put under transfer before the notification is checked: of the ways out after that only the
  last one starts a transfer, which takes the zone out again.
\<close>

definition start_transfer ::
  "('t, 'z, 'n) auth_libs \<Rightarrow> ('t, 'z, 'n) AuthDataSource \<Rightarrow> 'n Client \<Rightarrow> 'n RRset \<Rightarrow> nat \<Rightarrow> 'n XFRRunner \<Rightarrow> ('n XFRRunner, 'n Client \<times> 'n transfer option) zres" where
  "start_transfer L ds client soa a xr =
     (case (soa_serial soa, ad_zones ds a) of
        (Some latestSerial, Some dz) \<Rightarrow>
          if dz_lock dz = Taken then ZBlocked xr
          else if IsMaster dz then ZDone xr (client, None)
          else
            (case client_IP client of
               None \<Rightarrow> ZPanic xr
             | Some addr \<Rightarrow>
                 (let master = ip_String addr @ '':53'' in
                  if master \<notin> set (Masters dz) then ZDone xr (client, None)
                  else ZDone xr (client\<lparr>c_Response := Some (Message_MakeResponse (al_g53 L) (c_Request client))\<rparr>,
                         Some \<lparr>tr_view = c_View client, tr_zone = a, tr_name = mz_origin (dz_zone dz), tr_latestSerial = latestSerial, tr_master = master\<rparr>)))
      | _ \<Rightarrow> ZPanic xr)"

definition HandleNotify ::
  "('t, 'z, 'n) auth_libs \<Rightarrow> ('t, 'z, 'n) AuthDataSource \<Rightarrow> 'n Client \<Rightarrow> 'n XFRRunner \<Rightarrow> ('n XFRRunner, 'n Client \<times> 'n transfer option) zres" where
  "HandleNotify L ds client xr =
     (case m_Answer (c_Request client) of
        [soa] \<Rightarrow>
          if rr_Type soa \<noteq> RR_SOA then ZDone xr (client, None)
          else
            (case auth_GetZone (al_zones L) (c_View client) (rr_Name soa) ds of
               None \<Rightarrow> ZPanic xr
             | Some (Some (a, ExactMatch)) \<Rightarrow>
                 (case addZoneToTransfer (al_g53 L) (c_View client) (rr_Name soa) xr of
                    (xr1, False) \<Rightarrow> ZDone xr1 (client, None)
                  | (xr1, True) \<Rightarrow> start_transfer L ds client soa a xr1)
             | Some _ \<Rightarrow> ZDone xr (client, None))
      | _ \<Rightarrow> ZDone xr (client, None))"

text \<open>The handler: a notification of no view is dropped.\<close>

definition xfr_HandleQuery ::
  "('t, 'z, 'n) auth_libs \<Rightarrow> 'n tsig_lib \<Rightarrow> (string \<Rightarrow> ip \<Rightarrow> bool) \<Rightarrow> SelectorMgr \<Rightarrow> ('t, 'z, 'n) AuthDataSource \<Rightarrow> 'n Client \<Rightarrow> 'n XFRRunner
   \<Rightarrow> ('n XFRRunner, 'n Client \<times> 'n transfer option) zres" where
  "xfr_HandleQuery L T Find mgr ds client xr =
     (case SelectView (al_g53 L) T Find mgr client of
        None \<Rightarrow> ZPanic xr
      | Some (client', True) \<Rightarrow> HandleNotify L ds client' xr
      | Some (client', False) \<Rightarrow> ZDone xr (client', None))"

section \<open>Runs\<close>

text \<open>
  The runner with the transfers that are running. A notification may start one; a transfer that ends
  takes its zone out; in between the zones change in any way that leaves each under its own name.
\<close>

record ('t, 'z, 'n) xfr_state =
  xs_runner :: "'n XFRRunner"
  xs_running :: "'n transfer list"
  xs_auth :: "('t, 'z, 'n) AuthDataSource"

text \<open>A zone is found under its own name.\<close>

definition exact_named :: "('t, 'z, 'n) auth_libs \<Rightarrow> ('t, 'z, 'n) AuthDataSource \<Rightarrow> bool" where
  "exact_named L ds \<longleftrightarrow>
     (\<forall>v n a dz. auth_GetZone (al_zones L) v n ds = Some (Some (a, ExactMatch)) \<longrightarrow> ad_zones ds a = Some dz \<longrightarrow>
        Name_Equals (al_g53 L) (mz_origin (dz_zone dz)) n)"

inductive xfr_step :: "('t, 'z, 'n) auth_libs \<Rightarrow> ('t, 'z, 'n) xfr_state \<Rightarrow> ('t, 'z, 'n) xfr_state \<Rightarrow> bool" for L where
  notify: "HandleNotify L (xs_auth s) client (xs_runner s) = ZDone xr (client', started) \<Longrightarrow>
     xfr_step L s (s\<lparr>xs_runner := xr, xs_running := xs_running s @ (case started of None \<Rightarrow> [] | Some t \<Rightarrow> [t])\<rparr>)"
| panicked: "HandleNotify L (xs_auth s) client (xs_runner s) = ZPanic xr \<Longrightarrow> xfr_step L s (s\<lparr>xs_runner := xr\<rparr>)"
| waiting: "HandleNotify L (xs_auth s) client (xs_runner s) = ZBlocked xr \<Longrightarrow> xfr_step L s (s\<lparr>xs_runner := xr\<rparr>)"
| ended: "t \<in> set (xs_running s) \<Longrightarrow>
     xfr_step L s (s\<lparr>xs_runner := removeZoneFromTransfer (al_g53 L) (tr_view t) (tr_name t) (xs_runner s), xs_running := remove1 t (xs_running s)\<rparr>)"
| changed: "exact_named L ds \<Longrightarrow> xfr_step L s (s\<lparr>xs_auth := ds\<rparr>)"

inductive xfr_steps :: "('t, 'z, 'n) auth_libs \<Rightarrow> ('t, 'z, 'n) xfr_state \<Rightarrow> ('t, 'z, 'n) xfr_state \<Rightarrow> bool" for L where
  none: "xfr_steps L s s"
| more: "xfr_steps L s s1 \<Longrightarrow> xfr_step L s1 s2 \<Longrightarrow> xfr_steps L s s2"

inductive_cases xfr_stepE: "xfr_step L s s'"

end
