(* ===== verification/Auth_Query.thy ===== *)
theory Auth_Query
  imports Auth
begin

text \<open>
  What a query for a zone is answered with (\<open>resolver/auth/query.go\<close> over \<open>zone/memoryzone/\<close>). The zones that
  answer every query are described by \<open>zone_sound\<close>: the marks of the tree are right and the RRsets of
  the nodes are there. A query changes RRsets only by rotating their data.
\<close>

section \<open>Rotation\<close>

definition rotated :: "'n RRset \<Rightarrow> 'n RRset \<Rightarrow> bool" where
  "rotated r r' \<longleftrightarrow> (\<exists>ds. r' = r\<lparr>rr_Rdatas := ds\<rparr> \<and> mset ds = mset (rr_Rdatas r))"

lemma rotated_refl [simp]: "rotated r r"
  by (auto simp: rotated_def intro: exI [of _ "rr_Rdatas r"])

lemma rotated_trans: "rotated r r1 \<Longrightarrow> rotated r1 r2 \<Longrightarrow> rotated r r2"
  by (auto simp: rotated_def)

lemma rotated_fields:
  "rotated r r' \<Longrightarrow> rr_Name r' = rr_Name r \<and> rr_Type r' = rr_Type r \<and> rr_Class r' = rr_Class r \<and> rr_Ttl r' = rr_Ttl r \<and>
    set (rr_Rdatas r') = set (rr_Rdatas r)"
  by (auto simp: rotated_def dest: mset_eq_setD)

lemma rotated_RotateRdata: "message_laws G \<Longrightarrow> rotated r (RRset_RotateRdata G r)"
  unfolding message_laws_def rotated_def by blast

text \<open>The RRsets there are stay, rotated at most; new ones get new addresses.\<close>

definition heap_wf :: "'n rr_heap \<Rightarrow> bool" where
  "heap_wf h \<longleftrightarrow> nil < hp_next h \<and> (\<forall>a r. hp_at h a = Some r \<longrightarrow> nil < a \<and> a < hp_next h)"

definition evolves :: "'n rr_heap \<Rightarrow> 'n rr_heap \<Rightarrow> bool" where
  "evolves h h' \<longleftrightarrow> heap_wf h' \<and> (\<forall>a r. hp_at h a = Some r \<longrightarrow> (\<exists>r'. hp_at h' a = Some r' \<and> rotated r r'))"

lemma evolves_refl: "heap_wf h \<Longrightarrow> evolves h h"
  by (auto simp: evolves_def)

lemma evolves_trans: "evolves h h1 \<Longrightarrow> evolves h1 h2 \<Longrightarrow> evolves h h2"
  unfolding evolves_def by (meson rotated_trans)

lemma evolves_new: "heap_wf h \<Longrightarrow> new_rrset r h = (a, h') \<Longrightarrow> evolves h h' \<and> nil < a \<and> hp_at h' a = Some r"
  by (auto simp: evolves_def heap_wf_def new_rrset_def less_Suc_eq split: if_splits)

lemma evolves_rotate: "message_laws G \<Longrightarrow> heap_wf h \<Longrightarrow> evolves h (rotate_at G a h)"
  by (auto simp: evolves_def heap_wf_def rotate_at_def rotated_RotateRdata)

lemma evolves_rotate_all: "message_laws G \<Longrightarrow> heap_wf h \<Longrightarrow> evolves h (fold (rotate_at G) as h)"
proof (induction as arbitrary: h)
  case (Cons a as)
  then have "evolves h (rotate_at G a h)" by (simp add: evolves_rotate)
  moreover from this have "evolves (rotate_at G a h) (fold (rotate_at G) as (rotate_at G a h))"
    using Cons by (simp add: evolves_def)
  ultimately show ?case by (auto intro: evolves_trans)
qed (simp add: evolves_refl)

section \<open>Zones that answer\<close>

text \<open>
  Data of a type that brings further addresses can be read. The nodes have RRsets of their types; a
  mark of a delegation has name servers; a mark of a wildcard has data.
\<close>

definition rrset_ok :: "'n RRset \<Rightarrow> bool" where
  "rrset_ok r \<longleftrightarrow> (\<forall>d\<in>set (rr_Rdatas r). additional_name (rr_Type r) d \<noteq> None)"

definition node_sound :: "'n rr_heap \<Rightarrow> NameNode \<Rightarrow> bool" where
  "node_sound h d \<longleftrightarrow> (\<forall>t a. map_of d t = Some a \<longrightarrow> (\<exists>r. hp_at h a = Some r \<and> rr_Type r = t \<and> rrset_ok r))"

definition zone_sound :: "('z, 'n) zone_nodes \<Rightarrow> ('z, 'n) zone_search \<Rightarrow> ('z, 'n) MemoryZone \<Rightarrow> 'n rr_heap \<Rightarrow> bool" where
  "zone_sound Z S z h \<longleftrightarrow>
     heap_wf h \<and>
     (\<forall>n d. zt_Data Z (mz_domains z) n = Some d \<longrightarrow> node_sound h d) \<and>
     (\<forall>n. zt_Flag Z (mz_domains z) n NF_CALLBACK \<longrightarrow> (\<exists>d. zt_Data Z (mz_domains z) n = Some d \<and> map_of d RR_NS \<noteq> None)) \<and>
     (\<forall>n. sx_match (zs_SearchExt S (mz_domains z) n) = ZPartial \<longrightarrow>
        zt_Flag Z (mz_domains z) (sx_node (zs_SearchExt S (mz_domains z) n)) wildcardMark \<longrightarrow>
        (let w = zs_Wildcard S (sx_absolute (zs_SearchExt S (mz_domains z) n)) in
         zt_Exact Z (mz_domains z) w \<and> zt_Data Z (mz_domains z) w \<noteq> None))"

lemma evolvesD: "evolves h h' \<Longrightarrow> hp_at h a = Some r \<Longrightarrow> \<exists>r'. hp_at h' a = Some r' \<and> rotated r r'"
  by (simp add: evolves_def)

lemma rrset_ok_rotated: "rrset_ok r \<Longrightarrow> rotated r r' \<Longrightarrow> rrset_ok r'"
  by (simp add: rrset_ok_def rotated_fields)

lemma node_sound_evolves:
  assumes "node_sound h d" "evolves h h'"
  shows "node_sound h' d"
  unfolding node_sound_def
proof (intro allI impI)
  fix t a
  assume "map_of d t = Some a"
  then obtain r where r: "hp_at h a = Some r" "rr_Type r = t" "rrset_ok r" using assms(1) by (auto simp: node_sound_def)
  from evolvesD [OF assms(2) r(1)] obtain r' where "hp_at h' a = Some r'" "rotated r r'" by blast
  then show "\<exists>r. hp_at h' a = Some r \<and> rr_Type r = t \<and> rrset_ok r"
    using r rrset_ok_rotated [of r r'] rotated_fields [of r r'] by (intro exI [of _ r']) simp
qed

lemma zone_sound_evolves:
  assumes "zone_sound Z S z h" "evolves h h'"
  shows "zone_sound Z S z h'"
proof -
  have "heap_wf h'" using assms(2) by (simp add: evolves_def)
  moreover have "node_sound h' d" if "zt_Data Z (mz_domains z) n = Some d" for n d
    using assms(1) that by (intro node_sound_evolves [OF _ assms(2)]) (simp add: zone_sound_def)
  ultimately show ?thesis using assms(1) unfolding zone_sound_def by blast
qed

lemma zone_soundD:
  assumes "zone_sound Z S z h"
  shows "heap_wf h"
    and "zt_Data Z (mz_domains z) n = Some d \<Longrightarrow> node_sound h d"
    and "zt_Flag Z (mz_domains z) n NF_CALLBACK \<Longrightarrow> \<exists>d ns. zt_Data Z (mz_domains z) n = Some d \<and> map_of d RR_NS = Some ns"
    and "sx_match (zs_SearchExt S (mz_domains z) n) = ZPartial \<Longrightarrow>
      zt_Flag Z (mz_domains z) (sx_node (zs_SearchExt S (mz_domains z) n)) wildcardMark \<Longrightarrow>
      \<exists>d. zt_Exact Z (mz_domains z) (zs_Wildcard S (sx_absolute (zs_SearchExt S (mz_domains z) n))) \<and>
          zt_Data Z (mz_domains z) (zs_Wildcard S (sx_absolute (zs_SearchExt S (mz_domains z) n))) = Some d"
  using assms unfolding zone_sound_def Let_def by (blast | fastforce)+

text \<open>What is found: an RRset exactly for a success, an alias or a delegation.\<close>

definition ctx_sound :: "'n rr_heap \<Rightarrow> find_ctx \<Rightarrow> bool" where
  "ctx_sound h ctx \<longleftrightarrow>
     (if fc_type ctx \<in> {FRSuccess, FRCname, FRDelegation} then \<exists>r. hp_at h (fc_rrset ctx) = Some r \<and> rrset_ok r else fc_rrset ctx = nil) \<and>
     node_sound h (fc_node ctx) \<and> fc_type ctx \<noteq> FRServFail"

lemma ctx_sound_found:
  "node_sound h d \<Longrightarrow> map_of d t = Some a \<Longrightarrow> k \<in> {FRSuccess, FRCname, FRDelegation} \<Longrightarrow> ctx_sound h (found k a d)"
  by (auto simp: ctx_sound_def found_def node_sound_def)

lemma node_sound_Nil [simp]: "node_sound h []"
  by (simp add: node_sound_def)

lemma ctx_sound_none: "node_sound h d \<Longrightarrow> k \<in> {FRNXDomain, FRNXRRset} \<Longrightarrow> ctx_sound h (found k nil d)"
  by (auto simp: ctx_sound_def found_def)

definition hit_sound :: "'n rr_heap \<Rightarrow> (NameNode \<times> nat) option \<Rightarrow> bool" where
  "hit_sound h hit \<longleftrightarrow> (\<forall>d ns. hit = Some (d, ns) \<longrightarrow> node_sound h d \<and> map_of d RR_NS = Some ns)"

lemma zoneCuts_total:
  assumes "\<forall>n\<in>set names. \<exists>d ns. zt_Data Z t n = Some d \<and> map_of d RR_NS = Some ns \<and> node_sound h d" "hit_sound h hit"
  shows "\<exists>hit' stop. zoneCuts Z t opt names hit = Some (hit', stop) \<and> (stop \<longrightarrow> hit' \<noteq> None) \<and> hit_sound h hit'"
  using assms
proof (induction names arbitrary: hit)
  case (Cons n names)
  from Cons.prems(1) obtain d ns where d: "zt_Data Z t n = Some d" "map_of d RR_NS = Some ns" "node_sound h d"
    and rest: "\<forall>n\<in>set names. \<exists>d ns. zt_Data Z t n = Some d \<and> map_of d RR_NS = Some ns \<and> node_sound h d" by auto
  have here: "hit_sound h (Some (d, ns))" using d by (simp add: hit_sound_def)
  show ?case
  proof (cases hit)
    case None
    then show ?thesis using d here Cons.IH [OF rest here] by (cases "opt = GlueOkFind") auto
  next
    case (Some c)
    then show ?thesis using d Cons.IH [OF rest Cons.prems(2)] by auto
  qed
qed auto

lemma synthesize_total:
  assumes "heap_wf h" "hp_at h a = Some r" "rrset_ok r" "k \<in> {FRSuccess, FRCname}"
  shows "\<exists>h' ctx. synthesize name k a h = Some (h', ctx) \<and> evolves h h' \<and> ctx_sound h' ctx \<and>
    fc_type ctx = k \<and> hp_at h' (fc_rrset ctx) = Some (r\<lparr>rr_Name := name\<rparr>)"
proof -
  obtain b h' where n: "new_rrset (r\<lparr>rr_Name := name\<rparr>) h = (b, h')" by fastforce
  then have "evolves h h' \<and> nil < b \<and> hp_at h' b = Some (r\<lparr>rr_Name := name\<rparr>)" by (rule evolves_new [OF assms(1)])
  then show ?thesis using assms(2-4) n by (auto simp: synthesize_def ctx_sound_def found_def rrset_ok_def)
qed

lemma find_wildcard_total:
  assumes "zone_sound Z S z h" "zt_Exact Z (mz_domains z) (zs_Wildcard S encl)" "zt_Data Z (mz_domains z) (zs_Wildcard S encl) = Some d"
  shows "\<exists>h' ctx. find_wildcard Z S name typ encl z h = Some (h', ctx) \<and> evolves h h' \<and> ctx_sound h' ctx"
proof -
  note wf = zone_soundD(1) [OF assms(1)] and d = zone_soundD(2) [OF assms(1,3)]
  show ?thesis
  proof (cases "map_of d typ = None \<and> map_of d RR_CNAME = None")
    case True
    then show ?thesis using assms(2,3) wf by (auto simp: find_wildcard_def ctx_sound_none evolves_refl)
  next
    case False
    then obtain k a where k: "k \<in> {FRSuccess, FRCname}" "find_wildcard Z S name typ encl z h = synthesize name k a h"
      "\<exists>t. map_of d t = Some a"
      using assms(2,3)
      by (cases "map_of d typ"; cases "map_of d RR_CNAME") (force simp: find_wildcard_def)+
    then obtain r where "hp_at h a = Some r" "rrset_ok r" using d by (auto simp: node_sound_def)
    then show ?thesis using synthesize_total [OF wf _ _ k(1)] k(2) by fastforce
  qed
qed

lemma find_node_sound: "zone_sound Z S z h \<Longrightarrow> ctx_sound h (find_node G Z S typ node z)"
  using zone_soundD(2) [of Z S z h node]
  by (auto simp: find_node_def split: option.split if_splits intro!: ctx_sound_found ctx_sound_none)

lemma mz_find_total:
  assumes "zone_search_laws G Z S" "zone_sound Z S z h"
  shows "\<exists>h' ctx. mz_find G Z S name typ opt z h = Some (h', ctx) \<and> evolves h h' \<and> ctx_sound h' ctx"
proof -
  let ?t = "mz_domains z" let ?sx = "zs_SearchExt S ?t name"
  have "\<forall>n\<in>set (zs_Cuts S ?t name). \<exists>d ns. zt_Data Z ?t n = Some d \<and> map_of d RR_NS = Some ns \<and> node_sound h d"
    using zone_searchD(2) [OF assms(1)] zone_soundD(2,3) [OF assms(2)] by metis
  from zoneCuts_total [OF this, of None opt] obtain hit stop
    where c: "zoneCuts Z ?t opt (zs_Cuts S ?t name) None = Some (hit, stop)" "stop \<longrightarrow> hit \<noteq> None" "hit_sound h hit"
    by (auto simp: hit_sound_def)
  note same = evolves_refl [OF zone_soundD(1) [OF assms(2)]]
  show ?thesis
  proof (cases hit)
    case (Some dn)
    then obtain d ns where d: "hit = Some (d, ns)" "node_sound h d" "map_of d RR_NS = Some ns" using c(3) by (cases dn) (auto simp: hit_sound_def)
    have "ctx_sound h (found FRDelegation ns d)" using d by (auto intro: ctx_sound_found)
    then show ?thesis
      using c(1) d(1) same find_node_sound [OF assms(2)]
      by (cases stop; cases "sx_match ?sx") (auto simp: mz_find_def Let_def intro: ctx_sound_none)
  next
    case None
    then have "\<not> stop" using c(2) by blast
    show ?thesis
    proof (cases "sx_match ?sx = ZPartial \<and> \<not> sx_super ?sx \<and> zt_Flag Z ?t (sx_node ?sx) wildcardMark")
      case True
      then obtain d where d: "zt_Exact Z ?t (zs_Wildcard S (sx_absolute ?sx))" "zt_Data Z ?t (zs_Wildcard S (sx_absolute ?sx)) = Some d"
        using zone_soundD(4) [OF assms(2)] by blast
      show ?thesis
        using find_wildcard_total [OF assms(2) d, of name "typ"] c(1) None \<open>\<not> stop\<close> True by (auto simp: mz_find_def Let_def)
    next
      case False
      then show ?thesis using c(1) None \<open>\<not> stop\<close> same find_node_sound [OF assms(2)]
        by (cases "sx_match ?sx") (auto simp: mz_find_def Let_def intro: ctx_sound_none)
    qed
  qed
qed

section \<open>Lookups of a served zone\<close>

text \<open>
  A zone that is free and sound keeps being so: only its heap changes, and only by rotation.
\<close>

definition answers :: "('z, 'n) zone_nodes \<Rightarrow> ('z, 'n) zone_search \<Rightarrow> ('z, 'n) DynamicZone \<Rightarrow> bool" where
  "answers Z S dz \<longleftrightarrow> dz_lock dz = Free \<and> \<not> mz_isEmpty Z (dz_zone dz) \<and> zone_sound Z S (dz_zone dz) (dz_heap dz)"

definition same_zone :: "('z, 'n) DynamicZone \<Rightarrow> ('z, 'n) DynamicZone \<Rightarrow> bool" where
  "same_zone dz dz' \<longleftrightarrow> (\<exists>h. dz' = dz\<lparr>dz_heap := h\<rparr> \<and> evolves (dz_heap dz) h)"

lemma same_zone_refl: "answers Z S dz \<Longrightarrow> same_zone dz dz"
  by (auto simp: same_zone_def answers_def dest!: zone_soundD(1) intro!: exI [of _ "dz_heap dz"] evolves_refl)

lemma same_zone_trans:
  assumes "same_zone dz dz1" "same_zone dz1 dz2"
  shows "same_zone dz dz2"
proof -
  obtain h1 h2 where h: "dz1 = dz\<lparr>dz_heap := h1\<rparr>" "evolves (dz_heap dz) h1" "dz2 = dz1\<lparr>dz_heap := h2\<rparr>" "evolves (dz_heap dz1) h2"
    using assms unfolding same_zone_def by blast
  then have "evolves (dz_heap dz) h2" using evolves_trans by simp
  then show ?thesis unfolding same_zone_def using h by (intro exI [of _ h2]) simp
qed

lemma answers_same_zone: "answers Z S dz \<Longrightarrow> same_zone dz dz' \<Longrightarrow> answers Z S dz'"
  by (auto simp: same_zone_def answers_def intro: zone_sound_evolves)

lemma rotate_all_answers:
  assumes "message_laws G" "answers Z S dz"
  shows "\<exists>dz'. rotate_all G as dz = ZDone dz' () \<and> same_zone dz dz'"
proof -
  have "heap_wf (dz_heap dz)" "dz_lock dz = Free" using assms(2) by (auto simp: answers_def dest: zone_soundD(1))
  then show ?thesis
    using evolves_rotate_all [OF assms(1), of "dz_heap dz" as] evolves_refl
    by (auto simp: rotate_all_def Lock_def Unlock_def same_zone_def intro!: exI [of _ "fold (rotate_at G) as (dz_heap dz)"])
qed

lemma ctx_sound_evolves:
  assumes "ctx_sound h ctx" "evolves h h'"
  shows "ctx_sound h' ctx"
proof -
  have "\<exists>r'. hp_at h' (fc_rrset ctx) = Some r' \<and> rrset_ok r'" if "hp_at h (fc_rrset ctx) = Some r" "rrset_ok r" for r
    using evolvesD [OF assms(2) that(1)] rrset_ok_rotated [OF that(2)] by blast
  then show ?thesis using assms node_sound_evolves [of h "fc_node ctx" h'] unfolding ctx_sound_def by (metis (full_types))
qed

text \<open>The RRset found is the one of the search, rotated.\<close>

lemma dz_Find_answers:
  assumes "message_laws G" "zone_search_laws G Z S" "answers Z S dz"
  shows "\<exists>dz' h ctx. dz_Find G Z S name typ opt dz = ZDone dz' ctx \<and> same_zone dz dz' \<and> ctx_sound (dz_heap dz') ctx \<and>
    mz_find G Z S name typ opt (dz_zone dz) (dz_heap dz) = Some (h, ctx) \<and> evolves h (dz_heap dz')"
proof -
  obtain h ctx where f: "mz_find G Z S name typ opt (dz_zone dz) (dz_heap dz) = Some (h, ctx)" "evolves (dz_heap dz) h" "ctx_sound h ctx"
    using mz_find_total [OF assms(2), of "dz_zone dz" "dz_heap dz" name "typ" opt] assms(3) by (auto simp: answers_def)
  let ?dz1 = "dz\<lparr>dz_heap := h\<rparr>"
  have s1: "same_zone dz ?dz1" using f(2) by (auto simp: same_zone_def)
  obtain dz' where r: "rotate_all G (if fc_rrset ctx = nil then [] else [fc_rrset ctx]) ?dz1 = ZDone dz' ()" "same_zone ?dz1 dz'"
    using rotate_all_answers [OF assms(1) answers_same_zone [OF assms(3) s1]] by blast
  have "dz_Find G Z S name typ opt dz = ZDone dz' ctx"
    using assms(3) f(1) r(1) by (simp add: dz_Find_def with_RLock_def answers_def)
  moreover have "evolves h (dz_heap dz')" using r(2) by (auto simp: same_zone_def)
  ultimately show ?thesis using f same_zone_trans [OF s1 r(2)] ctx_sound_evolves by blast
qed

lemma optional_elems:
  "a \<in> set ((if P then [x] else []) @ (if Q then (case m of None \<Rightarrow> [] | Some b \<Rightarrow> [b]) else [])) \<Longrightarrow> P \<and> a = x \<or> m = Some a"
  by (cases m; cases P; cases Q) auto

lemma getAdditional_total:
  assumes "zone_search_laws G Z S" "zone_sound Z S z h"
  shows "\<exists>h' as. getAdditioanlAddrs G Z S z name h = Some (h', as) \<and> evolves h h' \<and> (\<forall>a\<in>set as. hp_at h' a \<noteq> None)"
proof -
  obtain h' ctx where f: "mz_find G Z S name RR_A GlueOkFind z h = Some (h', ctx)" "evolves h h'" "ctx_sound h' ctx"
    using mz_find_total [OF assms] by blast
  have 1: "hp_at h' a \<noteq> None" if "map_of (fc_node ctx) RR_AAAA = Some a" for a
    using f(3) that by (auto simp: ctx_sound_def node_sound_def)
  have 2: "hp_at h' (fc_rrset ctx) \<noteq> None" if "fc_type ctx = FRSuccess"
    using f(3) that by (auto simp: ctx_sound_def)
  let ?as = "(if fc_type ctx = FRSuccess then [fc_rrset ctx] else []) @
    (if fc_type ctx = FRSuccess \<or> fc_type ctx = FRNXRRset then (case map_of (fc_node ctx) RR_AAAA of None \<Rightarrow> [] | Some a \<Rightarrow> [a]) else [])"
  have "getAdditioanlAddrs G Z S z name h = Some (h', ?as)" by (simp add: getAdditioanlAddrs_def f(1))
  moreover have "hp_at h' a \<noteq> None" if "a \<in> set ?as" for a
  proof -
    from optional_elems [OF that] show ?thesis using 1 2 by blast
  qed
  ultimately show ?thesis using f(2) by (intro exI conjI ballI)
qed

lemma additional_loop_total:
  assumes "zone_search_laws G Z S" "zone_sound Z S z h" "\<forall>d\<in>set ds. additional_name t d \<noteq> None"
  shows "\<exists>h' as. additional_loop G Z S z t ds h = Some (h', as) \<and> evolves h h' \<and> (\<forall>a\<in>set as. hp_at h' a \<noteq> None)"
  using assms(2,3)
proof (induction ds arbitrary: h)
  case (Cons d ds)
  then obtain n where n: "additional_name t d = Some n" by auto
  obtain h1 as where a: "(case n of None \<Rightarrow> Some (h, []) | Some n \<Rightarrow> getAdditioanlAddrs G Z S z n h) = Some (h1, as)"
    "evolves h h1" "\<forall>a\<in>set as. hp_at h1 a \<noteq> None"
  proof (cases n)
    case None
    then show ?thesis using that [of h "[]"] evolves_refl [OF zone_soundD(1) [OF Cons.prems(1)]] by simp
  next
    case (Some m)
    then show ?thesis using that getAdditional_total [OF assms(1) Cons.prems(1), of m] by auto
  qed
  obtain h2 bs where b: "additional_loop G Z S z t ds h1 = Some (h2, bs)" "evolves h1 h2" "\<forall>a\<in>set bs. hp_at h2 a \<noteq> None"
    using Cons.IH [OF zone_sound_evolves [OF Cons.prems(1) a(2)]] Cons.prems(2) by auto
  have "\<forall>a\<in>set as. hp_at h2 a \<noteq> None" using a(3) evolvesD [OF b(2)] by fastforce
  then show ?case using n a b evolves_trans [OF a(2) b(2)] by auto
qed (use zone_soundD(1) evolves_refl in fastforce)

lemma dz_GetAdditional_answers:
  assumes "message_laws G" "zone_search_laws G Z S" "answers Z S dz" "ctx_sound (dz_heap dz) ctx"
  shows "\<exists>dz' as. dz_GetAdditional G Z S ctx dz = ZDone dz' as \<and> same_zone dz dz' \<and> (\<forall>a\<in>set as. hp_at (dz_heap dz') a \<noteq> None)"
proof -
  have z: "zone_sound Z S (dz_zone dz) (dz_heap dz)" "dz_lock dz = Free" using assms(3) by (simp_all add: answers_def)
  have "\<exists>h as. mz_GetAdditional G Z S (dz_zone dz) ctx (dz_heap dz) = Some (h, as) \<and> evolves (dz_heap dz) h \<and> (\<forall>a\<in>set as. hp_at h a \<noteq> None)"
  proof (cases "fc_rrset ctx = nil")
    case True
    then show ?thesis using evolves_refl [OF zone_soundD(1) [OF z(1)]] by (auto simp: mz_GetAdditional_def)
  next
    case False
    then obtain r where "hp_at (dz_heap dz) (fc_rrset ctx) = Some r" "rrset_ok r"
      using assms(4) by (auto simp: ctx_sound_def split: if_splits)
    then show ?thesis using additional_loop_total [OF assms(2) z(1)] False by (auto simp: mz_GetAdditional_def rrset_ok_def)
  qed
  then obtain h as where a: "mz_GetAdditional G Z S (dz_zone dz) ctx (dz_heap dz) = Some (h, as)" "evolves (dz_heap dz) h"
    "\<forall>a\<in>set as. hp_at h a \<noteq> None" by blast
  let ?dz1 = "dz\<lparr>dz_heap := h\<rparr>"
  have s1: "same_zone dz ?dz1" using a(2) by (auto simp: same_zone_def)
  obtain dz' where r: "rotate_all G as ?dz1 = ZDone dz' ()" "same_zone ?dz1 dz'"
    using rotate_all_answers [OF assms(1) answers_same_zone [OF assms(3) s1]] by blast
  have "\<forall>a\<in>set as. hp_at (dz_heap dz') a \<noteq> None" using a(3) r(2) evolvesD by (fastforce simp: same_zone_def)
  then show ?thesis
    using a(1) r z(2) assms(4) same_zone_trans [OF s1 r(2)] by (auto simp: dz_GetAdditional_def with_RLock_def ctx_sound_def)
qed

section \<open>Responses\<close>

lemma same_ids_trans: "same_ids m m1 \<Longrightarrow> same_ids m1 m2 \<Longrightarrow> same_ids m m2"
  by (simp add: same_ids_def)

lemma add_all_sections:
  assumes "message_laws G"
  shows "msg_section s' (add_all G s rs m) = (if s' = s then msg_section s m @ rs else msg_section s' m)"
    and "same_ids (add_all G s rs m) m"
proof (induction rs arbitrary: m)
  case (Cons r rs)
  case 1
  then show ?case using Cons [of "Message_AddRRset G s r m"] by (simp add: add_all_def message_lawsD(4) [OF assms])
next
  case (Cons r rs)
  case 2
  then show ?case
    using Cons(2) [of "Message_AddRRset G s r m"] message_lawsD(3) [OF assms, of s r m] by (auto simp: add_all_def intro: same_ids_trans)
qed (simp_all add: add_all_def same_ids_def)

lemma mapM_total: "\<forall>a\<in>set as. f a \<noteq> None \<Longrightarrow> mapM f as = Some (map (the \<circ> f) as)"
  by (induction as) auto

lemma fill_response_sections:
  assumes "message_laws G" "\<forall>a\<in>set (ans @ auth @ add). hp_at (dz_heap dz) a \<noteq> None"
    and "\<And>s. msg_section s response = []"
  shows "\<exists>m. fill_response G (ans, auth, add) response dz = ZDone dz m \<and> same_ids m response \<and>
    m_Answer m = map (the \<circ> hp_at (dz_heap dz)) ans \<and> m_Auth m = map (the \<circ> hp_at (dz_heap dz)) auth"
proof -
  let ?read = "map (the \<circ> hp_at (dz_heap dz))"
  let ?m = "add_all G AdditionalSection (?read add) (add_all G AuthSection (?read auth) (add_all G AnswerSection (?read ans) response))"
  let ?r = "Message_RecalculateSectionRRCount G ?m"
  have "fill_response G (ans, auth, add) response dz = ZDone dz ?r"
    using assms(2) by (simp add: fill_response_def mapM_total)
  moreover have "same_ids ?r response"
    by (meson message_lawsD(5) [OF assms(1)] add_all_sections(2) [OF assms(1)] same_ids_trans)
  moreover have "msg_section AnswerSection ?r = ?read ans" "msg_section AuthSection ?r = ?read auth"
    using assms(3) by (simp_all add: message_lawsD(6) [OF assms(1)] add_all_sections(1) [OF assms(1)] del: msg_section.simps)
  ultimately show ?thesis by auto
qed

text \<open>The zone's own name has an SOA and name servers and is not below a delegation.\<close>

definition apex_ok :: "'n g53 \<Rightarrow> ('z, 'n) zone_nodes \<Rightarrow> ('z, 'n) MemoryZone \<Rightarrow> bool" where
  "apex_ok G Z z \<longleftrightarrow>
     zt_Exact Z (mz_domains z) (mz_origin z) \<and> mz_validate Z z = None \<and>
     (\<forall>c. zt_Flag Z (mz_domains z) c NF_CALLBACK \<longrightarrow> \<not> Name_IsSubDomain G (mz_origin z) c)"

lemma find_apex:
  assumes "zone_tree_laws G Z" "zone_search_laws G Z S" "apex_ok G Z z" "t = RR_SOA \<or> t = RR_NS"
  shows "\<exists>a d. mz_find G Z S (mz_origin z) t DefaultFind z h = Some (h, found FRSuccess a d) \<and>
    zt_Data Z (mz_domains z) (mz_origin z) = Some d \<and> map_of d t = Some a"
proof -
  let ?t = "mz_domains z" let ?o = "mz_origin z" let ?sx = "zs_SearchExt S ?t ?o"
  obtain d a where d: "zt_Data Z ?t ?o = Some d" "map_of d t = Some a"
    using assms(3,4) by (auto simp: apex_ok_def mz_validate_def origin_data_def split: option.splits if_splits)
  have sx: "sx_match ?sx = ZExact" "Name_Equals G (sx_node ?sx) ?o"
    using zone_searchD(4,5) [OF assms(2)] assms(3) by (simp_all add: apex_ok_def)
  have "zs_Cuts S ?t ?o = []"
    using zone_searchD(2,3) [OF assms(2), where t = ?t and n = ?o] assms(3) by (cases "zs_Cuts S ?t ?o") (auto simp: apex_ok_def)
  moreover have "find_node G Z S t (sx_node ?sx) z = found FRSuccess a d"
    using d sx(2) zone_treeD(2) [OF assms(1) sx(2)] by (simp add: find_node_def)
  ultimately show ?thesis using sx(1) d by (simp add: mz_find_def)
qed

definition answered_by :: "'n rr_heap \<Rightarrow> find_ctx \<Rightarrow> 'n RRset list \<Rightarrow> bool" where
  "answered_by h ctx rs \<longleftrightarrow> (\<exists>r r'. hp_at h (fc_rrset ctx) = Some r \<and> rotated r r' \<and> rs = [r'])"

lemma answered_byI:
  assumes "evolves h h'" "hp_at h' (fc_rrset ctx) \<noteq> None" "hp_at h (fc_rrset ctx) \<noteq> None"
  shows "answered_by h ctx [the (hp_at h' (fc_rrset ctx))]"
  using assms evolvesD [OF assms(1), of "fc_rrset ctx"] by (fastforce simp: answered_by_def)

definition has_SOA :: "'n RRset list \<Rightarrow> bool" where
  "has_SOA rs \<longleftrightarrow> (\<exists>r. rs = [r] \<and> rr_Type r = RR_SOA)"

lemma addSOA_answers:
  assumes "message_laws G" "zone_tree_laws G Z" "zone_search_laws G Z S" "answers Z S dz" "apex_ok G Z (dz_zone dz)"
  shows "\<exists>dz' a r. addSOA G Z S dz = ZDone dz' [a] \<and> same_zone dz dz' \<and> hp_at (dz_heap dz') a = Some r \<and> rr_Type r = RR_SOA"
proof -
  obtain a d where f: "mz_find G Z S (mz_origin (dz_zone dz)) RR_SOA DefaultFind (dz_zone dz) (dz_heap dz) = Some (dz_heap dz, found FRSuccess a d)"
    "zt_Data Z (mz_domains (dz_zone dz)) (mz_origin (dz_zone dz)) = Some d" "map_of d RR_SOA = Some a"
    using find_apex [OF assms(2,3,5), of RR_SOA "dz_heap dz"] by blast
  obtain dz' where z: "dz_Find G Z S (mz_origin (dz_zone dz)) RR_SOA DefaultFind dz = ZDone dz' (found FRSuccess a d)" "same_zone dz dz'"
    "evolves (dz_heap dz) (dz_heap dz')"
    using dz_Find_answers [OF assms(1,3,4), of "mz_origin (dz_zone dz)" RR_SOA DefaultFind] f(1) by auto
  have "node_sound (dz_heap dz) d" using assms(4) zone_soundD(2) f(2) by (fastforce simp: answers_def)
  then obtain r where "hp_at (dz_heap dz) a = Some r" "rr_Type r = RR_SOA" using f(3) by (auto simp: node_sound_def)
  then obtain r' where "hp_at (dz_heap dz') a = Some r'" "rr_Type r' = RR_SOA" using evolvesD [OF z(3)] by (metis rotated_fields)
  then show ?thesis using z by (auto simp: addSOA_def found_def)
qed

lemma addAuthAdditional_answers:
  assumes "message_laws G" "zone_tree_laws G Z" "zone_search_laws G Z S" "answers Z S dz" "apex_ok G Z (dz_zone dz)"
  shows "\<exists>dz' auths adds. addAuthAdditional G Z S dz = ZDone dz' (auths, adds) \<and> same_zone dz dz' \<and>
    (\<forall>a\<in>set (auths @ adds). hp_at (dz_heap dz') a \<noteq> None)"
proof -
  obtain a d where f: "mz_find G Z S (mz_origin (dz_zone dz)) RR_NS DefaultFind (dz_zone dz) (dz_heap dz) = Some (dz_heap dz, found FRSuccess a d)"
    using find_apex [OF assms(2,3,5), of RR_NS "dz_heap dz"] by blast
  let ?ctx = "found FRSuccess a d"
  obtain dz1 where z: "dz_Find G Z S (mz_origin (dz_zone dz)) RR_NS DefaultFind dz = ZDone dz1 ?ctx" "same_zone dz dz1"
    "ctx_sound (dz_heap dz1) ?ctx"
    using dz_Find_answers [OF assms(1,3,4), of "mz_origin (dz_zone dz)" RR_NS DefaultFind] f by auto
  obtain dz2 adds where g: "dz_GetAdditional G Z S ?ctx dz1 = ZDone dz2 adds" "same_zone dz1 dz2" "\<forall>a\<in>set adds. hp_at (dz_heap dz2) a \<noteq> None"
    using dz_GetAdditional_answers [OF assms(1,3) answers_same_zone [OF assms(4) z(2)] z(3)] by blast
  have "hp_at (dz_heap dz1) a \<noteq> None" using z(3) by (auto simp: ctx_sound_def found_def)
  then have "hp_at (dz_heap dz2) a \<noteq> None" using g(2) evolvesD by (fastforce simp: same_zone_def)
  then show ?thesis using z(1) g same_zone_trans [OF z(2) g(2)] by (auto simp: addAuthAdditional_def found_def)
qed

text \<open>The flags of a header are bits of its flag word.\<close>

definition flag_word_laws :: "'n g53 \<Rightarrow> bool" where
  "flag_word_laws G \<longleftrightarrow> flag_laws G \<and> (\<forall>h h' f. h_Flags h = h_Flags h' \<longrightarrow> Header_GetFlag G h f = Header_GetFlag G h' f)"

lemma ref_flag_word_laws: "flag_word_laws ref_g53"
  unfolding flag_word_laws_def
  by (intro conjI allI impI, rule ref_flag_laws) (simp add: ref_g53_simps)

text \<open>The header of a response: its identifier and question are those of the query.\<close>

definition replies :: "'n g53 \<Rightarrow> 'n Message \<Rightarrow> Rcode \<Rightarrow> bool \<Rightarrow> 'n Message \<Rightarrow> bool" where
  "replies G request rcode aa m \<longleftrightarrow>
     h_Id (m_Header m) = h_Id (m_Header request) \<and> m_Question m = m_Question request \<and>
     h_Rcode (m_Header m) = rcode \<and> Header_GetFlag G (m_Header m) FLAG_AA = aa"

lemma replies_same: "flag_word_laws G \<Longrightarrow> replies G request c b r \<Longrightarrow> same_ids m r \<Longrightarrow> replies G request c b m"
  unfolding replies_def same_ids_def flag_word_laws_def by metis

lemma replies_set_AA:
  assumes "flag_word_laws G" "replies G request c b' r"
  shows "replies G request c b (set_AA G b r)"
proof -
  have "flag_laws G" using assms(1) unfolding flag_word_laws_def by blast
  then show ?thesis using assms(2) by (simp add: replies_def set_AA_def Header_GetFlag_SetFlag Header_SetFlag_fields)
qed

lemma replies_with_rcode:
  assumes "flag_word_laws G" "replies G request c b r"
  shows "replies G request c' b (with_rcode c' r)"
proof -
  have "Header_GetFlag G ((m_Header r)\<lparr>h_Rcode := c'\<rparr>) FLAG_AA = Header_GetFlag G (m_Header r) FLAG_AA"
    using assms(1) unfolding flag_word_laws_def by (metis Header.select_convs(4) Header.surjective Header.update_convs(3))
  then show ?thesis using assms(2) by (simp add: replies_def with_rcode_def)
qed

lemma section_header [simp]:
  "msg_section s (with_rcode c m) = msg_section s m" "msg_section s (set_AA G b m) = msg_section s m"
  by (cases s; simp add: with_rcode_def set_AA_def)+

definition fresh_response :: "'n g53 \<Rightarrow> 'n Message \<Rightarrow> 'n Message" where
  "fresh_response G request = with_rcode R_NOERROR (set_AA G True (NewQuery G request))"

lemma fresh_response:
  assumes "flag_word_laws G" "message_laws G"
  shows "replies G request R_NOERROR True (fresh_response G request)" "msg_section s (fresh_response G request) = []"
proof -
  have "replies G request R_NOERROR (Header_GetFlag G (m_Header (NewQuery G request)) FLAG_AA) (NewQuery G request)"
    using message_lawsD(7,8,9) [OF assms(2), of request] by (simp add: replies_def NewQuery_def)
  then show "replies G request R_NOERROR True (fresh_response G request)"
    using replies_set_AA [OF assms(1)] replies_with_rcode [OF assms(1)] unfolding fresh_response_def by blast
  show "msg_section s (fresh_response G request) = []"
    using message_lawsD(10) [OF assms(2)] by (simp add: fresh_response_def NewQuery_def)
qed

text \<open>What the client of a sound zone gets, by the result of the search.\<close>

definition right_response :: "'n g53 \<Rightarrow> 'n Message \<Rightarrow> 'n rr_heap \<Rightarrow> find_ctx \<Rightarrow> 'n Message \<Rightarrow> bool" where
  "right_response G request h ctx m =
     (case fc_type ctx of
        FRSuccess \<Rightarrow> replies G request R_NOERROR True m \<and> answered_by h ctx (m_Answer m)
      | FRCname \<Rightarrow> replies G request R_NOERROR True m \<and> answered_by h ctx (m_Answer m)
      | FRDelegation \<Rightarrow> replies G request R_NOERROR False m \<and> m_Answer m = [] \<and> answered_by h ctx (m_Auth m)
      | FRNXDomain \<Rightarrow> replies G request R_NXDOMAIN True m \<and> m_Answer m = [] \<and> has_SOA (m_Auth m)
      | FRNXRRset \<Rightarrow> replies G request R_NOERROR True m \<and> m_Answer m = [] \<and> has_SOA (m_Auth m)
      | FRServFail \<Rightarrow> False)"

text \<open>The response is filled after further look-ups, which only rotate what was found.\<close>

lemma filled:
  assumes laws: "flag_word_laws G" "message_laws G" and base: "replies G request c b r" "\<And>s. msg_section s r = []"
    and heap: "\<forall>a\<in>set (ans @ auth @ add). hp_at (dz_heap dz) a \<noteq> None"
  shows "\<exists>m. fill_response G (ans, auth, add) r dz = ZDone dz m \<and> replies G request c b m \<and>
    m_Answer m = map (the \<circ> hp_at (dz_heap dz)) ans \<and> m_Auth m = map (the \<circ> hp_at (dz_heap dz)) auth"
  using fill_response_sections [OF laws(2) heap base(2)] replies_same [OF laws(1) base(1)] by blast

lemma negative_response:
  assumes laws: "flag_word_laws G" "message_laws G" "zone_tree_laws G Z" "zone_search_laws G Z S"
    and dz: "answers Z S dz" "apex_ok G Z (dz_zone dz)" and base: "replies G request c b r" "\<And>s. msg_section s r = []"
  shows "\<exists>dz' m. bindZ (addSOA G Z S dz) (\<lambda>dz2 soa. fill_response G ([], soa, []) r dz2) = ZDone dz' m \<and> same_zone dz dz' \<and>
    replies G request c b m \<and> m_Answer m = [] \<and> has_SOA (m_Auth m)"
proof -
  obtain dz' a soa where s: "addSOA G Z S dz = ZDone dz' [a]" "same_zone dz dz'" "hp_at (dz_heap dz') a = Some soa" "rr_Type soa = RR_SOA"
    using addSOA_answers [OF laws(2-4) dz] by blast
  obtain m where "fill_response G ([], [a], []) r dz' = ZDone dz' m" "replies G request c b m" "m_Answer m = []" "m_Auth m = [soa]"
    using filled [OF laws(1,2) base, of "[]" "[a]" "[]" dz'] s(3) by auto
  then show ?thesis using s by (auto simp: has_SOA_def)
qed

lemma same_zone_zone: "same_zone dz dz' \<Longrightarrow> dz_zone dz' = dz_zone dz"
  by (auto simp: same_zone_def)

lemma same_zone_allocated: "same_zone dz dz' \<Longrightarrow> hp_at (dz_heap dz) a \<noteq> None \<Longrightarrow> hp_at (dz_heap dz') a \<noteq> None"
  using evolvesD by (fastforce simp: same_zone_def)

lemma same_zone_evolves: "same_zone dz dz' \<Longrightarrow> evolves (dz_heap dz) (dz_heap dz')"
  by (auto simp: same_zone_def)

lemma positive_response:
  assumes laws: "flag_word_laws G" "message_laws G" "zone_tree_laws G Z" "zone_search_laws G Z S"
    and dz: "answers Z S dz" "apex_ok G Z (dz_zone dz)" and base: "replies G request c b r" "\<And>s. msg_section s r = []"
    and ctx: "ctx_sound (dz_heap dz) ctx" "fc_type ctx = FRSuccess" "evolves h (dz_heap dz)" "hp_at h (fc_rrset ctx) \<noteq> None"
  shows "\<exists>dz' m. bindZ (dz_GetAdditional G Z S ctx dz) (\<lambda>dz2 adds.
        if full then bindZ (addAuthAdditional G Z S dz2) (\<lambda>dz3 (auths, adds').
                       fill_response G ([fc_rrset ctx], auths, adds @ adds') r dz3)
        else fill_response G ([fc_rrset ctx], [], adds) r dz2) = ZDone dz' m \<and> same_zone dz dz' \<and>
    replies G request c b m \<and> answered_by h ctx (m_Answer m)"
proof -
  let ?a = "fc_rrset ctx"
  obtain dz2 adds where g: "dz_GetAdditional G Z S ctx dz = ZDone dz2 adds" "same_zone dz dz2" "\<forall>a\<in>set adds. hp_at (dz_heap dz2) a \<noteq> None"
    using dz_GetAdditional_answers [OF laws(2,4) dz(1) ctx(1)] by blast
  have a2: "hp_at (dz_heap dz2) ?a \<noteq> None" using ctx(1,2) same_zone_allocated [OF g(2)] by (auto simp: ctx_sound_def)
  obtain dz3 auths adds' where h: "addAuthAdditional G Z S dz2 = ZDone dz3 (auths, adds')" "same_zone dz2 dz3"
    "\<forall>a\<in>set (auths @ adds'). hp_at (dz_heap dz3) a \<noteq> None"
    using addAuthAdditional_answers [OF laws(2-4) answers_same_zone [OF dz(1) g(2)]] dz(2) same_zone_zone [OF g(2)] by auto
  have a3: "\<forall>a\<in>set ([?a] @ auths @ adds @ adds'). hp_at (dz_heap dz3) a \<noteq> None"
    using h(3) a2 g(3) same_zone_allocated [OF h(2)] by auto
  have shown: "answered_by h ctx [the (hp_at (dz_heap d) ?a)]" if "same_zone dz d" "hp_at (dz_heap d) ?a \<noteq> None" for d
    using answered_byI [OF evolves_trans [OF ctx(3) same_zone_evolves [OF that(1)]] that(2) ctx(4)] .
  show ?thesis
  proof (cases full)
    case True
    obtain m where "fill_response G ([?a], auths, adds @ adds') r dz3 = ZDone dz3 m" "replies G request c b m" "m_Answer m = [the (hp_at (dz_heap dz3) ?a)]"
      using filled [OF laws(1,2) base a3] by auto
    then show ?thesis using True g(1) h(1) same_zone_trans [OF g(2) h(2)] shown [of dz3] a3 by auto
  next
    case False
    obtain m where "fill_response G ([?a], [], adds) r dz2 = ZDone dz2 m" "replies G request c b m" "m_Answer m = [the (hp_at (dz_heap dz2) ?a)]"
      using filled [OF laws(1,2) base, of "[?a]" "[]" adds dz2] a2 g(3) by auto
    then show ?thesis using False g(1,2) shown [of dz2] a2 by auto
  qed
qed

section \<open>Property\<close>

text \<open>
  C5. A zone whose marks and data are in order answers every query, without a panic and without waiting,
  and the answer is the right one: what the search found is the answer, with authority, or the referral,
  without; a name or type that is not there is denied with the SOA. The data are those of the zone up to
  their order, and the zone stays as it is.
\<close>

theorem auth_query_answers:
  assumes laws: "flag_word_laws G" "message_laws G" "zone_tree_laws G Z" "zone_search_laws G Z S"
    and dz: "answers Z S dz" "apex_ok G Z (dz_zone dz)" and q: "m_Question request = Some q"
  shows "\<exists>dz' m h ctx. query_Process G Z S matchType request dz = ZDone dz' m \<and> same_zone dz dz' \<and>
    mz_find G Z S (q_Name q) (q_Type q) DefaultFind (dz_zone dz) (dz_heap dz) = Some (h, ctx) \<and> right_response G request h ctx m"
proof -
  let ?r = "fresh_response G request"
  obtain dz1 h ctx where f: "dz_Find G Z S (q_Name q) (q_Type q) DefaultFind dz = ZDone dz1 ctx" "same_zone dz dz1" "ctx_sound (dz_heap dz1) ctx"
    "mz_find G Z S (q_Name q) (q_Type q) DefaultFind (dz_zone dz) (dz_heap dz) = Some (h, ctx)" "evolves h (dz_heap dz1)"
    using dz_Find_answers [OF laws(2,4) dz(1)] by blast
  have hc: "ctx_sound h ctx"
    using mz_find_total [OF laws(4), of "dz_zone dz" "dz_heap dz" "q_Name q" "q_Type q" DefaultFind] f(4) dz(1) by (auto simp: answers_def)
  note dz1 = answers_same_zone [OF dz(1) f(2)]
  have apex: "apex_ok G Z (dz_zone dz1)" using dz(2) same_zone_zone [OF f(2)] by simp
  note base = fresh_response [OF laws(1,2), where request = request]
  have sections: "msg_section s (with_rcode c ?r) = []" "msg_section s (set_AA G b ?r) = []" for s c b by (simp_all add: base(2))
  note negative = negative_response [OF laws dz1 apex]
  have here: "hp_at (dz_heap dz1) (fc_rrset ctx) \<noteq> None \<and> hp_at h (fc_rrset ctx) \<noteq> None" if "fc_type ctx \<in> {FRSuccess, FRCname, FRDelegation}"
    using that f(3) hc by (auto simp: ctx_sound_def)
  define P where "P dz' m \<longleftrightarrow> same_zone dz dz' \<and> right_response G request h ctx m" for dz' m
  have "\<exists>dz' m. query_Process G Z S matchType request dz = ZDone dz' m \<and> P dz' m"
  proof (cases "fc_type ctx")
    case FRSuccess
    then show ?thesis
      using positive_response [OF laws dz1 apex base f(3) FRSuccess f(5), where full = "matchType \<noteq> ExactMatch \<or> q_Type q \<noteq> RR_NS"]
        here f(1) q same_zone_trans [OF f(2)]
      by (auto simp: query_Process_def fresh_response_def [symmetric] right_response_def P_def Let_def)
  next
    case FRCname
    then show ?thesis
      using filled [OF laws(1,2) base, of "[fc_rrset ctx]" "[]" "[]" dz1] here f(1,2) q answered_byI [OF f(5), of ctx]
      by (auto simp: query_Process_def fresh_response_def [symmetric] right_response_def P_def Let_def)
  next
    case FRDelegation
    obtain dz2 adds where g: "dz_GetAdditional G Z S ctx dz1 = ZDone dz2 adds" "same_zone dz1 dz2" "\<forall>a\<in>set adds. hp_at (dz_heap dz2) a \<noteq> None"
      using dz_GetAdditional_answers [OF laws(2,4) dz1 f(3)] by blast
    have a2: "hp_at (dz_heap dz2) (fc_rrset ctx) \<noteq> None" using here FRDelegation same_zone_allocated [OF g(2)] by simp
    then show ?thesis
      using filled [OF laws(1,2) replies_set_AA [OF laws(1) base(1)] sections(2), of "[]" "[fc_rrset ctx]" adds dz2 False] g here FRDelegation f(1) q
        answered_byI [OF evolves_trans [OF f(5) same_zone_evolves [OF g(2)]] a2] same_zone_trans [OF f(2) g(2)]
      by (auto simp: query_Process_def fresh_response_def [symmetric] right_response_def P_def Let_def)
  next
    case FRNXDomain
    then show ?thesis using negative [OF replies_with_rcode [OF laws(1) base(1)] sections(1), of R_NXDOMAIN] f(1) q same_zone_trans [OF f(2)]
      by (auto simp: query_Process_def fresh_response_def [symmetric] right_response_def P_def Let_def)
  next
    case FRNXRRset
    then show ?thesis using negative [OF base] f(1) q same_zone_trans [OF f(2)]
      by (auto simp: query_Process_def fresh_response_def [symmetric] right_response_def P_def Let_def)
  qed (use f(3) in \<open>simp add: ctx_sound_def\<close>)
  then show ?thesis using f(4) by (auto simp: P_def)
qed

lemma demo_answers: "answers ref_nodes ref_search demo_dz" "apex_ok ref_g53 ref_nodes (dz_zone demo_dz)"
proof -
  have t: "mz_domains (dz_zone demo_dz) = demo_tree" "mz_origin (dz_zone demo_dz) = [''a'', ''com'']" "dz_lock demo_dz = Free" by (simp_all add: demo_dz_def)
  have d: "ref_data demo_tree n = Some d \<longleftrightarrow> name_key n = [''a'', ''com''] \<and> d = [(RR_SOA, 1), (RR_NS, 2)] \<or>
      name_key n = [''c'', ''a'', ''com''] \<and> d = [(RR_NS, 3), (RR_A, 4)]" for n d
    by (auto simp: ref_data_def demo_tree_def)
  have w: "\<not> ref_flag demo_tree n wildcardMark" for n by (simp add: ref_flag_def demo_tree_def)
  have h: "heap_wf (dz_heap demo_dz)" by (auto simp: heap_wf_def demo_dz_def nil_def split: if_splits)
  have n: "node_sound (dz_heap demo_dz) [(RR_SOA, 1), (RR_NS, 2)]" "node_sound (dz_heap demo_dz) [(RR_NS, 3), (RR_A, 4)]"
    by (simp_all add: node_sound_def demo_dz_def demo_soa_def demo_set_def rrset_ok_def additional_name_def rr_types split: if_splits)
  have f: "\<exists>d. ref_data demo_tree n = Some d \<and> map_of d RR_NS \<noteq> None" if "ref_flag demo_tree n NF_CALLBACK" for n
    using that by (simp add: demo_flag d)
  show "answers ref_nodes ref_search demo_dz"
    unfolding answers_def zone_sound_def t ref_nodes_simps mz_isEmpty_def origin_data_def
    using h n f w by (simp add: d demo_keys)
  have "\<not> Name_IsSubDomain ref_g53 [''a'', ''com''] c" if "name_key c = [''c'', ''a'', ''com'']" for c
  proof -
    have "Name_IsSubDomain ref_g53 [''a'', ''com''] c \<longleftrightarrow> Name_IsSubDomain ref_g53 [''a'', ''com''] [''c'', ''a'', ''com'']"
      using that demo_keys(2) by (simp add: ref_IsSubDomain name_key_def)
    moreover have "\<not> Name_IsSubDomain ref_g53 [''a'', ''com''] [''c'', ''a'', ''com'']" by code_simp
    ultimately show ?thesis by simp
  qed
  moreover have "mz_validate ref_nodes (dz_zone demo_dz) = None"
    by (simp add: mz_validate_def origin_data_def t ref_nodes_simps ref_data_def demo_tree_def demo_keys rr_types)
  moreover have "map_of demo_tree (name_key [''a'', ''com'']) \<noteq> None" by (simp add: demo_keys demo_tree_def)
  ultimately show "apex_ok ref_g53 ref_nodes (dz_zone demo_dz)"
    unfolding apex_ok_def t ref_nodes_simps demo_flag by blast
qed

text \<open>A query below the delegation is referred to its name servers.\<close>

theorem auth_query_answers_witness:
  "\<exists>dz' m r. query_Process ref_g53 ref_nodes ref_search ClosestEncloser (MakeQuery ref_g53 [''x'', ''c'', ''a'', ''com''] RR_A) demo_dz = ZDone dz' m \<and>
    h_Rcode (m_Header m) = R_NOERROR \<and> m_Answer m = [] \<and> m_Auth m = [r] \<and> mset (rr_Rdatas r) = {#RdNS [''ns'', ''c'', ''a'', ''com'']#}"
proof -
  let ?q = "MakeQuery ref_g53 [''x'', ''c'', ''a'', ''com''] RR_A"
  have q: "m_Question ?q = Some \<lparr>q_Name = [''x'', ''c'', ''a'', ''com''], q_Type = RR_A, q_Class = CLASS_IN\<rparr>" by (simp add: ref_g53_simps)
  have "map_option (\<lambda>(h, ctx). (ctx, hp_at h (fc_rrset ctx)))
      (mz_find ref_g53 ref_nodes ref_search [''x'', ''c'', ''a'', ''com''] RR_A DefaultFind (dz_zone demo_dz) (dz_heap demo_dz)) =
    Some (found FRDelegation 3 [(RR_NS, 3), (RR_A, 4)], Some (demo_set [''c'', ''a'', ''com''] RR_NS (RdNS [''ns'', ''c'', ''a'', ''com''])))"
    by code_simp
  then show ?thesis
    using auth_query_answers [OF ref_flag_word_laws ref_message_laws ref_tree_laws ref_search_laws demo_answers q, of ClosestEncloser]
    by (fastforce simp: right_response_def found_def replies_def answered_by_def rotated_def demo_set_def)
qed

end
