(* ===== verification/Xfr_Service.thy ===== *)
theory Xfr_Service
  imports Xfr Auth_Query
begin

text \<open>
  Properties of the zone transfers: which transfers run at the same time, what a notification can do to
  later ones, and what a transfer does to the zone.
\<close>

section \<open>Zones under transfer\<close>

definition under_transfer :: "'n g53 \<Rightarrow> view \<Rightarrow> 'n \<Rightarrow> 'n XFRRunner \<Rightarrow> bool" where
  "under_transfer G v zone xr \<longleftrightarrow> (\<exists>z\<in>set (xr_inFlightIXFR xr v). Name_Equals G z zone)"

lemma addZoneToTransfer_cases:
  "addZoneToTransfer G v zone xr =
    (if under_transfer G v zone xr then (xr, False)
     else (xr\<lparr>xr_inFlightIXFR := (xr_inFlightIXFR xr)(v := xr_inFlightIXFR xr v @ [zone])\<rparr>, True))"
  by (simp add: addZoneToTransfer_def under_transfer_def Let_def)

text \<open>What a notification does: nothing, or it puts a zone under transfer, and only then it may start one.\<close>

lemma start_transfer_effect:
  "state_of (start_transfer L ds client soa a xr) = xr"
  "start_transfer L ds client soa a xr = ZDone xr' (c', Some t) \<Longrightarrow>
     tr_view t = c_View client \<and> (\<exists>dz. ad_zones ds a = Some dz \<and> tr_name t = mz_origin (dz_zone dz))"
  by (auto simp: start_transfer_def Let_def split: option.splits if_splits)

lemma put_state: "HandleNotify L ds client xr = start_transfer L ds client soa a xr1 \<Longrightarrow> state_of (HandleNotify L ds client xr) = xr1"
  by (simp add: start_transfer_effect(1))

definition put_under :: "view \<Rightarrow> 'n \<Rightarrow> 'n XFRRunner \<Rightarrow> 'n XFRRunner" where
  "put_under v zone xr = xr\<lparr>xr_inFlightIXFR := (xr_inFlightIXFR xr)(v := xr_inFlightIXFR xr v @ [zone])\<rparr>"

lemma HandleNotify_cases:
  obtains (nothing) "HandleNotify L ds client xr = ZDone xr (client, None)"
  | (panic) "HandleNotify L ds client xr = ZPanic xr"
  | (put) soa a where "m_Answer (c_Request client) = [soa]" "rr_Type soa = RR_SOA"
      "auth_GetZone (al_zones L) (c_View client) (rr_Name soa) ds = Some (Some (a, ExactMatch))"
      "\<not> under_transfer (al_g53 L) (c_View client) (rr_Name soa) xr"
      "HandleNotify L ds client xr = start_transfer L ds client soa a (put_under (c_View client) (rr_Name soa) xr)"
proof (cases "\<exists>soa. m_Answer (c_Request client) = [soa] \<and> rr_Type soa = RR_SOA")
  case True
  then obtain soa where s: "m_Answer (c_Request client) = [soa]" "rr_Type soa = RR_SOA" by blast
  consider "auth_GetZone (al_zones L) (c_View client) (rr_Name soa) ds = None"
    | a where "auth_GetZone (al_zones L) (c_View client) (rr_Name soa) ds = Some (Some (a, ExactMatch))"
    | x where "auth_GetZone (al_zones L) (c_View client) (rr_Name soa) ds = Some x" "\<nexists>a. x = Some (a, ExactMatch)" by fastforce
  then show ?thesis
  proof cases
    case 1
    then show ?thesis using that(2) s by (simp add: HandleNotify_def)
  next
    case (2 a)
    then show ?thesis using that(1) that(3) [OF s 2] s
      by (cases "under_transfer (al_g53 L) (c_View client) (rr_Name soa) xr") (simp_all add: HandleNotify_def addZoneToTransfer_cases put_under_def)
  next
    case (3 x)
    then have "HandleNotify L ds client xr = ZDone xr (client, None)" using s by (auto simp: HandleNotify_def split: option.split SearchResult.split)
    then show ?thesis by (rule that(1))
  qed
next
  case False
  then have "HandleNotify L ds client xr = ZDone xr (client, None)" by (auto simp: HandleNotify_def split: list.split)
  then show ?thesis by (rule that(1))
qed

lemma remove_first_other: "z \<in> set xs \<Longrightarrow> \<not> P z \<Longrightarrow> z \<in> set (remove_first P xs)"
  by (induction xs) auto

lemma remove_first_subset: "set (remove_first P xs) \<subseteq> set xs"
  by (induction xs) auto

lemma under_transfer_append:
  "under_transfer G v z (put_under u zone xr) \<longleftrightarrow> under_transfer G v z xr \<or> (u = v \<and> Name_Equals G zone z)"
  by (auto simp: under_transfer_def put_under_def)

lemma under_transfer_remove:
  assumes "name_laws G" "under_transfer G v z xr" "u = v \<Longrightarrow> \<not> Name_Equals G zone z"
  shows "under_transfer G v z (removeZoneFromTransfer G u zone xr)"
proof -
  obtain y where y: "y \<in> set (xr_inFlightIXFR xr v)" "Name_Equals G y z" using assms(2) by (auto simp: under_transfer_def)
  have "\<not> Name_Equals G y zone" if "u = v"
    using assms(1,3) that y(2) Name_Equals_sym Name_Equals_trans by metis
  then show ?thesis using y remove_first_other [of y _ "\<lambda>z. Name_Equals G z zone"] by (auto simp: under_transfer_def removeZoneFromTransfer_def)
qed

section \<open>Invariants of the runs\<close>

text \<open>Every running transfer has its zone under transfer, and no two are of the same zone.\<close>

definition other_zone :: "'n g53 \<Rightarrow> 'n transfer \<Rightarrow> 'n transfer \<Rightarrow> bool" where
  "other_zone G t u \<longleftrightarrow> \<not> (tr_view t = tr_view u \<and> Name_Equals G (tr_name t) (tr_name u))"

definition xfr_inv :: "('t, 'z, 'n) auth_libs \<Rightarrow> ('t, 'z, 'n) xfr_state \<Rightarrow> bool" where
  "xfr_inv L s \<longleftrightarrow>
     exact_named L (xs_auth s) \<and>
     (\<forall>t\<in>set (xs_running s). under_transfer (al_g53 L) (tr_view t) (tr_name t) (xs_runner s)) \<and>
     sorted_wrt (other_zone (al_g53 L)) (xs_running s)"

text \<open>A zone that is under transfer with no transfer running stays so.\<close>

definition stuck :: "('t, 'z, 'n) auth_libs \<Rightarrow> view \<Rightarrow> 'n \<Rightarrow> ('t, 'z, 'n) xfr_state \<Rightarrow> bool" where
  "stuck L v zone s \<longleftrightarrow>
     exact_named L (xs_auth s) \<and> under_transfer (al_g53 L) v zone (xs_runner s) \<and>
     (\<forall>t\<in>set (xs_running s). \<not> (tr_view t = v \<and> Name_Equals (al_g53 L) (tr_name t) zone))"

text \<open>The effect of a step on the runner and the running transfers.\<close>

lemma xfr_step_effect:
  assumes "xfr_step L s s'" "exact_named L (xs_auth s)"
  obtains (same) "xs_runner s' = xs_runner s" "xs_running s' = xs_running s" "exact_named L (xs_auth s')"
  | (added) v zone where "\<not> under_transfer (al_g53 L) v zone (xs_runner s)"
      "xs_runner s' = put_under v zone (xs_runner s)"
      "xs_running s' = xs_running s \<or> (\<exists>t. xs_running s' = xs_running s @ [t] \<and> tr_view t = v \<and> Name_Equals (al_g53 L) (tr_name t) zone)"
      "exact_named L (xs_auth s')"
  | (ended) t where "t \<in> set (xs_running s)" "xs_running s' = remove1 t (xs_running s)"
      "xs_runner s' = removeZoneFromTransfer (al_g53 L) (tr_view t) (tr_name t) (xs_runner s)" "exact_named L (xs_auth s')"
  using assms(1)
proof cases
  case (notify client xr client' started)
  show ?thesis
  proof (cases rule: HandleNotify_cases [of L "xs_auth s" client "xs_runner s"])
    case (put soa a)
    have xr: "xr = put_under (c_View client) (rr_Name soa) (xs_runner s)" using put_state [OF put(5)] unfolding notify(2) by simp
    have "tr_view t = c_View client \<and> Name_Equals (al_g53 L) (tr_name t) (rr_Name soa)" if "started = Some t" for t
    proof -
      have t: "start_transfer L (xs_auth s) client soa a (put_under (c_View client) (rr_Name soa) (xs_runner s)) = ZDone xr (client', Some t)"
        using put(5) notify(2) that by simp
      from start_transfer_effect(2) [OF this] show ?thesis using put(3) assms(2) unfolding exact_named_def by metis
    qed
    then show ?thesis using that(2) [of "c_View client" "rr_Name soa"] put(4) xr notify(1) assms(2) by (cases started) auto
  qed (use notify that(1) assms(2) in auto)
next
  case (panicked client xr)
  show ?thesis
  proof (cases rule: HandleNotify_cases [of L "xs_auth s" client "xs_runner s"])
    case (put soa a)
    have "xr = put_under (c_View client) (rr_Name soa) (xs_runner s)" using put_state [OF put(5)] unfolding panicked(2) by simp
    then show ?thesis using that(2) [of "c_View client" "rr_Name soa"] put(4) panicked(1) assms(2) by simp
  qed (use panicked that(1) assms(2) in auto)
next
  case (waiting client xr)
  show ?thesis
  proof (cases rule: HandleNotify_cases [of L "xs_auth s" client "xs_runner s"])
    case (put soa a)
    have "xr = put_under (c_View client) (rr_Name soa) (xs_runner s)" using put_state [OF put(5)] unfolding waiting(2) by simp
    then show ?thesis using that(2) [of "c_View client" "rr_Name soa"] put(4) waiting(1) assms(2) by simp
  qed (use waiting that(1) assms(2) in auto)
next
  case (ended t)
  then show ?thesis using that(3) assms(2) by simp
next
  case (changed ds)
  then show ?thesis using that(1) by simp
qed

lemma xfr_inv_step:
  assumes laws: "name_laws (al_g53 L)" and "xfr_step L s s'" "xfr_inv L s"
  shows "xfr_inv L s'"
proof -
  let ?G = "al_g53 L"
  have I: "exact_named L (xs_auth s)" "\<forall>t\<in>set (xs_running s). under_transfer ?G (tr_view t) (tr_name t) (xs_runner s)"
    "sorted_wrt (other_zone ?G) (xs_running s)" using assms(3) by (simp_all add: xfr_inv_def)
  from assms(2) I(1) show ?thesis
  proof (cases rule: xfr_step_effect)
    case same
    then show ?thesis using I by (simp add: xfr_inv_def)
  next
    case (added v zone)
    have new: "other_zone ?G u t" if "u \<in> set (xs_running s)" "tr_view t = v" "Name_Equals ?G (tr_name t) zone" for t u
    proof -
      have "\<not> Name_Equals ?G (tr_name u) (tr_name t)" if "tr_view u = v"
        using I(2) \<open>u \<in> _\<close> that added(1) \<open>Name_Equals ?G (tr_name t) zone\<close> Name_Equals_trans [OF laws] unfolding under_transfer_def by metis
      then show ?thesis using that(2) by (auto simp: other_zone_def)
    qed
    have "Name_Equals ?G zone (tr_name t)" if "Name_Equals ?G (tr_name t) zone" for t using Name_Equals_sym [OF laws that] .
    then show ?thesis using added(2,3,4) I new
      by (auto simp: xfr_inv_def under_transfer_append sorted_wrt_append)
  next
    case (ended t)
    obtain us vs where r: "xs_running s = us @ t # vs" "remove1 t (xs_running s) = us @ vs"
      using split_list_first [OF ended(1)] remove1_append by (metis remove1.simps(2) remove1_idem)
    have "under_transfer ?G (tr_view u) (tr_name u) (xs_runner s')" if "u \<in> set (us @ vs)" for u
    proof -
      have "other_zone ?G u t \<or> other_zone ?G t u" using I(3) that r(1) by (auto simp: sorted_wrt_append)
      then have "tr_view t = tr_view u \<Longrightarrow> \<not> Name_Equals ?G (tr_name t) (tr_name u)"
        using Name_Equals_sym [OF laws] by (auto simp: other_zone_def)
      then show ?thesis using under_transfer_remove [OF laws, of "tr_view u" "tr_name u" "xs_runner s"] I(2) that ended(3) r(1) by auto
    qed
    moreover have "sorted_wrt (other_zone ?G) (us @ vs)" using I(3) r(1) by (simp add: sorted_wrt_append)
    ultimately show ?thesis using ended(2,4) r(2) by (simp add: xfr_inv_def)
  qed
qed

lemma xfr_inv_steps: "xfr_steps L s s' \<Longrightarrow> name_laws (al_g53 L) \<Longrightarrow> xfr_inv L s \<Longrightarrow> xfr_inv L s'"
  by (induction rule: xfr_steps.induct) (auto intro: xfr_inv_step)

lemma stuck_step:
  assumes laws: "name_laws (al_g53 L)" and "xfr_step L s s'" "stuck L v zone s"
  shows "stuck L v zone s'"
proof -
  let ?G = "al_g53 L"
  have I: "exact_named L (xs_auth s)" "under_transfer ?G v zone (xs_runner s)"
    "\<And>t. t \<in> set (xs_running s) \<Longrightarrow> tr_view t = v \<Longrightarrow> \<not> Name_Equals ?G (tr_name t) zone" using assms(3) by (auto simp: stuck_def)
  from assms(2) I(1) show ?thesis
  proof (cases rule: xfr_step_effect)
    case same
    then show ?thesis using assms(3) by (simp add: stuck_def)
  next
    case (added u n)
    have "\<not> Name_Equals ?G m zone" if "u = v" "Name_Equals ?G m n" for m
      using that I(2) added(1) Name_Equals_trans [OF laws] Name_Equals_sym [OF laws] unfolding under_transfer_def by metis
    then show ?thesis using added(2,3,4) assms(3) by (auto simp: stuck_def under_transfer_append)
  next
    case (ended t)
    then show ?thesis using under_transfer_remove [OF laws I(2), of "tr_view t" "tr_name t"] I(3) notin_set_remove1
      by (auto simp: stuck_def dest: notin_set_remove1)
  qed
qed

lemma stuck_steps: "xfr_steps L s s' \<Longrightarrow> name_laws (al_g53 L) \<Longrightarrow> stuck L v zone s \<Longrightarrow> stuck L v zone s'"
  by (induction rule: xfr_steps.induct) (auto intro: stuck_step)

text \<open>
  C10. At most one transfer of a zone of a view runs at a time, however notifications, ends of transfers and
  changes of the zones interleave.
\<close>

theorem one_transfer_per_zone:
  assumes "name_laws (al_g53 L)" "exact_named L ds"
    and "xfr_steps L \<lparr>xs_runner = newXFRRunner, xs_running = [], xs_auth = ds\<rparr> s" "i < j" "j < length (xs_running s)"
  shows "\<not> (tr_view (xs_running s ! i) = tr_view (xs_running s ! j) \<and> Name_Equals (al_g53 L) (tr_name (xs_running s ! i)) (tr_name (xs_running s ! j)))"
proof -
  have "xfr_inv L s" by (rule xfr_inv_steps [OF assms(3,1)]) (simp add: xfr_inv_def assms(2))
  then show ?thesis using sorted_wrt_nth_less [of "other_zone (al_g53 L)" "xs_running s" i j] assms(4,5) by (simp add: xfr_inv_def other_zone_def)
qed

text \<open>
  C37. A notification from an address that is not a master stops the transfers of a zone for good: the
  notification starts no transfer and is not answered, but the zone is put under transfer before the
  sender is checked, and nothing takes it out again. Whatever notifications, ends of transfers and
  changes of the zones follow, no later notification for the zone, not even one from a master, starts a
  transfer or is answered.
\<close>

theorem stranger_stops_transfers:
  assumes laws: "name_laws (al_g53 L)" and s: "xfr_inv L s" "\<not> under_transfer (al_g53 L) (c_View client) (rr_Name soa) (xs_runner s)"
    and notify: "m_Answer (c_Request client) = [soa]" "rr_Type soa = RR_SOA" "soa_serial soa = Some serial" "client_IP client = Some addr"
    and zone: "auth_GetZone (al_zones L) (c_View client) (rr_Name soa) (xs_auth s) = Some (Some (a, ExactMatch))"
      "ad_zones (xs_auth s) a = Some dz" "dz_lock dz = Free" "ip_String addr @ '':53'' \<notin> set (Masters dz)"
  shows "\<exists>xr. HandleNotify L (xs_auth s) client (xs_runner s) = ZDone xr (client, None) \<and>
    (\<forall>s2 c soa'. xfr_steps L (s\<lparr>xs_runner := xr\<rparr>) s2 \<longrightarrow> c_View c = c_View client \<longrightarrow> m_Answer (c_Request c) = [soa'] \<longrightarrow>
       Name_Equals (al_g53 L) (rr_Name soa) (rr_Name soa') \<longrightarrow>
       (\<forall>xr' c' t. HandleNotify L (xs_auth s2) c (xs_runner s2) = ZDone xr' (c', t) \<longrightarrow> t = None \<and> c' = c))"
proof -
  let ?G = "al_g53 L" let ?v = "c_View client" let ?z = "rr_Name soa"
  let ?xr = "put_under ?v ?z (xs_runner s)"
  let ?s1 = "s\<lparr>xs_runner := ?xr\<rparr>"
  have h: "HandleNotify L (xs_auth s) client (xs_runner s) = ZDone ?xr (client, None)"
    using assms by (simp add: HandleNotify_def addZoneToTransfer_cases start_transfer_def put_under_def Let_def)
  have "\<not> (tr_view t = ?v \<and> Name_Equals ?G (tr_name t) ?z)" if "t \<in> set (xs_running s)" for t
  proof
    assume t: "tr_view t = ?v \<and> Name_Equals ?G (tr_name t) ?z"
    have "under_transfer ?G (tr_view t) (tr_name t) (xs_runner s)" using s(1) that by (simp add: xfr_inv_def)
    then show False using t s(2) Name_Equals_trans [OF laws] unfolding under_transfer_def by metis
  qed
  then have stuck1: "stuck L ?v ?z ?s1"
    using s(1) Name_Equals_refl [OF laws] by (auto simp: stuck_def xfr_inv_def under_transfer_append)
  have "t = None \<and> c' = c" if r: "xfr_steps L ?s1 s2" and c: "c_View c = ?v" "m_Answer (c_Request c) = [soa']" "Name_Equals ?G ?z (rr_Name soa')"
    and n: "HandleNotify L (xs_auth s2) c (xs_runner s2) = ZDone xr (c', t)" for s2 c soa' xr c' t
  proof -
    have "stuck L ?v ?z s2" by (rule stuck_steps [OF r laws stuck1])
    then have "under_transfer ?G ?v (rr_Name soa') (xs_runner s2)"
      using c(3) Name_Equals_trans [OF laws] unfolding stuck_def under_transfer_def by metis
    then show ?thesis using n c(1,2) by (cases rule: HandleNotify_cases [of L "xs_auth s2" c "xs_runner s2"]) auto
  qed
  then show ?thesis using h by (intro exI [of _ ?xr]) auto
qed

section \<open>Machines\<close>

lemma fsm_lawsD:
  assumes "fsm_laws Ev"
  shows "fsm_target tab ev src = None \<Longrightarrow> \<exists>err. Ev tab cb ev arg (src, s) = Some ((src, s), FsmError err)"
    and "fsm_target tab ev src = Some dst \<Longrightarrow> cb_before cb ev src arg s = None \<Longrightarrow> Ev tab cb ev arg (src, s) = None"
    and "fsm_target tab ev src = Some dst \<Longrightarrow> cb_before cb ev src arg s = Some (s1, Some c) \<Longrightarrow>
      \<exists>err. Ev tab cb ev arg (src, s) = Some ((src, s1), FsmError err)"
    and "fsm_target tab ev src = Some dst \<Longrightarrow> cb_before cb ev src arg s = Some (s1, None) \<Longrightarrow>
      Ev tab cb ev arg (src, s) = map_option (\<lambda>s2. ((dst, s2), if dst = src then FsmNoTransition else FsmOk)) (cb_after cb ev src arg s1)"
proof -
  note L = assms [unfolded fsm_laws_def]
  note L1 = L [THEN conjunct1] and L2 = L [THEN conjunct2, THEN conjunct1] and L3 = L [THEN conjunct2, THEN conjunct2, THEN conjunct1]
    and L4 = L [THEN conjunct2, THEN conjunct2, THEN conjunct2]
  show "fsm_target tab ev src = None \<Longrightarrow> \<exists>err. Ev tab cb ev arg (src, s) = Some ((src, s), FsmError err)"
    by (rule L1 [rule_format])
  show "fsm_target tab ev src = Some dst \<Longrightarrow> cb_before cb ev src arg s = None \<Longrightarrow> Ev tab cb ev arg (src, s) = None"
    by (rule L2 [rule_format])
  show "fsm_target tab ev src = Some dst \<Longrightarrow> cb_before cb ev src arg s = Some (s1, Some c) \<Longrightarrow>
      \<exists>err. Ev tab cb ev arg (src, s) = Some ((src, s1), FsmError err)"
    by (rule L3 [rule_format])
  show "fsm_target tab ev src = Some dst \<Longrightarrow> cb_before cb ev src arg s = Some (s1, None) \<Longrightarrow>
      Ev tab cb ev arg (src, s) = map_option (\<lambda>s2. ((dst, s2), if dst = src then FsmNoTransition else FsmOk)) (cb_after cb ev src arg s1)"
    by (rule L4 [rule_format])
qed

text \<open>The data a machine can have: what a step does to them is a change by one of its callbacks.\<close>

definition fsm_keeps :: "('a \<Rightarrow> bool) \<Rightarrow> ('s \<Rightarrow> bool) \<Rightarrow> ('a, 's) fsm_callbacks \<Rightarrow> bool" where
  "fsm_keeps A P cb \<longleftrightarrow>
     (\<forall>ev src arg s s1 c. A arg \<longrightarrow> P s \<longrightarrow> cb_before cb ev src arg s = Some (s1, c) \<longrightarrow> P s1) \<and>
     (\<forall>ev src arg s s1. A arg \<longrightarrow> P s \<longrightarrow> cb_after cb ev src arg s = Some s1 \<longrightarrow> P s1)"

lemma fsm_keeps_Event:
  assumes laws: "fsm_laws Ev" and keeps: "fsm_keeps A P cb" and run: "Ev tab cb ev arg (src, s) = Some ((st, s'), res)" and P: "A arg" "P s"
  shows "P s'"
proof (cases "fsm_target tab ev src")
  case None
  then show ?thesis using fsm_lawsD(1) [OF laws None, of cb arg s] run P(2) by auto
next
  case (Some dst)
  show ?thesis
  proof (cases "cb_before cb ev src arg s")
    case None
    then show ?thesis using fsm_lawsD(2) [OF laws Some None] run by simp
  next
    case (Some b)
    then obtain s1 c where b: "cb_before cb ev src arg s = Some (s1, c)" by (cases b) auto
    then have P1: "P s1" using keeps P unfolding fsm_keeps_def by blast
    show ?thesis
    proof (cases c)
      case None
      then have "cb_after cb ev src arg s1 = Some s'"
        using fsm_lawsD(4) [OF laws \<open>fsm_target tab ev src = Some dst\<close>, of cb arg s s1] b run
        by (cases "cb_after cb ev src arg s1") auto
      then show ?thesis using keeps P(1) P1 unfolding fsm_keeps_def by blast
    next
      case (Some e)
      then show ?thesis using fsm_lawsD(3) [OF laws \<open>fsm_target tab ev src = Some dst\<close>, of cb arg s s1 e] b run P1 by auto
    qed
  qed
qed

text \<open>The engine as a function.\<close>

definition ref_engine :: "('a, 's) fsm_engine" where
  "ref_engine tab cb ev arg st =
     (case st of (src, s) \<Rightarrow>
        case fsm_target tab ev src of
          None \<Rightarrow> Some ((src, s), FsmError ''inappropriate event'')
        | Some dst \<Rightarrow>
            Option.bind (cb_before cb ev src arg s) (\<lambda>(s1, c).
              case c of
                Some e \<Rightarrow> Some ((src, s1), FsmError e)
              | None \<Rightarrow> map_option (\<lambda>s2. ((dst, s2), if dst = src then FsmNoTransition else FsmOk)) (cb_after cb ev src arg s1)))"

lemma ref_engine_laws: "fsm_laws ref_engine"
  unfolding fsm_laws_def by (simp add: ref_engine_def)

section \<open>What the runs keep\<close>

text \<open>A property of the data that every event with an argument of the transfer keeps holds at the end of a run.\<close>

definition event_keeps ::
  "('n xfr_arg \<Rightarrow> bool) \<Rightarrow> (('z, 'n) XFRSMGenertor \<Rightarrow> bool) \<Rightarrow> (string \<Rightarrow> 'n xfr_arg \<Rightarrow> ('z, 'n) xfr_sm \<Rightarrow> (('z, 'n) xfr_sm \<times> fsm_result) may_panic) \<Rightarrow> bool" where
  "event_keeps A P E \<longleftrightarrow> (\<forall>ev arg st g st' g' res. A arg \<longrightarrow> P g \<longrightarrow> E ev arg (st, g) = Some ((st', g'), res) \<longrightarrow> P g')"

lemma event_keepsD: "event_keeps A P E \<Longrightarrow> E ev arg (st, g) = Some ((st', g'), res) \<Longrightarrow> A arg \<Longrightarrow> P g \<Longrightarrow> P g'"
  unfolding event_keeps_def by blast

lemma run_soas_keeps:
  assumes "event_keeps A P E" "\<And>n. A (ArgSerial n)"
  shows "run_soas E i cnt k j ds (st, g) = Some ((st', g'), err) \<Longrightarrow> P g \<Longrightarrow> P g'"
proof (induction ds arbitrary: j st g)
  case (Cons d ds)
  then obtain m n x where d: "d = RdSOA m n x" by (cases d) auto
  let ?ev = "if (i = 0 \<and> j = 0) \<or> (Suc i = cnt \<and> Suc j = k) then ''get_wrapper_soa'' else ''get_mid_soa''"
  obtain st1 g1 res where e: "E ?ev (ArgSerial n) (st, g) = Some ((st1, g1), res)"
    using Cons.prems(1) d by (auto simp: Let_def split: option.splits)
  have "P g1" by (rule event_keepsD [OF assms(1) e assms(2) Cons.prems(2)])
  then show ?case using Cons.prems(1) Cons.IH [of "Suc j" st1 g1] d e by (cases res) (simp_all add: Let_def)
qed simp

lemma runIXFR_keeps:
  assumes "event_keeps A P E" "\<And>n. A (ArgSerial n)"
  shows "runIXFRFSM E R cnt i rs (st, g) = Some ((st', g'), err) \<Longrightarrow> \<forall>r\<in>set rs. A (ArgRRset r) \<Longrightarrow> P g \<Longrightarrow> P g'"
proof (induction rs arbitrary: i st g)
  case (Cons r rs)
  show ?case
  proof (cases "rr_Type r = RR_SOA")
    case True
    obtain st1 g1 e where e: "run_soas E i cnt (f_RRset_RRCount R r) 0 (rr_Rdatas r) (st, g) = Some ((st1, g1), e)"
      using Cons.prems(1) True by (auto split: option.splits)
    have "P g1" by (rule run_soas_keeps [OF assms e Cons.prems(3)])
    then show ?thesis using Cons.prems Cons.IH [of "Suc i" st1 g1] True e by (cases e) simp_all
  next
    case False
    obtain st1 g1 res where e: "E ''get_none_soa'' (ArgRRset r) (st, g) = Some ((st1, g1), res)"
      using Cons.prems(1) False by (auto split: option.splits)
    have "P g1" by (rule event_keepsD [OF assms(1) e]) (use Cons.prems in simp_all)
    then show ?thesis using Cons.prems Cons.IH [of "Suc i" st1 g1] False e by (cases res) simp_all
  qed
qed simp

lemma runAXFR_keeps:
  assumes "event_keeps A P E"
  shows "runAXFRFSM E R cnt i rs (st, g) = Some ((st', g'), err) \<Longrightarrow> \<forall>r\<in>set rs. A (ArgRRset r) \<Longrightarrow> P g \<Longrightarrow> P g'"
proof (induction rs arbitrary: i st g)
  case (Cons r rs)
  show ?case
  proof (cases "rr_Type r = RR_SOA \<and> f_RRset_RRCount R r \<noteq> 1")
    case True
    then show ?thesis using Cons.prems by simp
  next
    case False
    let ?e = "if rr_Type r = RR_SOA then (if i = 0 \<or> Suc i = cnt then E ''get_wrapper_soa'' (ArgRRset r) (st, g) else Some ((st, g), FsmOk))
      else E ''get_none_soa'' (ArgRRset r) (st, g)"
    obtain st1 g1 res where e: "?e = Some ((st1, g1), res)" using Cons.prems(1) False by (cases ?e) auto
    then have "P g1" using Cons.prems(2,3) event_keepsD [OF assms, of _ "ArgRRset r" st g st1 g1 res] by (auto split: if_splits)
    moreover have "g1 = g' \<or> runAXFRFSM E R cnt (Suc i) rs (st1, g1) = Some ((st', g'), err)"
      using Cons.prems(1) False e by (cases res) (auto split: if_splits)
    ultimately show ?thesis using Cons.prems(2) Cons.IH [of "Suc i" st1 g1] by auto
  qed
qed simp

lemma fsm_event_keeps: "fsm_laws Ev \<Longrightarrow> fsm_keeps A P cb \<Longrightarrow> event_keeps A P (Ev tab cb)"
  unfolding event_keeps_def by (intro allI impI, rule fsm_keeps_Event)

text \<open>The changes of the zone that a machine makes.\<close>

lemma tx_Add_cases:
  assumes "tx_Add G R Z r g = Some g'"
  obtains p h h' z' err where "new_rrset r (fst (xg_tx g)) = (p, h)" "mz_addRRset G R Z p (h, snd (xg_tx g)) = Some ((h', z'), err)"
    "g' = g\<lparr>xg_tx := (h', z')\<rparr>"
proof -
  obtain p h where "new_rrset r (fst (xg_tx g)) = (p, h)" by fastforce
  then show ?thesis using assms that by (auto simp: tx_Add_def)
qed

lemma tx_Add_ok:
  assumes laws: "zone_tree_laws G Z" and add: "tx_Add G R Z r g = Some g'" and ok: "zone_ok Z (snd (xg_tx g))"
  shows "zone_ok Z (snd (xg_tx g')) \<and> mz_origin (snd (xg_tx g')) = mz_origin (snd (xg_tx g)) \<and> xg_latestSerial g' = xg_latestSerial g"
  using add
proof (cases rule: tx_Add_cases)
  case (1 p h h' z' err)
  from addRRset_ok [OF laws 1(2) ok] show ?thesis using 1(3) by simp
qed

lemma tx_DeleteRRset_ok:
  assumes "zone_tree_laws G Z" "tx_DeleteRRset G Z r g = Some g'" "zone_ok Z (snd (xg_tx g))"
  shows "zone_ok Z (snd (xg_tx g')) \<and> mz_origin (snd (xg_tx g')) = mz_origin (snd (xg_tx g))"
proof -
  obtain h' z' err where run: "mz_deleteRRset G Z r (fst (xg_tx g), snd (xg_tx g)) = Some ((h', z'), err)" "g' = g\<lparr>xg_tx := (h', z')\<rparr>"
    using assms(2) by (auto simp: tx_DeleteRRset_def)
  from deleteRRset_ok [OF assms(1) run(1) assms(3)] show ?thesis using run(2) by simp
qed

lemma tx_Increase_zone: "tx_IncreaseSerialNumber Z g = Some g' \<Longrightarrow> snd (xg_tx g') = snd (xg_tx g)"
  by (cases "xg_tx g") (auto simp: tx_IncreaseSerialNumber_def mz_increaseSerialNumber_def option_bind_Some_iff)

text \<open>Adding a record changes the data of its own name only.\<close>

lemma addRRset_other_names:
  assumes laws: "zone_tree_laws G Z" and run: "mz_addRRset G R Z p (h, z) = Some ((h', z'), err)" and p: "hp_at h p = Some r"
    and n: "\<not> Name_Equals G n (rr_Name r)"
  shows "zt_Data Z (mz_domains z') n = zt_Data Z (mz_domains z) n"
proof (cases "checkRRsetValid G z r = None \<and> \<not> isl (zt_Insert Z (mz_domains z) (rr_Name r))")
  case False
  then show ?thesis using run p by (auto simp: mz_addRRset_def split: option.splits sum.splits)
next
  case True
  then obtain t where t: "zt_Insert Z (mz_domains z) (rr_Name r) = Inr t" by (cases "zt_Insert Z (mz_domains z) (rr_Name r)") auto
  note D = zone_treeD(4) [OF laws t]
  obtain res where out: "(case res of Refused e \<Rightarrow> ((h, z\<lparr>mz_domains := t\<rparr>), Some e) | Ignored \<Rightarrow> ((h, z\<lparr>mz_domains := t\<rparr>), None)
      | Stored h1 d \<Rightarrow> set_marks G Z r h1 (z\<lparr>mz_domains := zt_SetData Z t (rr_Name r) d\<rparr>)) = ((h', z'), err)"
    using run p t True by (auto simp: mz_addRRset_def)
  show ?thesis
  proof (cases res)
    case (Stored h1 d)
    have "set_marks G Z r h1 (z\<lparr>mz_domains := zt_SetData Z t (rr_Name r) d\<rparr>) = ((h', z'), err)" using out Stored by simp
    from set_marks_data(1) [OF laws this] show ?thesis using n by (simp add: zone_treeD(6) [OF laws zone_treeD(3) [OF laws t]] D)
  qed (use out in \<open>auto simp: D\<close>)
qed

lemma tx_Add_other_names:
  assumes "zone_tree_laws G Z" "tx_Add G R Z r g = Some g'" "\<not> Name_Equals G n (rr_Name r)"
  shows "zt_Data Z (mz_domains (snd (xg_tx g'))) n = zt_Data Z (mz_domains (snd (xg_tx g))) n"
  using assms(2)
proof (cases rule: tx_Add_cases)
  case (1 p h h' z' err)
  have "hp_at h p = Some r" using 1(1) by (auto simp: new_rrset_def)
  from addRRset_other_names [OF assms(1) 1(2) this assms(3)] show ?thesis using 1(3) by simp
qed

text \<open>Both machines keep the rule of the nodes and the origin.\<close>

definition working_copy :: "('z, 'n) zone_nodes \<Rightarrow> 'n \<Rightarrow> ('z, 'n) XFRSMGenertor \<Rightarrow> bool" where
  "working_copy Z origin g \<longleftrightarrow> zone_ok Z (snd (xg_tx g)) \<and> mz_origin (snd (xg_tx g)) = origin"

lemma tx_working_copy:
  assumes "zone_tree_laws G Z" "working_copy Z origin g"
  shows "tx_Add G R Z r g = Some g' \<Longrightarrow> working_copy Z origin g'"
    and "tx_DeleteRRset G Z r g = Some g' \<Longrightarrow> working_copy Z origin g'"
    and "tx_IncreaseSerialNumber Z g = Some g' \<Longrightarrow> working_copy Z origin g'"
  using assms tx_Add_ok [of G Z R r g g'] tx_DeleteRRset_ok [of G Z r g g'] tx_Increase_zone [of Z g g'] by (auto simp: working_copy_def)

lemma ixfr_working_copy:
  assumes "zone_tree_laws G Z"
  shows "fsm_keeps (\<lambda>_. True) (working_copy Z origin) \<lparr>cb_before = ixfr_before Z, cb_after = ixfr_after G R Z\<rparr>"
proof -
  have "working_copy Z origin g'" if "ixfr_before Z ev src arg g = Some (g', c)" "working_copy Z origin g" for ev src arg g g' c
    using that tx_working_copy(3) [OF assms that(2)]
    by (auto simp: ixfr_before_def working_copy_def split: if_splits xfr_arg.splits)
  moreover have "working_copy Z origin g'" if "ixfr_after G R Z ev src arg g = Some g'" "working_copy Z origin g" for ev src arg g g'
    using that tx_working_copy(1,2) [OF assms that(2)] by (auto simp: ixfr_after_def split: if_splits xfr_arg.splits)
  ultimately show ?thesis by (auto simp: fsm_keeps_def)
qed

lemma axfr_keeps:
  assumes "\<And>r g g'. A (ArgRRset r) \<Longrightarrow> tx_Add G R Z r g = Some g' \<Longrightarrow> P g \<Longrightarrow> P g'"
  shows "fsm_keeps A P \<lparr>cb_before = axfr_before G R Z, cb_after = axfr_after G R Z\<rparr>"
proof -
  have "P g'" if "axfr_before G R Z ev src arg g = Some (g', c)" "A arg" "P g" for ev src arg g g' c
    using that assms by (auto simp: axfr_before_def option_bind_Some_iff split: if_splits xfr_arg.splits)
  moreover have "P g'" if "axfr_after G R Z ev src arg g = Some g'" "A arg" "P g" for ev src arg g g'
    using that assms by (auto simp: axfr_after_def split: if_splits xfr_arg.splits)
  ultimately show ?thesis by (auto simp: fsm_keeps_def)
qed

lemma sm_Run_working_copy:
  assumes "fsm_laws Ev" "zone_tree_laws G Z" "sm_Run Ev G R Z typ ans g = Some ((st, g'), err)" "working_copy Z origin g"
  shows "working_copy Z origin g'"
proof (cases "typ")
  case IXFR
  have "event_keeps (\<lambda>_. True) (working_copy Z origin) (ixfr_Event Ev G R Z)"
    unfolding ixfr_Event_def by (rule fsm_event_keeps [OF assms(1) ixfr_working_copy [OF assms(2)]])
  from runIXFR_keeps [OF this] show ?thesis using assms(3,4) IXFR by (auto simp: sm_Run_def)
next
  case AXFR
  have "event_keeps (\<lambda>_. True) (working_copy Z origin) (axfr_Event Ev G R Z)"
    unfolding axfr_Event_def by (rule fsm_event_keeps [OF assms(1) axfr_keeps]) (rule tx_working_copy(1) [OF assms(2)])
  from runAXFR_keeps [OF this] show ?thesis using assms(3,4) AXFR by (auto simp: sm_Run_def)
qed

text \<open>An attempt: the zone is what it was, or the complete copy that the machine worked on.\<close>

lemma Begin_cases:
  "Dynamic_Zone.Begin Z dz =
     (if dz_lock dz = Free then ZDone (dz\<lparr>dz_lock := Taken\<rparr>) (mz_clone Z (dz_zone dz)) else ZBlocked (dz\<lparr>dz_lock := Taken\<rparr>))"
  by (simp add: Dynamic_Zone.Begin_def Lock_def)

lemma xfr_attempt_cases:
  obtains (same) "dz_zone (state_of (xfr_attempt Ev G R Z kind cur latest ans dz)) = dz_zone dz"
  | (taken) st g where "sm_Run Ev G R Z kind ans (newFSMGenerator cur latest (dz_heap dz, mz_clone Z (dz_zone dz))) = Some ((st, g), None)"
      "mz_validate Z (snd (xg_tx g)) = None" "dz_lock dz = Free"
      "xfr_attempt Ev G R Z kind cur latest ans dz = ZDone (Unlock (dz\<lparr>dz_zone := snd (xg_tx g), dz_heap := fst (xg_tx g)\<rparr>)) False"
proof (cases "dz_lock dz = Free")
  case False
  then show ?thesis using that(1) by (simp add: xfr_attempt_def Begin_cases)
next
  case True
  let ?run = "sm_Run Ev G R Z kind ans (newFSMGenerator cur latest (dz_heap dz, mz_clone Z (dz_zone dz)))"
  consider "?run = None" | st g e where "?run = Some ((st, g), Some e)" | st g where "?run = Some ((st, g), None)" by (cases ?run) force+
  then show ?thesis
  proof cases
    case (3 st g)
    then show ?thesis using that True by (cases "mz_validate Z (snd (xg_tx g))") (auto simp: xfr_attempt_def Begin_cases Commit_def Unlock_def)
  qed (use that(1) True in \<open>auto simp: xfr_attempt_def Begin_cases RollBack_def Unlock_def\<close>)
qed

lemma working_copy_start: "zone_tree_laws G Z \<Longrightarrow> zone_ok Z (dz_zone dz) \<Longrightarrow>
  working_copy Z (mz_origin (dz_zone dz)) (newFSMGenerator cur latest (h, mz_clone Z (dz_zone dz)))"
  by (simp add: working_copy_def newFSMGenerator_def zone_ok_clone)

lemma xfr_attempt_served:
  assumes "fsm_laws Ev" "zone_tree_laws G Z" "served Z origin dz"
  shows "served Z origin (state_of (xfr_attempt Ev G R Z kind cur latest ans dz))"
proof (cases rule: xfr_attempt_cases [where Ev = Ev and G = G and R = R and Z = Z and kind = kind and cur = cur and latest = latest
    and ans = ans and dz = dz])
  case same
  then show ?thesis using assms(3) by (simp add: served_def)
next
  case (taken st g)
  have "working_copy Z (mz_origin (dz_zone dz)) g"
    by (rule sm_Run_working_copy [OF assms(1,2) taken(1) working_copy_start [OF assms(2)]]) (use assms(3) in \<open>simp add: served_def\<close>)
  then show ?thesis using taken(2,4) assms(3) by (simp add: served_def working_copy_def Unlock_def)
qed

text \<open>
  C39. A full transfer does not replace the zone: whatever the master sends, the data of every name that the
  transfer does not mention stay as they were.
\<close>

theorem full_transfer_keeps_old_names:
  assumes "fsm_laws Ev" "zone_tree_laws G Z" "xfr_attempt Ev G R Z AXFR cur latest ans dz = ZDone dz' failed"
    and "\<forall>r\<in>set ans. \<not> Name_Equals G n (rr_Name r)"
  shows "zt_Data Z (mz_domains (dz_zone dz')) n = zt_Data Z (mz_domains (dz_zone dz)) n"
proof (cases rule: xfr_attempt_cases [where Ev = Ev and G = G and R = R and Z = Z and kind = AXFR and cur = cur and latest = latest
    and ans = ans and dz = dz])
  case same
  then show ?thesis using assms(3) by simp
next
  case (taken st g)
  let ?A = "\<lambda>a. \<forall>r. a = ArgRRset r \<longrightarrow> \<not> Name_Equals G n (rr_Name r)"
  let ?P = "\<lambda>g. zt_Data Z (mz_domains (snd (xg_tx g))) n = zt_Data Z (mz_domains (dz_zone dz)) n"
  have "event_keeps ?A ?P (axfr_Event Ev G R Z)"
    unfolding axfr_Event_def by (rule fsm_event_keeps [OF assms(1) axfr_keeps]) (simp add: tx_Add_other_names [OF assms(2)])
  then have "?P g" by (rule runAXFR_keeps) (use taken(1) assms(4) clone_data [OF assms(2)] in \<open>auto simp: sm_Run_def newFSMGenerator_def\<close>)
  then show ?thesis using assms(3) taken(4) by (auto simp: Unlock_def)
qed

section \<open>Transfers that are cut off\<close>

lemma axfr_soa_first:
  assumes "fsm_laws Ev" "soa_serial soa = Some latest" "xg_latestSerial g = latest"
  shows "axfr_Event Ev G R Z ''get_wrapper_soa'' (ArgRRset soa) (''init'', g) =
    map_option (\<lambda>g'. ((''start'', g'), FsmOk)) (tx_Add G R Z soa g)"
proof (cases "tx_Add G R Z soa g")
  case None
  then show ?thesis unfolding axfr_Event_def using assms(2,3)
    by (subst fsm_lawsD(2) [OF assms(1), where dst = "''start''"]) (simp_all add: fsm_target_def axfr_table_def axfr_before_def)
next
  case (Some g')
  then show ?thesis unfolding axfr_Event_def using assms(2,3)
    by (subst fsm_lawsD(4) [OF assms(1), where dst = "''start''" and ?s1.0 = g'])
      (simp_all add: fsm_target_def axfr_table_def axfr_before_def axfr_after_def)
qed

lemma axfr_data:
  assumes "fsm_laws Ev" "st = ''start'' \<or> st = ''add_section''"
  shows "axfr_Event Ev G R Z ''get_none_soa'' (ArgRRset r) (st, g) =
    map_option (\<lambda>g'. ((''add_section'', g'), if st = ''start'' then FsmOk else FsmNoTransition)) (tx_Add G R Z r g)"
  unfolding axfr_Event_def using assms(2)
  by (subst fsm_lawsD(4) [OF assms(1), where dst = "''add_section''" and ?s1.0 = g])
    (auto simp: fsm_target_def axfr_table_def axfr_before_def axfr_after_def intro!: arg_cong2 [where f = map_option])

lemma axfr_soa_last:
  assumes "fsm_laws Ev" "soa_serial soa = Some (xg_latestSerial g)"
  shows "axfr_Event Ev G R Z ''get_wrapper_soa'' (ArgRRset soa) (''add_section'', g) = Some ((''done'', g), FsmOk)"
  unfolding axfr_Event_def
  by (subst fsm_lawsD(4) [OF assms(1), where dst = "''done''" and ?s1.0 = g])
    (simp_all add: fsm_target_def axfr_table_def axfr_before_def axfr_after_def assms(2))

text \<open>The data between the two SOA records are added one after the other.\<close>

fun tx_Adds :: "'n g53 \<Rightarrow> 'n rrset_lib \<Rightarrow> ('z, 'n) zone_nodes \<Rightarrow> 'n RRset list \<Rightarrow> ('z, 'n) XFRSMGenertor \<Rightarrow> ('z, 'n) XFRSMGenertor may_panic" where
  "tx_Adds G R Z [] g = Some g"
| "tx_Adds G R Z (r # rs) g = Option.bind (tx_Add G R Z r g) (tx_Adds G R Z rs)"

lemma run_data:
  assumes "fsm_laws Ev" "\<forall>r\<in>set rs. rr_Type r \<noteq> RR_SOA" "st = ''start'' \<or> st = ''add_section''"
  shows "runAXFRFSM (axfr_Event Ev G R Z) R cnt i (rs @ rest) (st, g) =
    Option.bind (tx_Adds G R Z rs g) (\<lambda>g'. runAXFRFSM (axfr_Event Ev G R Z) R cnt (i + length rs) rest (if rs = [] then st else ''add_section'', g'))"
  using assms(2,3)
proof (induction rs arbitrary: i st g)
  case (Cons r rs)
  then show ?case
    by (cases "tx_Add G R Z r g") (auto simp: axfr_data [OF assms(1)])
qed simp

lemma tx_Adds_append: "tx_Adds G R Z (rs @ rs') g = Option.bind (tx_Adds G R Z rs g) (tx_Adds G R Z rs')"
  by (induction rs arbitrary: g) (auto split: bind_splits)

lemma tx_Add_serial: "tx_Add G R Z r g = Some g' \<Longrightarrow> xg_latestSerial g' = xg_latestSerial g"
  by (auto simp: tx_Add_def split: prod.splits)

lemma tx_Adds_serial: "tx_Adds G R Z rs g = Some g' \<Longrightarrow> xg_latestSerial g' = xg_latestSerial g"
  by (induction rs arbitrary: g) (auto simp: option_bind_Some_iff tx_Add_serial)

definition wrapper_soa :: "'n rrset_lib \<Rightarrow> u32 \<Rightarrow> 'n RRset \<Rightarrow> bool" where
  "wrapper_soa R latest soa \<longleftrightarrow> rr_Type soa = RR_SOA \<and> f_RRset_RRCount R soa = 1 \<and> soa_serial soa = Some latest"

text \<open>The outcome depends on the data alone, whether the closing SOA is there or not.\<close>

lemma axfr_Run:
  assumes "fsm_laws Ev" "wrapper_soa R latest soa" "wrapper_soa R latest soa2" "\<forall>r\<in>set rs. rr_Type r \<noteq> RR_SOA" "rs \<noteq> []" "xg_latestSerial g = latest"
  shows "sm_Run Ev G R Z AXFR (soa # rs) g = map_option (\<lambda>g'. ((''add_section'', g'), None)) (tx_Adds G R Z (soa # rs) g)"
    and "sm_Run Ev G R Z AXFR (soa # rs @ [soa2]) g = map_option (\<lambda>g'. ((''done'', g'), None)) (tx_Adds G R Z (soa # rs) g)"
proof -
  have s: "rr_Type soa = RR_SOA" "f_RRset_RRCount R soa = 1" "soa_serial soa = Some latest" "rr_Type soa2 = RR_SOA" "f_RRset_RRCount R soa2 = 1"
    "soa_serial soa2 = Some latest" using assms(2,3) by (simp_all add: wrapper_soa_def)
  note run = run_data [OF assms(1,4), of "''start''"] axfr_soa_first [OF assms(1) s(3) assms(6)]
  show "sm_Run Ev G R Z AXFR (soa # rs) g = map_option (\<lambda>g'. ((''add_section'', g'), None)) (tx_Adds G R Z (soa # rs) g)"
  proof (cases "tx_Add G R Z soa g")
    case (Some g1)
    then show ?thesis using run(1) [where rest = "[]"] run(2) s assms(5) by (cases "tx_Adds G R Z rs g1") (auto simp: sm_Run_def)
  qed (use run(2) s in \<open>simp add: sm_Run_def\<close>)
  show "sm_Run Ev G R Z AXFR (soa # rs @ [soa2]) g = map_option (\<lambda>g'. ((''done'', g'), None)) (tx_Adds G R Z (soa # rs) g)"
  proof (cases "tx_Add G R Z soa g")
    case (Some g1)
    have l: "soa_serial soa2 = Some (xg_latestSerial g2)" if "tx_Adds G R Z rs g1 = Some g2" for g2
      using tx_Adds_serial [OF that] tx_Add_serial [OF Some] s(6) assms(6) by simp
    show ?thesis using Some run(1) [where rest = "[soa2]"] run(2) s assms(5) axfr_soa_last [OF assms(1) l]
      by (cases "tx_Adds G R Z rs g1") (auto simp: sm_Run_def)
  qed (use run(2) s in \<open>simp add: sm_Run_def\<close>)
qed

lemma axfr_attempt:
  assumes "fsm_laws Ev" "wrapper_soa R latest soa" "wrapper_soa R latest soa2" "\<forall>r\<in>set rs. rr_Type r \<noteq> RR_SOA" "rs \<noteq> []" "dz_lock dz = Free"
  shows "xfr_attempt Ev G R Z AXFR cur latest (soa # rs) dz = xfr_attempt Ev G R Z AXFR cur latest (soa # rs @ [soa2]) dz"
    and "xfr_attempt Ev G R Z AXFR cur latest (soa # rs) dz =
      (case tx_Adds G R Z (soa # rs) (newFSMGenerator cur latest (dz_heap dz, mz_clone Z (dz_zone dz))) of
         None \<Rightarrow> ZPanic (dz\<lparr>dz_lock := Taken\<rparr>)
       | Some g \<Rightarrow> ZDone (fst (Commit Z (snd (xg_tx g)) (dz\<lparr>dz_lock := Taken, dz_heap := fst (xg_tx g)\<rparr>))) False)"
proof -
  let ?g = "newFSMGenerator cur latest (dz_heap dz, mz_clone Z (dz_zone dz))"
  have g: "xg_latestSerial ?g = latest" by (simp add: newFSMGenerator_def)
  note run = axfr_Run [OF assms(1-5) g, of G Z]
  show "xfr_attempt Ev G R Z AXFR cur latest (soa # rs) dz = xfr_attempt Ev G R Z AXFR cur latest (soa # rs @ [soa2]) dz"
    by (cases "tx_Adds G R Z (soa # rs) ?g") (simp_all add: xfr_attempt_def Begin_cases assms(6) run)
  show "xfr_attempt Ev G R Z AXFR cur latest (soa # rs) dz = (case tx_Adds G R Z (soa # rs) ?g of
         None \<Rightarrow> ZPanic (dz\<lparr>dz_lock := Taken\<rparr>)
       | Some g \<Rightarrow> ZDone (fst (Commit Z (snd (xg_tx g)) (dz\<lparr>dz_lock := Taken, dz_heap := fst (xg_tx g)\<rparr>))) False)"
    by (cases "tx_Adds G R Z (soa # rs) ?g") (simp_all add: xfr_attempt_def Begin_cases assms(6) run)
qed

text \<open>
  C38. A transfer that is cut off is taken for a complete one: if a full transfer succeeds, then every
  beginning of it with the first SOA and a record succeeds too, with the result of a complete transfer of
  these records, since nobody looks whether the machine has come to its end.
\<close>

theorem cut_off_transfer_taken:
  assumes "fsm_laws Ev" "wrapper_soa R latest soa" "wrapper_soa R latest soa2" "\<forall>r\<in>set rs. rr_Type r \<noteq> RR_SOA" "dz_lock dz = Free"
    and "xfr_attempt Ev G R Z AXFR cur latest (soa # rs @ [soa2]) dz = ZDone dz1 False" "1 \<le> k" "k \<le> length rs"
  shows "\<exists>dz2. xfr_attempt Ev G R Z AXFR cur latest (soa # take k rs) dz = ZDone dz2 False \<and>
    xfr_attempt Ev G R Z AXFR cur latest (soa # take k rs @ [soa2]) dz = ZDone dz2 False"
proof -
  have rs: "rs \<noteq> []" "take k rs \<noteq> []" "\<forall>r\<in>set (take k rs). rr_Type r \<noteq> RR_SOA" using assms(4,7,8) by (auto dest: in_set_takeD)
  let ?g = "newFSMGenerator cur latest (dz_heap dz, mz_clone Z (dz_zone dz))"
  have "tx_Adds G R Z (soa # rs) ?g \<noteq> None"
    using axfr_attempt [OF assms(1-4) rs(1) assms(5), of G Z cur] assms(6) by (auto split: option.splits)
  moreover have "tx_Adds G R Z (soa # rs) ?g = Option.bind (tx_Adds G R Z (soa # take k rs) ?g) (tx_Adds G R Z (drop k rs))"
    using tx_Adds_append [of G R Z "soa # take k rs" "drop k rs" ?g] by simp
  ultimately obtain g where "tx_Adds G R Z (soa # take k rs) ?g = Some g"
    by (cases "tx_Adds G R Z (soa # take k rs) ?g") (simp_all del: tx_Adds.simps)
  then show ?thesis unfolding axfr_attempt(1) [OF assms(1-3) rs(3,2) assms(5), symmetric] axfr_attempt(2) [OF assms(1-3) rs(3,2) assms(5)]
    by (simp del: tx_Adds.simps)
qed

section \<open>Deleting by a transfer\<close>

lemma ixfr_events:
  assumes "fsm_laws Ev"
  shows "ixfr_Event Ev G R Z ''get_wrapper_soa'' (ArgSerial n) (''init'', g) = Some ((''start'', g\<lparr>xg_latestSerial := n\<rparr>), FsmOk)"
    and "ixfr_Event Ev G R Z ''get_mid_soa'' (ArgSerial (xg_currentSerial g)) (''start'', g) = Some ((''delete_section'', g), FsmOk)"
    and "ixfr_Event Ev G R Z ''get_none_soa'' (ArgRRset r) (''delete_section'', g) =
      map_option (\<lambda>g'. ((''delete_section'', g'), FsmNoTransition)) (tx_DeleteRRset G Z r g)"
    and "tx_IncreaseSerialNumber Z g = Some g' \<Longrightarrow> n = xg_currentSerial g + 1 \<Longrightarrow>
      ixfr_Event Ev G R Z ''get_mid_soa'' (ArgSerial n) (''delete_section'', g) =
        Some ((''add_section'', g'\<lparr>xg_currentSerial := xg_currentSerial g + 1\<rparr>), FsmOk)"
    and "n = xg_latestSerial g \<Longrightarrow> ixfr_Event Ev G R Z ''get_wrapper_soa'' (ArgSerial n) (''add_section'', g) = Some ((''done'', g), FsmOk)"
proof -
  let ?cb = "\<lparr>cb_before = ixfr_before Z, cb_after = ixfr_after G R Z\<rparr>"
  note move = fsm_lawsD(4) [OF assms, where tab = ixfr_table and cb = ?cb]
  note defs = ixfr_Event_def fsm_target_def ixfr_table_def ixfr_before_def ixfr_after_def
  show "ixfr_Event Ev G R Z ''get_wrapper_soa'' (ArgSerial n) (''init'', g) = Some ((''start'', g\<lparr>xg_latestSerial := n\<rparr>), FsmOk)"
    unfolding ixfr_Event_def by (subst move [of _ _ "''start''" _ _ "g\<lparr>xg_latestSerial := n\<rparr>"]) (simp_all add: defs)
  show "ixfr_Event Ev G R Z ''get_mid_soa'' (ArgSerial (xg_currentSerial g)) (''start'', g) = Some ((''delete_section'', g), FsmOk)"
    unfolding ixfr_Event_def by (subst move [of _ _ "''delete_section''" _ _ g]) (simp_all add: defs)
  show "ixfr_Event Ev G R Z ''get_none_soa'' (ArgRRset r) (''delete_section'', g) =
      map_option (\<lambda>g'. ((''delete_section'', g'), FsmNoTransition)) (tx_DeleteRRset G Z r g)"
    unfolding ixfr_Event_def by (subst move [of _ _ "''delete_section''" _ _ g]) (simp_all add: defs)
  show "tx_IncreaseSerialNumber Z g = Some g' \<Longrightarrow> n = xg_currentSerial g + 1 \<Longrightarrow>
      ixfr_Event Ev G R Z ''get_mid_soa'' (ArgSerial n) (''delete_section'', g) =
        Some ((''add_section'', g'\<lparr>xg_currentSerial := xg_currentSerial g + 1\<rparr>), FsmOk)"
    unfolding ixfr_Event_def by (subst move [of _ _ "''add_section''" _ _ "g'\<lparr>xg_currentSerial := xg_currentSerial g + 1\<rparr>"]) (simp_all add: defs)
  show "n = xg_latestSerial g \<Longrightarrow> ixfr_Event Ev G R Z ''get_wrapper_soa'' (ArgSerial n) (''add_section'', g) = Some ((''done'', g), FsmOk)"
    unfolding ixfr_Event_def by (subst move [of _ _ "''done''" _ _ g]) (simp_all add: defs)
qed

definition single_soa :: "u32 \<Rightarrow> 'n RRset \<Rightarrow> bool" where
  "single_soa serial r \<longleftrightarrow> rr_Type r = RR_SOA \<and> (\<exists>m x. rr_Rdatas r = [RdSOA m serial x])"

text \<open>An incremental transfer with one deletion.\<close>

lemma ixfr_delete_Run:
  assumes "fsm_laws Ev" "rrset_laws R" "single_soa (cur + 1) s1" "single_soa cur s0" "single_soa (cur + 1) s2" "single_soa (cur + 1) s3" "rr_Type r \<noteq> RR_SOA"
    and "tx_DeleteRRset G Z r (newFSMGenerator cur (cur + 1) tx) = Some g1" "tx_IncreaseSerialNumber Z g1 = Some g2"
  shows "sm_Run Ev G R Z IXFR [s1, s0, r, s2, s3] (newFSMGenerator cur (cur + 1) tx) = Some ((''done'', g2\<lparr>xg_currentSerial := cur + 1\<rparr>), None)"
proof -
  let ?g = "newFSMGenerator cur (cur + 1) tx"
  have g: "?g\<lparr>xg_latestSerial := cur + 1\<rparr> = ?g" "xg_currentSerial ?g = cur" by (simp_all add: newFSMGenerator_def)
  have g1: "xg_currentSerial g1 = cur" "xg_latestSerial g1 = cur + 1"
    using assms(8) by (auto simp: tx_DeleteRRset_def newFSMGenerator_def)
  have g2: "xg_latestSerial g2 = cur + 1" using assms(9) g1(2) by (auto simp: tx_IncreaseSerialNumber_def)
  have n: "f_RRset_RRCount R x = length (rr_Rdatas x)" for x using assms(2) by (simp add: rrset_laws_def)
  note ev = ixfr_events [OF assms(1), where G = G and R = R and Z = Z]
  show ?thesis using assms(3-7) ev(1) [where n = "cur + 1" and g = ?g] ev(2) [where g = ?g] ev(3) [where r = r and g = ?g]
      ev(4) [OF assms(9), where n = "cur + 1"] ev(5) [where n = "cur + 1" and g = "g2\<lparr>xg_currentSerial := cur + 1\<rparr>"]
    by (auto simp: sm_Run_def single_soa_def g g1 g2 n assms(8) Let_def)
qed

text \<open>The object that a zone has for a name and a type. Data are data of a node.\<close>

definition zone_entry :: "('z, 'n) zone_nodes \<Rightarrow> ('z, 'n) MemoryZone \<Rightarrow> 'n \<Rightarrow> u16 \<Rightarrow> nat option" where
  "zone_entry Z z n t = Option.bind (zt_Data Z (mz_domains z) n) (\<lambda>d. map_of d t)"

definition data_on_nodes :: "('z, 'n) zone_nodes \<Rightarrow> bool" where
  "data_on_nodes Z \<longleftrightarrow> (\<forall>t n. zt_Data Z t n \<noteq> None \<longrightarrow> zt_Exact Z t n)"

lemma validate_entry: "mz_validate Z z = None \<longleftrightarrow> zone_entry Z z (mz_origin z) RR_SOA \<noteq> None \<and> zone_entry Z z (mz_origin z) RR_NS \<noteq> None"
  by (auto simp: mz_validate_def zone_entry_def origin_data_def split: option.splits)

lemma entry_clone: "zone_tree_laws G Z \<Longrightarrow> zone_entry Z (mz_clone Z z) n t = zone_entry Z z n t"
  by (simp add: zone_entry_def clone_data)

lemma entry_Equals: "zone_tree_laws G Z \<Longrightarrow> Name_Equals G m n \<Longrightarrow> zone_entry Z z m t = zone_entry Z z n t"
  using zone_treeD(2) [of G Z m n] by (simp add: zone_entry_def)

text \<open>Taking a type from a node, which goes when it was the last one, changes nothing else.\<close>

lemma put_node_delete_entry:
  assumes laws: "zone_tree_laws G Z" "data_on_nodes Z" and d: "zt_Data Z (mz_domains z) n = Some d"
  shows "zone_entry Z (put_node G Z n (AList.delete t d) z) m u = (if Name_Equals G m n \<and> u = t then None else zone_entry Z z m u)"
proof -
  have e: "zt_Exact Z (mz_domains z) n" using laws(2) d unfolding data_on_nodes_def by blast
  have D: "zt_Data Z (mz_domains (put_node G Z n (AList.delete t d) z)) m =
      (if Name_Equals G m n then (if AList.delete t d = [] then None else Some (AList.delete t d)) else zt_Data Z (mz_domains z) m)"
    by (simp add: put_node_def deleteNode_data [OF laws(1)] zone_treeD(6) [OF laws(1) e])
  have "map_of d u = None" if "AList.delete t d = []" "u \<noteq> t" using node_ok_map_of_delete [of t d u] that by simp
  then show ?thesis using d zone_treeD(2) [OF laws(1), of m n "mz_domains z"] by (auto simp: zone_entry_def D node_ok_map_of_delete)
qed

text \<open>The transfer with one deletion: it is taken for a success also when the commit refuses the zone.\<close>

lemma ixfr_delete_outcome:
  assumes laws: "fsm_laws Ev" "rrset_laws R"
    and ans: "single_soa (cur + 1) s1" "single_soa cur s0" "single_soa (cur + 1) s2" "single_soa (cur + 1) s3" "rr_Type r \<noteq> RR_SOA"
    and dz: "dz_lock dz = Free" "hp_at (dz_heap dz) a = Some soa" "next_serial (rr_Rdatas soa) = Some ds"
    and del: "mz_deleteRRset G Z r (dz_heap dz, mz_clone Z (dz_zone dz)) = Some ((dz_heap dz, z), err)" "zone_entry Z z (mz_origin z) RR_SOA = Some a"
  shows "xfr_attempt Ev G R Z IXFR cur (cur + 1) [s1, s0, r, s2, s3] dz =
    ZDone (dz\<lparr>dz_heap := bumped a soa ds (dz_heap dz), dz_zone := (if mz_validate Z z = None then z else dz_zone dz)\<rparr>) False"
proof -
  let ?g = "newFSMGenerator cur (cur + 1) (dz_heap dz, mz_clone Z (dz_zone dz))"
  let ?g1 = "?g\<lparr>xg_tx := (dz_heap dz, z)\<rparr>" and ?g2 = "?g\<lparr>xg_tx := (bumped a soa ds (dz_heap dz), z)\<rparr>"
  have 1: "tx_DeleteRRset G Z r ?g = Some ?g1" using del(1) by (simp add: tx_DeleteRRset_def newFSMGenerator_def)
  have 2: "tx_IncreaseSerialNumber Z ?g1 = Some ?g2"
    using del(2) dz(2,3) by (auto simp: tx_IncreaseSerialNumber_def mz_increaseSerialNumber_def bumped_def zone_entry_def origin_data_def option_bind_Some_iff)
  show ?thesis using ixfr_delete_Run [OF laws ans 1 2] dz(1)
    by (auto simp: xfr_attempt_def Begin_cases Commit_def Unlock_def split: option.split)
qed

text \<open>
  C40. An incremental transfer that deletes a record deletes all records of the type at the name,
  whatever data are listed, and nothing else: the transfer succeeds and the serial number is the new
  one. Only the name servers of the zone itself stay, all of them, also when one of several is to go; the
  transfer is taken for a success then as well, with the new serial number.
\<close>

theorem incremental_delete_removes_set:
  assumes laws: "fsm_laws Ev" "zone_tree_laws G Z" "rrset_laws R" "name_laws G" "data_on_nodes Z"
    and ans: "single_soa (cur + 1) s1" "single_soa cur s0" "single_soa (cur + 1) s2" "single_soa (cur + 1) s3" "rr_Type r \<noteq> RR_SOA"
    and dz: "updatable Z dz a soa ds"
    and r: "Name_IsSubDomain G (rr_Name r) (mz_origin (dz_zone dz))" "zone_entry Z (dz_zone dz) (rr_Name r) (rr_Type r) = Some p" "hp_at (dz_heap dz) p \<noteq> None"
  shows "\<exists>dz'. xfr_attempt Ev G R Z IXFR cur (cur + 1) [s1, s0, r, s2, s3] dz = ZDone dz' False \<and>
    hp_at (dz_heap dz') a = Some (soa\<lparr>rr_Rdatas := ds\<rparr>) \<and>
    (\<forall>n t. zone_entry Z (dz_zone dz') n t =
       (if Name_Equals G n (rr_Name r) \<and> t = rr_Type r \<and> \<not> (t = RR_NS \<and> Name_Equals G (rr_Name r) (mz_origin (dz_zone dz)))
        then None else zone_entry Z (dz_zone dz) n t))"
proof -
  let ?c = "mz_clone Z (dz_zone dz)" and ?o = "mz_origin (dz_zone dz)"
  obtain d where d: "zt_Data Z (mz_domains ?c) (rr_Name r) = Some d" "map_of d (rr_Type r) = Some p"
    using r(2) by (auto simp: zone_entry_def clone_data [OF laws(2)] option_bind_Some_iff)
  let ?z = "put_node G Z (rr_Name r) (AList.delete (rr_Type r) d) ?c"
  note E = put_node_delete_entry [OF laws(2,5) d(1), of "rr_Type r"]
  have apex: "zone_entry Z (dz_zone dz) ?o RR_SOA = Some a" "zone_entry Z (dz_zone dz) ?o RR_NS \<noteq> None"
    and soa: "dz_lock dz = Free" "hp_at (dz_heap dz) a = Some soa" "next_serial (rr_Rdatas soa) = Some ds"
    using dz by (auto simp: updatable_def zone_entry_def origin_data_def)
  note run = ixfr_delete_outcome [OF laws(1,3) ans soa]
  have "zt_Exact Z (mz_domains ?c) (rr_Name r)" using laws(5) d(1) unfolding data_on_nodes_def by blast
  then have get: "getNode Z ?c (rr_Name r) = Inr d" using d(1) by (simp add: getNode_def)
  have soa_z: "zone_entry Z ?z (mz_origin ?z) RR_SOA = Some a" using E [of ?o RR_SOA] ans(5) apex(1) by (simp add: entry_clone [OF laws(2)])
  have heap: "hp_at (bumped a soa ds (dz_heap dz)) a = Some (soa\<lparr>rr_Rdatas := ds\<rparr>)" by (simp add: bumped_def)
  show ?thesis
  proof (cases "rr_Type r = RR_NS \<and> Name_Equals G (rr_Name r) ?o")
    case False
    then have "checkRRsetCouldBeDeleted G Z (dz_heap dz) ?c r = Some None" using r(1) ans(5) by (auto simp: checkRRsetCouldBeDeleted_def)
    then have del: "mz_deleteRRset G Z r (dz_heap dz, ?c) = Some ((dz_heap dz, ?z), None)" using get d(2) by (simp add: mz_deleteRRset_def)
    have "\<not> (Name_Equals G ?o (rr_Name r) \<and> RR_NS = rr_Type r)" using False Name_Equals_sym [OF laws(4), of ?o "rr_Name r"] by auto
    then have "mz_validate Z ?z = None"
      using apex soa_z E [of ?o RR_NS] unfolding validate_entry by (simp add: entry_clone [OF laws(2)])
    then have "xfr_attempt Ev G R Z IXFR cur (cur + 1) [s1, s0, r, s2, s3] dz = ZDone (dz\<lparr>dz_heap := bumped a soa ds (dz_heap dz), dz_zone := ?z\<rparr>) False"
      using run [OF del soa_z] by simp
    moreover have "zone_entry Z ?z n t = (if Name_Equals G n (rr_Name r) \<and> t = rr_Type r \<and> \<not> (t = RR_NS \<and> Name_Equals G (rr_Name r) ?o)
        then None else zone_entry Z (dz_zone dz) n t)" for n t
      using False E [of n t] by (auto simp: entry_clone [OF laws(2)])
    ultimately show ?thesis using heap by simp
  next
    case True
    obtain x where x: "hp_at (dz_heap dz) p = Some x" using r(3) by blast
    have "zt_Data Z (mz_domains ?c) (rr_Name r) = zt_Data Z (mz_domains ?c) ?o" using True by (intro zone_treeD(2) [OF laws(2)]) simp
    then have o: "origin_data Z ?c = Some d" using d(1) by (simp add: origin_data_def)
    have chk: "checkRRsetCouldBeDeleted G Z (dz_heap dz) ?c r =
        Some (if rdatasDiff G (rr_Rdatas x) (rr_Rdatas r) = [] then Some ErrShortOfNS else None)"
      using True r(1) ans(5) d(2) x o by (simp add: checkRRsetCouldBeDeleted_def)
    show ?thesis
    proof (cases "rdatasDiff G (rr_Rdatas x) (rr_Rdatas r) = []")
      case refused: True
      then have del: "mz_deleteRRset G Z r (dz_heap dz, ?c) = Some ((dz_heap dz, ?c), Some ErrShortOfNS)" using chk by (simp add: mz_deleteRRset_def)
      have "zone_entry Z ?c (mz_origin ?c) RR_SOA = Some a" using apex(1) by (simp add: entry_clone [OF laws(2)])
      note out = run [OF del this]
      have "\<exists>z'. xfr_attempt Ev G R Z IXFR cur (cur + 1) [s1, s0, r, s2, s3] dz = ZDone (dz\<lparr>dz_heap := bumped a soa ds (dz_heap dz), dz_zone := z'\<rparr>) False \<and>
          (\<forall>n t. zone_entry Z z' n t = zone_entry Z (dz_zone dz) n t)"
        using out entry_clone [OF laws(2)] by (intro exI [of _ "if mz_validate Z ?c = None then ?c else dz_zone dz"]) simp
      then show ?thesis using True heap by force
    next
      case gone: False
      then have del: "mz_deleteRRset G Z r (dz_heap dz, ?c) = Some ((dz_heap dz, ?z), None)" using chk get d(2) by (simp add: mz_deleteRRset_def)
      have "Name_Equals G ?o (rr_Name r)" using True Name_Equals_sym [OF laws(4), of "rr_Name r" ?o] by simp
      then have "mz_validate Z ?z \<noteq> None" using E [of ?o RR_NS] True unfolding validate_entry by simp
      then have "xfr_attempt Ev G R Z IXFR cur (cur + 1) [s1, s0, r, s2, s3] dz = ZDone (dz\<lparr>dz_heap := bumped a soa ds (dz_heap dz)\<rparr>) False"
        using run [OF del soa_z] by (auto split: if_splits)
      then show ?thesis using True heap by simp
    qed
  qed
qed

section \<open>Examples\<close>

definition demo_env :: "string list auth_env" where
  "demo_env = \<lparr>ae_RRsetFromString = (\<lambda>t. if t = ''soa'' then Inr (demo_soa 7) else if t = ''ns'' then Inr (demo_set [''a'', ''com''] RR_NS (RdNS [''ns''])) else Inl ''bad record''),
     ae_TTLFromString = (\<lambda>t. if t = ''60'' then Inr 60 else Inl ''bad ttl''),
     ae_dial = (\<lambda>a. Inl ''refused''), ae_ReadFile = (\<lambda>f. Inl ''no such file''), ae_find_acl = (\<lambda>n a. False), ae_ErrDuplicateRdata = ''duplicate rdata''\<rparr>"

definition demo_libs :: "((string list \<times> nat) list, ref_tree, string list) auth_libs" where
  "demo_libs = \<lparr>al_g53 = ref_g53, al_rrset = ref_rrset, al_zones = list_domaintree, al_nodes = ref_nodes, al_search = ref_search, al_env = demo_env\<rparr>"

definition demo_slave :: "(ref_tree, string list) DynamicZone" where
  "demo_slave = demo_dz\<lparr>dz_masters := [''192.0.2.1:53'']\<rparr>"

definition demo_auth :: "((string list \<times> nat) list, ref_tree, string list) AuthDataSource" where
  "demo_auth = \<lparr>ad_viewZones = [''default'' \<mapsto> [([''a'', ''com''], 0)], ''lan'' \<mapsto> [([''a'', ''com''], 1)]],
     ad_zones = [0 \<mapsto> demo_slave, 1 \<mapsto> demo_slave], ad_next = 2\<rparr>"

definition demo_notify :: "view \<Rightarrow> ip \<Rightarrow> string list Client" where
  "demo_notify v addr = (client_reset 0 (UDPAddr addr 53) (UDPAddr [192, 0, 2, 7] 53) False
     ((MakeQuery ref_g53 [''a'', ''com''] RR_SOA)\<lparr>m_Answer := [demo_soa 9]\<rparr>))\<lparr>c_View := v\<rparr>"

definition demo_transfer :: "view \<Rightarrow> nat \<Rightarrow> string list transfer" where
  "demo_transfer v a = \<lparr>tr_view = v, tr_zone = a, tr_name = [''a'', ''com''], tr_latestSerial = 9, tr_master = ''192.0.2.1:53''\<rparr>"

lemma demo_libs_simps: "al_g53 demo_libs = ref_g53" "al_zones demo_libs = list_domaintree" "al_nodes demo_libs = ref_nodes"
  by (simp_all add: demo_libs_def)

lemma demo_GetZone:
  "auth_GetZone list_domaintree ''default'' [''a'', ''com''] demo_auth = Some (Some (0, ExactMatch))"
  "auth_GetZone list_domaintree ''lan'' [''a'', ''com''] demo_auth = Some (Some (1, ExactMatch))"
  by (simp_all add: auth_GetZone_def demo_auth_def list_domaintree_def same_name_def)

lemma demo_named: "exact_named demo_libs demo_auth"
proof -
  have "mz_origin (dz_zone demo_slave) = [''a'', ''com'']" by (simp add: demo_slave_def demo_dz_def)
  then show ?thesis
    by (auto simp: exact_named_def demo_libs_simps auth_GetZone_def demo_auth_def list_domaintree_def same_name_def ref_Equals
        split: if_splits option.splits list.splits)
qed

lemma demo_notify_simps:
  "m_Answer (c_Request (demo_notify v addr)) = [demo_soa 9]" "rr_Type (demo_soa n) = RR_SOA" "soa_serial (demo_soa n) = Some n"
  "client_IP (demo_notify v addr) = Some addr" "c_View (demo_notify v addr) = v" "rr_Name (demo_soa n) = [''a'', ''com'']"
  "ip_String [192, 0, 2, 1] = ''192.0.2.1''" "ip_String [198, 51, 100, 9] = ''198.51.100.9''"
  by (simp_all add: demo_notify_def client_reset_def demo_soa_def demo_set_def soa_serial_def client_IP_def) code_simp+

lemma demo_start:
  assumes "ad_zones demo_auth a = Some demo_slave"
  shows "\<exists>c. start_transfer demo_libs demo_auth (demo_notify v [192, 0, 2, 1]) (demo_soa 9) a xr = ZDone xr (c, Some (demo_transfer v a))"
  using assms by (simp add: start_transfer_def demo_notify_simps demo_slave_def demo_dz_def IsMaster_def Masters_def demo_transfer_def Let_def)

theorem one_transfer_per_zone_witness:
  "\<exists>s. xfr_steps demo_libs \<lparr>xs_runner = newXFRRunner, xs_running = [], xs_auth = demo_auth\<rparr> s \<and> length (xs_running s) = 2 \<and>
     \<not> (tr_view (xs_running s ! 0) = tr_view (xs_running s ! 1) \<and> Name_Equals ref_g53 (tr_name (xs_running s ! 0)) (tr_name (xs_running s ! 1)))"
proof -
  let ?xr1 = "put_under ''default'' [''a'', ''com''] newXFRRunner" let ?xr2 = "put_under ''lan'' [''a'', ''com''] ?xr1"
  let ?s0 = "\<lparr>xs_runner = newXFRRunner, xs_running = [], xs_auth = demo_auth\<rparr>"
  let ?s1 = "\<lparr>xs_runner = ?xr1, xs_running = [demo_transfer ''default'' 0], xs_auth = demo_auth\<rparr>"
  let ?s2 = "\<lparr>xs_runner = ?xr2, xs_running = [demo_transfer ''default'' 0, demo_transfer ''lan'' 1], xs_auth = demo_auth\<rparr>"
  have z: "ad_zones demo_auth 0 = Some demo_slave" "ad_zones demo_auth 1 = Some demo_slave" by (simp_all add: demo_auth_def)
  obtain c1 c2 where n: "HandleNotify demo_libs demo_auth (demo_notify ''default'' [192, 0, 2, 1]) newXFRRunner = ZDone ?xr1 (c1, Some (demo_transfer ''default'' 0))"
    "HandleNotify demo_libs demo_auth (demo_notify ''lan'' [192, 0, 2, 1]) ?xr1 = ZDone ?xr2 (c2, Some (demo_transfer ''lan'' 1))"
    using demo_start [OF z(1), of "''default''" ?xr1] demo_start [OF z(2), of "''lan''" ?xr2]
    by (auto simp: HandleNotify_def demo_notify_simps demo_libs_simps demo_GetZone addZoneToTransfer_def put_under_def newXFRRunner_def)
  have "xfr_step demo_libs ?s0 ?s1" "xfr_step demo_libs ?s1 ?s2"
    using xfr_step.notify [of demo_libs ?s0] xfr_step.notify [of demo_libs ?s1] n by fastforce+
  then have run: "xfr_steps demo_libs ?s0 ?s2" by (meson xfr_steps.intros)
  have "name_laws (al_g53 demo_libs)" by (simp add: demo_libs_simps ref_name_laws)
  from one_transfer_per_zone [OF this demo_named run, of 0 1] show ?thesis
    by (intro exI [of _ ?s2] conjI run) (simp_all add: demo_libs_simps)
qed

theorem stranger_stops_transfers_witness:
  "\<exists>xr. HandleNotify demo_libs demo_auth (demo_notify ''default'' [198, 51, 100, 9]) newXFRRunner = ZDone xr (demo_notify ''default'' [198, 51, 100, 9], None) \<and>
     \<not> (\<exists>xr' c t. HandleNotify demo_libs demo_auth (demo_notify ''default'' [192, 0, 2, 1]) xr = ZDone xr' (c, Some t))"
proof -
  let ?s = "\<lparr>xs_runner = newXFRRunner, xs_running = [], xs_auth = demo_auth\<rparr>"
  let ?b = "demo_notify ''default'' [198, 51, 100, 9]" and ?c = "demo_notify ''default'' [192, 0, 2, 1]"
  have s: "xfr_inv demo_libs ?s" by (simp add: xfr_inv_def demo_named)
  have u: "\<not> under_transfer ref_g53 v z newXFRRunner" for v z by (simp add: under_transfer_def newXFRRunner_def)
  have z: "ad_zones demo_auth 0 = Some demo_slave" "dz_lock demo_slave = Free" "Masters demo_slave = [''192.0.2.1:53'']"
    by (simp_all add: demo_auth_def demo_slave_def demo_dz_def Masters_def IsMaster_def)
  have "\<exists>xr. HandleNotify demo_libs (xs_auth ?s) ?b (xs_runner ?s) = ZDone xr (?b, None) \<and>
    (\<forall>s2 c soa'. xfr_steps demo_libs (?s\<lparr>xs_runner := xr\<rparr>) s2 \<longrightarrow> c_View c = c_View ?b \<longrightarrow> m_Answer (c_Request c) = [soa'] \<longrightarrow>
       Name_Equals (al_g53 demo_libs) (rr_Name (demo_soa 9)) (rr_Name soa') \<longrightarrow>
       (\<forall>xr' c' t. HandleNotify demo_libs (xs_auth s2) c (xs_runner s2) = ZDone xr' (c', t) \<longrightarrow> t = None \<and> c' = c))"
    by (rule stranger_stops_transfers [OF _ s, where addr = "[198, 51, 100, 9]" and serial = 9 and dz = demo_slave and a = 0])
      (simp_all add: demo_libs_simps ref_name_laws demo_notify_simps demo_GetZone z u)
  moreover have "m_Answer (c_Request ?c) = [demo_soa 9]" "c_View ?c = c_View ?b" "Name_Equals (al_g53 demo_libs) (rr_Name (demo_soa 9)) (rr_Name (demo_soa 9))"
    by (simp_all add: demo_notify_simps demo_libs_simps Name_Equals_refl [OF ref_name_laws])
  ultimately show ?thesis
  proof (elim exE conjE, goal_cases)
    case (1 xr)
    have "t = None" if "HandleNotify demo_libs demo_auth ?c xr = ZDone xr' (c', t)" for xr' c' t
      using 1(5) [rule_format, OF xfr_steps.none 1(2,1,3)] that by simp
    then show ?case using 1(4) by (intro exI [of _ xr]) fastforce
  qed
qed

lemma demo_single: "single_soa n (demo_soa n)" "wrapper_soa ref_rrset n (demo_soa n)"
  by (simp_all add: single_soa_def wrapper_soa_def demo_soa_def demo_set_def ref_rrset_def soa_serial_def)

definition demo_rs :: "string list RRset list" where
  "demo_rs = [demo_set [''a'', ''com''] RR_NS (RdNS [''ns'']), demo_set [''w'', ''a'', ''com''] RR_A (RdA [192, 0, 2, 9])]"

lemma demo_axfr: "case xfr_attempt ref_engine ref_g53 ref_rrset ref_nodes AXFR 7 9 (demo_soa 9 # demo_rs @ [demo_soa 9]) demo_dz of ZDone dz' f \<Rightarrow> \<not> f | _ \<Rightarrow> False"
  by code_simp

theorem full_transfer_keeps_old_names_witness:
  "\<exists>dz'. xfr_attempt ref_engine ref_g53 ref_rrset ref_nodes AXFR 7 9 (demo_soa 9 # demo_rs @ [demo_soa 9]) demo_dz = ZDone dz' False \<and>
    zt_Data ref_nodes (mz_domains (dz_zone dz')) [''c'', ''a'', ''com''] = Some [(RR_NS, 3), (RR_A, 4)]"
proof -
  obtain dz' where r: "xfr_attempt ref_engine ref_g53 ref_rrset ref_nodes AXFR 7 9 (demo_soa 9 # demo_rs @ [demo_soa 9]) demo_dz = ZDone dz' False"
    using demo_axfr by (simp split: zres.splits)
  have "\<forall>r\<in>set (demo_soa 9 # demo_rs @ [demo_soa 9]). \<not> Name_Equals ref_g53 [''c'', ''a'', ''com''] (rr_Name r)" by code_simp
  from full_transfer_keeps_old_names [OF ref_engine_laws ref_tree_laws r this] r show ?thesis
    by (simp add: demo_dz_def demo_tree_def ref_nodes_simps ref_data_def demo_keys)
qed

theorem cut_off_transfer_taken_witness:
  "\<exists>dz2. xfr_attempt ref_engine ref_g53 ref_rrset ref_nodes AXFR 7 9 [demo_soa 9, hd demo_rs] demo_dz = ZDone dz2 False"
proof -
  obtain dz' where r: "xfr_attempt ref_engine ref_g53 ref_rrset ref_nodes AXFR 7 9 (demo_soa 9 # demo_rs @ [demo_soa 9]) demo_dz = ZDone dz' False"
    using demo_axfr by (simp split: zres.splits)
  have "\<forall>r\<in>set demo_rs. rr_Type r \<noteq> RR_SOA" "dz_lock demo_dz = Free" by (simp_all add: demo_rs_def demo_set_def rr_types demo_dz_def)
  from cut_off_transfer_taken [OF ref_engine_laws demo_single(2) demo_single(2) this r, of 1] show ?thesis by (auto simp: demo_rs_def)
qed

lemma ref_data_on_nodes: "data_on_nodes ref_nodes"
  by (auto simp: data_on_nodes_def ref_nodes_def option_bind_Some_iff)

text \<open>The deletion of an address that is not there takes the one that is; the name servers at the name stay.\<close>

theorem incremental_delete_removes_set_witness:
  "\<exists>dz'. xfr_attempt ref_engine ref_g53 ref_rrset ref_nodes IXFR 7 8
      [demo_soa 8, demo_soa 7, demo_set [''c'', ''a'', ''com''] RR_A (RdA [203, 0, 113, 9]), demo_soa 8, demo_soa 8] demo_dz = ZDone dz' False \<and>
    zone_entry ref_nodes (dz_zone demo_dz) [''c'', ''a'', ''com''] RR_A = Some 4 \<and>
    zone_entry ref_nodes (dz_zone dz') [''c'', ''a'', ''com''] RR_A = None \<and> zone_entry ref_nodes (dz_zone dz') [''c'', ''a'', ''com''] RR_NS = Some 3"
proof -
  let ?r = "demo_set [''c'', ''a'', ''com''] RR_A (RdA [203, 0, 113, 9])"
  have o: "mz_origin (dz_zone demo_dz) = [''a'', ''com'']" "mz_domains (dz_zone demo_dz) = demo_tree" "rr_Name ?r = [''c'', ''a'', ''com'']" "rr_Type ?r = RR_A"
    by (simp_all add: demo_dz_def demo_set_def)
  have e: "zone_entry ref_nodes (dz_zone demo_dz) [''c'', ''a'', ''com''] RR_A = Some 4" "zone_entry ref_nodes (dz_zone demo_dz) [''c'', ''a'', ''com''] RR_NS = Some 3"
    unfolding zone_entry_def o by (simp_all add: ref_nodes_simps ref_data_def demo_keys demo_tree_def rr_types)
  have h: "hp_at (dz_heap demo_dz) 4 \<noteq> None" by (simp add: demo_dz_def)
  have s: "single_soa (7 + 1) (demo_soa 8)" using demo_single(1) [of 8] by simp
  have t: "rr_Type ?r \<noteq> RR_SOA" unfolding o(4) by (simp add: rr_types)
  have n: "Name_IsSubDomain ref_g53 (rr_Name ?r) (mz_origin (dz_zone demo_dz))" unfolding o by (rule demo_names(2))
  note I = incremental_delete_removes_set [OF ref_engine_laws ref_tree_laws ref_rrset_laws ref_name_laws ref_data_on_nodes s demo_single(1) s s t demo_updatable n,
      unfolded o(3,4), OF e(1) h]
  have "(RR_NS :: u16) \<noteq> RR_A" "Name_Equals ref_g53 [''c'', ''a'', ''com''] [''c'', ''a'', ''com'']" "(7 :: u32) + 1 = 8"
    by (simp_all add: rr_types Name_Equals_refl [OF ref_name_laws])
  then show ?thesis using I
  proof (elim exE conjE, goal_cases)
    case (1 dz')
    note E = 1(6) [rule_format]
    have "zone_entry ref_nodes (dz_zone dz') [''c'', ''a'', ''com''] RR_A = None" using E [of "[''c'', ''a'', ''com'']" RR_A] 1(1,2) by simp
    moreover have "zone_entry ref_nodes (dz_zone dz') [''c'', ''a'', ''com''] RR_NS = Some 3" using E [of "[''c'', ''a'', ''com'']" RR_NS] 1(1) e(2) by simp
    ultimately show ?case using 1(3,4) e(1) by (intro exI [of _ dz']) simp
  qed
qed

end
