(* ===== verification/Auth_Service.thy ===== *)
theory Auth_Service
  imports Xfr_Service
begin

text \<open>
  The authoritative service as a whole: the zones of all views through commands, queries, updates,
  transfers and reloads. The resolver is well-formed in every state that is reached, and a command
  stays within its views.
\<close>

section \<open>Operations of a zone\<close>

text \<open>Whether an operation keeps a zone consistent, however it ends.\<close>

definition zone_keeping :: "('z, 'n) zone_nodes \<Rightarrow> (('z, 'n) DynamicZone \<Rightarrow> (('z, 'n) DynamicZone, 'a) zres) \<Rightarrow> bool" where
  "zone_keeping Z f \<longleftrightarrow> (\<forall>origin dz. served Z origin dz \<longrightarrow> served Z origin (state_of (f dz)))"

lemma zone_keepingD: "zone_keeping Z f \<Longrightarrow> served Z origin dz \<Longrightarrow> served Z origin (state_of (f dz))"
  by (simp add: zone_keeping_def)

lemma state_of_bind:
  assumes "P (state_of m)" "\<And>s a. m = ZDone s a \<Longrightarrow> P s \<Longrightarrow> P (state_of (f s a))"
  shows "P (state_of (bindZ m f))"
  using assms by (cases m) auto

lemmas served_bind = state_of_bind [where P = "served Z origin" for Z origin]

lemma served_cong: "dz_zone dz' = dz_zone dz \<Longrightarrow> served Z origin dz' = served Z origin dz"
  by (simp add: served_def)

lemma zone_keeping_reader: "(\<And>dz. dz_zone (state_of (f dz)) = dz_zone dz) \<Longrightarrow> zone_keeping Z f"
  by (simp add: zone_keeping_def served_def)

lemma fill_response_zone: "dz_zone (state_of (fill_response G sections response dz)) = dz_zone dz"
  by (cases sections) (simp add: fill_response_def Let_def split: option.splits)

lemma addAuthAdditional_zone: "dz_zone (state_of (addAuthAdditional G Z S dz)) = dz_zone dz"
  by (simp add: addAuthAdditional_def state_of_bindZ Find_zone GetAdditional_zone)

lemma addSOA_zone: "dz_zone (state_of (addSOA G Z S dz)) = dz_zone dz"
  by (simp add: addSOA_def state_of_bindZ Find_zone)

lemma query_Process_zone: "dz_zone (state_of (query_Process G Z S matchType request dz)) = dz_zone dz"
proof (cases "m_Question request")
  case (Some q)
  show ?thesis unfolding query_Process_def Let_def Some option.case
    by (subst state_of_bindZ)
      (simp_all add: state_of_bindZ Find_zone GetAdditional_zone addAuthAdditional_zone addSOA_zone fill_response_zone
        split: ResultType.split prod.split)
qed (simp add: query_Process_def)

lemma update_keeping: "zone_tree_laws G Z \<Longrightarrow> zone_keeping Z (dz_update G R Z rrsets)"
  using served_step [where op = "OpUpdate rrsets"] by (fastforce simp: zone_keeping_def)

lemma Load_keeping: "zone_tree_laws G Z \<Longrightarrow> zone_keeping Z (dz_Load G R Z rrsets aborted)"
  using served_step [where op = "OpLoad rrsets aborted"] by (fastforce simp: zone_keeping_def)

lemma SetMasters_keeping: "zone_keeping Z (SetMasters masters)"
  by (rule zone_keeping_reader) (simp add: SetMasters_def Lock_def Unlock_def)

lemma attempt_keeping: "fsm_laws Ev \<Longrightarrow> zone_tree_laws G Z \<Longrightarrow> zone_keeping Z (xfr_attempt Ev G R Z kind cur latest ans)"
  by (simp add: zone_keeping_def xfr_attempt_served)

lemma updateZoneUseXFR_keeping:
  assumes "fsm_laws Ev" "zone_tree_laws G Z"
  shows "zone_keeping Z (updateZoneUseXFR Ev G R Z kind cur latest ans)"
  unfolding zone_keeping_def updateZoneUseXFR_def
  using zone_keepingD [OF attempt_keeping [OF assms]] by (intro allI impI served_bind) auto

lemma doXFR_keeping:
  assumes "fsm_laws Ev" "zone_tree_laws G Z"
  shows "zone_keeping Z (doXFR X Ev G R Z S latest master)"
proof -
  have f: "served Z origin (state_of (fetch_and_update X Ev G R Z master request kind cur latest dz))" if "served Z origin dz"
    for origin dz request kind cur
    using that zone_keepingD [OF updateZoneUseXFR_keeping [OF assms]] by (simp add: fetch_and_update_def split: sum.split option.split)
  have "served Z origin (state_of (dz_Find G Z S n t opt dz))" if "served Z origin dz" for origin dz n t opt
    using that by (subst served_cong [OF Find_zone])
  then show ?thesis unfolding zone_keeping_def doXFR_def Let_def
    by (intro allI impI served_bind) (auto simp: f split: option.split)
qed

section \<open>Well-formed resolvers\<close>

text \<open>The zone that a view has under a name.\<close>

definition zone_at :: "('t \<Rightarrow> ('n \<times> nat) set) \<Rightarrow> ('t, 'z, 'n) AuthDataSource \<Rightarrow> view \<Rightarrow> 'n \<Rightarrow> nat \<Rightarrow> bool" where
  "zone_at ct ds v n a \<longleftrightarrow> (\<exists>t. ad_viewZones ds v = Some t \<and> (n, a) \<in> ct t)"

text \<open>
  A resolver is well-formed if the trees hold zones that are there and have the name they are found
  under, no zone is in two places, and every zone is consistent.
\<close>

definition auth_wf :: "('t, 'z, 'n) auth_libs \<Rightarrow> ('t \<Rightarrow> ('n \<times> nat) set) \<Rightarrow> ('t, 'z, 'n) AuthDataSource \<Rightarrow> bool" where
  "auth_wf L ct ds \<longleftrightarrow>
     (\<forall>v n a. zone_at ct ds v n a \<longrightarrow> (\<exists>dz. ad_zones ds a = Some dz \<and> Name_Equals (al_g53 L) (mz_origin (dz_zone dz)) n)) \<and>
     (\<forall>v n w m a. zone_at ct ds v n a \<longrightarrow> zone_at ct ds w m a \<longrightarrow> v = w \<and> n = m) \<and>
     (\<forall>a dz. ad_zones ds a = Some dz \<longrightarrow> a < ad_next ds \<and> served (al_nodes L) (mz_origin (dz_zone dz)) dz)"

lemmas wf_bind = state_of_bind [where P = "auth_wf L ct" for L ct]

lemma auth_wfD:
  assumes "auth_wf L ct ds"
  shows "zone_at ct ds v n a \<Longrightarrow> \<exists>dz. ad_zones ds a = Some dz \<and> Name_Equals (al_g53 L) (mz_origin (dz_zone dz)) n"
    and "zone_at ct ds v n a \<Longrightarrow> zone_at ct ds w m a \<Longrightarrow> v = w \<and> n = m"
    and "ad_zones ds a = Some dz \<Longrightarrow> a < ad_next ds \<and> served (al_nodes L) (mz_origin (dz_zone dz)) dz"
  using assms unfolding auth_wf_def by blast+

lemma auth_wfI:
  assumes "\<And>v n a. zone_at ct ds v n a \<Longrightarrow> \<exists>dz. ad_zones ds a = Some dz \<and> Name_Equals (al_g53 L) (mz_origin (dz_zone dz)) n"
    and "\<And>v n w m a. zone_at ct ds v n a \<Longrightarrow> zone_at ct ds w m a \<Longrightarrow> v = w \<and> n = m"
    and "\<And>a dz. ad_zones ds a = Some dz \<Longrightarrow> a < ad_next ds \<and> served (al_nodes L) (mz_origin (dz_zone dz)) dz"
  shows "auth_wf L ct ds"
  using assms unfolding auth_wf_def by blast

text \<open>What the commands rely on of the trees of zones.\<close>

definition zone_trees :: "('t, 'z, 'n) auth_libs \<Rightarrow> ('t \<Rightarrow> ('n \<times> nat) set) \<Rightarrow> bool" where
  "zone_trees L ct \<longleftrightarrow>
     name_laws (al_g53 L) \<and> zone_tree_laws (al_g53 L) (al_nodes L) \<and>
     domaintree_laws (al_g53 L) (al_zones L) ct \<and> search_agrees (al_zones L) \<and>
     (\<forall>t n a t'. dt_Insert (al_zones L) t n a = Inr t' \<longrightarrow> ct t' \<subseteq> insert (n, a) (ct t))"

lemma zone_treesD:
  assumes "zone_trees L ct"
  shows "name_laws (al_g53 L)" "zone_tree_laws (al_g53 L) (al_nodes L)" "domaintree_laws (al_g53 L) (al_zones L) ct" "search_agrees (al_zones L)"
    "dt_Insert (al_zones L) t n a = Inr t' \<Longrightarrow> ct t' \<subseteq> insert (n, a) (ct t)"
  using assms unfolding zone_trees_def by blast+

lemma GetZone_exact:
  assumes "zone_trees L ct" "auth_GetZone (al_zones L) v name ds = Some (Some (a, ExactMatch))"
  shows "\<exists>n. zone_at ct ds v n a \<and> Name_Equals (al_g53 L) n name"
proof -
  obtain t where t: "ad_viewZones ds v = Some t" "dt_Search (al_zones L) t name = (Some a, ExactMatch)"
    using assms(2) by (auto simp: auth_GetZone_def split: option.splits prod.splits SearchResult.splits)
  have p: "snd (dt_SearchParents (al_zones L) t name) = ExactMatch" "hd (fst (dt_SearchParents (al_zones L) t name)) = Some a"
    using zone_treesD(4) [OF assms(1)] t(2) unfolding search_agrees_def by (metis SearchResult.distinct fst_conv snd_conv)+
  then have "\<not> absent (al_g53 L) (ct t) name" using tree_not_exact [OF zone_treesD(3) [OF assms(1)]] by blast
  then obtain m b where m: "(m, b) \<in> ct t" "Name_Equals (al_g53 L) m name" by (auto simp: absent_def)
  then have "a = b" using tree_Exact [OF zone_treesD(3) [OF assms(1)] m] p(2) by auto
  then show ?thesis using m t(1) by (auto simp: zone_at_def)
qed

text \<open>Operations of a zone, a new zone, and a zone that is taken out keep the resolver well-formed.\<close>

lemma at_zone_wf:
  assumes "auth_wf L ct ds" "zone_keeping (al_nodes L) f"
  shows "auth_wf L ct (state_of (at_zone a f ds))"
proof (cases "ad_zones ds a")
  case (Some dz)
  let ?ds = "ds\<lparr>ad_zones := (ad_zones ds)(a \<mapsto> state_of (f dz))\<rparr>"
  have s: "served (al_nodes L) (mz_origin (dz_zone dz)) dz" "a < ad_next ds" using auth_wfD(3) [OF assms(1) Some] by simp_all
  then have k: "served (al_nodes L) (mz_origin (dz_zone dz)) (state_of (f dz))" by (auto intro: zone_keepingD [OF assms(2)])
  then have o: "mz_origin (dz_zone (state_of (f dz))) = mz_origin (dz_zone dz)" by (simp add: served_def)
  have z: "zone_at ct ?ds = zone_at ct ds" by (simp add: zone_at_def fun_eq_iff)
  have "\<exists>dz'. ad_zones ?ds b = Some dz' \<and> Name_Equals (al_g53 L) (mz_origin (dz_zone dz')) n" if "zone_at ct ds v n b" for v n b
    using auth_wfD(1) [OF assms(1) that] Some by (cases "b = a") (auto simp: o)
  then have "auth_wf L ct ?ds"
    by (rule auth_wfI, unfold z) (use auth_wfD(2) [OF assms(1)] auth_wfD(3) [OF assms(1)] s(2) k in \<open>auto simp: o split: if_splits\<close>)
  moreover have "state_of (at_zone a f ds) = ?ds" using Some by (simp add: at_zone_def Let_def split: zres.split)
  ultimately show ?thesis by simp
qed (simp add: at_zone_def assms(1))

lemma new_zone_wf:
  assumes "auth_wf L ct ds" "new_zone dz ds = (a, ds1)" "served (al_nodes L) origin dz"
  shows "auth_wf L ct ds1" "ad_zones ds1 a = Some dz" "ad_viewZones ds1 = ad_viewZones ds" "\<not> zone_at ct ds1 v n a"
proof -
  have d: "a = ad_next ds" "ds1 = ds\<lparr>ad_zones := (ad_zones ds)(ad_next ds \<mapsto> dz), ad_next := Suc (ad_next ds)\<rparr>"
    using assms(2) by (auto simp: new_zone_def)
  have z: "zone_at ct ds1 = zone_at ct ds" by (simp add: zone_at_def fun_eq_iff d)
  have n: "\<not> zone_at ct ds v n (ad_next ds)" for v n using auth_wfD(1,3) [OF assms(1)] by blast
  then show "\<not> zone_at ct ds1 v n a" unfolding z d(1) .
  have o: "mz_origin (dz_zone dz) = origin" using assms(3) by (simp add: served_def)
  have "\<exists>dz'. ad_zones ds1 b = Some dz' \<and> Name_Equals (al_g53 L) (mz_origin (dz_zone dz')) m" if "zone_at ct ds w m b" for w m b
    using auth_wfD(1) [OF assms(1) that] n [of w m] that by (auto simp: d)
  moreover have "b < ad_next ds1 \<and> served (al_nodes L) (mz_origin (dz_zone dz')) dz'" if "ad_zones ds1 b = Some dz'" for b dz'
    using auth_wfD(3) [OF assms(1), of b dz'] that assms(3) o by (auto simp: d split: if_splits)
  ultimately show "auth_wf L ct ds1" by (intro auth_wfI) (unfold z, simp, rule auth_wfD(2) [OF assms(1)], simp)
qed (use assms(2) in \<open>auto simp: new_zone_def\<close>)

lemma put_tree_wf:
  assumes "auth_wf L ct ds" "\<And>n b. (n, b) \<in> ct t' \<Longrightarrow> zone_at ct ds v n b \<or> (n = origin \<and> b = a)"
    and "ad_zones ds a = Some dz" "Name_Equals (al_g53 L) (mz_origin (dz_zone dz)) origin" "\<And>w n. zone_at ct ds w n a \<Longrightarrow> w = v \<and> ((n, a) \<in> ct t' \<longrightarrow> n = origin)"
  shows "auth_wf L ct (ds\<lparr>ad_viewZones := (ad_viewZones ds)(v \<mapsto> t')\<rparr>)"
proof -
  let ?ds = "ds\<lparr>ad_viewZones := (ad_viewZones ds)(v \<mapsto> t')\<rparr>"
  have z: "zone_at ct ?ds w n b \<longleftrightarrow> (if w = v then (n, b) \<in> ct t' else zone_at ct ds w n b)" for w n b by (auto simp: zone_at_def)
  have o: "zone_at ct ?ds w n b \<Longrightarrow> zone_at ct ds w n b \<or> (w = v \<and> n = origin \<and> b = a)" for w n b using assms(2) by (auto simp: z split: if_splits)
  have "w = u \<and> n = m" if "zone_at ct ?ds w n b" "zone_at ct ?ds u m b" for w n u m b
  proof (cases "b = a")
    case True
    have "x = v \<and> k = origin" if "zone_at ct ?ds x k a" for x k
      using that o [OF that] assms(5) by (auto simp: z split: if_splits)
    then show ?thesis using that True by blast
  next
    case False
    then show ?thesis using o [OF that(1)] o [OF that(2)] auth_wfD(2) [OF assms(1)] by blast
  qed
  moreover have "\<exists>dz'. ad_zones ?ds b = Some dz' \<and> Name_Equals (al_g53 L) (mz_origin (dz_zone dz')) n" if "zone_at ct ?ds w n b" for w n b
    using o [OF that] assms(3,4) auth_wfD(1) [OF assms(1), of w n b] by auto
  ultimately show ?thesis using auth_wfD(3) [OF assms(1)] by (intro auth_wfI) simp_all
qed

lemma fewer_zones_wf:
  assumes "auth_wf L ct ds" "\<And>w n b. zone_at ct ds' w n b \<Longrightarrow> zone_at ct ds w n b" "ad_zones ds' = ad_zones ds" "ad_next ds' = ad_next ds"
  shows "auth_wf L ct ds'"
proof (rule auth_wfI)
  fix v n a assume "zone_at ct ds' v n a"
  then show "\<exists>dz. ad_zones ds' a = Some dz \<and> Name_Equals (al_g53 L) (mz_origin (dz_zone dz)) n"
    using auth_wfD(1) [OF assms(1) assms(2)] assms(3) by simp
next
  fix v n w m a assume "zone_at ct ds' v n a" "zone_at ct ds' w m a"
  then show "v = w \<and> n = m" using auth_wfD(2) [OF assms(1) assms(2) assms(2)] by blast
qed (use auth_wfD(3) [OF assms(1)] assms(3,4) in simp)

section \<open>Loading\<close>

lemma new_served: "zone_tree_laws G Z \<Longrightarrow> served Z origin (NewDynamicZone Z origin)"
  using zone_ok_new by (fastforce simp: served_def NewDynamicZone_def newMemoryZone_def newWithDomains_def)

lemma loadZone_served:
  assumes "zone_tree_laws G Z" "loadZone G R Z parse origin content = Some dz"
  shows "served Z origin dz"
proof -
  have "served Z origin (state_of (dz_Load G R Z (parseZoneContent parse content) False (NewDynamicZone Z origin)))"
    by (rule zone_keepingD [OF Load_keeping [OF assms(1)] new_served [OF assms(1)]])
  then show ?thesis using assms(2) by (auto simp: loadZone_def split: zres.splits)
qed

lemma load_masters_served:
  assumes "zone_tree_laws G Z"
  shows "load_masters G R Z dial masters dz = Some dz' \<Longrightarrow> served Z origin dz \<Longrightarrow> served Z origin dz'"
proof (induction masters arbitrary: dz)
  case (Cons m ms)
  obtain rs f where r: "doAXFR (dial m) = (rs, f)" by fastforce
  have s: "served Z origin (state_of (dz_Load G R Z rs f dz))" by (rule zone_keepingD [OF Load_keeping [OF assms] Cons.prems(2)])
  show ?case using Cons.prems(1) Cons.IH s r by (auto split: zres.splits option.splits)
qed simp

lemma loadZoneFromMaster_served:
  assumes "zone_tree_laws G Z" "loadZoneFromMaster G R Z dial origin masters = Some dz"
  shows "served Z origin dz"
proof -
  have "served Z origin ((NewDynamicZone Z origin)\<lparr>dz_masters := masters\<rparr>)"
    using new_served [OF assms(1), of origin] by (simp add: served_def)
  then show ?thesis using assms(2) load_masters_served [OF assms(1)] by (simp add: loadZoneFromMaster_def)
qed

lemmas load_served = loadZone_served loadZoneFromMaster_served

lemma conf_zone_served:
  assumes "zone_tree_laws (al_g53 L) (al_nodes L)" "conf_zone L origin z = Some dz"
  shows "served (al_nodes L) origin dz"
proof (cases "azc_Masters z = []")
  case True
  then show ?thesis using assms(2) by (auto simp: conf_zone_def split: sum.splits intro: loadZone_served [OF assms(1)])
next
  case False
  then obtain dz1 where "loadZoneFromMaster (al_g53 L) (al_rrset L) (al_nodes L) (ae_dial (al_env L)) origin (azc_Masters z) = Some dz1"
    "dz = dz1\<lparr>dz_masters := azc_Masters z\<rparr>" using assms(2) by (auto simp: conf_zone_def)
  then show ?thesis using loadZoneFromMaster_served [OF assms(1)] by (simp add: served_def)
qed

lemma insert_zone_wf:
  assumes L: "zone_trees L ct" and wf: "auth_wf L ct ds" and new: "new_zone dz ds = (a, ds1)" "served (al_nodes L) origin dz"
    and ins: "ad_viewZones ds v = Some u" "dt_Insert (al_zones L) u origin a = Inr u'"
  shows "auth_wf L ct (ds1\<lparr>ad_viewZones := (ad_viewZones ds1)(v \<mapsto> u')\<rparr>)"
proof (rule put_tree_wf)
  note n = new_zone_wf [OF wf new]
  show "auth_wf L ct ds1" "ad_zones ds1 a = Some dz" by (fact n)+
  show "zone_at ct ds1 v n b \<or> (n = origin \<and> b = a)" if "(n, b) \<in> ct u'" for n b
    using zone_treesD(5) [OF L ins(2)] that ins(1) n(3) by (auto simp: zone_at_def)
  show "Name_Equals (al_g53 L) (mz_origin (dz_zone dz)) origin"
    using new(2) Name_Equals_refl [OF zone_treesD(1) [OF L]] by (simp add: served_def)
  show "w = v \<and> ((m, a) \<in> ct u' \<longrightarrow> m = origin)" if "zone_at ct ds1 w m a" for w m using that n(4) by blast
qed

lemma auth_load_wf:
  assumes "zone_trees L ct"
  shows "auth_load L zs ds = Some ds' \<Longrightarrow> auth_wf L ct ds \<Longrightarrow> auth_wf L ct ds'"
proof (induction zs arbitrary: ds)
  case (Cons z zs)
  obtain v c where z: "z = (v, c)" by fastforce
  from Cons.prems(1) obtain origin dz u where c: "NameFromString (al_g53 L) (azc_Name c) = Inr origin" "conf_zone L origin c = Some dz"
    "ad_viewZones ds v = Some u" by (auto simp: z option_bind_Some_iff split: sum.splits)
  obtain a ds1 where n: "new_zone dz ds = (a, ds1)" by fastforce
  from Cons.prems(1) obtain u' where l: "conf_zone L origin c = Some dz" "ad_viewZones ds v = Some u"
      "new_zone dz ds = (a, ds1)" "dt_Insert (al_zones L) u origin a = Inr u'"
      "auth_load L zs (ds1\<lparr>ad_viewZones := (ad_viewZones ds1)(v \<mapsto> u')\<rparr>) = Some ds'"
    by (cases "dt_Insert (al_zones L) u origin a") (auto simp: z c n)
  have "served (al_nodes L) origin dz" by (rule conf_zone_served [OF zone_treesD(2) [OF assms] l(1)])
  from insert_zone_wf [OF assms Cons.prems(2) l(3) this l(2,4)] show ?case by (rule Cons.IH [OF l(5)])
qed simp

lemma ReloadConfig_wf:
  assumes "zone_trees L ct" "auth_ReloadConfig L views confs ds = Some ds'" "auth_wf L ct ds"
  shows "auth_wf L ct ds'"
proof -
  let ?ds = "ds\<lparr>ad_viewZones := (\<lambda>v. if v \<in> set views then Some (NewDomainTree (al_zones L)) else None)\<rparr>"
  have "\<not> zone_at ct ?ds v n a" for v n a using tree_New [OF zone_treesD(3) [OF assms(1)]] by (auto simp: zone_at_def split: if_splits)
  then have "auth_wf L ct ?ds" by (intro fewer_zones_wf [OF assms(3)]) auto
  then show ?thesis using auth_load_wf [OF assms(1)] assms(2) unfolding auth_ReloadConfig_def by blast
qed

lemma NewAuth_wf: "zone_trees L ct \<Longrightarrow> NewAuth L views confs = Some ds \<Longrightarrow> auth_wf L ct ds"
  unfolding NewAuth_def by (erule ReloadConfig_wf, assumption, rule auth_wfI) (simp_all add: zone_at_def)

section \<open>Commands and updates\<close>

lemma new_zone_only_wf: "auth_wf L ct ds \<Longrightarrow> new_zone dz ds = (a, ds1) \<Longrightarrow> served (al_nodes L) origin dz \<Longrightarrow> auth_wf L ct ds1"
  by (rule new_zone_wf(1))

lemma loadZoneData_wf:
  assumes "zone_trees L ct" "auth_wf L ct ds"
  shows "auth_wf L ct (state_of (loadZoneData L origin v content masters ds))"
proof (cases "ad_viewZones ds v")
  case (Some u)
  let ?l = "if masters \<noteq> [] then loadZoneFromMaster (al_g53 L) (al_rrset L) (al_nodes L) (ae_dial (al_env L)) origin masters
    else loadZone (al_g53 L) (al_rrset L) (al_nodes L) (ae_RRsetFromString (al_env L)) origin
      (if content = [] then genBasicZoneContent (Name_String (al_g53 L) origin) else content)"
  show ?thesis
  proof (cases ?l)
    case None
    then show ?thesis using Some assms(2) by (simp only: loadZoneData_def option.case state_of.simps)
  next
    case l: (Some dz)
    then have s: "served (al_nodes L) origin dz" using load_served [OF zone_treesD(2) [OF assms(1)]] by (auto split: if_splits)
    obtain a ds1 where n: "new_zone dz ds = (a, ds1)" by fastforce
    show ?thesis using new_zone_wf(1) [OF assms(2) n s] insert_zone_wf [OF assms n s Some]
      by (cases "dt_Insert (al_zones L) u origin a") (simp_all only: loadZoneData_def Some option.case l n prod.case sum.case state_of.simps)
  qed
qed (simp add: loadZoneData_def assms(2))

lemma delete_zone_wf:
  assumes "zone_trees L ct" "auth_wf L ct ds"
  shows "auth_wf L ct (ds\<lparr>ad_viewZones := (ad_viewZones ds)(v := map_option (\<lambda>t. dt_Delete (al_zones L) t origin) (ad_viewZones ds v))\<rparr>)"
  by (rule fewer_zones_wf [OF assms(2)])
    (auto simp: zone_at_def tree_Delete [OF zone_treesD(3) [OF assms(1)]] split: if_splits)

text \<open>Another zone, or the same one, is put in the place of one that was found.\<close>

lemma replace_zone_wf:
  assumes L: "zone_trees L ct" and wf: "auth_wf L ct ds" and at: "zone_at ct ds v n a" "Name_Equals (al_g53 L) n origin"
    and b: "b = a \<or> (\<forall>w m. \<not> zone_at ct ds w m b)" "ad_zones ds b = Some dz" "Name_Equals (al_g53 L) (mz_origin (dz_zone dz)) origin"
    and ins: "ad_viewZones ds v = Some u" "dt_Insert (al_zones L) (dt_Delete (al_zones L) u origin) origin b = Inr u'"
  shows "auth_wf L ct (ds\<lparr>ad_viewZones := (ad_viewZones ds)(v \<mapsto> u')\<rparr>)"
proof (rule put_tree_wf [OF wf _ b(2,3)])
  have u': "(m, c) \<in> ct u' \<Longrightarrow> (m, c) = (origin, b) \<or> ((m, c) \<in> ct u \<and> \<not> Name_Equals (al_g53 L) m origin)" for m c
    using zone_treesD(5) [OF L ins(2)] tree_Delete [OF zone_treesD(3) [OF L], of u origin] by auto
  show "zone_at ct ds v m c \<or> (m = origin \<and> c = b)" if "(m, c) \<in> ct u'" for m c using u' [OF that] ins(1) by (auto simp: zone_at_def)
  show "w = v \<and> ((m, b) \<in> ct u' \<longrightarrow> m = origin)" if "zone_at ct ds w m b" for w m
    using b(1) that auth_wfD(2) [OF wf that, of v n] at u' [of m b] by auto
qed

lemma swap_zone_wf:
  assumes L: "zone_trees L ct" and wf: "auth_wf L ct ds" and at: "zone_at ct ds v n a" "Name_Equals (al_g53 L) n origin"
    and b: "b = a \<or> (\<forall>w m. \<not> zone_at ct ds w m b)" "ad_zones ds b = Some dz" "Name_Equals (al_g53 L) (mz_origin (dz_zone dz)) origin"
  shows "auth_wf L ct (state_of (case ad_viewZones ds v of
      None \<Rightarrow> ZPanic ds
    | Some u \<Rightarrow>
        (let u1 = dt_Delete (al_zones L) u origin in
         case dt_Insert (al_zones L) u1 origin b of
           Inl err \<Rightarrow> ZDone (ds\<lparr>ad_viewZones := (ad_viewZones ds)(v \<mapsto> u1)\<rparr>) (Some (AddDetail ErrUpdateZoneFailed err))
         | Inr u2 \<Rightarrow> ZDone (ds\<lparr>ad_viewZones := (ad_viewZones ds)(v \<mapsto> u2)\<rparr>) None)))"
proof (cases "ad_viewZones ds v")
  case (Some u)
  then show ?thesis using delete_zone_wf [OF L wf, of v origin] replace_zone_wf [OF assms Some]
    by (cases "dt_Insert (al_zones L) (dt_Delete (al_zones L) u origin) origin b") simp_all
qed (simp add: wf)

lemma at_zone_views: "ad_viewZones (state_of (at_zone a f ds)) = ad_viewZones ds"
  by (simp add: at_zone_def Let_def split: option.split zres.split)

lemma updateAuthZone_wf:
  assumes L: "zone_trees L ct" and wf: "auth_wf L ct ds"
  shows "auth_wf L ct (state_of (updateAuthZone L v name masters ds))"
proof (cases "\<exists>origin a. NameFromString (al_g53 L) name = Inr origin \<and> auth_GetZone (al_zones L) v origin ds = Some (Some (a, ExactMatch))")
  case False
  then show ?thesis using wf
    by (auto simp: updateAuthZone_def with_name_def split: sum.split option.split prod.split SearchResult.split)
next
  case True
  let ?G = "al_g53 L"
  obtain origin a where g: "NameFromString ?G name = Inr origin" "auth_GetZone (al_zones L) v origin ds = Some (Some (a, ExactMatch))" using True by blast
  let ?load = "loadZoneFromMaster ?G (al_rrset L) (al_nodes L) (ae_dial (al_env L)) origin masters"
  obtain n where n: "zone_at ct ds v n a" "Name_Equals ?G n origin" using GetZone_exact [OF L g(2)] by blast
  show ?thesis unfolding updateAuthZone_def with_name_def g sum.case option.case prod.case SearchResult.case
  proof (rule wf_bind [OF at_zone_wf [OF wf SetMasters_keeping]], goal_cases)
    case (1 ds1 x)
    have z: "zone_at ct ds1 = zone_at ct ds" using at_zone_views [of a "SetMasters masters" ds] 1(1) by (simp add: zone_at_def fun_eq_iff)
    obtain dz where dz: "ad_zones ds1 a = Some dz" "Name_Equals ?G (mz_origin (dz_zone dz)) n" using auth_wfD(1) [OF 1(2)] n(1) z by metis
    have o: "Name_Equals ?G (mz_origin (dz_zone dz)) origin" using Name_Equals_trans [OF zone_treesD(1) [OF L] dz(2) n(2)] .
    show ?case
    proof (cases "masters = []")
      case True
      then show ?thesis using swap_zone_wf [OF L 1(2) n(1) [folded z] n(2) _ dz(1) o] by simp
    next
      case False
      show ?thesis
      proof (cases ?load)
        case (Some dz2)
        have s: "served (al_nodes L) origin dz2" by (rule loadZoneFromMaster_served [OF zone_treesD(2) [OF L] Some])
        obtain b ds2 where new: "new_zone dz2 ds1 = (b, ds2)" by fastforce
        note w = new_zone_wf [OF 1(2) new s]
        have "zone_at ct ds2 v n a" using n(1) w(3) unfolding z [symmetric] by (simp add: zone_at_def)
        moreover have "Name_Equals ?G (mz_origin (dz_zone dz2)) origin" using s Name_Equals_refl [OF zone_treesD(1) [OF L]] by (simp add: served_def)
        ultimately show ?thesis using swap_zone_wf [OF L w(1) _ n(2) _ w(2)] w(4) False Some new by simp
      qed (use False 1(2) in simp)
    qed
  qed
qed

lemma getUpdator_wf: "auth_wf L ct ds \<Longrightarrow> auth_wf L ct (state_of (getUpdator L v origin clientIP ds))"
  by (auto simp: getUpdator_def split: option.split prod.split SearchResult.split intro!: at_zone_wf zone_keeping_reader)

lemma handleDynamicRRsets_wf:
  assumes "zone_trees L ct" "auth_wf L ct ds"
  shows "auth_wf L ct (state_of (handleDynamicRRsets L v zone clientIP rrsets ds))"
  unfolding handleDynamicRRsets_def
  by (rule wf_bind [OF getUpdator_wf [OF assms(2)]])
    (simp add: at_zone_wf update_keeping [OF zone_treesD(2) [OF assms(1)]] split: option.split)

lemma change_rrs_wf:
  assumes "zone_trees L ct" "auth_wf L ct ds"
  shows "auth_wf L ct (state_of (change_rrs L verb cls rrs ds))"
proof (cases "collect_rrs L verb cls rrs [] None")
  case (Inr c)
  obtain v zone rrsets where c: "c = (v, zone, rrsets)" by (cases c) auto
  show ?thesis unfolding change_rrs_def Inr c sum.case prod.case
    by (rule wf_bind) (use assms in \<open>auto simp: handleDynamicRRsets_wf split: option.split\<close>)
qed (simp add: change_rrs_def assms(2))

lemma updateAuthRrs_wf:
  assumes "zone_trees L ct" "auth_wf L ct ds"
  shows "auth_wf L ct (state_of (updateAuthRrs L olds news ds))"
  unfolding updateAuthRrs_def
  by (rule wf_bind) (use assms in \<open>auto simp: change_rrs_wf deleteAuthRrs_def addAuthRrs_def split: list.split option.split\<close>)

lemma HandleCmd_wf:
  assumes "zone_trees L ct" "auth_wf L ct ds"
  shows "auth_wf L ct (state_of (auth_HandleCmd L ds c))"
proof (cases c)
  case (AddAuthZone v name ms content)
  have "auth_wf L ct (state_of (bindZ (loadZoneData L origin v content ms ds) (\<lambda>ds1 err. ZDone ds1 (map_option (AddDetail ErrInvalidZoneData) err))))" for origin
    by (rule wf_bind [OF loadZoneData_wf [OF assms]]) simp
  then show ?thesis using AddAuthZone assms(2) by (simp add: addAuthZone_def with_name_def split: sum.split)
next
  case (DeleteAuthZone v name)
  then show ?thesis using assms delete_zone_wf [OF assms]
    by (auto simp: deleteAuthZone_def with_name_def split: sum.split option.split prod.split SearchResult.split)
next
  case (UpdateAuthZone v name ms)
  then show ?thesis using updateAuthZone_wf [OF assms] by simp
qed (use assms in \<open>simp_all add: updateAuthRrs_wf change_rrs_wf deleteAuthRrs_def addAuthRrs_def\<close>)

section \<open>Runs of the service\<close>

text \<open>What happens to the zones: commands, queries, updates of a client, transfers and reloads, also when they panic or wait.\<close>

inductive auth_step ::
  "('t, 'z, 'n) auth_libs \<Rightarrow> 'n xfr_env \<Rightarrow> ('z, 'n) xfr_engine \<Rightarrow> ('t, 'z, 'n) AuthDataSource \<Rightarrow> ('t, 'z, 'n) AuthDataSource \<Rightarrow> bool" for L X Ev where
  command: "auth_step L X Ev ds (state_of (auth_HandleCmd L ds c))"
| query: "auth_GetZone (al_zones L) v name ds = Some (Some (a, matchType)) \<Longrightarrow>
    auth_step L X Ev ds (state_of (at_zone a (query_Process (al_g53 L) (al_nodes L) (al_search L) matchType request) ds))"
| update: "auth_step L X Ev ds (state_of (auth_HandleUpdate L client ds))"
| transfer: "auth_step L X Ev ds (state_of (at_zone a (doXFR X Ev (al_g53 L) (al_rrset L) (al_nodes L) (al_search L) latestSerial master) ds))"
| reload: "auth_ReloadConfig L views confs ds = Some ds' \<Longrightarrow> auth_step L X Ev ds ds'"

lemma HandleUpdate_wf:
  assumes "zone_trees L ct" "auth_wf L ct ds"
  shows "auth_wf L ct (state_of (auth_HandleUpdate L client ds))"
  unfolding auth_HandleUpdate_def auth_handleUpdate_def
  by (rule wf_bind) (use assms in \<open>auto simp: handleDynamicRRsets_wf split: option.split\<close>)

lemma auth_step_wf:
  assumes L: "zone_trees L ct" "fsm_laws Ev"
  shows "auth_step L X Ev ds ds' \<Longrightarrow> auth_wf L ct ds \<Longrightarrow> auth_wf L ct ds'"
proof (induction rule: auth_step.induct)
  case (query v name ds a matchType request)
  show ?case by (rule at_zone_wf [OF query(2) zone_keeping_reader]) (rule query_Process_zone)
next
  case (transfer ds a latestSerial master)
  show ?case by (rule at_zone_wf [OF transfer doXFR_keeping [OF L(2) zone_treesD(2) [OF L(1)]]])
qed (simp_all add: HandleCmd_wf HandleUpdate_wf ReloadConfig_wf L)

lemma wf_GetZone:
  assumes "zone_trees L ct" "auth_wf L ct ds" "auth_GetZone (al_zones L) v n ds = Some (Some (a, ExactMatch))"
  shows "\<exists>dz. ad_zones ds a = Some dz \<and> Name_Equals (al_g53 L) (mz_origin (dz_zone dz)) n \<and> served (al_nodes L) (mz_origin (dz_zone dz)) dz"
proof -
  obtain m where m: "zone_at ct ds v m a" "Name_Equals (al_g53 L) m n" using GetZone_exact [OF assms(1,3)] by blast
  then obtain dz where dz: "ad_zones ds a = Some dz" "Name_Equals (al_g53 L) (mz_origin (dz_zone dz)) m" using auth_wfD(1) [OF assms(2)] by blast
  have "Name_Equals (al_g53 L) (mz_origin (dz_zone dz)) n" by (rule Name_Equals_trans [OF zone_treesD(1) [OF assms(1)] dz(2) m(2)])
  then show ?thesis using dz(1) auth_wfD(3) [OF assms(2) dz(1)] by blast
qed

lemma wf_exact_named: "zone_trees L ct \<Longrightarrow> auth_wf L ct ds \<Longrightarrow> exact_named L ds"
  unfolding exact_named_def using wf_GetZone by fastforce

lemma served_complete:
  assumes "served Z origin dz"
  shows "dz_zone dz = newMemoryZone Z origin \<or> (\<exists>d. origin_data Z (dz_zone dz) = Some d \<and> map_of d RR_SOA \<noteq> None \<and> map_of d RR_NS \<noteq> None)"
    and "zt_Data Z (mz_domains (dz_zone dz)) n = Some d \<Longrightarrow> map_of d RR_CNAME \<noteq> None \<Longrightarrow> length d = 1"
  using assms by (auto simp: served_def zone_ok_def node_ok_def mz_validate_def split: option.splits if_splits)

lemma reached_wf:
  assumes "zone_trees L ct" "fsm_laws Ev" "NewAuth L views confs = Some ds0" "(auth_step L X Ev)\<^sup>*\<^sup>* ds0 ds"
  shows "auth_wf L ct ds"
  using assms(4) by (induction rule: rtranclp_induct) (auto intro: NewAuth_wf [OF assms(1,3)] auth_step_wf [OF assms(1,2)])

text \<open>
  C4. The service is well-formed in every state it reaches, in any order of commands, queries, updates,
  transfers and reloads, failing, panicking and waiting ones too: what is found under a name in a view is
  a zone of that name; it is either empty as it was made or has an SOA and name servers, and a name with
  an alias has no other data; and no zone is found in two views or under two names.
\<close>

theorem service_well_formed:
  assumes "zone_trees L ct" "fsm_laws Ev" "NewAuth L views confs = Some ds0" "(auth_step L X Ev)\<^sup>*\<^sup>* ds0 ds"
    and "auth_GetZone (al_zones L) v n ds = Some (Some (a, ExactMatch))"
  shows "(\<exists>dz. ad_zones ds a = Some dz \<and> Name_Equals (al_g53 L) (mz_origin (dz_zone dz)) n \<and>
      (dz_zone dz = newMemoryZone (al_nodes L) (mz_origin (dz_zone dz)) \<or>
       (\<exists>d. origin_data (al_nodes L) (dz_zone dz) = Some d \<and> map_of d RR_SOA \<noteq> None \<and> map_of d RR_NS \<noteq> None)) \<and>
      (\<forall>m d. zt_Data (al_nodes L) (mz_domains (dz_zone dz)) m = Some d \<longrightarrow> map_of d RR_CNAME \<noteq> None \<longrightarrow> length d = 1)) \<and>
    (\<forall>w m. auth_GetZone (al_zones L) w m ds = Some (Some (a, ExactMatch)) \<longrightarrow> w = v \<and> Name_Equals (al_g53 L) m n)"
proof -
  have wf: "auth_wf L ct ds" by (rule reached_wf [OF assms(1-4)])
  obtain dz where dz: "ad_zones ds a = Some dz" "Name_Equals (al_g53 L) (mz_origin (dz_zone dz)) n" "served (al_nodes L) (mz_origin (dz_zone dz)) dz"
    using wf_GetZone [OF assms(1) wf assms(5)] by blast
  have "w = v \<and> Name_Equals (al_g53 L) m n" if g: "auth_GetZone (al_zones L) w m ds = Some (Some (a, ExactMatch))" for w m
  proof -
    obtain k l where k: "zone_at ct ds w k a" "Name_Equals (al_g53 L) k m" and l: "zone_at ct ds v l a" "Name_Equals (al_g53 L) l n"
      using GetZone_exact [OF assms(1) g] GetZone_exact [OF assms(1,5)] by blast
    have "w = v \<and> k = l" by (rule auth_wfD(2) [OF wf k(1) l(1)])
    then show ?thesis using k(2) l(2) Name_Equals_sym [OF zone_treesD(1) [OF assms(1)]] Name_Equals_trans [OF zone_treesD(1) [OF assms(1)]] by blast
  qed
  then show ?thesis using dz served_complete [OF dz(3)] by blast
qed

section \<open>Views are separate\<close>

text \<open>What a view sees of the state: its tree and its zones.\<close>

definition same_view :: "('t \<Rightarrow> ('n \<times> nat) set) \<Rightarrow> view \<Rightarrow> ('t, 'z, 'n) AuthDataSource \<Rightarrow> ('t, 'z, 'n) AuthDataSource \<Rightarrow> bool" where
  "same_view ct w ds ds' \<longleftrightarrow>
     ad_viewZones ds' w = ad_viewZones ds w \<and> (\<forall>n a. zone_at ct ds w n a \<longrightarrow> ad_zones ds' a = ad_zones ds a)"

lemma same_view_refl: "same_view ct w ds ds"
  by (simp add: same_view_def)

lemma same_view_trans: "same_view ct w ds ds1 \<Longrightarrow> same_view ct w ds1 ds2 \<Longrightarrow> same_view ct w ds ds2"
  by (auto simp: same_view_def zone_at_def)

lemma same_view_tree: "v \<noteq> w \<Longrightarrow> same_view ct w ds (ds\<lparr>ad_viewZones := (ad_viewZones ds)(v := u)\<rparr>)"
  by (simp add: same_view_def)

lemma same_view_at_zone:
  assumes "auth_wf L ct ds" "zone_at ct ds v n a" "v \<noteq> w"
  shows "same_view ct w ds (state_of (at_zone a f ds))"
proof -
  have "b \<noteq> a" if "zone_at ct ds w m b" for m b using auth_wfD(2) [OF assms(1,2)] that assms(3) by blast
  then show ?thesis
    by (auto simp: same_view_def at_zone_views) (auto simp: at_zone_def Let_def split: option.split zres.split)
qed

lemma same_view_new_zone:
  assumes "auth_wf L ct ds" "new_zone dz ds = (a, ds1)"
  shows "same_view ct w ds ds1"
proof -
  have "b \<noteq> ad_next ds" if "zone_at ct ds w m b" for m b using auth_wfD(1) [OF assms(1) that] auth_wfD(3) [OF assms(1)] by blast
  then show ?thesis using assms(2) by (auto simp: same_view_def new_zone_def)
qed

lemmas same_bind = state_of_bind [where P = "same_view ct w ds" for ct w ds]

lemma GetZone_at:
  assumes "zone_trees L ct" "auth_GetZone (al_zones L) v name ds = Some (Some (a, matchType))"
  shows "\<exists>n. zone_at ct ds v n a"
proof -
  obtain t where t: "ad_viewZones ds v = Some t" "dt_Search (al_zones L) t name = (Some a, matchType)" "matchType \<noteq> NotFound"
    using assms(2) by (auto simp: auth_GetZone_def split: option.splits prod.splits SearchResult.splits)
  have p: "snd (dt_SearchParents (al_zones L) t name) = matchType" "hd (fst (dt_SearchParents (al_zones L) t name)) = Some a"
    using zone_treesD(4) [OF assms(1)] t(2,3) unfolding search_agrees_def by (metis fst_conv snd_conv)+
  show ?thesis
  proof (cases "absent (al_g53 L) (ct t) name")
    case True
    then have "\<exists>p\<in>ct t. Name_IsSubDomain (al_g53 L) name (fst p)"
      using tree_NotFound [OF zone_treesD(3) [OF assms(1)] True] p(1) t(3) by blast
    with tree_Closest [OF zone_treesD(3) [OF assms(1)] True this] obtain ps where
      ps: "dt_SearchParents (al_zones L) t name = (map (Some \<circ> snd) ps, ClosestEncloser)" "set ps = {p \<in> ct t. Name_IsSubDomain (al_g53 L) name (fst p)}" "ps \<noteq> []"
      by force
    then have "hd ps \<in> ct t" "snd (hd ps) = a" using p(2) hd_in_set [OF ps(3)] by (auto simp: hd_map)
    then show ?thesis using t(1) unfolding zone_at_def by (metis prod.collapse)
  next
    case False
    then obtain m b where m: "(m, b) \<in> ct t" "Name_Equals (al_g53 L) m name" by (auto simp: absent_def)
    then have "a = b" using tree_Exact [OF zone_treesD(3) [OF assms(1)] m] p(2) by auto
    then show ?thesis using m t(1) by (auto simp: zone_at_def)
  qed
qed

lemma same_view_GetZone: "same_view ct w ds ds' \<Longrightarrow> auth_GetZone D w n ds' = auth_GetZone D w n ds"
  by (simp add: same_view_def auth_GetZone_def)

lemma handleDynamicRRsets_view:
  assumes "zone_trees L ct" "auth_wf L ct ds" "v \<noteq> w"
  shows "same_view ct w ds (state_of (handleDynamicRRsets L v zone clientIP rrsets ds))"
proof (cases "\<exists>a. auth_GetZone (al_zones L) v zone ds = Some (Some (a, ExactMatch))")
  case False
  then have "getUpdator L v zone clientIP ds = ZPanic ds \<or> getUpdator L v zone clientIP ds = ZDone ds None"
    by (auto simp: getUpdator_def split: option.split prod.split SearchResult.split)
  then show ?thesis by (auto simp: handleDynamicRRsets_def same_view_refl)
next
  case True
  then obtain a where g: "auth_GetZone (al_zones L) v zone ds = Some (Some (a, ExactMatch))" by blast
  then obtain n where n: "zone_at ct ds v n a" using GetZone_exact [OF assms(1)] by blast
  have u: "getUpdator L v zone clientIP ds = at_zone a (\<lambda>dz. if dz_lock dz = Taken then ZBlocked dz
      else ZDone dz (if GetUpdator (ae_find_acl (al_env L)) clientIP False dz then Some a else None)) ds" by (simp add: getUpdator_def g)
  show ?thesis unfolding handleDynamicRRsets_def
  proof (rule same_bind, goal_cases)
    case 1
    show ?case unfolding u by (rule same_view_at_zone [OF assms(2) n assms(3)])
  next
    case (2 ds1 x)
    have wf: "auth_wf L ct ds1" using getUpdator_wf [OF assms(2), of v zone clientIP] 2(1) by simp
    have x: "x = Some a \<or> x = None" using 2(1) unfolding u by (auto simp: at_zone_def Let_def split: option.splits if_splits)
    have "ad_viewZones ds1 = ad_viewZones ds" using arg_cong [OF 2(1), of "\<lambda>r. ad_viewZones (state_of r)"] unfolding u at_zone_views by simp
    then have "zone_at ct ds1 v n a" using n by (simp add: zone_at_def)
    from same_view_trans [OF 2(2) same_view_at_zone [OF wf this assms(3)]] show ?case using 2(2) x by (elim disjE) simp_all
  qed
qed

text \<open>The views a command names.\<close>

fun cmd_views :: "auth_cmd \<Rightarrow> view set" where
  "cmd_views (AddAuthZone v n ms content) = {v}"
| "cmd_views (DeleteAuthZone v n) = {v}"
| "cmd_views (UpdateAuthZone v n ms) = {v}"
| "cmd_views (AddAuthRrs rrs) = arr_View ` set rrs"
| "cmd_views (DeleteAuthRrs rrs) = arr_View ` set rrs"
| "cmd_views (UpdateAuthRrs olds news) = arr_View ` set olds \<union> arr_View ` set news"

lemma map_sum_Inr: "map_sum f g x = Inr y \<longleftrightarrow> (\<exists>z. x = Inr z \<and> y = g z)"
  by (cases x) auto

lemma collect_rrs_view:
  "collect_rrs L verb cls rrs tv tz = Inr (v, z, rs) \<Longrightarrow> v = tv \<and> z = tz \<or> v \<in> arr_View ` set rrs"
proof (induction rrs arbitrary: tv tz rs)
  case (Cons r rrs)
  from Cons.prems obtain origin rrset where ok: "NameFromString (al_g53 L) (arr_Zone r) = Inr origin"
      "auth_newRRset L (arr_Name r) (arr_Ttl r) (arr_Type r) (arr_Rdata r) cls = Inr rrset"
    by (auto split: sum.splits)
  have "(\<exists>rs'. collect_rrs L verb cls rrs (arr_View r) (Some origin) = Inr (v, z, rs')) \<or> (\<exists>rs'. collect_rrs L verb cls rrs tv tz = Inr (v, z, rs'))"
    using Cons.prems by (auto simp: ok Let_def map_sum_Inr split: if_splits option.splits)
  then show ?case using Cons.IH by fastforce
qed simp

lemma change_rrs_view:
  assumes "zone_trees L ct" "auth_wf L ct ds" "w \<notin> arr_View ` set rrs"
  shows "same_view ct w ds (state_of (change_rrs L verb cls rrs ds))"
proof (cases "collect_rrs L verb cls rrs [] None")
  case (Inr c)
  obtain v zone rrsets where c: "c = (v, zone, rrsets)" by (cases c) auto
  have "v \<noteq> w" if "zone = Some z" for z using collect_rrs_view [OF Inr [unfolded c]] that assms(3) by auto
  then show ?thesis unfolding change_rrs_def Inr c sum.case prod.case
    by (intro same_bind) (auto simp: handleDynamicRRsets_view [OF assms(1,2)] same_view_refl split: option.split)
qed (simp add: change_rrs_def same_view_refl)

lemma loadZoneData_view:
  assumes "zone_trees L ct" "auth_wf L ct ds" "v \<noteq> w"
  shows "same_view ct w ds (state_of (loadZoneData L origin v content masters ds))"
proof (cases "ad_viewZones ds v")
  case (Some u)
  let ?l = "if masters \<noteq> [] then loadZoneFromMaster (al_g53 L) (al_rrset L) (al_nodes L) (ae_dial (al_env L)) origin masters
    else loadZone (al_g53 L) (al_rrset L) (al_nodes L) (ae_RRsetFromString (al_env L)) origin
      (if content = [] then genBasicZoneContent (Name_String (al_g53 L) origin) else content)"
  show ?thesis
  proof (cases ?l)
    case None
    then show ?thesis using Some same_view_refl by (simp only: loadZoneData_def option.case state_of.simps)
  next
    case l: (Some dz)
    obtain a ds1 where n: "new_zone dz ds = (a, ds1)" by fastforce
    note s = same_view_new_zone [OF assms(2) n, of w]
    show ?thesis using s same_view_trans [OF s same_view_tree [OF assms(3)]]
      by (cases "dt_Insert (al_zones L) u origin a") (simp_all only: loadZoneData_def Some option.case l n prod.case sum.case state_of.simps)
  qed
qed (simp add: loadZoneData_def same_view_refl)

lemma updateAuthZone_view:
  assumes "zone_trees L ct" "auth_wf L ct ds" "v \<noteq> w"
  shows "same_view ct w ds (state_of (updateAuthZone L v name masters ds))"
proof (cases "\<exists>origin a. NameFromString (al_g53 L) name = Inr origin \<and> auth_GetZone (al_zones L) v origin ds = Some (Some (a, ExactMatch))")
  case False
  then show ?thesis
    by (auto simp: updateAuthZone_def with_name_def same_view_refl split: sum.split option.split prod.split SearchResult.split)
next
  case True
  then obtain origin a where g: "NameFromString (al_g53 L) name = Inr origin" "auth_GetZone (al_zones L) v origin ds = Some (Some (a, ExactMatch))" by blast
  then obtain n where n: "zone_at ct ds v n a" using GetZone_exact [OF assms(1)] by blast
  show ?thesis unfolding updateAuthZone_def with_name_def g sum.case option.case prod.case SearchResult.case
  proof (rule same_bind [OF same_view_at_zone [OF assms(2) n assms(3)]], goal_cases)
    case (1 ds1 x)
    have wf: "auth_wf L ct ds1" using at_zone_wf [OF assms(2) SetMasters_keeping, of a masters] 1(1) by simp
    have put: "same_view ct w ds (state_of (case ad_viewZones ds2 v of None \<Rightarrow> ZPanic ds2
        | Some u \<Rightarrow> (let u1 = dt_Delete (al_zones L) u origin in
            case dt_Insert (al_zones L) u1 origin b of
              Inl err \<Rightarrow> ZDone (ds2\<lparr>ad_viewZones := (ad_viewZones ds2)(v \<mapsto> u1)\<rparr>) (Some (AddDetail ErrUpdateZoneFailed err))
            | Inr u2 \<Rightarrow> ZDone (ds2\<lparr>ad_viewZones := (ad_viewZones ds2)(v \<mapsto> u2)\<rparr>) None)))" if "same_view ct w ds ds2" for ds2 b
      using that same_view_trans [OF that same_view_tree [OF assms(3)]] by (simp add: Let_def split: option.split sum.split)
    show ?case
    proof (cases "masters = []")
      case False
      then show ?thesis using same_view_trans [OF 1(2) same_view_new_zone [OF wf]] put 1(2) by (auto split: option.split prod.split)
    qed (use put 1(2) in simp)
  qed
qed

lemma HandleCmd_view:
  assumes "zone_trees L ct" "auth_wf L ct ds" "w \<notin> cmd_views c"
  shows "same_view ct w ds (state_of (auth_HandleCmd L ds c))"
proof (cases c)
  case (AddAuthZone v name ms content)
  have "same_view ct w ds (state_of (bindZ (loadZoneData L origin v content ms ds) (\<lambda>ds1 err. ZDone ds1 (map_option (AddDetail ErrInvalidZoneData) err))))" for origin
    by (rule same_bind [OF loadZoneData_view [OF assms(1,2)]]) (use assms(3) AddAuthZone in simp_all)
  then show ?thesis using AddAuthZone by (simp add: addAuthZone_def with_name_def same_view_refl split: sum.split)
next
  case (DeleteAuthZone v name)
  then show ?thesis using assms(3) same_view_refl same_view_tree [of v w]
    by (auto simp: deleteAuthZone_def with_name_def split: sum.split option.split prod.split SearchResult.split)
next
  case (UpdateAuthZone v name ms)
  then show ?thesis using updateAuthZone_view [OF assms(1,2), of v w] assms(3) by simp
next
  case (UpdateAuthRrs olds news)
  let ?d = "case olds of [] \<Rightarrow> ZDone ds None
    | rr # _ \<Rightarrow> if arr_Type rr \<noteq> Type_String (al_g53 L) RR_SOA \<and> arr_Type rr \<noteq> Type_String (al_g53 L) RR_CNAME then deleteAuthRrs L olds ds else ZDone ds None"
  have w: "w \<notin> arr_View ` set olds" "w \<notin> arr_View ` set news" using UpdateAuthRrs assms(3) by auto
  have d: "same_view ct w ds (state_of ?d)" "auth_wf L ct (state_of ?d)"
    using change_rrs_view [OF assms(1,2) w(1)] change_rrs_wf [OF assms(1,2)] assms(2)
    by (auto simp: deleteAuthRrs_def same_view_refl split: list.split)
  have "same_view ct w ds (state_of (updateAuthRrs L olds news ds))" unfolding updateAuthRrs_def
  proof (rule same_bind [OF d(1)], goal_cases)
    case (1 ds1 err)
    then show ?case using d(2) same_view_trans [OF 1(2) change_rrs_view [OF assms(1) _ w(2)]] by (auto simp: addAuthRrs_def split: option.split)
  qed
  then show ?thesis using UpdateAuthRrs by simp
qed (use change_rrs_view [OF assms(1,2)] assms(3) in \<open>simp_all add: addAuthRrs_def deleteAuthRrs_def\<close>)

text \<open>
  C9. A command changes the zones of the views it names only: for every other view the search for a name
  gives the same zone as before, and this zone is untouched, its lock included, even if the command panics
  or waits.
\<close>

theorem commands_stay_in_views:
  assumes "zone_trees L ct" "fsm_laws Ev" "NewAuth L views confs = Some ds0" "(auth_step L X Ev)\<^sup>*\<^sup>* ds0 ds" "w \<notin> cmd_views c"
  shows "auth_GetZone (al_zones L) w n (state_of (auth_HandleCmd L ds c)) = auth_GetZone (al_zones L) w n ds \<and>
    (\<forall>a matchType. auth_GetZone (al_zones L) w n ds = Some (Some (a, matchType)) \<longrightarrow>
       ad_zones (state_of (auth_HandleCmd L ds c)) a = ad_zones ds a)"
proof -
  have wf: "auth_wf L ct ds" by (rule reached_wf [OF assms(1-4)])
  note v = HandleCmd_view [OF assms(1) wf assms(5)]
  show ?thesis using same_view_GetZone [OF v] GetZone_at [OF assms(1)] v unfolding same_view_def by blast
qed

section \<open>Zones that could not be loaded\<close>

lemma GetZone_found:
  assumes "zone_trees L ct" "zone_at ct ds v n a" "Name_Equals (al_g53 L) n name"
  shows "auth_GetZone (al_zones L) v name ds = Some (Some (a, ExactMatch))"
proof -
  obtain t where t: "ad_viewZones ds v = Some t" "(n, a) \<in> ct t" using assms(2) by (auto simp: zone_at_def)
  obtain ps where "dt_SearchParents (al_zones L) t name = (Some a # ps, ExactMatch)"
    using tree_Exact [OF zone_treesD(3) [OF assms(1)] t(2) assms(3)] by blast
  then have "dt_Search (al_zones L) t name = (Some a, ExactMatch)"
    using zone_treesD(4) [OF assms(1)] unfolding search_agrees_def by (metis SearchResult.distinct(3) fst_conv list.sel(1) prod.collapse snd_conv)
  then show ?thesis using t(1) by (simp add: auth_GetZone_def)
qed

lemma loadZone_nothing:
  assumes "zone_tree_laws G Z" "parseZoneContent parse content = []"
  shows "loadZone G R Z parse origin content = Some (NewDynamicZone Z origin)"
proof -
  have "mz_validate Z (newMemoryZone Z origin) = Some ErrShortOfSOA"
    by (simp add: mz_validate_def origin_data_def newMemoryZone_def newWithDomains_data [OF assms(1)] zone_treeD(1) [OF assms(1)])
  then show ?thesis
    by (simp add: loadZone_def assms(2) dz_Load_def NewDynamicZone_def newMemoryZone_def newWithDomains_def)
qed

text \<open>
  C36. A zone that could not be loaded is a trap: adding a zone with a content of which no line can be read
  is reported as a success; adding a record to it then panics with the zone locked, and every later
  command that adds records to the zone waits for good.
\<close>

theorem unreadable_zone_locks:
  assumes L: "zone_trees L ct" and v: "ad_viewZones ds v = Some u" "absent (al_g53 L) (ct u) origin"
    and zone: "NameFromString (al_g53 L) name = Inr origin" "content \<noteq> []" "parseZoneContent (ae_RRsetFromString (al_env L)) content = []"
    and rr: "collect_rrs L ''add'' CLASS_IN rrs [] None = Inr (v, Some origin, [rrset])" "rr_Class rrset = CLASS_IN" "rr_Type rrset \<noteq> RR_SOA"
      "\<not> Name_IsWildCard (al_g53 L) (rr_Name rrset)" "Name_IsSubDomain (al_g53 L) (rr_Name rrset) origin"
      "zt_Insert (al_nodes L) (mz_domains (mz_clone (al_nodes L) (newMemoryZone (al_nodes L) origin))) (rr_Name rrset) = Inr t"
  shows "\<exists>ds1 ds2. auth_HandleCmd L ds (AddAuthZone v name [] content) = ZDone ds1 None \<and>
    auth_HandleCmd L ds1 (AddAuthRrs rrs) = ZPanic ds2 \<and>
    (\<forall>rrs' rs. collect_rrs L ''add'' CLASS_IN rrs' [] None = Inr (v, Some origin, rs) \<longrightarrow> (\<exists>s. auth_HandleCmd L ds2 (AddAuthRrs rrs') = ZBlocked s))"
proof -
  let ?dz = "NewDynamicZone (al_nodes L) origin" let ?a = "ad_next ds"
  obtain u' where u': "dt_Insert (al_zones L) u origin ?a = Inr u'" "ct u' = insert (origin, ?a) (ct u)"
    using tree_Insert [OF zone_treesD(3) [OF L] v(2)] by blast
  let ?ds1 = "ds\<lparr>ad_viewZones := (ad_viewZones ds)(v \<mapsto> u'), ad_zones := (ad_zones ds)(?a \<mapsto> ?dz), ad_next := Suc ?a\<rparr>"
  let ?ds2 = "?ds1\<lparr>ad_zones := (ad_zones ?ds1)(?a \<mapsto> ?dz\<lparr>dz_lock := Taken\<rparr>)\<rparr>"
  have 1: "auth_HandleCmd L ds (AddAuthZone v name [] content) = ZDone ?ds1 None"
    using v(1) zone u'(1) loadZone_nothing [OF zone_treesD(2) [OF L] zone(3)]
    by (simp add: addAuthZone_def with_name_def loadZoneData_def new_zone_def)
  have "zone_at ct ?ds1 v origin ?a" "zone_at ct ?ds2 v origin ?a" using u'(2) by (simp_all add: zone_at_def)
  then have g: "auth_GetZone (al_zones L) v origin ?ds1 = Some (Some (?a, ExactMatch))" "auth_GetZone (al_zones L) v origin ?ds2 = Some (Some (?a, ExactMatch))"
    using GetZone_found [OF L _ Name_Equals_refl [OF zone_treesD(1) [OF L]]] by blast+
  have "dz_update (al_g53 L) (al_rrset L) (al_nodes L) [rrset] ?dz = ZPanic (?dz\<lparr>dz_lock := Taken\<rparr>)"
    by (rule empty_zone_update_panics [OF zone_treesD(2) [OF L] rr(2-6)])
  then have 2: "auth_HandleCmd L ?ds1 (AddAuthRrs rrs) = ZPanic ?ds2"
    using g(1) by (simp add: addAuthRrs_def change_rrs_def rr(1) handleDynamicRRsets_def getUpdator_def at_zone_def NewDynamicZone_def GetUpdator_def)
  have "\<exists>s. auth_HandleCmd L ?ds2 (AddAuthRrs rrs') = ZBlocked s" if "collect_rrs L ''add'' CLASS_IN rrs' [] None = Inr (v, Some origin, rs)" for rrs' rs
    using g(2) by (simp add: addAuthRrs_def change_rrs_def that handleDynamicRRsets_def getUpdator_def at_zone_def)
  then show ?thesis using 1 2 by blast
qed

section \<open>Examples\<close>

lemma demo_trees: "zone_trees demo_libs list_content"
proof -
  have "list_content t' \<subseteq> insert (n, a) (list_content t)" if "dt_Insert list_domaintree t n a = Inr t'" for t n t' and a :: nat
    using that by (auto simp: list_domaintree_def list_content_def split: if_splits)
  then show ?thesis
    by (simp add: zone_trees_def demo_libs_simps ref_name_laws ref_tree_laws list_domaintree_laws list_search_agrees)
qed

definition demo_xfr :: "string list xfr_env" where
  "demo_xfr = \<lparr>xe_CompareSerial = (\<lambda>a b. if a = b then 0 else if a < b then -1 else 1), xe_MakeAXFR = (\<lambda>n. MakeQuery ref_g53 n RR_AXFR),
     xe_MakeIXFR = (\<lambda>n r. MakeQuery ref_g53 n RR_IXFR), xe_exchange = (\<lambda>m q. Inl ''refused'')\<rparr>"

definition demo_new :: "((string list \<times> nat) list, ref_tree, string list) AuthDataSource" where
  "demo_new = \<lparr>ad_viewZones = (\<lambda>v. if v \<in> {''default'', ''lan''} then Some [] else None), ad_zones = Map.empty, ad_next = 0\<rparr>"

definition demo_add :: "view \<Rightarrow> auth_cmd" where
  "demo_add v = AddAuthZone v ''a.com'' [] (''soa'' @ [CHR 0x0A] @ ''ns'')"

definition demo_service :: "((string list \<times> nat) list, ref_tree, string list) AuthDataSource" where
  "demo_service = state_of (auth_HandleCmd demo_libs (state_of (auth_HandleCmd demo_libs demo_new (demo_add ''default''))) (demo_add ''lan''))"

lemma demo_NewAuth: "NewAuth demo_libs [''default'', ''lan''] [] = Some demo_new"
  by (simp add: NewAuth_def auth_ReloadConfig_def demo_new_def demo_libs_simps list_domaintree_def fun_eq_iff)

lemma demo_reached: "(auth_step demo_libs demo_xfr ref_engine)\<^sup>*\<^sup>* demo_new demo_service"
  unfolding demo_service_def by (rule rtranclp_trans [OF r_into_rtranclp r_into_rtranclp]) (rule auth_step.command)+

lemma demo_service_zones:
  "auth_GetZone list_domaintree ''default'' [''a'', ''com''] demo_service = Some (Some (0, ExactMatch))"
  "auth_GetZone list_domaintree ''lan'' [''a'', ''com''] demo_service = Some (Some (1, ExactMatch))"
  "map_option (\<lambda>dz. mz_isEmpty ref_nodes (dz_zone dz)) (ad_zones demo_service 0) = Some False"
  by code_simp+

theorem service_well_formed_witness:
  "\<exists>dz d. ad_zones demo_service 0 = Some dz \<and> origin_data ref_nodes (dz_zone dz) = Some d \<and> map_of d RR_SOA \<noteq> None \<and> map_of d RR_NS \<noteq> None"
proof -
  obtain dz where dz: "ad_zones demo_service 0 = Some dz"
    "dz_zone dz = newMemoryZone ref_nodes (mz_origin (dz_zone dz)) \<or>
      (\<exists>d. origin_data ref_nodes (dz_zone dz) = Some d \<and> map_of d RR_SOA \<noteq> None \<and> map_of d RR_NS \<noteq> None)"
    using service_well_formed [OF demo_trees ref_engine_laws demo_NewAuth demo_reached demo_service_zones(1) [folded demo_libs_simps(2)]]
    unfolding demo_libs_simps by blast
  have "mz_isEmpty ref_nodes (newMemoryZone ref_nodes n)" for n
    by (simp add: mz_isEmpty_def origin_data_def newMemoryZone_def newWithDomains_data [OF ref_tree_laws] zone_treeD(1) [OF ref_tree_laws])
  then have "dz_zone dz \<noteq> newMemoryZone ref_nodes (mz_origin (dz_zone dz))" using demo_service_zones(3) dz(1) by (metis option.inject option.simps(9))
  then show ?thesis using dz by blast
qed

theorem commands_stay_in_views_witness:
  "auth_GetZone list_domaintree ''lan'' [''a'', ''com''] (state_of (auth_HandleCmd demo_libs demo_service (DeleteAuthZone ''default'' ''a.com''))) = Some (Some (1, ExactMatch)) \<and>
   ad_zones (state_of (auth_HandleCmd demo_libs demo_service (DeleteAuthZone ''default'' ''a.com''))) 1 = ad_zones demo_service 1"
  using commands_stay_in_views [OF demo_trees ref_engine_laws demo_NewAuth demo_reached, of "''lan''" "DeleteAuthZone ''default'' ''a.com''" "[''a'', ''com'']"]
    demo_service_zones(2) by (simp add: demo_libs_simps)

definition demo_rr :: AuthRR where
  "demo_rr = \<lparr>arr_View = ''default'', arr_Zone = ''a.com'', arr_Name = ''w.a.com'', arr_Ttl = ''60'', arr_Type = ''A'', arr_Rdata = ''192.0.2.9''\<rparr>"

lemma demo_collect:
  "collect_rrs demo_libs ''add'' CLASS_IN [demo_rr] [] None =
     Inr (''default'', Some [''a'', ''com''], [demo_set [''w'', ''a'', ''com''] RR_A (RdA [192, 0, 2, 9])])"
  "NameFromString ref_g53 ''a.com'' = Inr [''a'', ''com'']" "parseZoneContent (ae_RRsetFromString (al_env demo_libs)) ''bad'' = []"
  by code_simp+

theorem unreadable_zone_locks_witness:
  "\<exists>ds1 ds2 s. auth_HandleCmd demo_libs demo_new (AddAuthZone ''default'' ''a.com'' [] ''bad'') = ZDone ds1 None \<and>
    auth_HandleCmd demo_libs ds1 (AddAuthRrs [demo_rr]) = ZPanic ds2 \<and> auth_HandleCmd demo_libs ds2 (AddAuthRrs [demo_rr]) = ZBlocked s"
proof -
  have "ad_viewZones demo_new ''default'' = Some []" "absent ref_g53 (list_content ([] :: (string list \<times> nat) list)) n" for n
    by (simp_all add: demo_new_def absent_def list_content_def)
  from unreadable_zone_locks [OF demo_trees this [folded demo_libs_simps(1)] demo_collect(2) [folded demo_libs_simps(1)] _ demo_collect(3,1)]
  have "\<exists>ds1 ds2. auth_HandleCmd demo_libs demo_new (AddAuthZone ''default'' ''a.com'' [] ''bad'') = ZDone ds1 None \<and>
    auth_HandleCmd demo_libs ds1 (AddAuthRrs [demo_rr]) = ZPanic ds2 \<and>
    (\<forall>rrs' rs. collect_rrs demo_libs ''add'' CLASS_IN rrs' [] None = Inr (''default'', Some [''a'', ''com''], rs) \<longrightarrow>
       (\<exists>s. auth_HandleCmd demo_libs ds2 (AddAuthRrs rrs') = ZBlocked s))"
    by (simp add: demo_libs_simps demo_set_def demo_names rr_types ref_nodes_simps del: collect_rrs.simps auth_HandleCmd.simps)
  then show ?thesis using demo_collect(1) by blast
qed

end
