(* ===== verification/Spec2Isabelle.thy ===== *)
theory Spec2Isabelle
  imports Dns64 View_Selector Response_Transfer Resolver Forwarder Stub_Zone Server Recursor Auth_Service
begin

text \<open>
  A verification library for vanguard, a DNS server written in Go (\<open>src/\<close>).

  \<^bold>\<open>The program.\<close> A query enters through \<open>server/\<close> and goes through a chain of handlers (\<open>core/\<close>): the
  choice of a view for the client (\<open>viewselector/\<close>, by the lists of \<open>acl/\<close>), the filters (\<open>filter/\<close>), the
  handlers that change the response on its way back (\<open>responsetransfer/\<close>), \<open>dns64/\<close>, the answer cache
  (\<open>cache/\<close>) and the resolver (\<open>resolver/\<close>). The resolver is a chain of its own: local policies
  (\<open>resolver/fakeauth\<close>, \<open>localdata/\<close>), authoritative zones (\<open>resolver/auth\<close>), stub zones (\<open>resolver/stub\<close>),
  forwarding by zones (\<open>resolver/forwarder\<close>) and the recursor (\<open>resolver/recursor\<close>), wrapped by the handler that follows
  aliases and by the one that shares equal queries. A query that fails is sent to a server of the view
  (\<open>failforwarder/\<close>). Notifications of masters start zone transfers (\<open>xfr/\<close>). Commands reach every
  component through \<open>httpcmd/\<close>.

  \<^bold>\<open>How the code is modelled.\<close> A struct is a record, an enumeration a datatype, a machine integer a word of
  its width, a map a partial function. A panic is \<open>None\<close> of \<open>may_panic\<close>, an error the left side of a sum. A handler
  maps a world and a client to the next world and the client; \<open>PassToNext\<close> calls the rest of the chain. A command
  handler returns the state and an outcome, which says whether it panicked. Where pointers are shared,
  the objects are in a heap and the state holds addresses: lists of \<open>container/list\<close>, cached messages,
  policies, servers, RRsets of zones, and zones. Where a lock is held over a panic or a wait, the lock is
  part of the state, and an operation ends, panics or waits (\<open>zres\<close>). Goroutines are the rules of a step
  relation. Time and random numbers are arguments. Code outside the repository (the DNS library \<open>g53\<close>, the
  library \<open>cement\<close>, sockets, files) is a parameter; what is relied on of it is a named hypothesis such as \<open>name_laws\<close>,
  \<open>message_laws\<close>, \<open>domaintree_laws\<close>, \<open>zone_tree_laws\<close>, \<open>rrset_laws\<close> or \<open>fsm_laws\<close>, and a reference instance
  (\<open>ref_g53\<close>, \<open>list_domaintree\<close>, \<open>ref_nodes\<close>, \<open>ref_rrset\<close>, \<open>ref_engine\<close>) shows that it can hold and serves the examples.

  \<^bold>\<open>Foundations.\<close>
  \<^item> \<open>Vg_Prelude\<close>: types, collections of rules, lemmas on lists, options and maps.
  \<^item> \<open>Go_Std\<close>, \<open>Go_List\<close>, \<open>Go_Net\<close>, \<open>Go_Time\<close>: what is used of \<open>strings\<close>, \<open>strconv\<close>, \<open>sort\<close>, \<open>container/list\<close>, \<open>net\<close> and \<open>time\<close>.
  \<^item> \<open>Cement\<close>, \<open>Dns\<close>, \<open>Domain_Tree\<close>: the interfaces of the libraries, their laws and reference instances.
  \<^item> \<open>Lru\<close>: the contract of a bounded store, \<open>lru_store\<close>, with its lemmas.

  \<^bold>\<open>Components.\<close>
  \<^item> \<open>Acl_Schedule\<close>, \<open>Acl\<close> (\<open>acl/\<close>): ranges of time include an instant exactly if it is in the cyclic
    interval; the manager with its scheduler refines the configured lists.
  \<^item> \<open>Httpcmd\<close> (\<open>httpcmd/\<close>): tasks and their outcome; the contract \<open>command_handler\<close> of the components.
  \<^item> \<open>Rate_Limit\<close> (\<open>filter/ratelimit\<close>): the throttlers over a bounded store of records (\<open>access_record\<close>), with the bound on
    what passes in a second, at the width of the code's integers.
  \<^item> \<open>Core\<close> (\<open>core/\<close>, \<open>filter/\<close>): clients, keys, the chain, the filters.
  \<^item> \<open>Message_Cache\<close> (\<open>cache/\<close>): entries, capped lifetimes, least recently used order, prefetching, commands, and
    which messages are shared with clients. Soundness and retention of answers hold for every history of
    operations, with the changes that later handlers make in a shared message among them.
  \<^item> \<open>View_Selector\<close> (\<open>viewselector/\<close>): the selectors (\<open>view_selector\<close>), the numbering of views, priorities.
  \<^item> \<open>Dns64\<close>, \<open>Response_Transfer\<close>, \<open>Local_Data\<close>: synthesis of addresses, which embeds every address in every
    prefix; filter, sort list and replacement (\<open>response_transfer\<close>), with the order a sort list gives;
    policies and the answers they give.
  \<^item> \<open>Util\<close>, \<open>Upstream\<close> (\<open>util/\<close>, \<open>resolver/querysource\<close>, \<open>failforwarder/\<close>): classification of responses, the exchange
    with a server, settings of the views (\<open>view_settings\<close>).
  \<^item> \<open>Resolver\<close> (\<open>resolver/\<close>): the chain of resolvers, aliases, shared queries. Following aliases is total; the number
    of resolutions is bounded by the limit of the code.
  \<^item> \<open>Forwarder_Group\<close>, \<open>Forwarder\<close>, \<open>Stub_Zone\<close>: servers with their status, policies of choice (\<open>fwder_selector\<close>), probing,
    zones that are forwarded, stub zones.
  \<^item> \<open>Nsas\<close>, \<open>Recursor\<close> (\<open>resolver/recursor\<close>): what is known of name servers, and the iteration. The iteration has the depth
    limit of the code as its measure; no fuel is chosen by hand.
  \<^item> \<open>Server\<close> (\<open>server/\<close>): connections, buffers and workers as a step relation.
  \<^item> \<open>Memory_Zone\<close>, \<open>Dynamic_Zone\<close>, \<open>Zone_Service\<close> (\<open>resolver/auth/zone\<close>, \<open>zoneloader.go\<close>): the data of a zone, updates on a
    copy, searches, loading, with the heap of RRsets and the lock.
  \<^item> \<open>Auth\<close>, \<open>Auth_Query\<close>, \<open>Auth_Service\<close> (\<open>resolver/auth\<close>): the zones of the views, the composition of answers, updates,
    commands and configuration; answers are complete and right for sound zones, the service stays
    well-formed through everything that happens to it, commands stay within their views.
  \<^item> \<open>Xfr\<close>, \<open>Xfr_Service\<close> (\<open>xfr/\<close>): the state machines of transfers over an engine that is a parameter, and the
    notifications that start transfers; what an incremental deletion leaves in the zone.

  \<^bold>\<open>Errors.\<close> Some properties state what the code does where it does not do what it means to; the text of
  each says so. They are stated like the others, for every input of the kind they describe.

  \<^bold>\<open>Not modelled.\<close> The output of logs and metrics (\<open>logger/\<close>, \<open>metrics/\<close>) and sockets, files, HTTP and YAML, which
  are input and output through libraries; the command line; \<open>k8s/\<close> and \<open>querylog/\<close>; test helpers. The
  cleaning of replaced zones runs beside all other operations and changes nothing they see.
  Operations on one zone do not interleave except through its lock.
\<close>

end
